(* ===== verification/SG_Prelude.thy ===== *)
theory SG_Prelude
  imports Complex_Main
begin

text \<open>
  Shared vocabulary of the development: the error sum and its sequencing, the JavaScript
  values the source computes with (\<open>number\<close> with its rounding, strings with \<open>trim\<close>), and the
  list and table operations that several components use. Every component theory imports
  this one.
\<close>

named_theorems guards \<open>success characterisations of the fallible operations\<close>
named_theorems table_simps \<open>how table updates and lookups interact\<close>

section \<open>Errors as values\<close>

text \<open>
  A function of the source that may throw returns \<open>'e + 'a\<close>: \<open>Inl\<close> is the thrown
  error, \<open>Inr\<close> the returned value. \<open>ebind m k\<close> runs \<open>k\<close> on the value and lets an error
  pass, as a statement after a call does. Inside a database transaction an error also rolls
  the state back, so a transaction returns its new state only in \<open>Inr\<close>.
\<close>

fun ebind :: "'e + 'a \<Rightarrow> ('a \<Rightarrow> 'e + 'b) \<Rightarrow> 'e + 'b" where
  "ebind (Inl e) k = Inl e"
| "ebind (Inr x) k = k x"

lemma ebind_Inr [guards]: "ebind m k = Inr y \<longleftrightarrow> (\<exists>x. m = Inr x \<and> k x = Inr y)"
  by (cases m) auto

lemma ebind_Inl: "ebind m k = Inl e \<longleftrightarrow> m = Inl e \<or> (\<exists>x. m = Inr x \<and> k x = Inl e)"
  by (cases m) auto

text \<open>For evaluation: the continuation is left alone until its argument is a value.\<close>

lemma ebind_weak_cong: "x = y \<Longrightarrow> ebind x f = ebind y f" by simp

definition emap :: "('e \<Rightarrow> 'f) \<Rightarrow> 'e + 'a \<Rightarrow> 'f + 'a" where
  "emap f m = (case m of Inl e \<Rightarrow> Inl (f e) | Inr x \<Rightarrow> Inr x)"

lemma emap_simps [simp]: "emap f (Inl e) = Inl (f e)" "emap f (Inr x) = Inr x"
  by (simp_all add: emap_def)

lemma emap_Inr [guards]: "emap f m = Inr x \<longleftrightarrow> m = Inr x"
  by (cases m) auto

lemma emap_Inl: "emap f m = Inl e \<longleftrightarrow> (\<exists>e'. m = Inl e' \<and> e = f e')"
  by (cases m) auto

text \<open>A loop whose body may throw: the accumulator after the whole list, or the first error.\<close>

fun efold :: "('s \<Rightarrow> 'a \<Rightarrow> 'e + 's) \<Rightarrow> 's \<Rightarrow> 'a list \<Rightarrow> 'e + 's" where
  "efold f s [] = Inr s"
| "efold f s (x # xs) = ebind (f s x) (\<lambda>s'. efold f s' xs)"

lemma efold_invariant:
  assumes "efold f s xs = Inr t" and "P s"
    and "\<And>u x v. x \<in> set xs \<Longrightarrow> P u \<Longrightarrow> f u x = Inr v \<Longrightarrow> P v"
  shows "P t"
  using assms by (induction xs arbitrary: s) (auto simp: ebind_Inr)

lemma map_sum_InrD: "map_sum id f x = Inr y \<Longrightarrow> \<exists>z. x = Inr z \<and> f z = y"
  by (cases x) auto

lemma if_Inr [guards]: "(if b then Inl e else m) = Inr x \<longleftrightarrow> \<not> b \<and> m = Inr x"
  by simp

lemma option_Inr [guards]:
  "(case x of None \<Rightarrow> Inl e | Some y \<Rightarrow> f y) = Inr z \<longleftrightarrow> (\<exists>y. x = Some y \<and> f y = Inr z)"
  by (cases x) auto

lemma prod_Inr [guards]: "(case x of (a, b) \<Rightarrow> f a b) = Inr z \<longleftrightarrow> (\<exists>a b. x = (a, b) \<and> f a b = Inr z)"
  by (cases x) auto

lemma ex_nat_split: "(\<exists>k. P k) \<longleftrightarrow> P 0 \<or> (\<exists>k. P (Suc k))"
  by (metis not0_implies_Suc)

section \<open>JavaScript numbers\<close>

text \<open>
  A JavaScript \<open>number\<close> is an IEEE double. \<open>JInt n\<close> is an integral one (what
  \<open>Number.isInteger\<close> accepts), \<open>JFrac q\<close> a finite non-integral one, and the other three
  are the infinities and NaN. A \<open>bigint\<close> of the source is an \<open>int\<close>.
\<close>

datatype jsnum = JInt (the_int: int) | JFrac rat | JInf | JNegInf | JNaN

definition MAX_SAFE_INTEGER :: int where
  "MAX_SAFE_INTEGER = 9007199254740991"

fun isInteger :: "jsnum \<Rightarrow> bool" where
  "isInteger (JInt n) = True"
| "isInteger _ = False"

fun isSafeInteger :: "jsnum \<Rightarrow> bool" where
  "isSafeInteger (JInt n) = (\<bar>n\<bar> \<le> MAX_SAFE_INTEGER)"
| "isSafeInteger _ = False"

fun isFinite :: "jsnum \<Rightarrow> bool" where
  "isFinite (JInt n) = True"
| "isFinite (JFrac q) = True"
| "isFinite _ = False"

fun js_less :: "jsnum \<Rightarrow> jsnum \<Rightarrow> bool" where
  "js_less JNaN _ = False"
| "js_less _ JNaN = False"
| "js_less JNegInf y = (y \<noteq> JNegInf)"
| "js_less _ JNegInf = False"
| "js_less JInf _ = False"
| "js_less _ JInf = True"
| "js_less (JInt a) (JInt b) = (a < b)"
| "js_less (JInt a) (JFrac q) = (of_int a < q)"
| "js_less (JFrac p) (JInt b) = (p < of_int b)"
| "js_less (JFrac p) (JFrac q) = (p < q)"

lemma isInteger_iff [guards]: "isInteger x \<longleftrightarrow> (\<exists>n. x = JInt n)"
  by (cases x) auto

lemma isSafeInteger_iff [guards]:
  "isSafeInteger x \<longleftrightarrow> (\<exists>n. x = JInt n \<and> \<bar>n\<bar> \<le> MAX_SAFE_INTEGER)"
  by (cases x) auto

lemma isSafeInteger_isInteger: "isSafeInteger x \<Longrightarrow> isInteger x"
  by (cases x) auto

subsection \<open>Rounding to a double\<close>

text \<open>
  The result of an integer sum or product (and of \<open>Number(bigint)\<close>) is the exact integer
  rounded to 53 significant bits, ties to even, and an infinity beyond the largest double.
\<close>

fun bit_len :: "nat \<Rightarrow> nat" where
  "bit_len n = (if n = 0 then 0 else Suc (bit_len (n div 2)))"

declare bit_len.simps [simp del]

definition round53 :: "nat \<Rightarrow> nat" where
  "round53 n =
     (let s = 2 ^ (bit_len n - 53); m = n div s; r = n mod s
      in if 2 * r < s \<or> (2 * r = s \<and> even m) then m * s else Suc m * s)"

definition double_of_int :: "int \<Rightarrow> jsnum" where
  "double_of_int n =
     (if n \<ge> 2 ^ 1024 - 2 ^ 970 then JInf
      else if n \<le> 2 ^ 970 - 2 ^ 1024 then JNegInf
      else JInt (sgn n * int (round53 (nat \<bar>n\<bar>))))"

lemma bit_len_upper: "n < 2 ^ bit_len n"
proof (induction n rule: bit_len.induct)
  case (1 n)
  show ?case
  proof (cases "n = 0")
    case True
    then show ?thesis by simp
  next
    case False
    with "1.IH" have "n div 2 < 2 ^ bit_len (n div 2)" by simp
    then have "n < 2 * 2 ^ bit_len (n div 2)" by linarith
    with False show ?thesis by (simp add: bit_len.simps [of n])
  qed
qed

lemma bit_len_lower: "n \<noteq> 0 \<Longrightarrow> 2 ^ (bit_len n - 1) \<le> n"
proof (induction n rule: bit_len.induct)
  case (1 n)
  show ?case
  proof (cases "n = 1")
    case True
    then show ?thesis by (simp add: bit_len.simps)
  next
    case False
    with "1.prems" have h: "n div 2 \<noteq> 0" by presburger
    with "1.IH" "1.prems" have ih: "2 ^ (bit_len (n div 2) - 1) \<le> n div 2" by simp
    have pos: "0 < bit_len (n div 2)" using h by (simp add: bit_len.simps [of "n div 2"])
    from ih have "2 * 2 ^ (bit_len (n div 2) - 1) \<le> n" by linarith
    then have "2 ^ bit_len (n div 2) \<le> n"
      using pos by (metis Suc_diff_1 power_Suc)
    with "1.prems" show ?thesis by (simp add: bit_len.simps [of n])
  qed
qed

lemma bit_len_le: "n < 2 ^ k \<Longrightarrow> bit_len n \<le> k"
proof (rule ccontr)
  assume n: "n < 2 ^ k" and "\<not> bit_len n \<le> k"
  then have k: "k \<le> bit_len n - 1" and "n \<noteq> 0"
    by (auto simp: bit_len.simps split: if_splits)
  then have "2 ^ k \<le> n"
    using bit_len_lower [of n] power_increasing [OF k, of "2::nat"] by linarith
  with n show False by simp
qed

lemma round53_exact: "n < 2 ^ 53 \<Longrightarrow> round53 n = n"
  using bit_len_le [of n 53] by (simp add: round53_def)

lemma round53_large:
  assumes "2 ^ 53 \<le> n"
  shows "2 ^ 53 \<le> round53 n"
proof -
  define e where "e = bit_len n - 53"
  have "53 < bit_len n"
  proof (rule ccontr)
    assume "\<not> 53 < bit_len n"
    then have "n < 2 ^ 53"
      using bit_len_upper [of n] power_increasing [of "bit_len n" 53 "2::nat"] by linarith
    with assms show False by simp
  qed
  then have e: "bit_len n - 1 = 52 + e" and "0 < e" by (simp_all add: e_def)
  have "n \<noteq> 0" using assms by (intro notI) simp
  then have "2 ^ 52 * 2 ^ e \<le> n"
    using bit_len_lower [of n] unfolding e power_add by simp
  then have m: "2 ^ 52 \<le> n div 2 ^ e"
    by (simp add: less_eq_div_iff_mult_less_eq)
  have "2 \<le> (2::nat) ^ e" using \<open>0 < e\<close> by (cases e) simp_all
  then have b: "2 ^ 53 \<le> n div 2 ^ e * 2 ^ e"
    using mult_le_mono [OF m, of 2 "2 ^ e"] by simp
  show ?thesis
    using b by (auto simp: round53_def Let_def e_def [symmetric])
qed

lemma double_of_int_exact: "\<bar>n\<bar> \<le> MAX_SAFE_INTEGER \<Longrightarrow> double_of_int n = JInt n"
  by (auto simp: double_of_int_def MAX_SAFE_INTEGER_def round53_exact sgn_mult_abs
      mult_sgn_abs nat_less_iff)

lemma double_of_int_unsafe:
  assumes "MAX_SAFE_INTEGER < n"
  shows "\<not> isSafeInteger (double_of_int n)"
proof -
  have "2 ^ 53 \<le> round53 (nat \<bar>n\<bar>)"
    using assms by (intro round53_large) (simp add: MAX_SAFE_INTEGER_def le_nat_iff)
  then have "(9007199254740992::int) \<le> int (round53 (nat \<bar>n\<bar>))" by simp
  then show ?thesis
    using assms by (simp add: double_of_int_def MAX_SAFE_INTEGER_def)
qed

lemma double_of_int_safe_iff:
  assumes "0 \<le> n"
  shows "isSafeInteger (double_of_int n) \<longleftrightarrow> n \<le> MAX_SAFE_INTEGER"
  using assms double_of_int_exact [of n] double_of_int_unsafe [of n]
  by (cases "n \<le> MAX_SAFE_INTEGER") auto

subsection \<open>Sums and products\<close>

text \<open>
  The sum of two numbers is the exact sum rounded. Integers go through \<open>double_of_int\<close>;
  a sum with a fraction is rounded by \<open>round_rat\<close>: the unit in the last place is the power
  of two that leaves 53 bits (no smaller than \<open>2 ^ -1074\<close>), ties to even.
\<close>

definition pow2 :: "int \<Rightarrow> rat" where
  "pow2 e = (if 0 \<le> e then 2 ^ nat e else 1 / 2 ^ nat (- e))"

definition jsnum_of_rat :: "rat \<Rightarrow> jsnum" where
  "jsnum_of_rat q =
     (if of_int (2 ^ 1024 - 2 ^ 970) \<le> q then JInf
      else if q \<le> - of_int (2 ^ 1024 - 2 ^ 970) then JNegInf
      else if of_int \<lfloor>q\<rfloor> = q then JInt \<lfloor>q\<rfloor> else JFrac q)"

definition round_rat :: "rat \<Rightarrow> jsnum" where
  "round_rat q =
     (if q = 0 then JInt 0
      else let nd = quotient_of \<bar>q\<bar>;
               e0 = int (bit_len (nat (fst nd))) - int (bit_len (nat (snd nd))) - 53;
               e1 = (if 2 ^ 53 \<le> \<bar>q\<bar> / pow2 e0 then e0 + 1 else e0);
               u = pow2 (max e1 (- 1074));
               m = \<lfloor>\<bar>q\<bar> / u\<rfloor>;
               r = \<bar>q\<bar> / u - of_int m;
               m' = (if 2 * r < 1 \<or> (2 * r = 1 \<and> even m) then m else m + 1)
           in jsnum_of_rat (sgn q * of_int m' * u))"

fun js_add :: "jsnum \<Rightarrow> jsnum \<Rightarrow> jsnum" where
  "js_add JNaN _ = JNaN"
| "js_add _ JNaN = JNaN"
| "js_add JInf y = (if y = JNegInf then JNaN else JInf)"
| "js_add x JInf = (if x = JNegInf then JNaN else JInf)"
| "js_add JNegInf _ = JNegInf"
| "js_add _ JNegInf = JNegInf"
| "js_add (JInt a) (JInt b) = double_of_int (a + b)"
| "js_add (JInt a) (JFrac q) = round_rat (of_int a + q)"
| "js_add (JFrac p) (JInt b) = round_rat (p + of_int b)"
| "js_add (JFrac p) (JFrac q) = round_rat (p + q)"

definition js_sum :: "jsnum list \<Rightarrow> jsnum" where
  "js_sum xs = foldl js_add (JInt 0) xs"

lemma foldl_js_add_ints:
  "0 \<le> a \<Longrightarrow> \<forall>n \<in> set ns. 0 \<le> n \<Longrightarrow> a + sum_list ns \<le> MAX_SAFE_INTEGER \<Longrightarrow>
   foldl js_add (JInt a) (map JInt ns) = JInt (a + sum_list ns)"
proof (induction ns arbitrary: a)
  case Nil
  then show ?case by simp
next
  case (Cons n ns)
  have "0 \<le> sum_list ns" using Cons.prems by (intro sum_list_nonneg) simp
  then have "js_add (JInt a) (JInt n) = JInt (a + n)"
    using Cons.prems by (simp add: double_of_int_exact)
  with Cons show ?case by (simp add: add.assoc)
qed

lemma js_sum_ints:
  "\<forall>n \<in> set ns. 0 \<le> n \<Longrightarrow> sum_list ns \<le> MAX_SAFE_INTEGER \<Longrightarrow>
   js_sum (map JInt ns) = JInt (sum_list ns)"
  using foldl_js_add_ints [of 0 ns] by (simp add: js_sum_def)

text \<open>What \<open>??\<close> does: the default where the value is \<open>undefined\<close> (or null).\<close>

definition js_default :: "'a option \<Rightarrow> 'a \<Rightarrow> 'a" where
  "js_default v d = (case v of None \<Rightarrow> d | Some x \<Rightarrow> x)"

lemma js_default_simps [simp]: "js_default None d = d" "js_default (Some x) d = x"
  by (simp_all add: js_default_def)

text \<open>A property that may be absent, null or present.\<close>

datatype 'a js_opt = Undef | Null | Val 'a

text \<open>The difference of two integral numbers, rounded like a sum.\<close>

fun js_sub_int :: "jsnum \<Rightarrow> jsnum \<Rightarrow> jsnum" where
  "js_sub_int (JInt a) (JInt b) = double_of_int (a - b)"
| "js_sub_int _ _ = JNaN"

lemma double_of_int_big:
  assumes "MAX_SAFE_INTEGER < n"
  shows "double_of_int n = JInf \<or> (\<exists>r. double_of_int n = JInt r \<and> MAX_SAFE_INTEGER < r)"
proof -
  have "2 ^ 53 \<le> round53 (nat \<bar>n\<bar>)"
    using assms by (intro round53_large) (simp add: MAX_SAFE_INTEGER_def le_nat_iff)
  then have "(9007199254740992::int) \<le> int (round53 (nat \<bar>n\<bar>))" by simp
  then show ?thesis
    using assms by (simp add: double_of_int_def MAX_SAFE_INTEGER_def)
qed

lemma round53_pos:
  assumes "0 < n"
  shows "0 < round53 n"
proof (cases "n < 2 ^ 53")
  case True
  then show ?thesis using round53_exact [of n] assms by simp
next
  case False
  then have "2 ^ 53 \<le> round53 n" by (intro round53_large) simp
  then show ?thesis by (rule less_le_trans [rotated]) simp
qed

lemma double_of_int_neg:
  "n < 0 \<Longrightarrow> double_of_int n = JNegInf \<or> (\<exists>m. double_of_int n = JInt m \<and> m < 0)"
  using round53_pos [of "nat (- n)"] by (simp add: double_of_int_def)

text \<open>
  A sum or difference whose exact value is non-negative is a safe integer exactly when that
  value is, and then it is exact: the overflow guards of the source lose nothing to rounding.
\<close>

lemma js_add_safe:
  assumes "0 \<le> a + b"
  shows "isSafeInteger (js_add (JInt a) (JInt b)) \<longleftrightarrow> a + b \<le> MAX_SAFE_INTEGER"
  using double_of_int_safe_iff [OF assms] by simp

lemma js_add_exact:
  "0 \<le> a + b \<Longrightarrow> a + b \<le> MAX_SAFE_INTEGER \<Longrightarrow> js_add (JInt a) (JInt b) = JInt (a + b)"
  by (simp add: double_of_int_exact)

text \<open>
  A contract several rule tables share: a rule is effective at some instants, and an overlap
  check that admits a set of rules pairwise. If the check misses no common instant, at most
  one rule of an admitted set is effective at any instant.
\<close>

locale exclusive_rules =
  fixes eff :: "'r \<Rightarrow> int \<Rightarrow> bool"
    and overlap :: "'r \<Rightarrow> 'r \<Rightarrow> bool"
    and wf :: "'r \<Rightarrow> bool"
  assumes overlap_complete: "wf a \<Longrightarrow> wf b \<Longrightarrow> eff a t \<Longrightarrow> eff b t \<Longrightarrow> overlap a b"
begin

lemma effective_at_most_one:
  "\<forall>r \<in> set rs. wf r \<Longrightarrow> sorted_wrt (\<lambda>a b. \<not> overlap a b) rs \<Longrightarrow>
   length (filter (\<lambda>r. eff r t) rs) \<le> 1"
proof (induction rs)
  case Nil
  then show ?case by simp
next
  case (Cons r rs)
  then have "eff r t \<Longrightarrow> filter (\<lambda>r. eff r t) rs = []"
    using overlap_complete by (auto simp: filter_empty_conv)
  with Cons show ?case by (cases "eff r t") simp_all
qed

lemma effective_select:
  assumes "\<forall>r \<in> set rs. wf r" "sorted_wrt (\<lambda>a b. \<not> overlap a b) rs"
    and "r \<in> set rs" "eff r t"
  shows "filter (\<lambda>r. eff r t) rs = [r]"
proof -
  have "r \<in> set (filter (\<lambda>r. eff r t) rs)" using assms(3,4) by simp
  with effective_at_most_one [OF assms(1,2), of t] show ?thesis
    by (cases "filter (\<lambda>r. eff r t) rs") auto
qed

end

text \<open>
  Another contract several tables share: an insertion identified by a key. The first one
  appends its row; every later one with the same key answers with that row and changes
  nothing, so a retried request never doubles its effect. Rows without a key are left alone.
\<close>

definition keys_of :: "('r \<Rightarrow> 'k option) \<Rightarrow> 'r list \<Rightarrow> 'k list" where
  "keys_of rkey rows = List.map_filter rkey rows"

lemma keys_of_append [simp]: "keys_of rkey (xs @ ys) = keys_of rkey xs @ keys_of rkey ys"
  by (simp add: keys_of_def List.map_filter_def)

lemma keys_of_single [simp]: "rkey r = Some k \<Longrightarrow> keys_of rkey [r] = [k]"
  by (simp add: keys_of_def List.map_filter_def)

lemma keys_of_None [simp]: "rkey r = None \<Longrightarrow> keys_of rkey [r] = []"
  by (simp add: keys_of_def List.map_filter_def)

lemma set_keys_of: "set (keys_of rkey rows) = {k. \<exists>r \<in> set rows. rkey r = Some k}"
  by (force simp: keys_of_def List.map_filter_def)

lemma keys_of_map [simp]: "(\<And>r. rkey (f r) = rkey r) \<Longrightarrow> keys_of rkey (map f rows) = keys_of rkey rows"
  by (induction rows) (simp_all add: keys_of_def List.map_filter_def)

lemma keys_of_unique:
  "distinct (keys_of rkey rows) \<Longrightarrow> r \<in> set rows \<Longrightarrow> r' \<in> set rows \<Longrightarrow>
   rkey r = Some k \<Longrightarrow> rkey r' = Some k \<Longrightarrow> r = r'"
proof (induction rows)
  case (Cons x rows)
  have no: "rkey x = Some k \<Longrightarrow> y \<in> set rows \<Longrightarrow> rkey y \<noteq> Some k" for y
  proof
    assume x: "rkey x = Some k" and y: "y \<in> set rows" "rkey y = Some k"
    then have "k \<in> set (keys_of rkey rows)" by (auto simp: set_keys_of)
    with Cons.prems(1) x keys_of_append [of rkey "[x]" rows] show False by simp
  qed
  have "distinct (keys_of rkey rows)"
    using Cons.prems(1) keys_of_append [of rkey "[x]" rows] by simp
  with Cons no show ?case by auto
qed simp

locale idempotent_insert =
  fixes ins :: "'a \<Rightarrow> 's \<Rightarrow> 'e + 'r \<times> 's"
    and rows :: "'s \<Rightarrow> 'r list"
    and rkey :: "'r \<Rightarrow> 'k option"
    and ikey :: "'a \<Rightarrow> 'k"
    and valid :: "'a \<Rightarrow> 's \<Rightarrow> bool"
  assumes ins_ok: "ins a s = Inr (r, s') \<Longrightarrow>
      valid a s \<and> rkey r = Some (ikey a) \<and>
      (if ikey a \<in> set (keys_of rkey (rows s)) then r \<in> set (rows s) \<and> s' = s
       else rows s' = rows s @ [r])"
    and ins_replay: "valid a s \<Longrightarrow> distinct (keys_of rkey (rows s)) \<Longrightarrow> r \<in> set (rows s) \<Longrightarrow>
      rkey r = Some (ikey a) \<Longrightarrow> ins a s = Inr (r, s)"
begin

lemma ins_distinct:
  assumes "distinct (keys_of rkey (rows s))" "ins a s = Inr (r, s')"
  shows "distinct (keys_of rkey (rows s'))"
  using assms ins_ok [OF assms(2)] by (auto split: if_splits)

lemma ins_member: "ins a s = Inr (r, s') \<Longrightarrow> r \<in> set (rows s')"
  using ins_ok by (fastforce split: if_splits)

lemma ins_keeps: "ins a s = Inr (r, s') \<Longrightarrow> set (rows s) \<subseteq> set (rows s')"
  using ins_ok by (fastforce split: if_splits)

lemma ins_twice:
  assumes d: "distinct (keys_of rkey (rows s))" and a: "ins a s = Inr (r, s')"
    and b: "valid b s'" "ikey b = ikey a"
  shows "ins b s' = Inr (r, s')"
proof (rule ins_replay [OF b(1) ins_distinct [OF d a] ins_member [OF a]])
  show "rkey r = Some (ikey b)" using ins_ok [OF a] b(2) by simp
qed

lemma ins_first_wins:
  assumes d: "distinct (keys_of rkey (rows s))" and a: "ins a s = Inr (r, s')"
    and r0: "r0 \<in> set (rows s)" "rkey r0 = Some (ikey a)"
  shows "r = r0 \<and> s' = s"
proof -
  have "ikey a \<in> set (keys_of rkey (rows s))" using r0 by (auto simp: set_keys_of)
  with ins_ok [OF a] have "r \<in> set (rows s)" "s' = s" "rkey r = Some (ikey a)" by auto
  with keys_of_unique [OF d _ r0(1) _ r0(2)] show ?thesis by blast
qed

end

text \<open>
  The contract of a service: its calls run as transactions on a state, and what a call that
  succeeds does, seen through a view of the state, is a step of an abstract machine that keeps
  an invariant. Then every sequence of calls is a path of the machine.
\<close>

definition run_calls :: "('c \<Rightarrow> 's \<Rightarrow> 'e + 's) \<Rightarrow> 'c list \<Rightarrow> 's \<Rightarrow> 'e + 's" where
  "run_calls run cs s = efold (\<lambda>s c. run c s) s cs"

lemma run_calls_simps [simp]:
  "run_calls run [] s = Inr s"
  "run_calls run (c # cs) s = ebind (run c s) (\<lambda>s'. run_calls run cs s')"
  by (simp_all add: run_calls_def)

locale refined_service =
  fixes run :: "'c \<Rightarrow> 's \<Rightarrow> 'e + 's"
    and view :: "'s \<Rightarrow> 'b"
    and spec :: "'b \<Rightarrow> 'b \<Rightarrow> bool"
    and inv :: "'b \<Rightarrow> bool"
  assumes refines: "inv (view s) \<Longrightarrow> run c s = Inr s' \<Longrightarrow> spec (view s) (view s')"
    and keeps: "spec b b' \<Longrightarrow> inv b \<Longrightarrow> inv b'"
begin

lemma calls_path:
  "run_calls run cs s = Inr s' \<Longrightarrow> inv (view s) \<Longrightarrow> spec\<^sup>*\<^sup>* (view s) (view s') \<and> inv (view s')"
proof (induction cs arbitrary: s)
  case (Cons c cs)
  then obtain s1 where s1: "run c s = Inr s1" "run_calls run cs s1 = Inr s'" by (auto simp: ebind_Inr)
  have "spec (view s) (view s1)" by (rule refines [OF Cons.prems(2) s1(1)])
  with Cons.IH [OF s1(2) keeps [OF this Cons.prems(2)]] show ?case
    by (blast intro: converse_rtranclp_into_rtranclp)
qed simp

lemma calls_inv: "run_calls run cs s = Inr s' \<Longrightarrow> inv (view s) \<Longrightarrow> inv (view s')"
  using calls_path by blast

end

end
