(* ===== verification/SG_Text.thy ===== *)
theory SG_Text
  imports SG_Prelude "HOL-Library.Char_ord" "HOL-Library.List_Lexorder"
begin

text \<open>
  JavaScript strings and timestamps. A string is a list of code units; the model has the
  units below 256 (Latin-1), which is what \<open>char\<close> holds. \<open>trim\<close>, \<open>toUpperCase\<close>, the
  decimal digits of a \<open>bigint\<close> and the string order are written out here.
\<close>

section \<open>White space and case\<close>

definition is_js_space :: "char \<Rightarrow> bool" where
  "is_js_space c \<longleftrightarrow> of_char c \<in> {9, 10, 11, 12, 13, 32, 160 :: nat}"

definition js_trim :: "string \<Rightarrow> string" where
  "js_trim s = rev (dropWhile is_js_space (rev (dropWhile is_js_space s)))"

definition trimmed :: "string \<Rightarrow> bool" where
  "trimmed s \<longleftrightarrow> (s \<noteq> [] \<longrightarrow> \<not> is_js_space (hd s) \<and> \<not> is_js_space (last s))"

lemma js_trim_id: "trimmed s \<Longrightarrow> js_trim s = s"
  by (cases s rule: rev_cases)
    (auto simp: trimmed_def js_trim_def neq_Nil_conv dropWhile_eq_self_iff hd_append
      split: if_splits)

lemma hd_dropWhile_space: "dropWhile P s \<noteq> [] \<Longrightarrow> \<not> P (hd (dropWhile P s))"
  by (rule hd_dropWhile)

lemma js_trim_trimmed: "trimmed (js_trim s)"
proof -
  let ?d = "dropWhile is_js_space s"
  let ?r = "dropWhile is_js_space (rev (dropWhile is_js_space s))"
  have last: "?r \<noteq> [] \<longrightarrow> \<not> is_js_space (hd ?r)" by (simp add: hd_dropWhile_space)
  have "?r \<noteq> [] \<longrightarrow> \<not> is_js_space (last ?r)"
  proof
    assume ne: "?r \<noteq> []"
    obtain p where p: "rev ?d = p @ ?r" by (metis takeWhile_dropWhile_id)
    have d: "?d \<noteq> []" using ne by (cases ?d) simp_all
    have "last ?r = hd ?d"
      using ne d p by (metis hd_rev last_appendR rev_rev_ident)
    with d show "\<not> is_js_space (last ?r)" by (simp add: hd_dropWhile_space)
  qed
  with last show ?thesis by (auto simp: trimmed_def js_trim_def hd_rev last_rev)
qed

lemma js_trim_idem [simp]: "js_trim (js_trim s) = js_trim s"
  by (rule js_trim_id [OF js_trim_trimmed])

lemma set_js_trim: "set (js_trim s) \<subseteq> set s"
  unfolding js_trim_def by (auto dest!: set_dropWhileD)

text \<open>
  \<open>toUpperCase\<close> on Latin-1: the ASCII letters and the accented letters lose bit 5, except
  that the division sign stays, and the sharp s becomes two letters. (The micro sign and the
  y with diaeresis leave Latin-1; the model leaves them alone.)
\<close>

definition upper_char :: "char \<Rightarrow> string" where
  "upper_char c =
     (let n = of_char c :: nat
      in if 97 \<le> n \<and> n \<le> 122 then [char_of (n - 32)]
         else if n = 223 then ''SS''
         else if 224 \<le> n \<and> n \<le> 254 \<and> n \<noteq> 247 then [char_of (n - 32)]
         else [c])"

definition js_upper :: "string \<Rightarrow> string" where
  "js_upper s = concat (map upper_char s)"

section \<open>Decimal digits\<close>

definition is_digit :: "char \<Rightarrow> bool" where
  "is_digit c \<longleftrightarrow> (48::nat) \<le> of_char c \<and> of_char c \<le> (57::nat)"

definition digit_val :: "char \<Rightarrow> nat" where
  "digit_val c = of_char c - 48"

definition digit_char :: "nat \<Rightarrow> char" where
  "digit_char d = char_of (48 + d)"

fun show_nat :: "nat \<Rightarrow> string" where
  "show_nat n = (if n < 10 then [digit_char n] else show_nat (n div 10) @ [digit_char (n mod 10)])"

declare show_nat.simps [simp del]

definition read_nat :: "string \<Rightarrow> nat" where
  "read_nat s = foldl (\<lambda>a c. 10 * a + digit_val c) 0 s"

definition show_int :: "int \<Rightarrow> string" where
  "show_int n = (if n < 0 then CHR ''-'' # show_nat (nat (- n)) else show_nat (nat n))"

definition read_int :: "string \<Rightarrow> int" where
  "read_int s = (case s of [] \<Rightarrow> 0 | c # cs \<Rightarrow>
     if c = CHR ''-'' then - int (read_nat cs) else int (read_nat s))"

definition all_digits :: "string \<Rightarrow> bool" where
  "all_digits s \<longleftrightarrow> s \<noteq> [] \<and> list_all is_digit s"

lemma of_char_digit_char: "d < 10 \<Longrightarrow> of_char (digit_char d) = 48 + d"
  by (simp add: digit_char_def)

lemma is_digit_digit_char: "d < 10 \<Longrightarrow> is_digit (digit_char d)"
  by (simp add: is_digit_def of_char_digit_char)

lemma digit_val_digit_char: "d < 10 \<Longrightarrow> digit_val (digit_char d) = d"
  by (simp add: digit_val_def of_char_digit_char)

lemma read_nat_snoc: "read_nat (s @ [c]) = 10 * read_nat s + digit_val c"
  by (simp add: read_nat_def)

lemma read_show_nat: "read_nat (show_nat n) = n"
proof (induction n rule: show_nat.induct)
  case (1 n)
  show ?case
  proof (cases "n < 10")
    case True
    then show ?thesis
      by (simp add: show_nat.simps [of n] read_nat_def digit_val_digit_char)
  next
    case False
    with 1 show ?thesis
      by (simp add: show_nat.simps [of n] read_nat_snoc digit_val_digit_char)
  qed
qed

lemma all_digits_show_nat: "all_digits (show_nat n)"
proof (induction n rule: show_nat.induct)
  case (1 n)
  then show ?case
    by (cases "n < 10")
      (auto simp: show_nat.simps [of n] all_digits_def is_digit_digit_char list_all_iff)
qed

lemma digit_not_minus: "is_digit c \<Longrightarrow> c \<noteq> CHR ''-''"
  by (auto simp: is_digit_def)

lemma digit_not_space: "is_digit c \<Longrightarrow> \<not> is_js_space c"
  by (auto simp: is_digit_def is_js_space_def)

lemma read_show_int: "read_int (show_int n) = n"
proof (cases "n < 0")
  case True
  then show ?thesis by (simp add: show_int_def read_int_def read_show_nat)
next
  case False
  obtain c cs where s: "show_nat (nat n) = c # cs" and "is_digit c"
    using all_digits_show_nat [of "nat n"] by (cases "show_nat (nat n)") (auto simp: all_digits_def)
  then have "c \<noteq> CHR ''-''" by (simp add: digit_not_minus)
  with False s read_show_nat [of "nat n"] show ?thesis
    by (simp add: show_int_def read_int_def)
qed

lemma show_int_inject: "show_int a = show_int b \<longleftrightarrow> a = b"
  by (metis read_show_int)

section \<open>Timestamps\<close>

text \<open>
  A stored timestamp is a string the code only ever reads through \<open>Date.parse\<close> (or
  \<open>new Date(s).getTime()\<close>). The model keeps what that yields: \<open>Some ms\<close> since the epoch, or
  \<open>None\<close> for NaN. An \<open>instant\<close> is the \<open>getTime()\<close> of a valid \<open>Date\<close>.
\<close>

type_synonym stamp = "int option"
type_synonym instant = int

section \<open>Keyed lists\<close>

text \<open>\<open>new Map(xs.map(x => [key(x), x])).get(k)\<close>: a later duplicate replaces an earlier one.\<close>

definition js_map_get :: "('a \<Rightarrow> 'k) \<Rightarrow> 'a list \<Rightarrow> 'k \<Rightarrow> 'a option" where
  "js_map_get key xs k = find (\<lambda>x. key x = k) (rev xs)"

lemma js_map_get_Some: "js_map_get key xs k = Some x \<Longrightarrow> x \<in> set xs \<and> key x = k"
  unfolding js_map_get_def by (metis (mono_tags, lifting) find_Some_iff nth_mem set_rev)

lemma js_map_get_None: "js_map_get key xs k = None \<longleftrightarrow> k \<notin> key ` set xs"
  by (auto simp: js_map_get_def find_None_iff)

lemma js_map_get_distinct:
  "distinct (map key xs) \<Longrightarrow> x \<in> set xs \<Longrightarrow> js_map_get key xs (key x) = Some x"
  by (cases "js_map_get key xs (key x)")
    (auto simp: js_map_get_None dest!: js_map_get_Some simp: distinct_map inj_on_def)

end
