(* ===== verification/Money.thy ===== *)
theory Money
  imports SG_Text
begin

text \<open>
  \<open>common/money/money-minor.ts\<close>: the exact transport of money amounts. An amount is an
  integer number of minor units, stored as a \<open>bigint\<close> and sent as a decimal string.
\<close>

datatype money_value = MBig int | MNum jsnum | MStr string | MNullish | MOther

datatype money_error = TypeError | SyntaxError

definition MONEY_MINOR_NONNEGATIVE_PATTERN :: "string \<Rightarrow> bool" where
  "MONEY_MINOR_NONNEGATIVE_PATTERN s \<longleftrightarrow> all_digits s"

definition MONEY_MINOR_STRING_PATTERN :: "string \<Rightarrow> bool" where
  "MONEY_MINOR_STRING_PATTERN s \<longleftrightarrow>
     (case s of [] \<Rightarrow> False
      | c # cs \<Rightarrow> if c = CHR ''-'' then all_digits cs else all_digits s)"

fun moneyMinorToDecimalString :: "money_value \<Rightarrow> money_error + string" where
  "moneyMinorToDecimalString MNullish = Inr ''0''"
| "moneyMinorToDecimalString (MBig n) = Inr (show_int n)"
| "moneyMinorToDecimalString (MNum x) =
     (if \<not> isFinite x \<or> \<not> isInteger x then Inl TypeError
      else if js_less (JInt MAX_SAFE_INTEGER) x \<or> js_less x (JInt (- MAX_SAFE_INTEGER))
        then Inl TypeError
      else Inr (show_int (the_int x)))"
| "moneyMinorToDecimalString (MStr s) =
     (if \<not> MONEY_MINOR_STRING_PATTERN (js_trim s) then Inl TypeError
      else Inr (show_int (read_int (js_trim s))))"
| "moneyMinorToDecimalString MOther = Inl TypeError"

fun parseMoneyMinorDecimalString :: "bool \<Rightarrow> money_value \<Rightarrow> money_error + int" where
  "parseMoneyMinorDecimalString allowNegative (MBig n) =
     (if \<not> allowNegative \<and> n < 0 then Inl TypeError else Inr n)"
| "parseMoneyMinorDecimalString allowNegative (MNum x) =
     (if \<not> isFinite x \<or> \<not> isInteger x then Inl TypeError
      else if js_less (JInt MAX_SAFE_INTEGER) x \<or> js_less x (JInt (- MAX_SAFE_INTEGER))
        then Inl TypeError
      else if \<not> allowNegative \<and> js_less x (JInt 0) then Inl TypeError
      else Inr (the_int x))"
| "parseMoneyMinorDecimalString allowNegative (MStr s) =
     (if js_trim s \<noteq> s then Inl TypeError
      else if \<not> (if allowNegative then MONEY_MINOR_STRING_PATTERN s
                  else MONEY_MINOR_NONNEGATIVE_PATTERN s) then Inl TypeError
      else Inr (read_int s))"
| "parseMoneyMinorDecimalString allowNegative _ = Inl TypeError"

fun isMoneyMinorDecimalString :: "bool \<Rightarrow> money_value \<Rightarrow> bool" where
  "isMoneyMinorDecimalString allowNegative (MStr s) =
     (if allowNegative then MONEY_MINOR_STRING_PATTERN s else MONEY_MINOR_NONNEGATIVE_PATTERN s)"
| "isMoneyMinorDecimalString allowNegative _ = False"

text \<open>
  \<open>BigInt(s)\<close> on a string: white space is trimmed, the empty string is 0, decimal digits may
  carry a sign, and a prefix \<open>0x\<close>, \<open>0o\<close> or \<open>0b\<close> selects another radix.
\<close>

definition radix_digit :: "char \<Rightarrow> nat" where
  "radix_digit c =
     (let n = of_char c :: nat
      in if 48 \<le> n \<and> n \<le> 57 then n - 48
         else if 97 \<le> n \<and> n \<le> 102 then n - 87
         else if 65 \<le> n \<and> n \<le> 70 then n - 55 else 99)"

definition read_radix :: "nat \<Rightarrow> string \<Rightarrow> int option" where
  "read_radix r s =
     (if s \<noteq> [] \<and> list_all (\<lambda>c. radix_digit c < r) s
      then Some (int (foldl (\<lambda>a c. r * a + radix_digit c) 0 s)) else None)"

fun bigint_literal :: "string \<Rightarrow> int option" where
  "bigint_literal [] = Some 0"
| "bigint_literal (c # cs) =
     (if c = CHR ''-'' then map_option uminus (read_radix 10 cs)
      else if c = CHR ''+'' then read_radix 10 cs
      else if c = CHR ''0'' \<and> cs \<noteq> [] \<and> hd cs \<in> {CHR ''x'', CHR ''X''} then read_radix 16 (tl cs)
      else if c = CHR ''0'' \<and> cs \<noteq> [] \<and> hd cs \<in> {CHR ''o'', CHR ''O''} then read_radix 8 (tl cs)
      else if c = CHR ''0'' \<and> cs \<noteq> [] \<and> hd cs \<in> {CHR ''b'', CHR ''B''} then read_radix 2 (tl cs)
      else read_radix 10 (c # cs))"

definition js_BigInt :: "string \<Rightarrow> money_error + int" where
  "js_BigInt s = (case bigint_literal (js_trim s) of None \<Rightarrow> Inl SyntaxError | Some n \<Rightarrow> Inr n)"

fun sum_step :: "int \<Rightarrow> money_value \<Rightarrow> money_error + int" where
  "sum_step tot (MBig n) = Inr (tot + n)"
| "sum_step tot (MNum x) =
     (if \<not> isSafeInteger x then Inl TypeError else Inr (tot + the_int x))"
| "sum_step tot (MStr s) = ebind (js_BigInt s) (\<lambda>n. Inr (tot + n))"
| "sum_step tot _ = Inl TypeError"

definition sumMoneyMinorToDecimalString :: "money_value list \<Rightarrow> money_error + string" where
  "sumMoneyMinorToDecimalString values =
     ebind (efold sum_step 0 values) (\<lambda>tot. Inr (show_int tot))"

section \<open>Lemmas\<close>

lemma pattern_nonneg_imp: "MONEY_MINOR_NONNEGATIVE_PATTERN s \<Longrightarrow> MONEY_MINOR_STRING_PATTERN s"
  by (cases s) (auto simp: MONEY_MINOR_NONNEGATIVE_PATTERN_def MONEY_MINOR_STRING_PATTERN_def
      all_digits_def is_digit_def)

lemma nonneg_pattern_read: "MONEY_MINOR_NONNEGATIVE_PATTERN s \<Longrightarrow> 0 \<le> read_int s"
  by (cases s) (auto simp: MONEY_MINOR_NONNEGATIVE_PATTERN_def read_int_def all_digits_def
      is_digit_def)

lemma all_digits_trimmed: "all_digits s \<Longrightarrow> js_trim s = s"
  by (rule js_trim_id)
    (auto simp: trimmed_def all_digits_def list_all_iff dest!: digit_not_space)

lemma string_pattern_trimmed:
  assumes "MONEY_MINOR_STRING_PATTERN s"
  shows "js_trim s = s"
proof (rule js_trim_id)
  obtain c cs where s: "s = c # cs" and d: "if c = CHR ''-'' then all_digits cs else all_digits s"
    using assms by (cases s) (auto simp: MONEY_MINOR_STRING_PATTERN_def)
  have "last s \<in> set (if c = CHR ''-'' then cs else s)"
    using d s by (auto simp: all_digits_def)
  with d have "is_digit (last s)"
    by (auto simp: all_digits_def list_all_iff split: if_splits)
  moreover have "\<not> is_js_space c"
    using d s by (cases "c = CHR ''-''")
      (auto simp: all_digits_def is_js_space_def is_digit_def)
  ultimately show "trimmed s" using s by (simp add: trimmed_def digit_not_space)
qed

lemma show_int_pattern: "MONEY_MINOR_STRING_PATTERN (show_int n)"
proof (cases "n < 0")
  case True
  then show ?thesis by (simp add: show_int_def MONEY_MINOR_STRING_PATTERN_def all_digits_show_nat)
next
  case False
  then have "show_int n = show_nat (nat n)" by (simp add: show_int_def)
  then show ?thesis
    using pattern_nonneg_imp [of "show_int n"] all_digits_show_nat [of "nat n"]
    by (simp add: MONEY_MINOR_NONNEGATIVE_PATTERN_def)
qed

lemmas show_int_transport [simp] =
  show_int_pattern string_pattern_trimmed [OF show_int_pattern] read_show_int

lemma parse_show_int: "parseMoneyMinorDecimalString True (MStr (show_int n)) = Inr n"
  by simp

lemma parse_show_nonneg:
  "0 \<le> n \<Longrightarrow> parseMoneyMinorDecimalString False (MStr (show_int n)) = Inr n"
  using read_show_int [of n] all_digits_show_nat [of "nat n"]
  by (simp add: all_digits_trimmed show_int_def MONEY_MINOR_NONNEGATIVE_PATTERN_def)

lemma show_int_zero: "show_int 0 = ''0''"
  by code_simp

lemma sum_bigints: "efold sum_step t (map MBig ns) = Inr (t + sum_list ns)"
  by (induction ns arbitrary: t) (auto simp: add.assoc)

section \<open>Properties\<close>

text \<open>
  C1. Every amount survives its transport: whatever value \<open>moneyMinorToDecimalString\<close>
  accepts, the string it produces parses back (negatives allowed) to an amount that
  serialises to the same string, and for a \<open>bigint\<close> that amount is the original one.
\<close>

theorem money_roundtrip:
  "moneyMinorToDecimalString v = Inr s \<Longrightarrow>
   \<exists>n. parseMoneyMinorDecimalString True (MStr s) = Inr n \<and>
       moneyMinorToDecimalString (MBig n) = Inr s \<and> (\<forall>m. v = MBig m \<longrightarrow> n = m)"
proof -
  assume h: "moneyMinorToDecimalString v = Inr s"
  have "\<exists>n. s = show_int n \<and> (\<forall>m. v = MBig m \<longrightarrow> n = m)"
    using h
  proof (cases v)
    case MNullish
    then show ?thesis using h by (intro exI [of _ 0]) (simp add: show_int_zero)
  qed (use h in \<open>auto split: if_splits\<close>)
  then show ?thesis by auto
qed

theorem money_roundtrip_witness:
  "\<exists>n. parseMoneyMinorDecimalString True (MStr (show_int (-9007199254740993))) = Inr n \<and>
     moneyMinorToDecimalString (MBig n) = Inr (show_int (-9007199254740993)) \<and>
     (\<forall>m. MBig (-9007199254740993) = MBig m \<longrightarrow> n = m)"
  by (rule money_roundtrip) simp

text \<open>
  Parsing never lets a negative amount through where the field does not opt in, and an
  accepted number is exact: the result is the safe integer that was passed.
\<close>

theorem money_parse_sound:
  "parseMoneyMinorDecimalString allowNegative v = Inr n \<Longrightarrow>
   (allowNegative \<or> 0 \<le> n) \<and> (\<forall>x. v = MNum x \<longrightarrow> x = JInt n \<and> \<bar>n\<bar> \<le> MAX_SAFE_INTEGER) \<and>
   (\<forall>s. v = MStr s \<longrightarrow> isMoneyMinorDecimalString allowNegative v \<and> n = read_int s)"
  by (cases v) (auto simp: isInteger_iff nonneg_pattern_read split: if_splits)

theorem money_parse_sound_witness:
  "isMoneyMinorDecimalString False (MStr ''1500'') \<and> (1500::int) = read_int ''1500''"
proof -
  have "parseMoneyMinorDecimalString False (MStr ''1500'') = Inr 1500" by code_simp
  from money_parse_sound [OF this] show ?thesis by blast
qed

end
