(* ===== verification/Catalog.thy ===== *)
theory Catalog
  imports SG_Text
begin

text \<open>
  \<open>modules/catalog/domain/catalog.policy.ts\<close>: prices, option group rules, the selling unit of
  a product and the rule that says whether a product may be offered to a customer.
\<close>

datatype catalog_error =
    CATALOG_INVALID_PRICE
  | CATALOG_OPTION_GROUP_INVALID
  | CATALOG_SELLING_UNIT_INVALID

definition CATALOG_PRICE_MINOR_MAX :: int where "CATALOG_PRICE_MINOR_MAX = 9999999999"
definition CATALOG_SELECTION_MAX :: int where "CATALOG_SELECTION_MAX = 50"
definition SELLING_UNIT_CUSTOM_LABEL_MAX_LENGTH :: nat where
  "SELLING_UNIT_CUSTOM_LABEL_MAX_LENGTH = 64"

definition SELLING_UNIT_CODES :: "string list" where
  "SELLING_UNIT_CODES =
     [''PLAT'', ''PIECE'', ''PORTION'', ''BOITE'', ''PACK'', ''PLATEAU'', ''CUSTOM'']"

definition SELLING_UNIT_FIXED_LABELS_FR :: "string \<Rightarrow> string option" where
  "SELLING_UNIT_FIXED_LABELS_FR = map_of
     [(''PLAT'', ''Plat''), (''PIECE'', ''Pi'' @ [CHR 0xE8] @ ''ce''),
      (''PORTION'', ''Portion''), (''BOITE'', ''Bo'' @ [CHR 0xEE] @ ''te''),
      (''PACK'', ''Pack familial''), (''PLATEAU'', ''Plateau'')]"

record selling_unit =
  sellingUnitCode :: "string option"
  sellingUnitLabelFr :: "string option"

definition isSellingUnitCode :: "string \<Rightarrow> bool" where
  "isSellingUnitCode v \<longleftrightarrow> v \<in> set SELLING_UNIT_CODES"

text \<open>The label of the request: absent, null and blank all count as no label.\<close>

definition normalizeSellingUnit ::
  "string option \<Rightarrow> string option \<Rightarrow> catalog_error + selling_unit" where
  "normalizeSellingUnit code rawLabel =
     (let label = (case rawLabel of Some l \<Rightarrow> if 0 < length (js_trim l) then Some (js_trim l) else None
                                  | None \<Rightarrow> None)
      in case code of
           None \<Rightarrow>
             (if label \<noteq> None then Inl CATALOG_SELLING_UNIT_INVALID
              else Inr \<lparr>sellingUnitCode = None, sellingUnitLabelFr = None\<rparr>)
         | Some c \<Rightarrow>
             if \<not> isSellingUnitCode c then Inl CATALOG_SELLING_UNIT_INVALID
             else if c = ''CUSTOM'' then
               (case label of
                  None \<Rightarrow> Inl CATALOG_SELLING_UNIT_INVALID
                | Some l \<Rightarrow>
                    if SELLING_UNIT_CUSTOM_LABEL_MAX_LENGTH < length l
                    then Inl CATALOG_SELLING_UNIT_INVALID
                    else Inr \<lparr>sellingUnitCode = Some ''CUSTOM'', sellingUnitLabelFr = Some l\<rparr>)
             else if label \<noteq> None then Inl CATALOG_SELLING_UNIT_INVALID
             else Inr \<lparr>sellingUnitCode = Some c, sellingUnitLabelFr = None\<rparr>)"

fun opt_of_js :: "'a js_opt \<Rightarrow> 'a option" where
  "opt_of_js Undef = None"
| "opt_of_js Null = None"
| "opt_of_js (Val x) = Some x"

text \<open>\<open>Inr None\<close> is the \<open>undefined\<close> of a request that does not touch the selling unit.\<close>

definition resolveSellingUnitUpdate ::
  "string js_opt \<Rightarrow> string js_opt \<Rightarrow> selling_unit \<Rightarrow> catalog_error + selling_unit option" where
  "resolveSellingUnitUpdate code label existing =
     (if code = Undef \<and> label = Undef then Inr None
      else if code = Undef then
        ebind (normalizeSellingUnit (sellingUnitCode existing) (opt_of_js label)) (\<lambda>u. Inr (Some u))
      else ebind (normalizeSellingUnit (opt_of_js code) (opt_of_js label)) (\<lambda>u. Inr (Some u)))"

definition resolveSellingUnitLabelFr :: "selling_unit \<Rightarrow> string option" where
  "resolveSellingUnitLabelFr stored =
     (case sellingUnitCode stored of
        None \<Rightarrow> None
      | Some c \<Rightarrow>
          if \<not> isSellingUnitCode c then None
          else if c = ''CUSTOM'' then sellingUnitLabelFr stored
          else SELLING_UNIT_FIXED_LABELS_FR c)"

definition requireCatalogPriceMinor :: "jsnum \<Rightarrow> catalog_error + unit" where
  "requireCatalogPriceMinor v =
     (if \<not> isInteger v \<or> js_less v (JInt 0) \<or> js_less (JInt CATALOG_PRICE_MINOR_MAX) v
      then Inl CATALOG_INVALID_PRICE else Inr ())"

definition requireOptionGroupRules :: "bool \<Rightarrow> jsnum \<Rightarrow> jsnum \<Rightarrow> catalog_error + unit" where
  "requireOptionGroupRules required minSelections maxSelections =
     (if \<not> isInteger minSelections \<or> \<not> isInteger maxSelections
         \<or> js_less minSelections (JInt 0) \<or> js_less maxSelections (JInt 1)
         \<or> js_less maxSelections minSelections \<or> js_less (JInt CATALOG_SELECTION_MAX) maxSelections
      then Inl CATALOG_OPTION_GROUP_INVALID
      else if required \<and> js_less minSelections (JInt 1) then Inl CATALOG_OPTION_GROUP_INVALID
      else if \<not> required \<and> minSelections \<noteq> JInt 0 then Inl CATALOG_OPTION_GROUP_INVALID
      else Inr ())"

definition isProductCustomerOfferable :: "bool \<Rightarrow> string \<Rightarrow> bool \<Rightarrow> bool \<Rightarrow> bool" where
  "isProductCustomerOfferable merchantOperationalReady branchOperationalStatus categoryActive
     productAvailable \<longleftrightarrow>
     merchantOperationalReady \<and> branchOperationalStatus = ''ACTIVE'' \<and> categoryActive
     \<and> productAvailable"

text \<open>
  A column value read back from the database. Prices are \<open>bigint\<close> columns; the string branch
  (\<open>Number(value)\<close>) has no caller in the modelled code and is left out.
\<close>

datatype db_value = DbBig int | DbNum jsnum | DbOther

fun parseMinorUnits :: "db_value \<Rightarrow> jsnum" where
  "parseMinorUnits (DbBig n) =
     (if n < 0 \<or> CATALOG_PRICE_MINOR_MAX < n then JNaN else double_of_int n)"
| "parseMinorUnits (DbNum x) = x"
| "parseMinorUnits DbOther = JNaN"

definition escapeLikeContains :: "string \<Rightarrow> string" where
  "escapeLikeContains raw = filter (\<lambda>c. c \<notin> {CHR ''%'', CHR ''_'', CHR 0x5C}) raw"

section \<open>Lemmas\<close>

lemma parseMinorUnits_range:
  "0 \<le> n \<Longrightarrow> n \<le> CATALOG_PRICE_MINOR_MAX \<Longrightarrow> parseMinorUnits (DbBig n) = JInt n"
  by (simp add: double_of_int_exact CATALOG_PRICE_MINOR_MAX_def MAX_SAFE_INTEGER_def)

lemma requireCatalogPriceMinor_ok [guards]:
  "requireCatalogPriceMinor v = Inr u \<longleftrightarrow>
   (\<exists>n. v = JInt n \<and> 0 \<le> n \<and> n \<le> CATALOG_PRICE_MINOR_MAX)"
  by (cases v) (auto simp: requireCatalogPriceMinor_def)

lemma requireOptionGroupRules_ok [guards]:
  "requireOptionGroupRules required mn mx = Inr u \<longleftrightarrow>
   (\<exists>a b. mn = JInt a \<and> mx = JInt b \<and> 1 \<le> b \<and> a \<le> b \<and> b \<le> CATALOG_SELECTION_MAX \<and>
     (if required then 1 \<le> a else a = 0))"
  by (cases mn; cases mx) (auto simp: requireOptionGroupRules_def)

definition selling_unit_wf :: "selling_unit \<Rightarrow> bool" where
  "selling_unit_wf u \<longleftrightarrow>
     (case sellingUnitCode u of
        None \<Rightarrow> sellingUnitLabelFr u = None
      | Some c \<Rightarrow> isSellingUnitCode c \<and>
          (if c = ''CUSTOM''
           then (\<exists>l. sellingUnitLabelFr u = Some l \<and> l \<noteq> [] \<and> js_trim l = l
                     \<and> length l \<le> SELLING_UNIT_CUSTOM_LABEL_MAX_LENGTH)
           else sellingUnitLabelFr u = None))"

lemma normalizeSellingUnit_wf: "normalizeSellingUnit code label = Inr u \<Longrightarrow> selling_unit_wf u"
  by (auto simp: normalizeSellingUnit_def selling_unit_wf_def Let_def isSellingUnitCode_def
      split: option.splits if_splits)

lemma normalizeSellingUnit_fixpoint:
  "selling_unit_wf u \<Longrightarrow>
   normalizeSellingUnit (sellingUnitCode u) (sellingUnitLabelFr u) = Inr u"
  by (cases u) (auto simp: normalizeSellingUnit_def selling_unit_wf_def Let_def
      split: option.splits if_splits)

lemma fixed_label_exists:
  "isSellingUnitCode c \<Longrightarrow> c \<noteq> ''CUSTOM'' \<Longrightarrow> \<exists>l. SELLING_UNIT_FIXED_LABELS_FR c = Some l"
  by (auto simp: isSellingUnitCode_def SELLING_UNIT_CODES_def SELLING_UNIT_FIXED_LABELS_FR_def)

section \<open>Properties\<close>

text \<open>
  The selling unit stored by an update is well formed (a code of the list, a trimmed
  non-empty label of at most 64 characters exactly for CUSTOM), storing it again changes
  nothing, and a customer always sees a label for it unless the product has no code.
\<close>

theorem selling_unit_update_sound:
  "resolveSellingUnitUpdate code label existing = Inr (Some u) \<Longrightarrow>
   selling_unit_wf u \<and>
   normalizeSellingUnit (sellingUnitCode u) (sellingUnitLabelFr u) = Inr u \<and>
   (resolveSellingUnitLabelFr u = None \<longleftrightarrow> sellingUnitCode u = None)"
proof -
  assume "resolveSellingUnitUpdate code label existing = Inr (Some u)"
  then have wf: "selling_unit_wf u"
    by (auto simp: resolveSellingUnitUpdate_def ebind_Inr split: if_splits
        intro: normalizeSellingUnit_wf)
  then have "resolveSellingUnitLabelFr u = None \<longleftrightarrow> sellingUnitCode u = None"
    using fixed_label_exists
    by (fastforce simp: selling_unit_wf_def resolveSellingUnitLabelFr_def
        split: option.splits if_splits)
  with wf show ?thesis by (simp add: normalizeSellingUnit_fixpoint)
qed

theorem selling_unit_update_sound_witness:
  "selling_unit_wf \<lparr>sellingUnitCode = Some ''CUSTOM'', sellingUnitLabelFr = Some ''kg''\<rparr> \<and>
   normalizeSellingUnit (sellingUnitCode \<lparr>sellingUnitCode = Some ''CUSTOM'', sellingUnitLabelFr = Some ''kg''\<rparr>)
     (sellingUnitLabelFr \<lparr>sellingUnitCode = Some ''CUSTOM'', sellingUnitLabelFr = Some ''kg''\<rparr>)
     = Inr \<lparr>sellingUnitCode = Some ''CUSTOM'', sellingUnitLabelFr = Some ''kg''\<rparr> \<and>
   (resolveSellingUnitLabelFr \<lparr>sellingUnitCode = Some ''CUSTOM'', sellingUnitLabelFr = Some ''kg''\<rparr> = None
     \<longleftrightarrow> sellingUnitCode \<lparr>sellingUnitCode = Some ''CUSTOM'', sellingUnitLabelFr = Some ''kg''\<rparr> = None)"
  by (rule selling_unit_update_sound
      [where code = "Val ''CUSTOM''" and label = "Val '' kg ''"
         and existing = "\<lparr>sellingUnitCode = None, sellingUnitLabelFr = None\<rparr>"])
    code_simp

end
