(* ===== verification/Cart_Policy.thy ===== *)
theory Cart_Policy
  imports Catalog
begin

text \<open>
  \<open>modules/cart/domain/cart.policy.ts\<close>: quantities, line totals and the option selections of
  a cart item, checked against the live catalogue.
\<close>

section \<open>Definitions\<close>

text \<open>The error codes of \<open>cart.errors.ts\<close>; the one whose HTTP status varies carries it.\<close>

datatype cart_error =
    CART_ITEM_NOT_FOUND
  | CART_BRANCH_MISMATCH
  | CART_PRODUCT_NOT_AVAILABLE int
  | CART_OPTION_NOT_AVAILABLE
  | CART_OPTION_INVALID
  | CART_REQUIRED_OPTION_MISSING
  | CART_INVALID_QUANTITY

fun cart_http_status :: "cart_error \<Rightarrow> int" where
  "cart_http_status CART_ITEM_NOT_FOUND = 404"
| "cart_http_status CART_BRANCH_MISMATCH = 409"
| "cart_http_status (CART_PRODUCT_NOT_AVAILABLE httpStatus) = httpStatus"
| "cart_http_status CART_OPTION_NOT_AVAILABLE = 409"
| "cart_http_status CART_OPTION_INVALID = 400"
| "cart_http_status CART_REQUIRED_OPTION_MISSING = 400"
| "cart_http_status CART_INVALID_QUANTITY = 400"

definition CART_QUANTITY_MIN :: int where "CART_QUANTITY_MIN = 1"
definition CART_QUANTITY_MAX :: int where "CART_QUANTITY_MAX = 99"

definition requireCartQuantity :: "jsnum \<Rightarrow> cart_error + unit" where
  "requireCartQuantity quantity =
     (if \<not> isInteger quantity \<or> js_less quantity (JInt CART_QUANTITY_MIN)
         \<or> js_less (JInt CART_QUANTITY_MAX) quantity
      then Inl CART_INVALID_QUANTITY else Inr ())"

definition multiplyMinorUnits :: "jsnum \<Rightarrow> jsnum \<Rightarrow> cart_error + jsnum" where
  "multiplyMinorUnits unitMinor quantity =
     (if \<not> isInteger unitMinor \<or> \<not> isInteger quantity
         \<or> js_less unitMinor (JInt 0) \<or> js_less quantity (JInt 1)
      then Inl CART_INVALID_QUANTITY
      else let t = double_of_int (the_int unitMinor * the_int quantity)
           in if \<not> isSafeInteger t \<or> js_less (JInt (CATALOG_PRICE_MINOR_MAX * CART_QUANTITY_MAX)) t
              then Inl CART_INVALID_QUANTITY else Inr t)"

record option_group =
  og_id :: string
  og_required :: bool
  og_minSelections :: int
  og_maxSelections :: int

record cart_option =
  co_id :: string
  co_optionGroupId :: string
  co_name :: string
  co_available :: bool
  co_additionalPriceMinor :: jsnum

definition optionsById :: "cart_option list \<Rightarrow> string \<Rightarrow> cart_option option" where
  "optionsById = js_map_get co_id"

text \<open>The loop that collects the selected options, and the count of a group in them.\<close>

fun collectSelected :: "cart_option list \<Rightarrow> string list \<Rightarrow> cart_error + cart_option list" where
  "collectSelected opts [] = Inr []"
| "collectSelected opts (i # is) =
     (case optionsById opts i of
        None \<Rightarrow> Inl CART_OPTION_INVALID
      | Some opt \<Rightarrow>
          if \<not> co_available opt then Inl CART_OPTION_NOT_AVAILABLE
          else ebind (collectSelected opts is) (\<lambda>rest. Inr (opt # rest)))"

definition groupCount :: "cart_option list \<Rightarrow> string \<Rightarrow> int" where
  "groupCount opts g = int (length (filter (\<lambda>opt. co_optionGroupId opt = g) opts))"

fun checkGroups :: "cart_option list \<Rightarrow> option_group list \<Rightarrow> cart_error + unit" where
  "checkGroups selected [] = Inr ()"
| "checkGroups selected (g # gs) =
     (let count = groupCount selected (og_id g)
      in if og_required g \<and> count < og_minSelections g then Inl CART_REQUIRED_OPTION_MISSING
         else if og_maxSelections g < count then Inl CART_OPTION_INVALID
         else checkGroups selected gs)"

definition validateCartOptionSelections ::
  "option_group list \<Rightarrow> cart_option list \<Rightarrow> string list \<Rightarrow> cart_error + jsnum" where
  "validateCartOptionSelections groups opts selectedOptionIds =
     (if card (set selectedOptionIds) \<noteq> length selectedOptionIds then Inl CART_OPTION_INVALID
      else ebind (collectSelected opts selectedOptionIds) (\<lambda>selected.
           ebind (checkGroups selected groups) (\<lambda>_.
           let additionalPriceMinor = js_sum (map co_additionalPriceMinor selected)
           in if \<not> isInteger additionalPriceMinor \<or> js_less additionalPriceMinor (JInt 0)
              then Inl CART_OPTION_INVALID else Inr additionalPriceMinor)))"

definition requiredOptionGroupsSatisfiable :: "option_group list \<Rightarrow> cart_option list \<Rightarrow> bool" where
  "requiredOptionGroupsSatisfiable groups opts =
     list_all (\<lambda>g. \<not> og_required g \<or>
       og_minSelections g \<le> groupCount (filter co_available opts) (og_id g)) groups"

definition isCartProductOfferable :: "bool \<Rightarrow> string \<Rightarrow> bool \<Rightarrow> bool \<Rightarrow> bool" where
  "isCartProductOfferable = isProductCustomerOfferable"

definition normalizeOptionIds :: "string list \<Rightarrow> string list" where
  "normalizeOptionIds ids = sort (remdups ids)"

definition optionSetsEqual :: "string list \<Rightarrow> string list \<Rightarrow> bool" where
  "optionSetsEqual left right \<longleftrightarrow>
     (let a = normalizeOptionIds left; b = normalizeOptionIds right
      in length a = length b \<and> list_all2 (=) a b)"

datatype cart_warning =
    W_PRODUCT_NOT_AVAILABLE
  | W_REQUIRED_OPTION_MISSING
  | W_OPTION_NOT_AVAILABLE
  | W_OPTION_INVALID

record selection_view =
  sv_optionId :: string
  sv_name :: "string option"
  sv_additionalPriceMinor :: jsnum
  sv_available :: bool

definition selectionView :: "cart_option list \<Rightarrow> string \<Rightarrow> selection_view" where
  "selectionView opts i =
     (case optionsById opts i of
        None \<Rightarrow> \<lparr>sv_optionId = i, sv_name = None, sv_additionalPriceMinor = JInt 0, sv_available = False\<rparr>
      | Some opt \<Rightarrow> \<lparr>sv_optionId = co_id opt, sv_name = Some (co_name opt),
          sv_additionalPriceMinor = co_additionalPriceMinor opt, sv_available = co_available opt\<rparr>)"

definition set_add :: "'a list \<Rightarrow> 'a \<Rightarrow> 'a list" where
  "set_add ws w = (if w \<in> set ws then ws else ws @ [w])"

fun warning_of_error :: "cart_error \<Rightarrow> cart_warning option" where
  "warning_of_error CART_REQUIRED_OPTION_MISSING = Some W_REQUIRED_OPTION_MISSING"
| "warning_of_error CART_OPTION_NOT_AVAILABLE = Some W_OPTION_NOT_AVAILABLE"
| "warning_of_error CART_OPTION_INVALID = Some W_OPTION_INVALID"
| "warning_of_error _ = None"

definition evaluatePersistedSelections ::
  "option_group list \<Rightarrow> cart_option list \<Rightarrow> string list \<Rightarrow>
   jsnum \<times> cart_warning list \<times> selection_view list" where
  "evaluatePersistedSelections groups opts selectedOptionIds =
     (let selected = map (selectionView opts) (normalizeOptionIds selectedOptionIds);
          availableSelectedIds = map sv_optionId (filter sv_available selected);
          w0 = (if list_all sv_available selected then [] else [W_OPTION_NOT_AVAILABLE]);
          warnings = (case validateCartOptionSelections groups opts availableSelectedIds of
                        Inl e \<Rightarrow> (case warning_of_error e of Some w \<Rightarrow> set_add w0 w | None \<Rightarrow> w0)
                      | Inr _ \<Rightarrow> w0);
          additionalPriceMinor =
            js_sum (map sv_additionalPriceMinor (filter (\<lambda>r. sv_name r \<noteq> None) selected))
      in (additionalPriceMinor, warnings, selected))"

section \<open>Lemmas\<close>

lemma requireCartQuantity_ok [guards]:
  "requireCartQuantity q = Inr u \<longleftrightarrow> (\<exists>n. q = JInt n \<and> 1 \<le> n \<and> n \<le> 99)"
  by (cases q) (auto simp: requireCartQuantity_def CART_QUANTITY_MIN_def CART_QUANTITY_MAX_def)

lemma line_cap_safe: "CATALOG_PRICE_MINOR_MAX * CART_QUANTITY_MAX \<le> MAX_SAFE_INTEGER"
  by (simp add: CATALOG_PRICE_MINOR_MAX_def CART_QUANTITY_MAX_def MAX_SAFE_INTEGER_def)

lemma multiplyMinorUnits_ints:
  assumes "0 \<le> a" "1 \<le> b"
  shows "multiplyMinorUnits (JInt a) (JInt b) =
    (if a * b \<le> CATALOG_PRICE_MINOR_MAX * CART_QUANTITY_MAX then Inr (JInt (a * b))
     else Inl CART_INVALID_QUANTITY)"
proof (cases "a * b \<le> MAX_SAFE_INTEGER")
  case True
  have "0 \<le> a * b" using assms by simp
  with True have "double_of_int (a * b) = JInt (a * b)" by (simp add: double_of_int_exact)
  with True assms \<open>0 \<le> a * b\<close> show ?thesis
    by (simp add: multiplyMinorUnits_def Let_def not_le not_less)
next
  case False
  then have "\<not> isSafeInteger (double_of_int (a * b))" by (simp add: double_of_int_unsafe)
  with False assms line_cap_safe show ?thesis
    by (simp add: multiplyMinorUnits_def Let_def)
qed

lemma multiplyMinorUnits_ok [guards]:
  "multiplyMinorUnits u q = Inr t \<longleftrightarrow>
   (\<exists>a b. u = JInt a \<and> q = JInt b \<and> 0 \<le> a \<and> 1 \<le> b \<and>
      a * b \<le> CATALOG_PRICE_MINOR_MAX * CART_QUANTITY_MAX \<and> t = JInt (a * b))"
proof (cases "\<exists>a b. u = JInt a \<and> q = JInt b \<and> 0 \<le> a \<and> 1 \<le> b")
  case True
  then obtain a b where "u = JInt a" "q = JInt b" "0 \<le> a" "1 \<le> b" by blast
  then show ?thesis by (auto simp: multiplyMinorUnits_ints)
next
  case False
  then have "multiplyMinorUnits u q = Inl CART_INVALID_QUANTITY"
    by (cases u; cases q) (auto simp: multiplyMinorUnits_def not_le not_less)
  with False show ?thesis by auto
qed

lemma card_set_length: "card (set xs) = length xs \<longleftrightarrow> distinct xs"
  using card_distinct distinct_card by blast

lemma collectSelected_ok [guards]:
  "collectSelected opts is = Inr sel \<longleftrightarrow>
   map Some sel = map (optionsById opts) is \<and> list_all co_available sel"
proof (induction "is" arbitrary: sel)
  case Nil
  then show ?case by auto
next
  case (Cons i "is")
  show ?case
  proof (cases "optionsById opts i")
    case None
    then show ?thesis by (cases sel) simp_all
  next
    case (Some opt)
    then show ?thesis by (cases sel) (auto simp: ebind_Inr Cons.IH)
  qed
qed

lemma checkGroups_ok [guards]:
  "checkGroups sel gs = Inr u \<longleftrightarrow>
   list_all (\<lambda>g. groupCount sel (og_id g) \<le> og_maxSelections g \<and>
     (og_required g \<longrightarrow> og_minSelections g \<le> groupCount sel (og_id g))) gs"
  by (induction gs) (auto simp: Let_def)

lemma validate_errors:
  "validateCartOptionSelections gs opts is = Inl e \<Longrightarrow>
   e \<in> {CART_OPTION_INVALID, CART_OPTION_NOT_AVAILABLE, CART_REQUIRED_OPTION_MISSING}"
proof -
  have c: "collectSelected opts is = Inl e \<Longrightarrow>
      e \<in> {CART_OPTION_INVALID, CART_OPTION_NOT_AVAILABLE}" for e
    by (induction "is") (auto simp: ebind_Inl split: option.splits if_splits)
  have g: "checkGroups sel gs = Inl e \<Longrightarrow>
      e \<in> {CART_OPTION_INVALID, CART_REQUIRED_OPTION_MISSING}" for e sel
    by (induction gs) (auto simp: Let_def split: if_splits)
  show "validateCartOptionSelections gs opts is = Inl e \<Longrightarrow> ?thesis"
    using c g by (fastforce simp: validateCartOptionSelections_def ebind_Inl Let_def
        split: if_splits)
qed

lemma normalizeOptionIds_set [simp]: "set (normalizeOptionIds ids) = set ids"
  by (simp add: normalizeOptionIds_def)

lemma normalizeOptionIds_distinct [simp]: "distinct (normalizeOptionIds ids)"
  by (simp add: normalizeOptionIds_def)

lemma normalizeOptionIds_eq_iff:
  "normalizeOptionIds xs = normalizeOptionIds ys \<longleftrightarrow> set xs = set ys"
proof
  assume "normalizeOptionIds xs = normalizeOptionIds ys"
  then show "set xs = set ys" by (metis normalizeOptionIds_set)
next
  assume "set xs = set ys"
  then show "normalizeOptionIds xs = normalizeOptionIds ys"
    unfolding normalizeOptionIds_def
    by (intro sorted_distinct_set_unique) auto
qed

lemma optionSetsEqual_iff: "optionSetsEqual xs ys \<longleftrightarrow> set xs = set ys"
  by (auto simp: optionSetsEqual_def Let_def list_all2_eq [symmetric]
      normalizeOptionIds_eq_iff [symmetric])

lemma optionsById_Some: "optionsById opts i = Some opt \<Longrightarrow> opt \<in> set opts \<and> co_id opt = i"
  unfolding optionsById_def by (rule js_map_get_Some)

text \<open>The abstract meaning of a selection: which options it takes from which group.\<close>

definition taken :: "cart_option list \<Rightarrow> string list \<Rightarrow> string \<Rightarrow> string set" where
  "taken opts ids g =
     {i \<in> set ids. \<exists>opt. optionsById opts i = Some opt \<and> co_optionGroupId opt = g}"

definition selection_ok :: "option_group list \<Rightarrow> cart_option list \<Rightarrow> string list \<Rightarrow> bool" where
  "selection_ok groups opts ids \<longleftrightarrow>
     distinct ids \<and>
     (\<forall>i \<in> set ids. \<exists>opt. optionsById opts i = Some opt \<and> co_available opt) \<and>
     (\<forall>g \<in> set groups. int (card (taken opts ids (og_id g))) \<le> og_maxSelections g \<and>
        (og_required g \<longrightarrow> og_minSelections g \<le> int (card (taken opts ids (og_id g)))))"

definition option_price :: "cart_option list \<Rightarrow> string \<Rightarrow> int" where
  "option_price opts i =
     (case optionsById opts i of None \<Rightarrow> 0 | Some opt \<Rightarrow> the_int (co_additionalPriceMinor opt))"

text \<open>Catalogue prices as the database holds them: non-negative minor units within the cap.\<close>

definition prices_ok :: "cart_option list \<Rightarrow> bool" where
  "prices_ok opts \<longleftrightarrow> (\<forall>opt \<in> set opts. \<exists>n. co_additionalPriceMinor opt = JInt n \<and>
     0 \<le> n \<and> n \<le> CATALOG_PRICE_MINOR_MAX)"

lemma selected_ids:
  "map Some sel = map (optionsById opts) ids \<Longrightarrow> map co_id sel = ids"
proof (induction ids arbitrary: sel)
  case (Cons i ids)
  then obtain opt rest where "sel = opt # rest" "optionsById opts i = Some opt"
    "map Some rest = map (optionsById opts) ids" by (cases sel) auto
  with Cons.IH show ?case by (simp add: optionsById_Some)
qed simp

lemma selected_exists:
  "\<forall>i \<in> set ids. \<exists>opt. optionsById opts i = Some opt \<and> co_available opt \<Longrightarrow>
   \<exists>sel. map Some sel = map (optionsById opts) ids \<and> list_all co_available sel"
proof (induction ids)
  case (Cons i ids)
  then obtain opt sel where "optionsById opts i = Some opt" "co_available opt"
    "map Some sel = map (optionsById opts) ids" "list_all co_available sel" by auto
  then show ?case by (intro exI [of _ "opt # sel"]) simp
qed simp

lemma groupCount_taken:
  assumes sel: "map Some sel = map (optionsById opts) ids" and d: "distinct ids"
  shows "groupCount sel g = int (card (taken opts ids g))"
proof -
  let ?f = "filter (\<lambda>opt. co_optionGroupId opt = g) sel"
  have ids: "map co_id sel = ids" by (rule selected_ids [OF sel])
  have inj: "inj_on co_id (set sel)" and dsel: "distinct sel"
    using d ids distinct_map [of co_id sel] by simp_all
  have known: "optionsById opts (co_id opt) = Some opt" if "opt \<in> set sel" for opt
  proof -
    have "Some opt \<in> set (map (optionsById opts) ids)"
      using that sel by (metis image_eqI list.set_map)
    then obtain i where "optionsById opts i = Some opt" by auto
    then show ?thesis using optionsById_Some by fastforce
  qed
  have "taken opts ids g = co_id ` set ?f"
    unfolding taken_def ids [symmetric] using known by auto
  moreover have "inj_on co_id (set ?f)"
    using inj by (rule inj_on_subset) simp
  ultimately have "card (taken opts ids g) = card (set ?f)"
    by (simp only: card_image)
  moreover have "card (set ?f) = length ?f" using dsel by (intro distinct_card) simp
  ultimately show ?thesis by (simp only: groupCount_def)
qed

lemma selected_prices:
  assumes sel: "map Some sel = map (optionsById opts) ids" and p: "prices_ok opts"
  shows "map co_additionalPriceMinor sel = map JInt (map (option_price opts) ids)"
  using sel
proof (induction ids arbitrary: sel)
  case (Cons i ids)
  then obtain opt rest where s: "sel = opt # rest" "optionsById opts i = Some opt"
    "map Some rest = map (optionsById opts) ids" by (cases sel) auto
  then obtain n where "co_additionalPriceMinor opt = JInt n"
    using p optionsById_Some [OF s(2)] unfolding prices_ok_def by blast
  with Cons.IH [OF s(3)] s show ?case by (simp add: option_price_def)
qed simp

lemma option_price_range:
  "prices_ok opts \<Longrightarrow> 0 \<le> option_price opts i \<and> option_price opts i \<le> CATALOG_PRICE_MINOR_MAX"
  by (fastforce simp: prices_ok_def option_price_def CATALOG_PRICE_MINOR_MAX_def
      split: option.splits dest!: optionsById_Some)

lemma validate_price:
  assumes "prices_ok opts" "sum_list (map (option_price opts) ids) \<le> MAX_SAFE_INTEGER"
    and "selection_ok groups opts ids"
  shows "validateCartOptionSelections groups opts ids =
    Inr (JInt (sum_list (map (option_price opts) ids)))"
proof -
  from assms(3) obtain sel where sel: "map Some sel = map (optionsById opts) ids"
    "list_all co_available sel" and d: "distinct ids"
    using selected_exists unfolding selection_ok_def by blast
  have c: "collectSelected opts ids = Inr sel" using sel by (simp add: collectSelected_ok)
  have g: "checkGroups sel groups = Inr ()"
    using assms(3) by (simp add: checkGroups_ok groupCount_taken [OF sel(1) d] selection_ok_def
        list_all_iff)
  have nn: "0 \<le> sum_list (map (option_price opts) ids)"
    using option_price_range [OF assms(1)] by (intro sum_list_nonneg) auto
  have "js_sum (map co_additionalPriceMinor sel) = JInt (sum_list (map (option_price opts) ids))"
    using selected_prices [OF sel(1) assms(1)] option_price_range [OF assms(1)] assms(2)
    by (simp only:) (rule js_sum_ints, auto)
  with c g d nn show ?thesis
    by (simp add: validateCartOptionSelections_def card_set_length)
qed

lemma validate_selection_ok:
  assumes "validateCartOptionSelections groups opts ids = Inr p"
  shows "selection_ok groups opts ids"
proof -
  from assms obtain sel where d: "distinct ids"
    and sel: "map Some sel = map (optionsById opts) ids" "list_all co_available sel"
    and g: "checkGroups sel groups = Inr ()"
    by (auto simp: validateCartOptionSelections_def card_set_length ebind_Inr collectSelected_ok
        split: if_splits)
  have "\<forall>i \<in> set ids. \<exists>opt. optionsById opts i = Some opt \<and> co_available opt"
    using sel by (metis (no_types, lifting) image_iff list.set_map list_all_iff)
  with d g show ?thesis
    by (simp add: selection_ok_def checkGroups_ok groupCount_taken [OF sel(1) d] list_all_iff)
qed

section \<open>Properties\<close>

text \<open>
  C2. A selection is accepted exactly when it names distinct, known, available options and
  takes from every option group at most its maximum and, where the group is required, at
  least its minimum; the extra price charged is the exact sum of the options' prices.
\<close>

theorem validateCartOptionSelections_spec:
  assumes "prices_ok opts" and "sum_list (map (option_price opts) ids) \<le> MAX_SAFE_INTEGER"
  shows "validateCartOptionSelections groups opts ids = Inr p \<longleftrightarrow>
    selection_ok groups opts ids \<and> p = JInt (sum_list (map (option_price opts) ids))"
proof
  assume p: "validateCartOptionSelections groups opts ids = Inr p"
  then have ok: "selection_ok groups opts ids" by (rule validate_selection_ok)
  with p validate_price [OF assms ok] show
    "selection_ok groups opts ids \<and> p = JInt (sum_list (map (option_price opts) ids))" by simp
next
  assume "selection_ok groups opts ids \<and> p = JInt (sum_list (map (option_price opts) ids))"
  then show "validateCartOptionSelections groups opts ids = Inr p"
    using validate_price [OF assms, of groups] by simp
qed

theorem validateCartOptionSelections_spec_witness:
  "validateCartOptionSelections
     [\<lparr>og_id = ''g'', og_required = True, og_minSelections = 1, og_maxSelections = 1\<rparr>]
     [\<lparr>co_id = ''a'', co_optionGroupId = ''g'', co_name = ''A'', co_available = True,
       co_additionalPriceMinor = JInt 50\<rparr>] [''a''] = Inr (JInt 50) \<longleftrightarrow>
   selection_ok
     [\<lparr>og_id = ''g'', og_required = True, og_minSelections = 1, og_maxSelections = 1\<rparr>]
     [\<lparr>co_id = ''a'', co_optionGroupId = ''g'', co_name = ''A'', co_available = True,
       co_additionalPriceMinor = JInt 50\<rparr>] [''a''] \<and>
   JInt 50 = JInt (sum_list (map (option_price
     [\<lparr>co_id = ''a'', co_optionGroupId = ''g'', co_name = ''A'', co_available = True,
       co_additionalPriceMinor = JInt 50\<rparr>]) [''a'']))"
  by (rule validateCartOptionSelections_spec)
    (simp_all add: prices_ok_def option_price_def optionsById_def js_map_get_def
      CATALOG_PRICE_MINOR_MAX_def MAX_SAFE_INTEGER_def)

text \<open>
  A persisted selection is shown without a warning exactly when its set of options would
  be accepted today, so a cart is ready only with selections the catalogue still allows.
\<close>

theorem evaluatePersistedSelections_ready:
  assumes "prices_ok opts"
    and "sum_list (map (option_price opts) (normalizeOptionIds ids)) \<le> MAX_SAFE_INTEGER"
  shows "fst (snd (evaluatePersistedSelections groups opts ids)) = [] \<longleftrightarrow>
    selection_ok groups opts (normalizeOptionIds ids)"
proof -
  let ?ids = "normalizeOptionIds ids"
  let ?sel = "map (selectionView opts) ?ids"
  show ?thesis
  proof (cases "list_all sv_available ?sel")
    case False
    then have "\<exists>i \<in> set ?ids. \<not> (\<exists>opt. optionsById opts i = Some opt \<and> co_available opt)"
      by (auto simp: list_all_iff selectionView_def split: option.splits)
    then have "\<not> selection_ok groups opts ?ids" unfolding selection_ok_def by blast
    moreover have "fst (snd (evaluatePersistedSelections groups opts ids)) \<noteq> []"
      using False by (auto simp: evaluatePersistedSelections_def Let_def set_add_def
          split: sum.splits option.splits)
    ultimately show ?thesis by simp
  next
    case True
    have "sv_optionId (selectionView opts i) = i" for i
      by (auto simp: selectionView_def split: option.splits dest!: optionsById_Some)
    then have "map sv_optionId (filter sv_available ?sel) = ?ids"
      using True by (simp add: list_all_iff filter_id_conv [THEN iffD2] comp_def)
    moreover have "warning_of_error e \<noteq> None"
      if "validateCartOptionSelections groups opts ?ids = Inl e" for e
      using validate_errors [OF that] by auto
    moreover have "validateCartOptionSelections groups opts ?ids =
        Inr (JInt (sum_list (map (option_price opts) ?ids)))
      \<longleftrightarrow> selection_ok groups opts ?ids"
      using validate_price [OF assms] validate_selection_ok by auto
    ultimately show ?thesis
      using True by (auto simp: evaluatePersistedSelections_def Let_def set_add_def
          split: sum.splits option.splits dest: validate_selection_ok)
  qed
qed

theorem evaluatePersistedSelections_ready_witness:
  "fst (snd (evaluatePersistedSelections
     [\<lparr>og_id = ''g'', og_required = True, og_minSelections = 1, og_maxSelections = 1\<rparr>]
     [\<lparr>co_id = ''a'', co_optionGroupId = ''g'', co_name = ''A'', co_available = False,
       co_additionalPriceMinor = JInt 50\<rparr>] [''a'', ''a''])) = [] \<longleftrightarrow>
   selection_ok
     [\<lparr>og_id = ''g'', og_required = True, og_minSelections = 1, og_maxSelections = 1\<rparr>]
     [\<lparr>co_id = ''a'', co_optionGroupId = ''g'', co_name = ''A'', co_available = False,
       co_additionalPriceMinor = JInt 50\<rparr>] (normalizeOptionIds [''a'', ''a''])"
  by (rule evaluatePersistedSelections_ready)
    (simp_all add: prices_ok_def option_price_def optionsById_def js_map_get_def
      normalizeOptionIds_def CATALOG_PRICE_MINOR_MAX_def MAX_SAFE_INTEGER_def)

end
