(* ===== verification/Pricing.thy ===== *)
theory Pricing
  imports SG_Text
begin

text \<open>
  Which delivery pricing rule applies at an instant:
  \<open>modules/delivery-pricing/domain/pricing-applicability.policy.ts\<close> and
  \<open>modules/checkout/domain/checkout.policy.ts\<close>. Effective windows are half-open intervals of
  instants, local windows inclusive intervals of seconds of the day in Africa/Algiers, a
  zone with the constant offset of one hour.
\<close>

section \<open>Definitions\<close>

datatype checkout_error =
    CHECKOUT_CART_REQUIRED
  | CHECKOUT_CART_NOT_READY
  | CHECKOUT_ADDRESS_NOT_FOUND
  | CHECKOUT_ADDRESS_COORDINATES_REQUIRED
  | CHECKOUT_ADDRESS_OUTSIDE_ZONE
  | CHECKOUT_DELIVERY_ZONE_AMBIGUOUS
  | CHECKOUT_PRICING_RULE_NOT_FOUND
  | CHECKOUT_PRICING_CONFIGURATION_INVALID
  | CHECKOUT_MERCHANT_NOT_OPERATIONAL
  | CHECKOUT_BRANCH_NOT_OPERATIONAL
  | CHECKOUT_BRANCH_CLOSED
  | CHECKOUT_BRANCH_HOURS_NOT_CONFIGURED

fun checkout_http_status :: "checkout_error \<Rightarrow> int" where
  "checkout_http_status CHECKOUT_ADDRESS_NOT_FOUND = 404"
| "checkout_http_status CHECKOUT_ADDRESS_COORDINATES_REQUIRED = 400"
| "checkout_http_status _ = 409"

datatype time_band = DAY | NIGHT | CUSTOM

record pricing_rule =
  pr_id :: string
  pr_zoneId :: string
  pr_name :: string
  pr_timeBand :: time_band
  pr_startLocalTime :: "string option"
  pr_endLocalTime :: "string option"
  pr_customerDeliveryFeeMinor :: jsnum
  pr_driverRemunerationMinor :: jsnum
  pr_effectiveFrom :: stamp
  pr_effectiveTo :: "stamp option"
  pr_active :: bool

definition localTimeOfDaySeconds :: "instant \<Rightarrow> int" where
  "localTimeOfDaySeconds t = (t div 1000 + 3600) mod 86400"

definition two_digits :: "char \<Rightarrow> char \<Rightarrow> int option" where
  "two_digits a b =
     (if is_digit a \<and> is_digit b then Some (int (10 * digit_val a + digit_val b)) else None)"

definition hms :: "int \<Rightarrow> int \<Rightarrow> int \<Rightarrow> int option" where
  "hms hour minute second =
     (if 23 < hour \<or> 59 < minute \<or> 59 < second then None
      else Some (hour * 3600 + minute * 60 + second))"

definition parseTimeOfDaySeconds :: "string \<Rightarrow> int option" where
  "parseTimeOfDaySeconds v =
     (case js_trim v of
        [a, b, c, d, e] \<Rightarrow>
          if c = CHR '':'' then
            Option.bind (two_digits a b) (\<lambda>h. Option.bind (two_digits d e) (\<lambda>m. hms h m 0))
          else None
      | [a, b, c, d, e, f, g, i] \<Rightarrow>
          if c = CHR '':'' \<and> f = CHR '':'' then
            Option.bind (two_digits a b) (\<lambda>h. Option.bind (two_digits d e) (\<lambda>m.
            Option.bind (two_digits g i) (\<lambda>s. hms h m s)))
          else None
      | _ \<Rightarrow> None)"

definition isTimeInWindow :: "int \<Rightarrow> int \<Rightarrow> int \<Rightarrow> bool" where
  "isTimeInWindow nowSeconds startSeconds endSeconds =
     (if startSeconds = endSeconds then nowSeconds = startSeconds
      else if startSeconds < endSeconds
        then startSeconds \<le> nowSeconds \<and> nowSeconds \<le> endSeconds
      else startSeconds \<le> nowSeconds \<or> nowSeconds \<le> endSeconds)"

datatype local_window = AllDay | Invalid | Window int int

definition parseLocalWindow :: "string option \<Rightarrow> string option \<Rightarrow> local_window" where
  "parseLocalWindow startLocalTime endLocalTime =
     (case (startLocalTime, endLocalTime) of
        (None, None) \<Rightarrow> AllDay
      | (Some s, Some e) \<Rightarrow>
          (case (parseTimeOfDaySeconds s, parseTimeOfDaySeconds e) of
             (Some a, Some b) \<Rightarrow> Window a b
           | _ \<Rightarrow> Invalid)
      | _ \<Rightarrow> Invalid)"

definition localWindowSecondSet :: "string option \<Rightarrow> string option \<Rightarrow> int set option" where
  "localWindowSecondSet startLocalTime endLocalTime =
     (case parseLocalWindow startLocalTime endLocalTime of
        Invalid \<Rightarrow> None
      | AllDay \<Rightarrow> Some {s. 0 \<le> s \<and> s < 86400}
      | Window a b \<Rightarrow> Some {s. 0 \<le> s \<and> s < 86400 \<and> isTimeInWindow s a b})"

definition isRuleEffectiveAt :: "bool \<Rightarrow> stamp \<Rightarrow> stamp option \<Rightarrow> instant \<Rightarrow> bool" where
  "isRuleEffectiveAt active effectiveFrom effectiveTo t =
     (if \<not> active then False
      else case effectiveFrom of
             None \<Rightarrow> False
           | Some from \<Rightarrow>
               if t < from then False
               else (case effectiveTo of
                       None \<Rightarrow> True
                     | Some None \<Rightarrow> False
                     | Some (Some until) \<Rightarrow> t < until))"

text \<open>An interval of instants; \<open>None\<close> as its end is \<open>Number.POSITIVE_INFINITY\<close>.\<close>

definition effectiveIntervalMs :: "stamp \<Rightarrow> stamp option \<Rightarrow> (int \<times> int option) option" where
  "effectiveIntervalMs effectiveFrom effectiveTo =
     (case effectiveFrom of
        None \<Rightarrow> None
      | Some from \<Rightarrow>
          (case effectiveTo of
             None \<Rightarrow> Some (from, None)
           | Some None \<Rightarrow> None
           | Some (Some until) \<Rightarrow> if until \<le> from then None else Some (from, Some until)))"

fun min_end :: "int option \<Rightarrow> int option \<Rightarrow> int option" where
  "min_end None y = y"
| "min_end x None = x"
| "min_end (Some a) (Some b) = Some (min a b)"

definition effectiveIntervalsOverlap ::
  "int \<times> int option \<Rightarrow> int \<times> int option \<Rightarrow> (int \<times> int option) option" where
  "effectiveIntervalsOverlap a b =
     (let from = max (fst a) (fst b); until = min_end (snd a) (snd b)
      in case until of
           None \<Rightarrow> Some (from, None)
         | Some u \<Rightarrow> if \<not> from < u then None else Some (from, Some u))"

text \<open>The second-by-second scan of an overlap shorter than a day.\<close>

function scanSeconds :: "int set \<Rightarrow> int set \<Rightarrow> int \<Rightarrow> int \<Rightarrow> bool" where
  "scanSeconds setA setB t until =
     (if t < until then
        (if localTimeOfDaySeconds t \<in> setA \<and> localTimeOfDaySeconds t \<in> setB then True
         else scanSeconds setA setB (t + 1000) until)
      else False)"
  by pat_completeness auto
termination
  by (relation "measure (\<lambda>(a, b, t, until). nat (until - t))") auto

declare scanSeconds.simps [simp del]

definition shareSecond :: "int set \<Rightarrow> int set \<Rightarrow> bool" where
  "shareSecond setA setB = list_ex (\<lambda>s. int s \<in> setA \<and> int s \<in> setB) [0..<86400]"

definition pricingRulesApplicabilityConflict :: "pricing_rule \<Rightarrow> pricing_rule \<Rightarrow> bool" where
  "pricingRulesApplicabilityConflict a b =
     (case (effectiveIntervalMs (pr_effectiveFrom a) (pr_effectiveTo a),
            effectiveIntervalMs (pr_effectiveFrom b) (pr_effectiveTo b)) of
        (Some ia, Some ib) \<Rightarrow>
          (case effectiveIntervalsOverlap ia ib of
             None \<Rightarrow> False
           | Some (from, until) \<Rightarrow>
               (case (localWindowSecondSet (pr_startLocalTime a) (pr_endLocalTime a),
                      localWindowSecondSet (pr_startLocalTime b) (pr_endLocalTime b)) of
                  (Some setA, Some setB) \<Rightarrow>
                    if \<not> shareSecond setA setB then False
                    else (case until of
                            None \<Rightarrow> True
                          | Some u \<Rightarrow> if 86400000 \<le> u - from then True
                                      else scanSeconds setA setB from u)
                | _ \<Rightarrow> True))
      | _ \<Rightarrow> True)"

definition ruleAppliesAtLocalTime ::
  "string option \<Rightarrow> string option \<Rightarrow> int \<Rightarrow> checkout_error + bool" where
  "ruleAppliesAtLocalTime startLocalTime endLocalTime nowSeconds =
     (case parseLocalWindow startLocalTime endLocalTime of
        AllDay \<Rightarrow> Inr True
      | Invalid \<Rightarrow> Inl CHECKOUT_PRICING_CONFIGURATION_INVALID
      | Window a b \<Rightarrow> Inr (isTimeInWindow nowSeconds a b))"

fun selectLoop :: "int \<Rightarrow> instant \<Rightarrow> pricing_rule list \<Rightarrow> checkout_error + pricing_rule list" where
  "selectLoop nowSeconds t [] = Inr []"
| "selectLoop nowSeconds t (rule # rules) =
     (if \<not> isRuleEffectiveAt (pr_active rule) (pr_effectiveFrom rule) (pr_effectiveTo rule) t
      then selectLoop nowSeconds t rules
      else ebind (ruleAppliesAtLocalTime (pr_startLocalTime rule) (pr_endLocalTime rule) nowSeconds)
             (\<lambda>applies. ebind (selectLoop nowSeconds t rules)
               (\<lambda>rest. Inr (if applies then rule # rest else rest))))"

definition selectApplicablePricingRules ::
  "pricing_rule list \<Rightarrow> instant \<Rightarrow> checkout_error + pricing_rule list" where
  "selectApplicablePricingRules rules t = selectLoop (localTimeOfDaySeconds t) t rules"

definition requireSinglePricingRule :: "pricing_rule list \<Rightarrow> checkout_error + pricing_rule" where
  "requireSinglePricingRule rules =
     (case rules of
        [] \<Rightarrow> Inl CHECKOUT_PRICING_RULE_NOT_FOUND
      | [r] \<Rightarrow> Inr r
      | _ \<Rightarrow> Inl CHECKOUT_PRICING_CONFIGURATION_INVALID)"

definition customerTotalMinor :: "jsnum \<Rightarrow> jsnum \<Rightarrow> jsnum \<Rightarrow> checkout_error + jsnum" where
  "customerTotalMinor merchandiseSubtotalMinor deliveryFeeMinor discountMinor =
     (if \<not> isInteger merchandiseSubtotalMinor \<or> \<not> isInteger deliveryFeeMinor
         \<or> \<not> isInteger discountMinor \<or> js_less merchandiseSubtotalMinor (JInt 0)
         \<or> js_less deliveryFeeMinor (JInt 0) \<or> js_less discountMinor (JInt 0)
      then Inl CHECKOUT_PRICING_CONFIGURATION_INVALID
      else if js_less merchandiseSubtotalMinor discountMinor
      then Inl CHECKOUT_PRICING_CONFIGURATION_INVALID
      else let t = js_add (js_sub_int merchandiseSubtotalMinor discountMinor) deliveryFeeMinor
           in if \<not> isSafeInteger t \<or> js_less t (JInt 0)
              then Inl CHECKOUT_PRICING_CONFIGURATION_INVALID else Inr t)"

section \<open>Lemmas\<close>

lemma customerTotalMinor_ints:
  assumes "0 \<le> m" "0 \<le> f" "0 \<le> d" "d \<le> m"
  shows "customerTotalMinor (JInt m) (JInt f) (JInt d) =
    (if m - d + f \<le> MAX_SAFE_INTEGER then Inr (JInt (m - d + f))
     else Inl CHECKOUT_PRICING_CONFIGURATION_INVALID)"
proof (cases "m - d \<le> MAX_SAFE_INTEGER")
  case True
  then have "double_of_int (m - d) = JInt (m - d)"
    using assms by (simp add: double_of_int_exact)
  with assms show ?thesis
    using double_of_int_safe_iff [of "m - d + f"] double_of_int_exact [of "m - d + f"]
    by (simp add: customerTotalMinor_def Let_def)
next
  case False
  then have "\<not> isSafeInteger (js_add (double_of_int (m - d)) (JInt f))"
    using double_of_int_big [of "m - d"] double_of_int_unsafe assms(2) by fastforce
  with False assms show ?thesis by (simp add: customerTotalMinor_def Let_def)
qed

lemma localTime_range: "0 \<le> localTimeOfDaySeconds t \<and> localTimeOfDaySeconds t < 86400"
  by (simp add: localTimeOfDaySeconds_def)

lemma localTime_floor: "localTimeOfDaySeconds (t - t mod 1000) = localTimeOfDaySeconds t"
  by (simp add: localTimeOfDaySeconds_def minus_mod_eq_mult_div)

lemma localTime_reaches:
  assumes "0 \<le> s" "s < 86400"
  shows "\<exists>t. from \<le> t \<and> t < from + 86400000 \<and> localTimeOfDaySeconds t = s"
proof -
  define c where "c = 3600 + from div 1000"
  let ?k = "(s - c) mod 86400"
  have k: "0 \<le> ?k" "?k < 86400" by simp_all
  have "(from + 1000 * ?k) div 1000 = from div 1000 + ?k" by simp
  then have "localTimeOfDaySeconds (from + 1000 * ?k) = (c + ?k) mod 86400"
    by (simp add: localTimeOfDaySeconds_def c_def algebra_simps)
  also have "\<dots> = s" using assms by (simp add: mod_add_right_eq)
  finally show ?thesis using k by (intro exI [of _ "from + 1000 * ?k"]) simp
qed

lemma scanSeconds_iff:
  "scanSeconds A B t u \<longleftrightarrow>
   (\<exists>k::nat. t + 1000 * int k < u \<and> localTimeOfDaySeconds (t + 1000 * int k) \<in> A \<inter> B)"
proof (induction A B t u rule: scanSeconds.induct)
  case (1 A B t u)
  show ?case
  proof (cases "t < u \<and> localTimeOfDaySeconds t \<notin> A \<inter> B")
    case True
    have "scanSeconds A B t u \<longleftrightarrow> scanSeconds A B (t + 1000) u"
      using True by (subst scanSeconds.simps) auto
    also have "\<dots> \<longleftrightarrow> (\<exists>k::nat. t + 1000 * int (Suc k) < u \<and>
        localTimeOfDaySeconds (t + 1000 * int (Suc k)) \<in> A \<inter> B)"
      using "1.IH" True by (simp add: add.assoc)
    also have "\<dots> \<longleftrightarrow> (\<exists>k::nat. t + 1000 * int k < u \<and>
        localTimeOfDaySeconds (t + 1000 * int k) \<in> A \<inter> B)"
      using True
      by (subst (2) ex_nat_split) auto
    finally show ?thesis .
  next
    case False
    then show ?thesis
      by (subst scanSeconds.simps) (auto intro: exI [of _ "0::nat"])
  qed
qed

lemma shareSecond_iff: "shareSecond A B \<longleftrightarrow> (\<exists>s. 0 \<le> s \<and> s < 86400 \<and> s \<in> A \<inter> B)"
proof -
  have "shareSecond A B \<longleftrightarrow> (\<exists>n<86400. int n \<in> A \<inter> B)"
    by (auto simp: shareSecond_def list_ex_iff)
  also have "\<dots> \<longleftrightarrow> (\<exists>s. 0 \<le> s \<and> s < 86400 \<and> s \<in> A \<inter> B)"
    by (metis nat_less_iff nat_0_le of_nat_0_le_iff of_nat_less_iff of_nat_numeral)
  finally show ?thesis .
qed

section \<open>When a rule is selected\<close>

definition selectedAt :: "pricing_rule \<Rightarrow> instant \<Rightarrow> bool" where
  "selectedAt r t \<longleftrightarrow>
     isRuleEffectiveAt (pr_active r) (pr_effectiveFrom r) (pr_effectiveTo r) t \<and>
     ruleAppliesAtLocalTime (pr_startLocalTime r) (pr_endLocalTime r) (localTimeOfDaySeconds t)
       = Inr True"

definition interval_of :: "pricing_rule \<Rightarrow> (int \<times> int option) option" where
  "interval_of r = effectiveIntervalMs (pr_effectiveFrom r) (pr_effectiveTo r)"

definition seconds_of :: "pricing_rule \<Rightarrow> int set option" where
  "seconds_of r = localWindowSecondSet (pr_startLocalTime r) (pr_endLocalTime r)"

fun in_interval :: "int \<Rightarrow> int \<times> int option \<Rightarrow> bool" where
  "in_interval t (f, None) = (f \<le> t)"
| "in_interval t (f, Some u) = (f \<le> t \<and> t < u)"

text \<open>A rule whose start is a whole second, as a rule entered to the second is.\<close>

definition whole_second :: "pricing_rule \<Rightarrow> bool" where
  "whole_second r \<longleftrightarrow> (\<forall>f. pr_effectiveFrom r = Some f \<longrightarrow> f mod 1000 = 0)"

text \<open>A rule the code accepts as configured: a proper interval and a readable window.\<close>

definition configured :: "pricing_rule \<Rightarrow> bool" where
  "configured r \<longleftrightarrow> pr_active r \<and> interval_of r \<noteq> None \<and> seconds_of r \<noteq> None"

lemma selectedAt_iff:
  "selectedAt r t \<longleftrightarrow> pr_active r \<and>
   (\<exists>i S. interval_of r = Some i \<and> in_interval t i \<and> seconds_of r = Some S \<and>
      localTimeOfDaySeconds t \<in> S)"
proof -
  have e: "isRuleEffectiveAt (pr_active r) (pr_effectiveFrom r) (pr_effectiveTo r) t \<longleftrightarrow>
      pr_active r \<and> (\<exists>i. interval_of r = Some i \<and> in_interval t i)"
    by (auto simp: isRuleEffectiveAt_def interval_of_def effectiveIntervalMs_def
        split: option.splits if_splits)
  have w: "ruleAppliesAtLocalTime (pr_startLocalTime r) (pr_endLocalTime r) n = Inr True \<longleftrightarrow>
      (\<exists>S. seconds_of r = Some S \<and> n \<in> S)" if "0 \<le> n" "n < 86400" for n
    using that by (auto simp: ruleAppliesAtLocalTime_def seconds_of_def localWindowSecondSet_def
        split: local_window.splits)
  show ?thesis
    using localTime_range [of t] by (auto simp: selectedAt_def e w)
qed

lemma in_interval_overlap:
  "in_interval t a \<and> in_interval t b \<longleftrightarrow>
   (\<exists>i. effectiveIntervalsOverlap a b = Some i \<and> in_interval t i)"
  by (cases a; cases b; cases "snd a"; cases "snd b")
    (auto simp: effectiveIntervalsOverlap_def Let_def)

lemma conflict_unfold:
  assumes "interval_of a = Some ia" "interval_of b = Some ib"
    and "seconds_of a = Some A" "seconds_of b = Some B"
  shows "pricingRulesApplicabilityConflict a b \<longleftrightarrow>
    (\<exists>f u. effectiveIntervalsOverlap ia ib = Some (f, u) \<and> shareSecond A B \<and>
      (case u of None \<Rightarrow> True | Some v \<Rightarrow> 86400000 \<le> v - f \<or> scanSeconds A B f v))"
  using assms
  by (auto simp: pricingRulesApplicabilityConflict_def interval_of_def seconds_of_def
      split: option.splits)

lemma seconds_range: "seconds_of r = Some S \<Longrightarrow> s \<in> S \<Longrightarrow> 0 \<le> s \<and> s < 86400"
  by (auto simp: seconds_of_def localWindowSecondSet_def split: local_window.splits)

lemma conflict_sound:
  assumes "configured a" "configured b" "pricingRulesApplicabilityConflict a b"
  shows "\<exists>t. selectedAt a t \<and> selectedAt b t"
proof -
  obtain ia ib A B where i: "interval_of a = Some ia" "interval_of b = Some ib"
      "seconds_of a = Some A" "seconds_of b = Some B"
    using assms(1,2) unfolding configured_def by blast
  obtain f u where o: "effectiveIntervalsOverlap ia ib = Some (f, u)" and sh: "shareSecond A B"
    and c: "case u of None \<Rightarrow> True | Some v \<Rightarrow> 86400000 \<le> v - f \<or> scanSeconds A B f v"
    using assms(3) unfolding conflict_unfold [OF i] by blast
  have "\<exists>t. in_interval t (f, u) \<and> localTimeOfDaySeconds t \<in> A \<inter> B"
  proof (cases "\<exists>v. u = Some v \<and> v - f < 86400000")
    case True
    then obtain v where "u = Some v" "scanSeconds A B f v" using c by auto
    then obtain k where k: "f + 1000 * int k < v"
      "localTimeOfDaySeconds (f + 1000 * int k) \<in> A \<inter> B" unfolding scanSeconds_iff by blast
    with \<open>u = Some v\<close> show ?thesis by (intro exI [of _ "f + 1000 * int k"]) simp
  next
    case False
    obtain s where s: "0 \<le> s" "s < 86400" "s \<in> A \<inter> B" using sh unfolding shareSecond_iff by blast
    obtain t where t: "f \<le> t" "t < f + 86400000" "localTimeOfDaySeconds t = s"
      using localTime_reaches [OF s(1,2)] by blast
    then have "in_interval t (f, u)" using False by (cases u) auto
    with t s show ?thesis by auto
  qed
  then obtain t where "in_interval t (f, u)" "localTimeOfDaySeconds t \<in> A \<inter> B" by blast
  then show ?thesis
    using i o in_interval_overlap [of t ia ib] assms(1,2)
    by (intro exI [of _ t]) (auto simp: selectedAt_iff configured_def)
qed

lemma overlap_start:
  "effectiveIntervalsOverlap a b = Some (f, u) \<Longrightarrow> f = fst a \<or> f = fst b"
  by (auto simp: effectiveIntervalsOverlap_def Let_def max_def split: option.splits if_splits)

lemma interval_start: "interval_of r = Some (f, u) \<Longrightarrow> pr_effectiveFrom r = Some f"
  by (auto simp: interval_of_def effectiveIntervalMs_def split: option.splits if_splits)

lemma conflict_complete:
  assumes "whole_second a" "whole_second b" "selectedAt a t" "selectedAt b t"
  shows "pricingRulesApplicabilityConflict a b"
proof -
  obtain ia ib A B where i: "interval_of a = Some ia" "interval_of b = Some ib"
      "seconds_of a = Some A" "seconds_of b = Some B"
    and l: "localTimeOfDaySeconds t \<in> A \<inter> B" and t: "in_interval t ia" "in_interval t ib"
    using assms(3,4) unfolding selectedAt_iff by blast
  obtain f u where o: "effectiveIntervalsOverlap ia ib = Some (f, u)" and tf: "in_interval t (f, u)"
    using in_interval_overlap [of t ia ib] t by auto
  have f0: "f mod 1000 = 0"
    using overlap_start [OF o] i assms(1,2) interval_start
    by (metis prod.collapse whole_second_def)
  define k where "k = nat ((t - f) div 1000)"
  obtain q where q: "f = 1000 * q" using f0 by (metis mod_0_imp_dvd dvd_def)
  have ft: "f \<le> t" using tf by (cases u) simp_all
  then have "(t - f) div 1000 = t div 1000 - q" "0 \<le> (t - f) div 1000"
    unfolding q by (simp_all add: pos_imp_zdiv_nonneg_iff)
  then have "f + 1000 * int k = t - t mod 1000"
    by (simp add: k_def q minus_mod_eq_mult_div)
  then have "localTimeOfDaySeconds (f + 1000 * int k) \<in> A \<inter> B" "f + 1000 * int k \<le> t"
    using l by (simp_all add: localTime_floor)
  then have "scanSeconds A B f v" if "u = Some v" for v
    using tf that unfolding scanSeconds_iff by (intro exI [of _ k]) auto
  moreover have "shareSecond A B"
    using l localTime_range [of t] unfolding shareSecond_iff by blast
  ultimately show ?thesis
    unfolding conflict_unfold [OF i] using o by (cases u) auto
qed

interpretation pricing: exclusive_rules selectedAt pricingRulesApplicabilityConflict whole_second
  by unfold_locales (rule conflict_complete)

lemma selectLoop_filter:
  "selectLoop (localTimeOfDaySeconds t) t rules = Inr xs \<Longrightarrow>
   xs = filter (\<lambda>r. selectedAt r t) rules"
  by (induction rules arbitrary: xs)
    (auto simp: ebind_Inr selectedAt_def split: if_splits)

lemma selectLoop_total:
  "\<forall>r \<in> set rules. seconds_of r \<noteq> None \<Longrightarrow>
   \<exists>xs. selectLoop n t rules = Inr xs"
proof (induction rules)
  case (Cons r rules)
  then obtain xs where "selectLoop n t rules = Inr xs" by auto
  with Cons.prems show ?case
    by (auto simp: ruleAppliesAtLocalTime_def seconds_of_def localWindowSecondSet_def
        split: local_window.splits)
qed simp

section \<open>Properties\<close>

text \<open>
  C3. For rules that start on a whole second, the administrator's conflict check agrees with
  checkout: two configured rules conflict exactly when there is an instant at which checkout
  would select both.
\<close>

theorem pricing_conflict_exact:
  assumes "configured a" "configured b" "whole_second a" "whole_second b"
  shows "pricingRulesApplicabilityConflict a b \<longleftrightarrow> (\<exists>t. selectedAt a t \<and> selectedAt b t)"
  using conflict_sound [OF assms(1,2)] conflict_complete [OF assms(3,4)] by blast

definition example_rule :: "int \<Rightarrow> int option \<Rightarrow> string option \<Rightarrow> string option \<Rightarrow> pricing_rule" where
  "example_rule from until s e =
     \<lparr>pr_id = ''r'', pr_zoneId = ''z'', pr_name = ''n'', pr_timeBand = CUSTOM,
      pr_startLocalTime = s, pr_endLocalTime = e, pr_customerDeliveryFeeMinor = JInt 300,
      pr_driverRemunerationMinor = JInt 200, pr_effectiveFrom = Some from,
      pr_effectiveTo = map_option Some until, pr_active = True\<rparr>"

theorem pricing_conflict_exact_witness:
  "pricingRulesApplicabilityConflict (example_rule 0 None None None)
     (example_rule 5000 (Some 9000) None None) \<longleftrightarrow>
   (\<exists>t. selectedAt (example_rule 0 None None None) t \<and>
        selectedAt (example_rule 5000 (Some 9000) None None) t)"
  by (rule pricing_conflict_exact)
    (simp_all add: configured_def whole_second_def example_rule_def interval_of_def seconds_of_def
      effectiveIntervalMs_def localWindowSecondSet_def parseLocalWindow_def)

text \<open>
  C4. Without whole seconds the check is incomplete: it samples the common interval once per
  1000 ms from its start, so it can miss the last local second the interval touches. There
  are two configured rules that checkout selects at the same instant and that the check
  lets an administrator activate together.
\<close>

theorem pricing_conflict_incomplete:
  "\<exists>a b t. configured a \<and> configured b \<and> selectedAt a t \<and> selectedAt b t \<and>
     \<not> pricingRulesApplicabilityConflict a b"
proof -
  let ?a = "example_rule 900 (Some 1500) None None"
  let ?b = "example_rule 0 None (Some ''01:00:01'') (Some ''01:00:01'')"
  have w: "parseLocalWindow (Some ''01:00:01'') (Some ''01:00:01'') = Window 3601 3601"
    by code_simp
  let ?A = "{s. 0 \<le> s \<and> s < 86400}" and ?B = "{s. 0 \<le> s \<and> s < 86400 \<and> isTimeInWindow s 3601 3601}"
  have i: "interval_of ?a = Some (900, Some 1500)" "interval_of ?b = Some (0, None)"
      "seconds_of ?a = Some ?A" "seconds_of ?b = Some ?B"
    by (simp_all add: example_rule_def interval_of_def seconds_of_def effectiveIntervalMs_def
        localWindowSecondSet_def w) (simp add: parseLocalWindow_def)
  have l: "localTimeOfDaySeconds 1200 = 3601" "localTimeOfDaySeconds 900 = 3600"
    by (simp_all add: localTimeOfDaySeconds_def)
  have act: "pr_active ?a" "pr_active ?b" by (simp_all add: example_rule_def)
  have a: "configured ?a" "configured ?b" "selectedAt ?a 1200" "selectedAt ?b 1200"
    using i act l by (simp_all add: configured_def selectedAt_iff isTimeInWindow_def)
  have "\<not> scanSeconds ?A ?B 900 1500"
  proof
    assume "scanSeconds ?A ?B 900 1500"
    then obtain k :: nat where k: "900 + 1000 * int k < 1500"
      "localTimeOfDaySeconds (900 + 1000 * int k) \<in> ?B" unfolding scanSeconds_iff by blast
    from k(1) have "k = 0" by linarith
    with k(2) l(2) show False by (simp add: isTimeInWindow_def)
  qed
  then have "\<not> pricingRulesApplicabilityConflict ?a ?b"
    unfolding conflict_unfold [OF i] by (auto simp: effectiveIntervalsOverlap_def)
  with a show ?thesis by blast
qed



end
