(* ===== verification/Commission.thy ===== *)
theory Commission
  imports Pricing
begin

text \<open>
  Merchant commissions: \<open>modules/merchant-commissions/domain/merchant-commission.policy.ts\<close>
  (rates, rule selection, the amount) and the rule table that
  \<open>application/merchant-commission.service.ts\<close> maintains through
  \<open>infrastructure/merchant-commission.repository.ts\<close>. The state is the list of rule rows; an
  operation runs in one transaction under the advisory lock of its scope.
\<close>

section \<open>Policy\<close>

datatype commission_error =
    MERCHANT_COMMISSION_RULE_NOT_FOUND
  | MERCHANT_COMMISSION_RULE_AMBIGUOUS
  | MERCHANT_COMMISSION_RATE_INVALID
  | MERCHANT_COMMISSION_BASE_INVALID
  | MERCHANT_COMMISSION_CONFIGURATION_INVALID

fun commission_http_status :: "commission_error \<Rightarrow> int" where
  "commission_http_status MERCHANT_COMMISSION_RATE_INVALID = 400"
| "commission_http_status MERCHANT_COMMISSION_BASE_INVALID = 400"
| "commission_http_status _ = 409"

abbreviation GLOBAL_DEFAULT :: string where "GLOBAL_DEFAULT \<equiv> ''GLOBAL_DEFAULT''"
abbreviation MERCHANT_OVERRIDE :: string where "MERCHANT_OVERRIDE \<equiv> ''MERCHANT_OVERRIDE''"

record commission_rule =
  cr_id :: string
  cr_scope :: string
  cr_merchantId :: "string option"
  cr_rateBps :: jsnum
  cr_effectiveFrom :: stamp
  cr_effectiveTo :: "stamp option"
  cr_active :: bool

record resolved_rule =
  rr_ruleId :: string
  rr_scope :: string
  rr_merchantId :: "string option"
  rr_rateBps :: jsnum

definition MERCHANT_COMMISSION_RATE_BPS_MAX :: int where
  "MERCHANT_COMMISSION_RATE_BPS_MAX = 10000"

definition isCommissionRateBps :: "jsnum \<Rightarrow> bool" where
  "isCommissionRateBps rateBps \<longleftrightarrow>
     isInteger rateBps \<and> \<not> js_less rateBps (JInt 0)
     \<and> \<not> js_less (JInt MERCHANT_COMMISSION_RATE_BPS_MAX) rateBps"

definition requireCommissionRateBps :: "jsnum \<Rightarrow> commission_error + jsnum" where
  "requireCommissionRateBps rateBps =
     (if \<not> isCommissionRateBps rateBps then Inl MERCHANT_COMMISSION_RATE_INVALID else Inr rateBps)"

definition parseCommissionScope :: "string \<Rightarrow> commission_error + string" where
  "parseCommissionScope scope =
     (if scope = GLOBAL_DEFAULT \<or> scope = MERCHANT_OVERRIDE then Inr scope
      else Inl MERCHANT_COMMISSION_CONFIGURATION_INVALID)"

definition requireValidCommissionScopeMerchant ::
  "string \<Rightarrow> string option \<Rightarrow> commission_error + string" where
  "requireValidCommissionScopeMerchant rawScope merchantId =
     ebind (parseCommissionScope rawScope) (\<lambda>scope.
       if scope = GLOBAL_DEFAULT \<and> merchantId \<noteq> None
         then Inl MERCHANT_COMMISSION_CONFIGURATION_INVALID
       else if scope = MERCHANT_OVERRIDE \<and> (merchantId = None \<or> merchantId = Some [])
         then Inl MERCHANT_COMMISSION_CONFIGURATION_INVALID
       else Inr scope)"

definition isCommissionRuleEffectiveAt :: "commission_rule \<Rightarrow> instant \<Rightarrow> bool" where
  "isCommissionRuleEffectiveAt rule t =
     isRuleEffectiveAt (cr_active rule) (cr_effectiveFrom rule) (cr_effectiveTo rule) t"

definition requireSelectedRuleStillValid ::
  "resolved_rule \<Rightarrow> commission_rule option \<Rightarrow> string \<Rightarrow> instant \<Rightarrow>
   commission_error + resolved_rule" where
  "requireSelectedRuleStillValid selected lockedRow orderMerchantId commissionDecisionAt =
     (case lockedRow of
        None \<Rightarrow> Inl MERCHANT_COMMISSION_RULE_NOT_FOUND
      | Some row \<Rightarrow>
          if cr_id row \<noteq> rr_ruleId selected \<or> cr_scope row \<noteq> rr_scope selected
             \<or> cr_rateBps row \<noteq> rr_rateBps selected
             \<or> cr_merchantId row \<noteq> rr_merchantId selected
             \<or> \<not> isCommissionRuleEffectiveAt row commissionDecisionAt
          then Inl MERCHANT_COMMISSION_RULE_NOT_FOUND
          else if rr_scope selected = MERCHANT_OVERRIDE
             \<and> rr_merchantId selected \<noteq> Some orderMerchantId
          then Inl MERCHANT_COMMISSION_RULE_NOT_FOUND
          else if rr_scope selected = GLOBAL_DEFAULT \<and> rr_merchantId selected \<noteq> None
          then Inl MERCHANT_COMMISSION_RULE_NOT_FOUND
          else Inr selected)"

text \<open>\<open>Date.parse\<close> of a window bound as a number: NaN where it does not parse.\<close>

definition stampMs :: "stamp \<Rightarrow> jsnum" where
  "stampMs s = (case s of None \<Rightarrow> JNaN | Some ms \<Rightarrow> JInt ms)"

definition windowEndMs :: "stamp option \<Rightarrow> jsnum" where
  "windowEndMs effectiveTo = (case effectiveTo of None \<Rightarrow> JInf | Some s \<Rightarrow> stampMs s)"

definition commissionWindowsOverlap ::
  "stamp \<times> stamp option \<Rightarrow> stamp \<times> stamp option \<Rightarrow> bool" where
  "commissionWindowsOverlap left right =
     (let leftStart = stampMs (fst left); rightStart = stampMs (fst right)
      in if \<not> isFinite leftStart \<or> \<not> isFinite rightStart then True
         else js_less leftStart (windowEndMs (snd right))
              \<and> js_less rightStart (windowEndMs (snd left)))"

definition calculateMerchantCommissionAmountMinor :: "jsnum \<Rightarrow> jsnum \<Rightarrow> commission_error + jsnum" where
  "calculateMerchantCommissionAmountMinor commissionBaseMinor rateBps =
     (if \<not> isInteger commissionBaseMinor \<or> \<not> isSafeInteger commissionBaseMinor
         \<or> js_less commissionBaseMinor (JInt 0)
      then Inl MERCHANT_COMMISSION_BASE_INVALID
      else ebind (requireCommissionRateBps rateBps) (\<lambda>_.
        let amount = (the_int commissionBaseMinor * the_int rateBps) div 10000
        in if MAX_SAFE_INTEGER < amount then Inl MERCHANT_COMMISSION_BASE_INVALID
           else Inr (double_of_int amount)))"

record commission_calculation =
  cc_commissionBaseMinor :: jsnum
  cc_rateBps :: jsnum
  cc_commissionMinor :: jsnum
  cc_merchantNetFromBaseMinor :: jsnum

definition calculateMerchantCommission ::
  "jsnum \<Rightarrow> jsnum \<Rightarrow> commission_error + commission_calculation" where
  "calculateMerchantCommission commissionBaseMinor rateBps =
     ebind (calculateMerchantCommissionAmountMinor commissionBaseMinor rateBps) (\<lambda>commissionMinor.
       if js_less commissionBaseMinor commissionMinor
       then Inl MERCHANT_COMMISSION_CONFIGURATION_INVALID
       else Inr \<lparr>cc_commissionBaseMinor = commissionBaseMinor, cc_rateBps = rateBps,
                 cc_commissionMinor = commissionMinor,
                 cc_merchantNetFromBaseMinor = js_sub_int commissionBaseMinor commissionMinor\<rparr>)"

definition toResolved :: "commission_rule \<Rightarrow> commission_error + resolved_rule" where
  "toResolved rule =
     ebind (parseCommissionScope (cr_scope rule)) (\<lambda>scope.
     ebind (requireCommissionRateBps (cr_rateBps rule)) (\<lambda>_.
     ebind (requireValidCommissionScopeMerchant scope (cr_merchantId rule)) (\<lambda>_.
     Inr \<lparr>rr_ruleId = cr_id rule, rr_scope = scope, rr_merchantId = cr_merchantId rule,
          rr_rateBps = cr_rateBps rule\<rparr>)))"

definition selectApplicableMerchantCommissionRule ::
  "commission_rule list \<Rightarrow> string \<Rightarrow> instant \<Rightarrow> commission_error + resolved_rule" where
  "selectApplicableMerchantCommissionRule rules merchantId t =
     (let effective = filter (\<lambda>rule. isCommissionRuleEffectiveAt rule t) rules;
          overrides = filter (\<lambda>rule. cr_scope rule = MERCHANT_OVERRIDE
                                \<and> cr_merchantId rule = Some merchantId) effective
      in case overrides of
           _ # _ # _ \<Rightarrow> Inl MERCHANT_COMMISSION_RULE_AMBIGUOUS
         | [r] \<Rightarrow> toResolved r
         | [] \<Rightarrow>
             (case filter (\<lambda>rule. cr_scope rule = GLOBAL_DEFAULT \<and> cr_merchantId rule = None)
                     effective of
                [] \<Rightarrow> Inl MERCHANT_COMMISSION_RULE_NOT_FOUND
              | _ # _ # _ \<Rightarrow> Inl MERCHANT_COMMISSION_RULE_AMBIGUOUS
              | [g] \<Rightarrow> toResolved g))"

section \<open>The rule table\<close>

definition findRuleById :: "commission_rule list \<Rightarrow> string \<Rightarrow> commission_rule option" where
  "findRuleById rules ruleId = find (\<lambda>r. cr_id r = ruleId) rules"

definition listActiveCandidateRules :: "commission_rule list \<Rightarrow> string \<Rightarrow> commission_rule list" where
  "listActiveCandidateRules rules merchantId =
     filter (\<lambda>r. cr_merchantId r = Some merchantId \<and> cr_active r \<and> cr_scope r = MERCHANT_OVERRIDE) rules
     @ filter (\<lambda>r. cr_active r \<and> cr_scope r = GLOBAL_DEFAULT) rules"

definition listActiveRulesByScope ::
  "commission_rule list \<Rightarrow> string \<Rightarrow> string option \<Rightarrow> commission_rule list" where
  "listActiveRulesByScope rules scope merchantId =
     (if scope = GLOBAL_DEFAULT then filter (\<lambda>r. cr_active r \<and> cr_scope r = GLOBAL_DEFAULT) rules
      else case merchantId of
             None \<Rightarrow> []
           | Some m \<Rightarrow> if m = [] then []
               else filter (\<lambda>r. cr_merchantId r = Some m \<and> cr_active r
                              \<and> cr_scope r = MERCHANT_OVERRIDE) rules)"

definition assertEffectiveRange :: "stamp \<Rightarrow> stamp option \<Rightarrow> commission_error + unit" where
  "assertEffectiveRange effectiveFrom effectiveTo =
     (case effectiveFrom of
        None \<Rightarrow> Inl MERCHANT_COMMISSION_CONFIGURATION_INVALID
      | Some from \<Rightarrow>
          (case effectiveTo of
             None \<Rightarrow> Inr ()
           | Some None \<Rightarrow> Inl MERCHANT_COMMISSION_CONFIGURATION_INVALID
           | Some (Some until) \<Rightarrow>
               if until \<le> from then Inl MERCHANT_COMMISSION_CONFIGURATION_INVALID else Inr ()))"

record create_rule_input =
  ci_scope :: string
  ci_merchantId :: "string option"
  ci_rateBps :: jsnum
  ci_effectiveFrom :: "stamp option"
  ci_effectiveTo :: "stamp option"

text \<open>\<open>newId\<close> is the fresh UUID of the row, \<open>decisionAt\<close> the database clock of the transaction.\<close>

definition createRule ::
  "string \<Rightarrow> instant \<Rightarrow> create_rule_input \<Rightarrow> commission_rule list \<Rightarrow>
   commission_error + commission_rule \<times> commission_rule list" where
  "createRule newId decisionAt input rules =
     ebind (requireValidCommissionScopeMerchant (ci_scope input) (ci_merchantId input)) (\<lambda>scope.
     ebind (requireCommissionRateBps (ci_rateBps input)) (\<lambda>_.
     ebind (case ci_effectiveFrom input of
              None \<Rightarrow> Inr ()
            | Some from \<Rightarrow> assertEffectiveRange from (ci_effectiveTo input)) (\<lambda>_.
     let effectiveFrom = js_default (ci_effectiveFrom input) (Some decisionAt);
         effectiveTo = ci_effectiveTo input
     in ebind (assertEffectiveRange effectiveFrom effectiveTo) (\<lambda>_.
        let existing = listActiveRulesByScope rules scope (ci_merchantId input);
            overlapping = filter (\<lambda>r. commissionWindowsOverlap
                (cr_effectiveFrom r, cr_effectiveTo r) (effectiveFrom, effectiveTo)) existing
        in if 0 < length overlapping then Inl MERCHANT_COMMISSION_CONFIGURATION_INVALID
           else let row = \<lparr>cr_id = newId, cr_scope = scope, cr_merchantId = ci_merchantId input,
                          cr_rateBps = ci_rateBps input, cr_effectiveFrom = effectiveFrom,
                          cr_effectiveTo = effectiveTo, cr_active = True\<rparr>
                in Inr (row, rules @ [row])))))"

definition deactivateRow :: "string \<Rightarrow> stamp option \<Rightarrow> commission_rule \<Rightarrow> commission_rule" where
  "deactivateRow ruleId effectiveTo r =
     (if cr_id r = ruleId
      then (case effectiveTo of
              None \<Rightarrow> r\<lparr>cr_active := False\<rparr>
            | Some s \<Rightarrow> r\<lparr>cr_active := False, cr_effectiveTo := Some s\<rparr>)
      else r)"

definition deactivateRule ::
  "string \<Rightarrow> instant \<Rightarrow> commission_rule list \<Rightarrow>
   commission_error + commission_rule option \<times> commission_rule list" where
  "deactivateRule ruleId decisionAt rules =
     (case findRuleById rules ruleId of
        None \<Rightarrow> Inl MERCHANT_COMMISSION_RULE_NOT_FOUND
      | Some row \<Rightarrow>
          ebind (requireValidCommissionScopeMerchant (cr_scope row) (cr_merchantId row)) (\<lambda>_.
            if \<not> cr_active row then Inr (Some row, rules)
            else let canCloseWindow = (case cr_effectiveFrom row of
                                         None \<Rightarrow> False | Some fromMs \<Rightarrow> fromMs < decisionAt);
                     effectiveTo = (if canCloseWindow then Some (Some decisionAt) else None);
                     rules' = map (deactivateRow ruleId effectiveTo) rules
                 in Inr (findRuleById rules' ruleId, rules')))"

definition resolveApplicable ::
  "commission_rule list \<Rightarrow> string \<Rightarrow> instant \<Rightarrow> commission_error + resolved_rule" where
  "resolveApplicable rules merchantId commissionDecisionAt =
     ebind (selectApplicableMerchantCommissionRule (listActiveCandidateRules rules merchantId)
              merchantId commissionDecisionAt) (\<lambda>selected.
       requireSelectedRuleStillValid selected (findRuleById rules (rr_ruleId selected)) merchantId
         commissionDecisionAt)"

text \<open>The histories of the table: creations with fresh ids and deactivations, from empty.\<close>

inductive commission_reachable :: "commission_rule list \<Rightarrow> bool" where
  empty: "commission_reachable []"
| create: "commission_reachable rules \<Longrightarrow> newId \<notin> cr_id ` set rules \<Longrightarrow>
     createRule newId now input rules = Inr (row, rules') \<Longrightarrow> commission_reachable rules'"
| deactivate: "commission_reachable rules \<Longrightarrow>
     deactivateRule ruleId now rules = Inr (row, rules') \<Longrightarrow> commission_reachable rules'"

section \<open>Lemmas\<close>

lemma isCommissionRateBps_iff [guards]:
  "isCommissionRateBps r \<longleftrightarrow> (\<exists>n. r = JInt n \<and> 0 \<le> n \<and> n \<le> 10000)"
  by (cases r) (auto simp: isCommissionRateBps_def MERCHANT_COMMISSION_RATE_BPS_MAX_def)

lemma commission_floor_le: "0 \<le> (b::int) \<Longrightarrow> r \<le> 10000 \<Longrightarrow> b * r div 10000 \<le> b"
proof -
  assume "0 \<le> b" "r \<le> 10000"
  then have "b * r \<le> b * 10000" by (intro mult_left_mono) simp_all
  then have "b * r div 10000 \<le> b * 10000 div 10000" by (rule zdiv_mono1) simp
  then show ?thesis by simp
qed

lemma commission_amount:
  "calculateMerchantCommissionAmountMinor b r = Inr a \<longleftrightarrow>
   (\<exists>m n. b = JInt m \<and> r = JInt n \<and> 0 \<le> m \<and> m \<le> MAX_SAFE_INTEGER \<and> 0 \<le> n \<and> n \<le> 10000 \<and>
      a = JInt (m * n div 10000))"
proof -
  have bound: "m * n div 10000 \<le> MAX_SAFE_INTEGER" "0 \<le> m * n div 10000"
    if "0 \<le> m" "m \<le> MAX_SAFE_INTEGER" "0 \<le> n" "n \<le> 10000" for m n :: int
    using commission_floor_le [of m n] that by (simp_all add: pos_imp_zdiv_nonneg_iff)
  show ?thesis
    by (cases b)
      (auto simp: calculateMerchantCommissionAmountMinor_def requireCommissionRateBps_def
        isCommissionRateBps_iff ebind_Inr Let_def double_of_int_exact bound not_le not_less
        dest: bound split: if_splits)
qed

lemma js_less_stampMs [simp]: "js_less (JInt a) (stampMs s) \<longleftrightarrow> (\<exists>b. s = Some b \<and> a < b)"
  by (cases s) (auto simp: stampMs_def)

lemma overlap_complete_commission:
  "isCommissionRuleEffectiveAt a t \<Longrightarrow> isCommissionRuleEffectiveAt b t \<Longrightarrow>
   commissionWindowsOverlap (cr_effectiveFrom a, cr_effectiveTo a)
     (cr_effectiveFrom b, cr_effectiveTo b)"
  by (auto simp: isCommissionRuleEffectiveAt_def isRuleEffectiveAt_def commissionWindowsOverlap_def
      windowEndMs_def Let_def split: option.splits if_splits) (auto simp: stampMs_def)

interpretation commission: exclusive_rules isCommissionRuleEffectiveAt
  "\<lambda>a b. commissionWindowsOverlap (cr_effectiveFrom a, cr_effectiveTo a)
           (cr_effectiveFrom b, cr_effectiveTo b)" "\<lambda>_. True"
  by unfold_locales (rule overlap_complete_commission)

definition rule_valid :: "commission_rule \<Rightarrow> bool" where
  "rule_valid r \<longleftrightarrow>
     isCommissionRateBps (cr_rateBps r) \<and>
     (if cr_scope r = GLOBAL_DEFAULT then cr_merchantId r = None
      else cr_scope r = MERCHANT_OVERRIDE \<and> (\<exists>m. cr_merchantId r = Some m \<and> m \<noteq> []))"

definition rules_exclusive :: "commission_rule \<Rightarrow> commission_rule \<Rightarrow> bool" where
  "rules_exclusive a b \<longleftrightarrow>
     (cr_active a \<and> cr_active b \<and> cr_scope a = cr_scope b \<and> cr_merchantId a = cr_merchantId b \<longrightarrow>
      \<not> commissionWindowsOverlap (cr_effectiveFrom a, cr_effectiveTo a)
          (cr_effectiveFrom b, cr_effectiveTo b))"

definition commission_inv :: "commission_rule list \<Rightarrow> bool" where
  "commission_inv rules \<longleftrightarrow>
     distinct (map cr_id rules) \<and> (\<forall>r \<in> set rules. rule_valid r) \<and>
     sorted_wrt rules_exclusive rules"

lemma requireValidScope_ok [guards]:
  "requireValidCommissionScopeMerchant sc m = Inr s \<longleftrightarrow> s = sc \<and>
   ((sc = GLOBAL_DEFAULT \<and> m = None) \<or> (sc = MERCHANT_OVERRIDE \<and> (\<exists>x. m = Some x \<and> x \<noteq> [])))"
  by (cases m) (auto simp: requireValidCommissionScopeMerchant_def parseCommissionScope_def)

lemma createRule_ok:
  assumes "createRule newId now input rules = Inr (row, rules')"
  shows "rules' = rules @ [row] \<and> cr_id row = newId \<and> rule_valid row \<and>
    filter (\<lambda>r. commissionWindowsOverlap (cr_effectiveFrom r, cr_effectiveTo r)
      (cr_effectiveFrom row, cr_effectiveTo row))
      (listActiveRulesByScope rules (cr_scope row) (cr_merchantId row)) = []"
proof -
  from assms obtain scope where sc: "requireValidCommissionScopeMerchant (ci_scope input)
      (ci_merchantId input) = Inr scope"
    and rate: "isCommissionRateBps (ci_rateBps input)"
    and f: "filter (\<lambda>r. commissionWindowsOverlap (cr_effectiveFrom r, cr_effectiveTo r)
        (js_default (ci_effectiveFrom input) (Some now), ci_effectiveTo input))
        (listActiveRulesByScope rules scope (ci_merchantId input)) = []"
    and row: "row = \<lparr>cr_id = newId, cr_scope = scope, cr_merchantId = ci_merchantId input,
        cr_rateBps = ci_rateBps input,
        cr_effectiveFrom = js_default (ci_effectiveFrom input) (Some now),
        cr_effectiveTo = ci_effectiveTo input, cr_active = True\<rparr>"
    and rules': "rules' = rules @ [row]"
    unfolding createRule_def ebind_Inr Let_def requireCommissionRateBps_def if_Inr
    by (fastforce simp: if_Inr)
  from sc rate have "rule_valid row"
    by (auto simp: requireValidScope_ok rule_valid_def row)
  with f rules' show ?thesis by (simp add: row)
qed

lemma listed_by_scope:
  "rule_valid r \<Longrightarrow> r \<in> set rules \<Longrightarrow> cr_active r \<Longrightarrow>
   r \<in> set (listActiveRulesByScope rules (cr_scope r) (cr_merchantId r))"
  by (cases "cr_scope r = GLOBAL_DEFAULT"; cases "cr_merchantId r")
    (simp_all add: listActiveRulesByScope_def rule_valid_def)

lemma createRule_inv:
  assumes inv: "commission_inv rules" and fresh: "newId \<notin> cr_id ` set rules"
    and c: "createRule newId now input rules = Inr (row, rules')"
  shows "commission_inv rules'"
proof -
  note ok = createRule_ok [OF c]
  have "rules_exclusive r row" if r: "r \<in> set rules" for r
  proof -
    have "rule_valid r" using r inv by (simp add: commission_inv_def)
    with r listed_by_scope ok show ?thesis
      unfolding rules_exclusive_def filter_empty_conv by metis
  qed
  moreover have "cr_id row \<notin> cr_id ` set rules" "rule_valid row" using ok fresh by simp_all
  ultimately show ?thesis
    using inv conjunct1 [OF ok] by (simp add: commission_inv_def sorted_wrt_append ball_Un)
qed

lemma deactivateRow_simps [simp]:
  "cr_id (deactivateRow i e r) = cr_id r" "cr_scope (deactivateRow i e r) = cr_scope r"
  "cr_merchantId (deactivateRow i e r) = cr_merchantId r"
  "cr_rateBps (deactivateRow i e r) = cr_rateBps r"
  "cr_active (deactivateRow i e r) \<longleftrightarrow> cr_active r \<and> cr_id r \<noteq> i"
  by (auto simp: deactivateRow_def split: option.splits)

lemma deactivateRow_exclusive:
  "rules_exclusive a b \<Longrightarrow> rules_exclusive (deactivateRow i e a) (deactivateRow i e b)"
  by (auto simp: rules_exclusive_def deactivateRow_def split: option.splits if_splits)

lemma deactivateRule_inv:
  assumes inv: "commission_inv rules"
    and d: "deactivateRule ruleId now rules = Inr (row, rules')"
  shows "commission_inv rules'"
proof -
  have "rules' = rules \<or> (\<exists>e. rules' = map (deactivateRow ruleId e) rules)"
    using d by (auto simp: deactivateRule_def ebind_Inr Let_def split: option.splits if_splits)
  then show ?thesis
  proof
    assume "\<exists>e. rules' = map (deactivateRow ruleId e) rules"
    then obtain e where e: "rules' = map (deactivateRow ruleId e) rules" ..
    have "sorted_wrt rules_exclusive rules'"
      using inv unfolding e commission_inv_def
      by (auto simp: sorted_wrt_map intro: sorted_wrt_mono_rel deactivateRow_exclusive)
    with inv show ?thesis by (simp add: e commission_inv_def comp_def rule_valid_def)
  qed (use inv in simp)
qed

lemma commission_reachable_inv: "commission_reachable rules \<Longrightarrow> commission_inv rules"
  by (induction rule: commission_reachable.induct)
    (auto simp: commission_inv_def [of "[]"] intro: createRule_inv deactivateRule_inv)

subsection \<open>Selecting the rule of a merchant\<close>

definition override_for :: "string \<Rightarrow> commission_rule \<Rightarrow> bool" where
  "override_for m r \<longleftrightarrow> cr_scope r = MERCHANT_OVERRIDE \<and> cr_merchantId r = Some m"

definition global_rule :: "commission_rule \<Rightarrow> bool" where
  "global_rule r \<longleftrightarrow> cr_scope r = GLOBAL_DEFAULT \<and> cr_merchantId r = None"

definition resolved_of :: "commission_rule \<Rightarrow> resolved_rule" where
  "resolved_of r = \<lparr>rr_ruleId = cr_id r, rr_scope = cr_scope r, rr_merchantId = cr_merchantId r,
     rr_rateBps = cr_rateBps r\<rparr>"

text \<open>What the selection means: an effective override of the merchant, else the default.\<close>

definition applicable_rule :: "commission_rule list \<Rightarrow> string \<Rightarrow> instant \<Rightarrow> commission_rule option" where
  "applicable_rule rules m t =
     (case find (\<lambda>r. isCommissionRuleEffectiveAt r t \<and> override_for m r) rules of
        Some r \<Rightarrow> Some r
      | None \<Rightarrow> find (\<lambda>r. isCommissionRuleEffectiveAt r t \<and> global_rule r) rules)"

lemma effective_active: "isCommissionRuleEffectiveAt r t \<Longrightarrow> cr_active r"
  by (auto simp: isCommissionRuleEffectiveAt_def isRuleEffectiveAt_def split: if_splits)

lemma slot_at_most_one:
  assumes inv: "commission_inv rules"
    and slot: "\<And>a b. P a \<Longrightarrow> P b \<Longrightarrow> cr_scope a = cr_scope b \<and> cr_merchantId a = cr_merchantId b"
  shows "filter (\<lambda>r. isCommissionRuleEffectiveAt r t \<and> P r) rules =
    (case find (\<lambda>r. isCommissionRuleEffectiveAt r t \<and> P r) rules of None \<Rightarrow> [] | Some r \<Rightarrow> [r])"
proof -
  let ?rs = "filter (\<lambda>r. cr_active r \<and> P r) rules"
  have "sorted_wrt rules_exclusive ?rs"
    using inv by (simp add: commission_inv_def sorted_wrt_filter)
  then have s: "sorted_wrt (\<lambda>a b. \<not> commissionWindowsOverlap (cr_effectiveFrom a, cr_effectiveTo a)
      (cr_effectiveFrom b, cr_effectiveTo b)) ?rs"
    by (rule sorted_wrt_mono_rel [rotated]) (auto simp: rules_exclusive_def dest: slot)
  have f: "filter (\<lambda>r. isCommissionRuleEffectiveAt r t) ?rs =
      filter (\<lambda>r. isCommissionRuleEffectiveAt r t \<and> P r) rules"
    by (auto simp: intro!: filter_cong dest: effective_active)
  show ?thesis
  proof (cases "find (\<lambda>r. isCommissionRuleEffectiveAt r t \<and> P r) rules")
    case None
    then have "filter (\<lambda>r. isCommissionRuleEffectiveAt r t \<and> P r) rules = []"
      by (simp add: find_None_iff filter_empty_conv)
    with None show ?thesis by simp
  next
    case (Some r)
    then have r: "r \<in> set rules" "isCommissionRuleEffectiveAt r t" "P r"
      by (auto simp: find_Some_iff)
    have "filter (\<lambda>r. isCommissionRuleEffectiveAt r t) ?rs = [r]"
      using r by (intro commission.effective_select [OF _ s]) (auto dest: effective_active)
    with f Some show ?thesis by simp
  qed
qed

lemma candidates_override:
  "filter (override_for m) (filter (\<lambda>r. isCommissionRuleEffectiveAt r t)
     (listActiveCandidateRules rules m)) =
   filter (\<lambda>r. isCommissionRuleEffectiveAt r t \<and> override_for m r) rules"
  by (auto simp: listActiveCandidateRules_def override_for_def filter_empty_conv
      intro!: filter_cong dest: effective_active)

lemma candidates_global:
  "filter global_rule (filter (\<lambda>r. isCommissionRuleEffectiveAt r t)
     (listActiveCandidateRules rules m)) =
   filter (\<lambda>r. isCommissionRuleEffectiveAt r t \<and> global_rule r) rules"
  by (auto simp: listActiveCandidateRules_def global_rule_def filter_empty_conv
      intro!: filter_cong dest: effective_active)

lemma toResolved_valid: "rule_valid r \<Longrightarrow> toResolved r = Inr (resolved_of r)"
  by (cases "cr_scope r = GLOBAL_DEFAULT")
    (auto simp: toResolved_def rule_valid_def parseCommissionScope_def requireCommissionRateBps_def
      requireValidCommissionScopeMerchant_def resolved_of_def)

lemma find_by_id:
  "distinct (map cr_id rules) \<Longrightarrow> r \<in> set rules \<Longrightarrow> findRuleById rules (cr_id r) = Some r"
  unfolding findRuleById_def
  by (induction rules) (auto simp: image_iff)

lemma select_candidates:
  assumes inv: "commission_inv rules"
  shows "selectApplicableMerchantCommissionRule (listActiveCandidateRules rules m) m t =
    (case applicable_rule rules m t of
       None \<Rightarrow> Inl MERCHANT_COMMISSION_RULE_NOT_FOUND | Some r \<Rightarrow> Inr (resolved_of r))"
proof -
  have v: "rule_valid r" if "find P rules = Some r" for P r
    using that inv by (auto simp: find_Some_iff commission_inv_def)
  have o: "filter (override_for m) (filter (\<lambda>r. isCommissionRuleEffectiveAt r t)
      (listActiveCandidateRules rules m)) =
    (case find (\<lambda>r. isCommissionRuleEffectiveAt r t \<and> override_for m r) rules of
      None \<Rightarrow> [] | Some r \<Rightarrow> [r])"
    unfolding candidates_override by (rule slot_at_most_one [OF inv]) (simp add: override_for_def)
  have g: "filter global_rule (filter (\<lambda>r. isCommissionRuleEffectiveAt r t)
      (listActiveCandidateRules rules m)) =
    (case find (\<lambda>r. isCommissionRuleEffectiveAt r t \<and> global_rule r) rules of
      None \<Rightarrow> [] | Some r \<Rightarrow> [r])"
    unfolding candidates_global by (rule slot_at_most_one [OF inv]) (simp add: global_rule_def)
  show ?thesis
    using o g unfolding selectApplicableMerchantCommissionRule_def applicable_rule_def Let_def
      override_for_def [symmetric] global_rule_def [symmetric]
    by (auto split: option.splits simp: toResolved_valid v)
qed

lemma applicable_valid:
  assumes inv: "commission_inv rules" and a: "applicable_rule rules m t = Some r"
  shows "requireSelectedRuleStillValid (resolved_of r) (findRuleById rules (cr_id r)) m t =
    Inr (resolved_of r)"
proof -
  have r: "r \<in> set rules" "isCommissionRuleEffectiveAt r t" "override_for m r \<or> global_rule r"
    using a by (auto simp: applicable_rule_def find_Some_iff split: option.splits)
  then have "findRuleById rules (cr_id r) = Some r"
    using inv by (intro find_by_id) (simp_all add: commission_inv_def)
  with r show ?thesis
    by (auto simp: requireSelectedRuleStillValid_def resolved_of_def override_for_def global_rule_def)
qed

section \<open>Properties\<close>

text \<open>
  C6. The commission is the floor of base times rate over 10000, computed exactly: it is
  defined for exactly the safe non-negative bases and the rates from 0 to 10000, lies
  between 0 and the base, and commission and net add up to the base.
\<close>

theorem calculateMerchantCommission_spec:
  "calculateMerchantCommission b r = Inr c \<longleftrightarrow>
   (\<exists>m n. b = JInt m \<and> r = JInt n \<and> 0 \<le> m \<and> m \<le> MAX_SAFE_INTEGER \<and> 0 \<le> n \<and> n \<le> 10000 \<and>
      c = \<lparr>cc_commissionBaseMinor = JInt m, cc_rateBps = JInt n,
           cc_commissionMinor = JInt (m * n div 10000),
           cc_merchantNetFromBaseMinor = JInt (m - m * n div 10000)\<rparr> \<and>
      0 \<le> m * n div 10000 \<and> m * n div 10000 \<le> m)"
proof -
  have nonneg: "0 \<le> m * n div 10000" if "0 \<le> m" "0 \<le> n" for m n :: int
    using that by (simp add: pos_imp_zdiv_nonneg_iff)
  have bound: "m * n div 10000 \<le> m" "0 \<le> m * n div 10000"
    "double_of_int (m - m * n div 10000) = JInt (m - m * n div 10000)"
    if "0 \<le> m" "m \<le> MAX_SAFE_INTEGER" "0 \<le> n" "n \<le> 10000" for m n :: int
    using commission_floor_le [of m n] nonneg [of m n] that
    by (simp_all add: double_of_int_exact)
  have run: "calculateMerchantCommission (JInt m) (JInt n) =
      Inr \<lparr>cc_commissionBaseMinor = JInt m, cc_rateBps = JInt n,
           cc_commissionMinor = JInt (m * n div 10000),
           cc_merchantNetFromBaseMinor = JInt (m - m * n div 10000)\<rparr>"
    if "0 \<le> m" "m \<le> MAX_SAFE_INTEGER" "0 \<le> n" "n \<le> 10000" for m n :: int
  proof -
    have "calculateMerchantCommissionAmountMinor (JInt m) (JInt n) = Inr (JInt (m * n div 10000))"
      using that by (simp add: commission_amount)
    with bound [OF that] show ?thesis by (simp add: calculateMerchantCommission_def not_less)
  qed
  have dom: "\<exists>m n. b = JInt m \<and> r = JInt n \<and> 0 \<le> m \<and> m \<le> MAX_SAFE_INTEGER \<and> 0 \<le> n \<and> n \<le> 10000"
    if "calculateMerchantCommission b r = Inr c"
    using that by (auto simp: calculateMerchantCommission_def ebind_Inr commission_amount)
  show ?thesis using dom run bound by auto
qed

text \<open>
  C7. Whatever the history of creations and deactivations, the rule table stays well formed:
  unique ids, valid scopes and rates, and no two active rules of one scope and merchant with
  overlapping windows.
\<close>

theorem commission_table_invariant: "commission_reachable rules \<Longrightarrow> commission_inv rules"
  by (rule commission_reachable_inv)

definition example_input :: create_rule_input where
  "example_input = \<lparr>ci_scope = GLOBAL_DEFAULT, ci_merchantId = None, ci_rateBps = JInt 700,
     ci_effectiveFrom = None, ci_effectiveTo = None\<rparr>"

definition example_table :: "commission_rule list" where
  "example_table = [\<lparr>cr_id = ''rule-1'', cr_scope = GLOBAL_DEFAULT, cr_merchantId = None,
     cr_rateBps = JInt 700, cr_effectiveFrom = Some 5, cr_effectiveTo = None, cr_active = True\<rparr>]"

lemma example_table_reachable: "commission_reachable example_table"
proof (rule commission_reachable.create [OF commission_reachable.empty])
  show "createRule ''rule-1'' 5 example_input [] = Inr (hd example_table, example_table)"
    by (simp add: createRule_def example_input_def example_table_def
        requireValidCommissionScopeMerchant_def parseCommissionScope_def requireCommissionRateBps_def
        isCommissionRateBps_iff assertEffectiveRange_def listActiveRulesByScope_def Let_def)
qed simp

theorem commission_table_invariant_witness: "commission_inv example_table"
  by (rule commission_table_invariant [OF example_table_reachable])

text \<open>
  In every reachable table the rate of a merchant is never ambiguous: resolution at an
  instant yields the effective override of that merchant if there is one, otherwise the
  effective global default, otherwise exactly the error that no rule was found; the
  re-validation of the selected row never rejects it.
\<close>

theorem resolveApplicable_spec:
  assumes "commission_reachable rules"
  shows "resolveApplicable rules m t =
    (case applicable_rule rules m t of
       None \<Rightarrow> Inl MERCHANT_COMMISSION_RULE_NOT_FOUND | Some r \<Rightarrow> Inr (resolved_of r))"
proof -
  have inv: "commission_inv rules" by (rule commission_reachable_inv [OF assms])
  show ?thesis
    using applicable_valid [OF inv, of m t]
    by (auto simp: resolveApplicable_def select_candidates [OF inv] resolved_of_def
        split: option.splits)
qed

theorem resolveApplicable_spec_witness:
  "resolveApplicable example_table ''m'' 9 =
    (case applicable_rule example_table ''m'' 9 of
       None \<Rightarrow> Inl MERCHANT_COMMISSION_RULE_NOT_FOUND | Some r \<Rightarrow> Inr (resolved_of r))"
  by (rule resolveApplicable_spec [OF example_table_reachable])

end
