(* ===== verification/Promotion.thy ===== *)
theory Promotion
  imports SG_Text "HOL-Library.Product_Lexorder"
begin

text \<open>
  Promotions: \<open>modules/promotions/domain/promotion.policy.ts\<close> and the promotion and redemption
  tables that \<open>application/promotion.service.ts\<close> maintains. Each operation is one
  transaction; \<open>newId\<close> and \<open>now\<close> are the UUID and the clock it reads.
\<close>

section \<open>Policy\<close>

datatype promotion_error =
    PROMOTION_CODE_INVALID
  | PROMOTION_NOT_FOUND
  | PROMOTION_INACTIVE
  | PROMOTION_NOT_YET_ACTIVE
  | PROMOTION_EXPIRED
  | PROMOTION_CONFIGURATION_INVALID
  | PROMOTION_STACKING_UNSUPPORTED
  | PROMOTION_REDEMPTION_CONFLICT
  | PROMOTION_ZERO_PAYABLE_UNSUPPORTED
  | CUSTOMER_PROFILE_NOT_FOUND

fun promotion_http_status :: "promotion_error \<Rightarrow> int" where
  "promotion_http_status PROMOTION_CODE_INVALID = 400"
| "promotion_http_status PROMOTION_NOT_FOUND = 404"
| "promotion_http_status PROMOTION_CONFIGURATION_INVALID = 400"
| "promotion_http_status CUSTOMER_PROFILE_NOT_FOUND = 404"
| "promotion_http_status _ = 409"

datatype discount_kind = RATE_BPS | FIXED_MINOR
datatype promotion_funding = FUND_MERCHANT | FUND_SPEEDYGO

record promotion =
  pm_id :: string
  pm_code :: string
  pm_type :: string
  pm_value :: jsnum
  pm_startsAt :: stamp
  pm_endsAt :: stamp
  pm_active :: bool
  pm_customerDiscoverable :: bool
  pm_customerLabel :: "string option"

definition CODE_MAX_LEN :: nat where "CODE_MAX_LEN = 64"
definition CUSTOMER_LABEL_MAX_LEN :: nat where "CUSTOMER_LABEL_MAX_LEN = 64"

definition code_char :: "char \<Rightarrow> bool" where
  "code_char c \<longleftrightarrow>
     (let n = of_char c :: nat
      in (65 \<le> n \<and> n \<le> 90) \<or> (48 \<le> n \<and> n \<le> 57) \<or> n = 95 \<or> n = 45)"

definition normalizePromotionCode :: "string \<Rightarrow> promotion_error + string" where
  "normalizePromotionCode raw =
     (let normalized = js_upper (js_trim raw)
      in if normalized = [] \<or> CODE_MAX_LEN < length normalized then Inl PROMOTION_CODE_INVALID
         else if \<not> list_all code_char normalized then Inl PROMOTION_CODE_INVALID
         else Inr normalized)"

definition parsePromotionType ::
  "string \<Rightarrow> promotion_error + discount_kind \<times> promotion_funding" where
  "parsePromotionType type =
     (if type = ''MERCHANT_RATE_BPS'' then Inr (RATE_BPS, FUND_MERCHANT)
      else if type = ''SPEEDYGO_RATE_BPS'' then Inr (RATE_BPS, FUND_SPEEDYGO)
      else if type = ''MERCHANT_FIXED_MINOR'' then Inr (FIXED_MINOR, FUND_MERCHANT)
      else if type = ''SPEEDYGO_FIXED_MINOR'' then Inr (FIXED_MINOR, FUND_SPEEDYGO)
      else Inl PROMOTION_CONFIGURATION_INVALID)"

definition requirePromotionValue :: "discount_kind \<Rightarrow> jsnum \<Rightarrow> promotion_error + jsnum" where
  "requirePromotionValue kind v =
     (if \<not> isInteger v \<or> \<not> js_less (JInt 0) v then Inl PROMOTION_CONFIGURATION_INVALID
      else if kind = RATE_BPS \<and> js_less (JInt 10000) v then Inl PROMOTION_CONFIGURATION_INVALID
      else Inr v)"

definition assertPromotionEffective :: "promotion \<Rightarrow> instant \<Rightarrow> promotion_error + unit" where
  "assertPromotionEffective promo decisionAt =
     (if \<not> pm_active promo then Inl PROMOTION_INACTIVE
      else case (pm_startsAt promo, pm_endsAt promo) of
             (Some start, Some until) \<Rightarrow>
               if decisionAt < start then Inl PROMOTION_NOT_YET_ACTIVE
               else if until \<le> decisionAt then Inl PROMOTION_EXPIRED
               else Inr ()
           | _ \<Rightarrow> Inl PROMOTION_CONFIGURATION_INVALID)"

definition js_min :: "jsnum \<Rightarrow> jsnum \<Rightarrow> jsnum" where
  "js_min x y = (if x = JNaN \<or> y = JNaN then JNaN else if js_less y x then y else x)"

definition calculateDiscountAmountMinor ::
  "discount_kind \<Rightarrow> jsnum \<Rightarrow> jsnum \<Rightarrow> promotion_error + jsnum" where
  "calculateDiscountAmountMinor kind v eligibleBaseMinor =
     (if \<not> isInteger eligibleBaseMinor \<or> js_less eligibleBaseMinor (JInt 0)
      then Inl PROMOTION_CONFIGURATION_INVALID
      else ebind (requirePromotionValue kind v) (\<lambda>_.
        let raw = (if kind = RATE_BPS
                   then double_of_int ((the_int eligibleBaseMinor * the_int v) div 10000)
                   else v)
        in if \<not> isInteger raw \<or> js_less raw (JInt 0) then Inl PROMOTION_CONFIGURATION_INVALID
           else Inr (js_min raw eligibleBaseMinor)))"

definition allocateDiscountByFunding ::
  "jsnum \<Rightarrow> promotion_funding \<Rightarrow> promotion_error + jsnum \<times> jsnum" where
  "allocateDiscountByFunding discountAmountMinor funding =
     (if \<not> isInteger discountAmountMinor \<or> js_less discountAmountMinor (JInt 0)
      then Inl PROMOTION_CONFIGURATION_INVALID
      else if funding = FUND_MERCHANT then Inr (discountAmountMinor, JInt 0)
      else Inr (JInt 0, discountAmountMinor))"

record promotion_decision =
  pd_promotionId :: string
  pd_code :: string
  pd_type :: string
  pd_funding :: promotion_funding
  pd_value :: jsnum
  pd_eligibleBaseMinor :: jsnum
  pd_discountAmountMinor :: jsnum
  pd_merchantDiscountMinor :: jsnum
  pd_platformDiscountMinor :: jsnum
  pd_decisionAt :: instant

definition buildPromotionDecision ::
  "promotion \<Rightarrow> jsnum \<Rightarrow> instant \<Rightarrow> promotion_error + promotion_decision" where
  "buildPromotionDecision promo eligibleBaseMinor decisionAt =
     ebind (assertPromotionEffective promo decisionAt) (\<lambda>_.
     ebind (parsePromotionType (pm_type promo)) (\<lambda>parsed.
     ebind (calculateDiscountAmountMinor (fst parsed) (pm_value promo) eligibleBaseMinor)
       (\<lambda>discountAmountMinor.
     ebind (allocateDiscountByFunding discountAmountMinor (snd parsed)) (\<lambda>buckets.
     Inr \<lparr>pd_promotionId = pm_id promo, pd_code = pm_code promo, pd_type = pm_type promo,
          pd_funding = snd parsed, pd_value = pm_value promo,
          pd_eligibleBaseMinor = eligibleBaseMinor,
          pd_discountAmountMinor = discountAmountMinor,
          pd_merchantDiscountMinor = fst buckets, pd_platformDiscountMinor = snd buckets,
          pd_decisionAt = decisionAt\<rparr>))))"

definition normalizeCustomerLabel :: "string option \<Rightarrow> promotion_error + string option" where
  "normalizeCustomerLabel raw =
     (case raw of
        None \<Rightarrow> Inr None
      | Some s \<Rightarrow>
          if js_trim s = [] then Inr None
          else if CUSTOMER_LABEL_MAX_LEN < length (js_trim s)
            then Inl PROMOTION_CONFIGURATION_INVALID
          else Inr (Some (js_trim s)))"

definition isPromotionWindowEffective :: "promotion \<Rightarrow> instant \<Rightarrow> bool" where
  "isPromotionWindowEffective promo decisionAt =
     (if \<not> pm_active promo then False
      else case (pm_startsAt promo, pm_endsAt promo) of
             (Some start, Some until) \<Rightarrow> start \<le> decisionAt \<and> decisionAt < until
           | _ \<Rightarrow> False)"

definition isPromotionDiscoverable :: "promotion \<Rightarrow> instant \<Rightarrow> bool" where
  "isPromotionDiscoverable promo decisionAt =
     (if \<not> pm_customerDiscoverable promo then False
      else if \<not> isPromotionWindowEffective promo decisionAt then False
      else case parsePromotionType (pm_type promo) of Inl _ \<Rightarrow> False | Inr _ \<Rightarrow> True)"

text \<open>
  \<open>compareDiscoverablePromotions\<close> orders by end and then by id. The ids are UUIDs, on which
  \<open>localeCompare\<close> and the order of code units agree, so the stable sort with that comparator
  is the stable sort on this key.
\<close>

definition discoverable_key :: "promotion \<Rightarrow> int \<times> string" where
  "discoverable_key p = (case pm_endsAt p of None \<Rightarrow> 0 | Some e \<Rightarrow> e, pm_id p)"

record discoverable_view =
  dv_id :: string
  dv_code :: string
  dv_discountKind :: discount_kind
  dv_value :: jsnum
  dv_startsAt :: stamp
  dv_endsAt :: stamp
  dv_customerLabel :: "string option"

definition toCustomerDiscoverablePromotion :: "promotion \<Rightarrow> promotion_error + discoverable_view" where
  "toCustomerDiscoverablePromotion p =
     ebind (parsePromotionType (pm_type p)) (\<lambda>parsed.
       Inr \<lparr>dv_id = pm_id p, dv_code = pm_code p, dv_discountKind = fst parsed,
            dv_value = pm_value p, dv_startsAt = pm_startsAt p, dv_endsAt = pm_endsAt p,
            dv_customerLabel = pm_customerLabel p\<rparr>)"

definition requireCreatePromotionWindow :: "stamp \<Rightarrow> stamp \<Rightarrow> promotion_error + unit" where
  "requireCreatePromotionWindow startsAt endsAt =
     (case (startsAt, endsAt) of
        (Some start, Some until) \<Rightarrow>
          if \<not> start < until then Inl PROMOTION_CONFIGURATION_INVALID else Inr ()
      | _ \<Rightarrow> Inl PROMOTION_CONFIGURATION_INVALID)"

definition requirePositiveCustomerPayableAfterPromotion ::
  "jsnum \<Rightarrow> jsnum \<Rightarrow> jsnum \<Rightarrow> jsnum option \<Rightarrow> promotion_error + jsnum" where
  "requirePositiveCustomerPayableAfterPromotion merchandise discount deliveryFee serviceFee =
     (let fee = js_default serviceFee (JInt 0)
      in if \<not> isInteger merchandise \<or> \<not> isInteger discount \<or> \<not> isInteger deliveryFee
            \<or> \<not> isInteger fee \<or> js_less merchandise (JInt 0) \<or> js_less discount (JInt 0)
            \<or> js_less deliveryFee (JInt 0) \<or> js_less fee (JInt 0)
         then Inl PROMOTION_CONFIGURATION_INVALID
         else if js_less merchandise discount then Inl PROMOTION_CONFIGURATION_INVALID
         else let payable = js_add (js_add (js_sub_int merchandise discount) deliveryFee) fee
              in if \<not> isSafeInteger payable \<or> \<not> js_less (JInt 0) payable
                 then Inl PROMOTION_ZERO_PAYABLE_UNSUPPORTED else Inr payable)"

section \<open>The promotion and redemption tables\<close>

record redemption =
  rd_id :: string
  rd_promotionId :: string
  rd_customerId :: string
  rd_orderId :: string
  rd_discountAmountMinor :: int
  rd_fundedBy :: promotion_funding
  rd_redeemedAt :: instant

record promotion_db =
  promotions :: "promotion list"
  redemptions :: "redemption list"

record create_promotion_input =
  cp_code :: string
  cp_type :: string
  cp_value :: jsnum
  cp_startsAt :: stamp
  cp_endsAt :: stamp
  cp_active :: "bool option"
  cp_customerDiscoverable :: "bool option"
  cp_customerLabel :: "string option"

definition findByNormalizedCode :: "promotion_db \<Rightarrow> string \<Rightarrow> promotion option" where
  "findByNormalizedCode db code = find (\<lambda>p. pm_code p = code) (promotions db)"

definition findPromotionById :: "promotion_db \<Rightarrow> string \<Rightarrow> promotion option" where
  "findPromotionById db i = find (\<lambda>p. pm_id p = i) (promotions db)"

definition createPromotionInTx ::
  "string \<Rightarrow> create_promotion_input \<Rightarrow> promotion_db \<Rightarrow>
   promotion_error + promotion \<times> promotion_db" where
  "createPromotionInTx newId input db =
     ebind (normalizePromotionCode (cp_code input)) (\<lambda>code.
     ebind (parsePromotionType (cp_type input)) (\<lambda>parsed.
     ebind (requirePromotionValue (fst parsed) (cp_value input)) (\<lambda>_.
     ebind (requireCreatePromotionWindow (cp_startsAt input) (cp_endsAt input)) (\<lambda>_.
     if findByNormalizedCode db code \<noteq> None then Inl PROMOTION_CONFIGURATION_INVALID
     else ebind (normalizeCustomerLabel (cp_customerLabel input)) (\<lambda>label.
       let row = \<lparr>pm_id = newId, pm_code = code, pm_type = cp_type input, pm_value = cp_value input,
                  pm_startsAt = cp_startsAt input, pm_endsAt = cp_endsAt input,
                  pm_active = js_default (cp_active input) True,
                  pm_customerDiscoverable = js_default (cp_customerDiscoverable input) False,
                  pm_customerLabel = label\<rparr>
       in Inr (row, db\<lparr>promotions := promotions db @ [row]\<rparr>))))))"

definition updatePromotion :: "string \<Rightarrow> (promotion \<Rightarrow> promotion) \<Rightarrow> promotion_db \<Rightarrow> promotion_db" where
  "updatePromotion i f db =
     db\<lparr>promotions := map (\<lambda>p. if pm_id p = i then f p else p) (promotions db)\<rparr>"

definition setPromotionActiveInTx ::
  "string \<Rightarrow> bool \<Rightarrow> promotion_db \<Rightarrow> promotion_error + promotion_db" where
  "setPromotionActiveInTx promotionId active db =
     (case findPromotionById db promotionId of
        None \<Rightarrow> Inl PROMOTION_NOT_FOUND
      | Some _ \<Rightarrow> Inr (updatePromotion promotionId (\<lambda>p. p\<lparr>pm_active := active\<rparr>) db))"

definition setPromotionDiscoverableInTx ::
  "string \<Rightarrow> bool \<Rightarrow> string js_opt \<Rightarrow> promotion_db \<Rightarrow> promotion_error + promotion_db" where
  "setPromotionDiscoverableInTx promotionId discoverable label db =
     (case findPromotionById db promotionId of
        None \<Rightarrow> Inl PROMOTION_NOT_FOUND
      | Some _ \<Rightarrow>
          if label = Undef then
            Inr (updatePromotion promotionId (\<lambda>p. p\<lparr>pm_customerDiscoverable := discoverable\<rparr>) db)
          else ebind (normalizeCustomerLabel (case label of Val s \<Rightarrow> Some s | _ \<Rightarrow> None)) (\<lambda>l.
            Inr (updatePromotion promotionId
              (\<lambda>p. p\<lparr>pm_customerDiscoverable := discoverable, pm_customerLabel := l\<rparr>) db)))"

definition setPromotionPresentationInTx ::
  "string \<Rightarrow> string option \<Rightarrow> promotion_db \<Rightarrow> promotion_error + promotion_db" where
  "setPromotionPresentationInTx promotionId label db =
     (case findPromotionById db promotionId of
        None \<Rightarrow> Inl PROMOTION_NOT_FOUND
      | Some existing \<Rightarrow>
          ebind (normalizeCustomerLabel label) (\<lambda>l.
            Inr (updatePromotion promotionId
              (\<lambda>p. p\<lparr>pm_customerDiscoverable := pm_customerDiscoverable existing,
                     pm_customerLabel := l\<rparr>) db)))"

definition FETCH_CAP :: nat where "FETCH_CAP = 100"
definition DISCOVERY_DEFAULT_LIMIT :: int where "DISCOVERY_DEFAULT_LIMIT = 20"
definition DISCOVERY_MAX_LIMIT :: int where "DISCOVERY_MAX_LIMIT = 20"

text \<open>The query: active discoverable rows by ascending end, at most \<open>FETCH_CAP\<close> of them.\<close>

definition listDiscoverableCandidates :: "promotion_db \<Rightarrow> promotion list" where
  "listDiscoverableCandidates db =
     take FETCH_CAP (sort_key (\<lambda>p. fst (discoverable_key p))
       (filter (\<lambda>p. pm_customerDiscoverable p \<and> pm_active p) (promotions db)))"

definition listDiscoverableForCustomer ::
  "string option \<Rightarrow> instant \<Rightarrow> jsnum \<Rightarrow> promotion_db \<Rightarrow> promotion_error + discoverable_view list" where
  "listDiscoverableForCustomer profileId now limit db =
     (case profileId of
        None \<Rightarrow> Inl CUSTOMER_PROFILE_NOT_FOUND
      | Some _ \<Rightarrow>
          let bounded = (if \<not> isInteger limit \<or> js_less limit (JInt 1) then DISCOVERY_DEFAULT_LIMIT
                         else min (the_int limit) DISCOVERY_MAX_LIMIT);
              chosen = take (nat bounded) (sort_key discoverable_key
                (filter (\<lambda>p. isPromotionDiscoverable p now) (listDiscoverableCandidates db)))
          in efold (\<lambda>acc p. ebind (toCustomerDiscoverablePromotion p) (\<lambda>v. Inr (acc @ [v]))) [] chosen)"

definition evaluateForPreview ::
  "string \<Rightarrow> jsnum \<Rightarrow> instant \<Rightarrow> promotion_db \<Rightarrow> promotion_error + promotion_decision" where
  "evaluateForPreview rawCode eligibleBaseMinor decisionAt db =
     ebind (normalizePromotionCode rawCode) (\<lambda>code.
       case findByNormalizedCode db code of
         None \<Rightarrow> Inl PROMOTION_NOT_FOUND
       | Some p \<Rightarrow> buildPromotionDecision p eligibleBaseMinor decisionAt)"

definition countRedemptionsForOrder :: "promotion_db \<Rightarrow> string \<Rightarrow> nat" where
  "countRedemptionsForOrder db orderId =
     length (filter (\<lambda>r. rd_orderId r = orderId) (redemptions db))"

definition prepareOrderRedemption ::
  "string \<Rightarrow> jsnum \<Rightarrow> instant \<Rightarrow> string \<Rightarrow> promotion_db \<Rightarrow> promotion_error + promotion_decision" where
  "prepareOrderRedemption rawCode eligibleBaseMinor decisionAt orderId db =
     ebind (normalizePromotionCode rawCode) (\<lambda>code.
       if 0 < countRedemptionsForOrder db orderId then Inl PROMOTION_STACKING_UNSUPPORTED
       else case findByNormalizedCode db code of
              None \<Rightarrow> Inl PROMOTION_NOT_FOUND
            | Some p \<Rightarrow>
                (case findPromotionById db (pm_id p) of
                   None \<Rightarrow> Inl PROMOTION_NOT_FOUND
                 | Some row \<Rightarrow> buildPromotionDecision row eligibleBaseMinor decisionAt))"

definition commitOrderRedemption ::
  "string \<Rightarrow> promotion_decision \<Rightarrow> string \<Rightarrow> string \<Rightarrow> instant \<Rightarrow> promotion_db \<Rightarrow>
   promotion_error + redemption \<times> promotion_db" where
  "commitOrderRedemption newId decision customerId orderId decisionAt db =
     (if 0 < countRedemptionsForOrder db orderId then Inl PROMOTION_STACKING_UNSUPPORTED
      else let row = \<lparr>rd_id = newId, rd_promotionId = pd_promotionId decision,
                      rd_customerId = customerId, rd_orderId = orderId,
                      rd_discountAmountMinor = the_int (pd_discountAmountMinor decision),
                      rd_fundedBy = pd_funding decision, rd_redeemedAt = decisionAt\<rparr>
           in Inr (row, db\<lparr>redemptions := redemptions db @ [row]\<rparr>))"

definition redeemForOrder ::
  "string \<Rightarrow> string \<Rightarrow> jsnum \<Rightarrow> instant \<Rightarrow> string \<Rightarrow> string \<Rightarrow> promotion_db \<Rightarrow>
   promotion_error + (promotion_decision \<times> redemption) \<times> promotion_db" where
  "redeemForOrder newId rawCode eligibleBaseMinor decisionAt customerId orderId db =
     ebind (prepareOrderRedemption rawCode eligibleBaseMinor decisionAt orderId db) (\<lambda>decision.
     ebind (commitOrderRedemption newId decision customerId orderId decisionAt db) (\<lambda>rdb.
     Inr ((decision, fst rdb), snd rdb)))"

section \<open>Lemmas\<close>

lemma parsePromotionType_ok:
  "parsePromotionType t = Inr p \<Longrightarrow>
   t \<in> {''MERCHANT_RATE_BPS'', ''SPEEDYGO_RATE_BPS'', ''MERCHANT_FIXED_MINOR'', ''SPEEDYGO_FIXED_MINOR''}"
  by (auto simp: parsePromotionType_def split: if_splits)

lemma requirePromotionValue_ok [guards]:
  "requirePromotionValue k v = Inr w \<longleftrightarrow>
   (\<exists>n. v = JInt n \<and> w = v \<and> 0 < n \<and> (k = RATE_BPS \<longrightarrow> n \<le> 10000))"
  by (cases v) (auto simp: requirePromotionValue_def)

lemma assertPromotionEffective_ok [guards]:
  "assertPromotionEffective p t = Inr u \<longleftrightarrow> isPromotionWindowEffective p t"
  by (auto simp: assertPromotionEffective_def isPromotionWindowEffective_def split: option.splits)

text \<open>What a discount is worth: the floor of the rate, or the fixed value, capped by the base.\<close>

definition discount_spec :: "discount_kind \<Rightarrow> int \<Rightarrow> int \<Rightarrow> int" where
  "discount_spec kind v base = (if kind = RATE_BPS then base * v div 10000 else min v base)"

lemma rate_floor_le: "0 \<le> (b::int) \<Longrightarrow> r \<le> 10000 \<Longrightarrow> b * r div 10000 \<le> b"
proof -
  assume "0 \<le> b" "r \<le> 10000"
  then have "b * r \<le> b * 10000" by (intro mult_left_mono) simp_all
  then have "b * r div 10000 \<le> b * 10000 div 10000" by (rule zdiv_mono1) simp
  then show ?thesis by simp
qed

lemma calculateDiscount_ints:
  assumes "0 \<le> b" "b \<le> MAX_SAFE_INTEGER" "0 < v" "kind = RATE_BPS \<Longrightarrow> v \<le> 10000"
  shows "calculateDiscountAmountMinor kind (JInt v) (JInt b) = Inr (JInt (discount_spec kind v b))
    \<and> 0 \<le> discount_spec kind v b \<and> discount_spec kind v b \<le> b"
proof (cases kind)
  case RATE_BPS
  then have le: "b * v div 10000 \<le> b" and nn: "0 \<le> b * v div 10000"
    using assms rate_floor_le [of b v] by (simp_all add: pos_imp_zdiv_nonneg_iff)
  then have "double_of_int (b * v div 10000) = JInt (b * v div 10000)"
    using assms by (simp add: double_of_int_exact)
  with RATE_BPS assms le nn show ?thesis
    by (simp add: calculateDiscountAmountMinor_def requirePromotionValue_def discount_spec_def
        js_min_def not_less)
next
  case FIXED_MINOR
  with assms show ?thesis
    by (auto simp: calculateDiscountAmountMinor_def requirePromotionValue_def discount_spec_def
        js_min_def min_def not_less)
qed

lemma calculateDiscount_dom:
  "calculateDiscountAmountMinor kind v (JInt b) = Inr d \<Longrightarrow>
   0 \<le> b \<and> (\<exists>n. v = JInt n \<and> 0 < n \<and> (kind = RATE_BPS \<longrightarrow> n \<le> 10000))"
  by (auto simp: calculateDiscountAmountMinor_def ebind_Inr requirePromotionValue_ok
      split: if_splits)

lemma payable_ints:
  assumes "0 \<le> m" "0 \<le> d" "d \<le> m" "0 \<le> f" "0 \<le> s" "m - d + f + s \<le> MAX_SAFE_INTEGER"
  shows "requirePositiveCustomerPayableAfterPromotion (JInt m) (JInt d) (JInt f) (Some (JInt s)) =
    (if m - d + f + s = 0 then Inl PROMOTION_ZERO_PAYABLE_UNSUPPORTED
     else Inr (JInt (m - d + f + s)))"
proof -
  have "double_of_int (m - d) = JInt (m - d)" "double_of_int (m - d + f) = JInt (m - d + f)"
    "double_of_int (m - d + f + s) = JInt (m - d + f + s)"
    using assms by (simp_all add: double_of_int_exact)
  with assms show ?thesis
    by (auto simp: requirePositiveCustomerPayableAfterPromotion_def Let_def)
qed

subsection \<open>The invariant of the tables\<close>

definition promotion_row_ok :: "promotion \<Rightarrow> bool" where
  "promotion_row_ok p \<longleftrightarrow>
     normalizePromotionCode (pm_code p) = Inr (pm_code p) \<and>
     (\<exists>k f. parsePromotionType (pm_type p) = Inr (k, f) \<and>
        requirePromotionValue k (pm_value p) = Inr (pm_value p)) \<and>
     requireCreatePromotionWindow (pm_startsAt p) (pm_endsAt p) = Inr () \<and>
     normalizeCustomerLabel (pm_customerLabel p) = Inr (pm_customerLabel p)"

definition promotion_inv :: "promotion_db \<Rightarrow> bool" where
  "promotion_inv db \<longleftrightarrow>
     distinct (map pm_id (promotions db)) \<and> distinct (map pm_code (promotions db)) \<and>
     (\<forall>p \<in> set (promotions db). promotion_row_ok p) \<and>
     distinct (map rd_orderId (redemptions db))"

inductive promotion_reachable :: "promotion_db \<Rightarrow> bool" where
  empty: "promotion_reachable \<lparr>promotions = [], redemptions = []\<rparr>"
| create: "promotion_reachable db \<Longrightarrow> newId \<notin> pm_id ` set (promotions db) \<Longrightarrow>
     createPromotionInTx newId input db = Inr (row, db') \<Longrightarrow> promotion_reachable db'"
| set_active: "promotion_reachable db \<Longrightarrow>
     setPromotionActiveInTx i active db = Inr db' \<Longrightarrow> promotion_reachable db'"
| set_discoverable: "promotion_reachable db \<Longrightarrow>
     setPromotionDiscoverableInTx i disc label db = Inr db' \<Longrightarrow> promotion_reachable db'"
| set_presentation: "promotion_reachable db \<Longrightarrow>
     setPromotionPresentationInTx i label' db = Inr db' \<Longrightarrow> promotion_reachable db'"
| redeem: "promotion_reachable db \<Longrightarrow>
     redeemForOrder newId rawCode base t customerId orderId db = Inr (r, db') \<Longrightarrow>
     promotion_reachable db'"

lemma upper_code_char: "code_char c \<Longrightarrow> upper_char c = [c]"
  by (auto simp: code_char_def upper_char_def Let_def)

lemma code_char_not_space: "code_char c \<Longrightarrow> \<not> is_js_space c"
  by (auto simp: code_char_def is_js_space_def Let_def)

lemma js_upper_code: "list_all code_char s \<Longrightarrow> js_upper s = s"
  by (induction s) (simp_all add: js_upper_def upper_code_char)

lemma js_trim_code: "list_all code_char s \<Longrightarrow> js_trim s = s"
  by (intro js_trim_id) (auto simp: trimmed_def list_all_iff code_char_not_space)

lemma normalizePromotionCode_id:
  "s \<noteq> [] \<Longrightarrow> length s \<le> CODE_MAX_LEN \<Longrightarrow> list_all code_char s \<Longrightarrow>
   normalizePromotionCode s = Inr s"
  by (simp add: normalizePromotionCode_def Let_def js_upper_code js_trim_code)

lemma normalizePromotionCode_fixpoint:
  "normalizePromotionCode raw = Inr code \<Longrightarrow> normalizePromotionCode code = Inr code"
  by (rule normalizePromotionCode_id)
    (auto simp: normalizePromotionCode_def Let_def split: if_splits)

lemma normalizeCustomerLabel_fixpoint:
  "normalizeCustomerLabel raw = Inr l \<Longrightarrow> normalizeCustomerLabel l = Inr l"
  by (auto simp: normalizeCustomerLabel_def split: option.splits if_splits)

lemma promotion_row_label:
  "promotion_row_ok p \<Longrightarrow> normalizeCustomerLabel l = Inr l \<Longrightarrow>
   promotion_row_ok (p\<lparr>pm_customerLabel := l\<rparr>)"
  by (simp add: promotion_row_ok_def)

lemma promotion_row_flags [simp]:
  "promotion_row_ok (p\<lparr>pm_active := a\<rparr>) = promotion_row_ok p"
  "promotion_row_ok (p\<lparr>pm_customerDiscoverable := d\<rparr>) = promotion_row_ok p"
  "promotion_row_ok (p\<lparr>pm_customerDiscoverable := d, pm_customerLabel := l\<rparr>) =
   promotion_row_ok (p\<lparr>pm_customerLabel := l\<rparr>)"
  by (simp_all add: promotion_row_ok_def)

lemma updatePromotion_inv:
  assumes inv: "promotion_inv db"
    and f: "\<And>p. pm_id (f p) = pm_id p \<and> pm_code (f p) = pm_code p"
    and ok: "\<And>p. promotion_row_ok p \<Longrightarrow> promotion_row_ok (f p)"
  shows "promotion_inv (updatePromotion i f db)"
proof -
  have "map pm_id (map (\<lambda>p. if pm_id p = i then f p else p) xs) = map pm_id xs"
    "map pm_code (map (\<lambda>p. if pm_id p = i then f p else p) xs) = map pm_code xs" for xs
    by (simp_all add: f)
  moreover have "\<forall>p \<in> set (promotions (updatePromotion i f db)). promotion_row_ok p"
    using inv ok by (auto simp: promotion_inv_def updatePromotion_def)
  ultimately show ?thesis
    using inv by (simp add: promotion_inv_def updatePromotion_def del: map_map)
qed

lemma createPromotionInTx_ok:
  assumes "createPromotionInTx newId input db = Inr (row, db')"
  shows "promotion_row_ok row \<and> pm_id row = newId \<and> findByNormalizedCode db (pm_code row) = None \<and>
    db' = db\<lparr>promotions := promotions db @ [row]\<rparr>"
proof -
  obtain code parsed label where
      "normalizePromotionCode (cp_code input) = Inr code"
      "parsePromotionType (cp_type input) = Inr parsed"
      "requirePromotionValue (fst parsed) (cp_value input) = Inr (cp_value input)"
      "requireCreatePromotionWindow (cp_startsAt input) (cp_endsAt input) = Inr ()"
      "findByNormalizedCode db code = None"
      "normalizeCustomerLabel (cp_customerLabel input) = Inr label"
    and row: "pm_code row = code" "pm_type row = cp_type input" "pm_value row = cp_value input"
      "pm_startsAt row = cp_startsAt input" "pm_endsAt row = cp_endsAt input"
      "pm_customerLabel row = label" "pm_id row = newId"
      "db' = db\<lparr>promotions := promotions db @ [row]\<rparr>"
    using assms unfolding createPromotionInTx_def ebind_Inr if_Inr Let_def
    by (auto simp: requirePromotionValue_ok)
  then show ?thesis
    by (cases parsed) (simp add: promotion_row_ok_def normalizePromotionCode_fixpoint
        normalizeCustomerLabel_fixpoint)
qed

lemma createPromotionInTx_inv:
  assumes inv: "promotion_inv db" and fresh: "newId \<notin> pm_id ` set (promotions db)"
    and c: "createPromotionInTx newId input db = Inr (row, db')"
  shows "promotion_inv db'"
proof -
  note ok = createPromotionInTx_ok [OF c]
  then have "pm_code row \<notin> pm_code ` set (promotions db)"
    by (auto simp: findByNormalizedCode_def find_None_iff)
  with inv fresh ok show ?thesis by (simp add: promotion_inv_def)
qed

lemma redeemForOrder_ok:
  assumes "redeemForOrder newId rawCode base t customerId orderId db = Inr (r, db')"
  shows "rd_orderId (snd r) = orderId \<and> orderId \<notin> rd_orderId ` set (redemptions db) \<and>
    db' = db\<lparr>redemptions := redemptions db @ [snd r]\<rparr> \<and>
    rd_discountAmountMinor (snd r) = the_int (pd_discountAmountMinor (fst r))"
  using assms
  by (auto simp: redeemForOrder_def commitOrderRedemption_def ebind_Inr Let_def
      countRedemptionsForOrder_def filter_empty_conv split: if_splits)

lemma promotion_reachable_inv: "promotion_reachable db \<Longrightarrow> promotion_inv db"
proof (induction rule: promotion_reachable.induct)
  case empty
  show ?case by (simp add: promotion_inv_def)
next
  case (create db newId input row db')
  then show ?case by (blast intro: createPromotionInTx_inv)
next
  case (set_active db i active db')
  then show ?case
    by (auto simp: setPromotionActiveInTx_def split: option.splits intro!: updatePromotion_inv)
next
  case (set_discoverable db i disc label db')
  then show ?case
    by (auto simp: setPromotionDiscoverableInTx_def ebind_Inr split: option.splits if_splits
        intro!: updatePromotion_inv promotion_row_label intro: normalizeCustomerLabel_fixpoint)
next
  case (set_presentation db i label' db')
  then show ?case
    by (auto simp: setPromotionPresentationInTx_def ebind_Inr split: option.splits
        intro!: updatePromotion_inv promotion_row_label intro: normalizeCustomerLabel_fixpoint)
next
  case (redeem db newId rawCode base t customerId orderId r db')
  then show ?case using redeemForOrder_ok [OF redeem.hyps(2)] by (auto simp: promotion_inv_def)
qed

definition example_promotion :: "string \<Rightarrow> int \<Rightarrow> promotion" where
  "example_promotion i until =
     \<lparr>pm_id = i, pm_code = i, pm_type = ''SPEEDYGO_RATE_BPS'', pm_value = JInt 1000,
      pm_startsAt = Some 0, pm_endsAt = Some until, pm_active = True,
      pm_customerDiscoverable = True, pm_customerLabel = None\<rparr>"

lemma digit_code_char: "is_digit c \<Longrightarrow> code_char c"
  by (simp add: is_digit_def code_char_def Let_def)

lemma show_nat_code:
  assumes "n < 100"
  shows "normalizePromotionCode (show_nat n) = Inr (show_nat n)"
proof (rule normalizePromotionCode_id)
  show "length (show_nat n) \<le> CODE_MAX_LEN"
    using assms by (simp add: show_nat.simps CODE_MAX_LEN_def)
qed (use all_digits_show_nat [of n] in \<open>auto simp: all_digits_def list_all_iff digit_code_char\<close>)

lemma example_row_ok:
  "normalizePromotionCode i = Inr i \<Longrightarrow> 0 < u \<Longrightarrow> promotion_row_ok (example_promotion i u)"
  by (simp add: promotion_row_ok_def example_promotion_def parsePromotionType_def
      requirePromotionValue_def requireCreatePromotionWindow_def normalizeCustomerLabel_def)

definition starved_db :: promotion_db where
  "starved_db = \<lparr>promotions = map (\<lambda>n. example_promotion (show_nat n) 5) [0..<100] @
     [example_promotion ''LIVE'' 1000], redemptions = []\<rparr>"

lemma live_not_number: "''LIVE'' \<noteq> show_nat n"
proof
  assume e: "''LIVE'' = show_nat n"
  have "all_digits ''LIVE''" unfolding e by (rule all_digits_show_nat)
  then show False by (simp add: all_digits_def is_digit_def)
qed

lemma starved_inv: "promotion_inv starved_db"
proof -
  have ids: "map pm_id (promotions starved_db) = map show_nat [0..<100] @ [''LIVE'']"
    "map pm_code (promotions starved_db) = map show_nat [0..<100] @ [''LIVE'']"
    by (simp_all add: starved_db_def example_promotion_def comp_def del: upt_rec_numeral)
  have "inj show_nat" by (metis injI read_show_nat)
  then have d: "distinct (map show_nat [0..<100] @ [''LIVE''])"
    using live_not_number by (auto simp: distinct_map inj_on_def inj_def)
  have live: "normalizePromotionCode ''LIVE'' = Inr ''LIVE''"
    by (rule normalizePromotionCode_id) (simp_all add: CODE_MAX_LEN_def code_char_def)
  have "\<forall>p \<in> set (promotions starved_db). promotion_row_ok p"
    using live show_nat_code example_row_ok
    by (auto simp: starved_db_def simp del: upt_rec_numeral)
  moreover have "redemptions starved_db = []" by (simp add: starved_db_def del: upt_rec_numeral)
  ultimately show ?thesis using d unfolding promotion_inv_def ids by simp
qed

lemma starved_candidates:
  "listDiscoverableCandidates starved_db = map (\<lambda>n. example_promotion (show_nat n) 5) [0..<100]"
proof -
  have "sorted (map (\<lambda>p. fst (discoverable_key p)) (promotions starved_db))"
    by (simp add: starved_db_def sorted_append discoverable_key_def example_promotion_def comp_def
        map_replicate_const del: upt_rec_numeral)
  then have "sort_key (\<lambda>p. fst (discoverable_key p)) (promotions starved_db) = promotions starved_db"
    by (rule sort_key_id_if_sorted)
  moreover have "filter (\<lambda>p. pm_customerDiscoverable p \<and> pm_active p) (promotions starved_db)
      = promotions starved_db"
    by (auto simp: starved_db_def filter_id_conv example_promotion_def simp del: upt_rec_numeral)
  ultimately show ?thesis
    by (simp add: listDiscoverableCandidates_def FETCH_CAP_def starved_db_def del: upt_rec_numeral)
qed

lemma decision_facts:
  assumes "buildPromotionDecision p (JInt b) t = Inr d" "b \<le> MAX_SAFE_INTEGER"
  shows "isPromotionWindowEffective p t \<and>
    (\<exists>k f n. parsePromotionType (pm_type p) = Inr (k, f) \<and> pm_value p = JInt n \<and>
      pd_discountAmountMinor d = JInt (discount_spec k n b) \<and>
      0 \<le> discount_spec k n b \<and> discount_spec k n b \<le> b \<and>
      (pd_merchantDiscountMinor d, pd_platformDiscountMinor d) =
        (if f = FUND_MERCHANT then (JInt (discount_spec k n b), JInt 0)
         else (JInt 0, JInt (discount_spec k n b))))"
proof -
  obtain k f disc buckets where w: "isPromotionWindowEffective p t"
    and ty: "parsePromotionType (pm_type p) = Inr (k, f)"
    and c: "calculateDiscountAmountMinor k (pm_value p) (JInt b) = Inr disc"
    and a: "allocateDiscountByFunding disc f = Inr buckets"
    and d: "pd_discountAmountMinor d = disc" "pd_merchantDiscountMinor d = fst buckets"
      "pd_platformDiscountMinor d = snd buckets"
    using assms(1) by (auto simp: buildPromotionDecision_def ebind_Inr assertPromotionEffective_ok)
  obtain n where n: "pm_value p = JInt n" "0 < n" "k = RATE_BPS \<longrightarrow> n \<le> 10000" "0 \<le> b"
    using calculateDiscount_dom [OF c] by blast
  have spec: "disc = JInt (discount_spec k n b)" "0 \<le> discount_spec k n b" "discount_spec k n b \<le> b"
    using calculateDiscount_ints [of b n k] n assms(2) c by simp_all
  show ?thesis
    using w ty n(1) spec a d
    by (auto simp: allocateDiscountByFunding_def split: if_splits)
qed

section \<open>Properties\<close>

text \<open>
  C8. A promotion decision is only made inside the half-open window of an active promotion;
  the discount is the floor of the rate on the base (or the fixed amount), never more than
  the base, and all of it is charged to the single party the type names.
\<close>

theorem buildPromotionDecision_spec:
  "buildPromotionDecision p (JInt b) t = Inr d \<Longrightarrow> b \<le> MAX_SAFE_INTEGER \<Longrightarrow>
   isPromotionWindowEffective p t \<and>
   (\<exists>k f n. parsePromotionType (pm_type p) = Inr (k, f) \<and> pm_value p = JInt n \<and>
      pd_discountAmountMinor d = JInt (discount_spec k n b) \<and>
      0 \<le> discount_spec k n b \<and> discount_spec k n b \<le> b \<and>
      (pd_merchantDiscountMinor d, pd_platformDiscountMinor d) =
        (if f = FUND_MERCHANT then (JInt (discount_spec k n b), JInt 0)
         else (JInt 0, JInt (discount_spec k n b))))"
  by (rule decision_facts)

theorem buildPromotionDecision_spec_witness:
  "\<exists>d. buildPromotionDecision (example_promotion ''P'' 9) (JInt 1205) 5 = Inr d \<and>
     pd_discountAmountMinor d = JInt 120"
proof -
  obtain d where d: "buildPromotionDecision (example_promotion ''P'' 9) (JInt 1205) 5 = Inr d"
    by (simp add: buildPromotionDecision_def example_promotion_def assertPromotionEffective_def
        parsePromotionType_def calculateDiscountAmountMinor_def requirePromotionValue_def
        double_of_int_exact MAX_SAFE_INTEGER_def js_min_def allocateDiscountByFunding_def)
  have "(1205::int) \<le> MAX_SAFE_INTEGER" by (simp add: MAX_SAFE_INTEGER_def)
  from buildPromotionDecision_spec [OF d this] d show ?thesis
    by (auto simp: example_promotion_def parsePromotionType_def discount_spec_def)
qed



text \<open>
  Discovery can hide every live promotion: the query keeps the 100 active discoverable
  rows that end first, expired ones included, and only then drops the expired ones. There is
  a well-formed table with a live discoverable promotion for which a customer sees none.
\<close>

theorem discovery_starved_by_expired:
  "\<exists>db p. promotion_inv db \<and> p \<in> set (promotions db) \<and> isPromotionDiscoverable p 10 \<and>
     listDiscoverableForCustomer (Some ''c'') 10 (JInt 20) db = Inr []"
proof -
  have "filter (\<lambda>p. isPromotionDiscoverable p 10) (listDiscoverableCandidates starved_db) = []"
    by (auto simp: starved_candidates filter_empty_conv isPromotionDiscoverable_def
        isPromotionWindowEffective_def example_promotion_def simp del: upt_rec_numeral)
  then have "listDiscoverableForCustomer (Some ''c'') 10 (JInt 20) starved_db = Inr []"
    by (simp add: listDiscoverableForCustomer_def)
  moreover have "isPromotionDiscoverable (example_promotion ''LIVE'' 1000) 10"
    by (simp add: isPromotionDiscoverable_def isPromotionWindowEffective_def example_promotion_def
        parsePromotionType_def)
  moreover have "example_promotion ''LIVE'' 1000 \<in> set (promotions starved_db)"
    by (simp add: starved_db_def del: upt_rec_numeral)
  ultimately show ?thesis using starved_inv by blast
qed

end
