(* ===== verification/Order_Policy.thy ===== *)
theory Order_Policy
  imports Cart_Policy Commission
begin

text \<open>
  \<open>modules/orders/domain/order.policy.ts\<close>: the statuses of an order, the amounts a customer
  confirms, the price of an order line, the financial snapshot frozen with the order, and
  which merchant action is allowed in which status. The last section has the snapshot's
  arithmetic as exact integers and the balance of its parts.
\<close>

section \<open>Statuses and errors\<close>

datatype order_status =
  O_CREATED | O_CONFIRMED | O_ACTIVE | O_COMPLETED | O_CANCELLED | O_FAILED

datatype fulfillment_status = PENDING_ACCEPTANCE | ACCEPTED | PREPARING | READY

datatype payment_status =
  PAY_PENDING | PAY_PROCESSING | PAY_SUCCEEDED | PAY_FAILED | PAY_CANCELLED

abbreviation PAYMENT_METHOD_COD :: string where "PAYMENT_METHOD_COD \<equiv> ''COD''"
abbreviation PAYMENT_METHOD_ELECTRONIC :: string where
  "PAYMENT_METHOD_ELECTRONIC \<equiv> ''ELECTRONIC''"

datatype order_change = MERCHANDISE | DELIVERY_FEE | CUSTOMER_TOTAL

text \<open>
  The codes of \<open>order.errors.ts\<close>. The reconfirmation error carries its details: what changed
  and the live amounts.
\<close>

datatype order_error =
    ORDER_CART_REQUIRED
  | ORDER_CART_NOT_READY
  | ORDER_ADDRESS_NOT_FOUND
  | ORDER_ADDRESS_COORDINATES_REQUIRED
  | ORDER_ADDRESS_OUTSIDE_ZONE
  | ORDER_DELIVERY_ZONE_AMBIGUOUS
  | ORDER_PRICING_RULE_NOT_FOUND
  | ORDER_PRICING_CONFIGURATION_INVALID
  | ORDER_MERCHANT_NOT_OPERATIONAL
  | ORDER_BRANCH_NOT_OPERATIONAL
  | ORDER_BRANCH_CLOSED
  | ORDER_BRANCH_HOURS_NOT_CONFIGURED
  | ORDER_ALREADY_CREATED
  | ORDER_NOT_FOUND
  | ORDER_PAYMENT_METHOD_INVALID
  | ORDER_FINANCIAL_CONFIGURATION_INVALID
  | ORDER_EXPECTED_AMOUNTS_INVALID
  | ORDER_RECONFIRMATION_REQUIRED "order_change list" jsnum jsnum jsnum
  | MERCHANT_ORDER_NOT_FOUND
  | MERCHANT_ORDER_INVALID_TRANSITION
  | MERCHANT_ORDER_ALREADY_ACCEPTED
  | MERCHANT_ORDER_NOT_REJECTABLE
  | MERCHANT_ORDER_PAYMENT_NOT_READY
  | MERCHANT_ORDER_REJECTION_REQUIRES_CANCELLATION_FLOW
  | MERCHANT_ORDER_PREP_ESTIMATE_INVALID
  | MERCHANT_ORDER_PREP_ESTIMATE_CONFLICT
  | MERCHANT_ORDER_PREP_ESTIMATE_NOT_ALLOWED
  | ORDER_CANCELLATION_NOT_ALLOWED
  | ORDER_CANCELLATION_REASON_INVALID
  | ORDER_CANCELLATION_FULFILLMENT_ACTIVE
  | ORDER_CANCELLATION_COD_COLLECTED
  | ORDER_CANCELLATION_REFUND_REQUIRED
  | ORDER_CANCELLATION_CONFLICT

fun order_http_status :: "order_error \<Rightarrow> int" where
  "order_http_status ORDER_ADDRESS_NOT_FOUND = 404"
| "order_http_status ORDER_ADDRESS_COORDINATES_REQUIRED = 400"
| "order_http_status ORDER_NOT_FOUND = 404"
| "order_http_status ORDER_PAYMENT_METHOD_INVALID = 400"
| "order_http_status ORDER_EXPECTED_AMOUNTS_INVALID = 400"
| "order_http_status MERCHANT_ORDER_NOT_FOUND = 404"
| "order_http_status MERCHANT_ORDER_PREP_ESTIMATE_INVALID = 400"
| "order_http_status ORDER_CANCELLATION_REASON_INVALID = 400"
| "order_http_status _ = 409"

section \<open>Confirmed amounts\<close>

definition ORDER_EXPECTED_MINOR_MAX :: int where
  "ORDER_EXPECTED_MINOR_MAX = CATALOG_PRICE_MINOR_MAX * CART_QUANTITY_MAX * 100"

definition parseOrderPaymentMethod :: "string \<Rightarrow> order_error + string" where
  "parseOrderPaymentMethod v =
     (if v = PAYMENT_METHOD_COD \<or> v = PAYMENT_METHOD_ELECTRONIC then Inr v
      else Inl ORDER_PAYMENT_METHOD_INVALID)"

definition requireExpectedMinor :: "jsnum \<Rightarrow> order_error + jsnum" where
  "requireExpectedMinor v =
     (if \<not> isInteger v \<or> \<not> isSafeInteger v \<or> js_less v (JInt 0)
         \<or> js_less (JInt ORDER_EXPECTED_MINOR_MAX) v
      then Inl ORDER_EXPECTED_AMOUNTS_INVALID else Inr v)"

record confirmed_amounts =
  ca_expectedMerchandiseSubtotalMinor :: jsnum
  ca_expectedDeliveryFeeMinor :: jsnum
  ca_expectedCustomerTotalMinor :: jsnum

definition requireCustomerConfirmedAmounts ::
  "jsnum \<Rightarrow> jsnum \<Rightarrow> jsnum \<Rightarrow> order_error + confirmed_amounts" where
  "requireCustomerConfirmedAmounts merchandise fee t =
     ebind (requireExpectedMinor merchandise) (\<lambda>m.
     ebind (requireExpectedMinor fee) (\<lambda>f.
     ebind (requireExpectedMinor t) (\<lambda>c.
     Inr \<lparr>ca_expectedMerchandiseSubtotalMinor = m, ca_expectedDeliveryFeeMinor = f,
          ca_expectedCustomerTotalMinor = c\<rparr>)))"

text \<open>\<open>!==\<close> on numbers: NaN differs from everything, itself included.\<close>

definition js_neq :: "jsnum \<Rightarrow> jsnum \<Rightarrow> bool" where
  "js_neq x y \<longleftrightarrow> x = JNaN \<or> y = JNaN \<or> x \<noteq> y"

definition requireConfirmedAmountsMatch ::
  "jsnum \<Rightarrow> jsnum \<Rightarrow> jsnum \<Rightarrow> confirmed_amounts \<Rightarrow> order_error + unit" where
  "requireConfirmedAmountsMatch gross fee payable expected =
     (let changes =
            (if js_neq gross (ca_expectedMerchandiseSubtotalMinor expected) then [MERCHANDISE] else [])
            @ (if js_neq fee (ca_expectedDeliveryFeeMinor expected) then [DELIVERY_FEE] else [])
            @ (if js_neq payable (ca_expectedCustomerTotalMinor expected) then [CUSTOMER_TOTAL] else [])
      in if 0 < length changes
         then Inl (ORDER_RECONFIRMATION_REQUIRED changes gross fee payable) else Inr ())"

definition addMinorUnits :: "jsnum \<Rightarrow> jsnum \<Rightarrow> order_error + jsnum" where
  "addMinorUnits left right =
     (if \<not> isInteger left \<or> \<not> isInteger right \<or> js_less left (JInt 0) \<or> js_less right (JInt 0)
      then Inl ORDER_FINANCIAL_CONFIGURATION_INVALID
      else let t = js_add left right
           in if \<not> isSafeInteger t then Inl ORDER_FINANCIAL_CONFIGURATION_INVALID else Inr t)"

definition subtractMinorUnits :: "jsnum \<Rightarrow> jsnum \<Rightarrow> order_error + jsnum" where
  "subtractMinorUnits left right =
     (if \<not> isInteger left \<or> \<not> isInteger right \<or> js_less left (JInt 0) \<or> js_less right (JInt 0)
      then Inl ORDER_FINANCIAL_CONFIGURATION_INVALID
      else let r = js_sub_int left right
           in if \<not> isInteger r \<or> js_less r (JInt 0)
              then Inl ORDER_FINANCIAL_CONFIGURATION_INVALID else Inr r)"

text \<open>
  The order module re-throws every \<open>MerchantCommissionError\<close> (and checkout's configuration
  error, and every \<open>CartError\<close>) as an error of its own.
\<close>

definition commissionAmountMinor :: "jsnum \<Rightarrow> jsnum \<Rightarrow> order_error + jsnum" where
  "commissionAmountMinor baseMinor rateBps =
     emap (\<lambda>_. ORDER_FINANCIAL_CONFIGURATION_INVALID)
       (calculateMerchantCommissionAmountMinor baseMinor rateBps)"

definition selectApplicableCommissionRule ::
  "commission_rule list \<Rightarrow> string \<Rightarrow> instant \<Rightarrow> order_error + commission_rule" where
  "selectApplicableCommissionRule rules merchantId t =
     (case selectApplicableMerchantCommissionRule rules merchantId t of
        Inl _ \<Rightarrow> Inl ORDER_FINANCIAL_CONFIGURATION_INVALID
      | Inr selected \<Rightarrow>
          (case find (\<lambda>r. cr_id r = rr_ruleId selected) rules of
             None \<Rightarrow> Inl ORDER_FINANCIAL_CONFIGURATION_INVALID
           | Some m \<Rightarrow> Inr m))"

definition selectOrderPricingRule :: "pricing_rule list \<Rightarrow> instant \<Rightarrow> order_error + pricing_rule" where
  "selectOrderPricingRule rules t =
     ebind (emap (\<lambda>_. ORDER_PRICING_CONFIGURATION_INVALID) (selectApplicablePricingRules rules t))
       (\<lambda>applicable. case applicable of
          [] \<Rightarrow> Inl ORDER_PRICING_RULE_NOT_FOUND
        | [r] \<Rightarrow> Inr r
        | _ \<Rightarrow> Inl ORDER_PRICING_CONFIGURATION_INVALID)"

section \<open>Order lines\<close>

record product_snapshot =
  ps_productId :: string
  ps_name :: string
  ps_merchantId :: string
  ps_merchantBranchId :: string
  ps_categoryActive :: bool
  ps_productAvailable :: bool
  ps_livePriceMinor :: jsnum
  ps_merchantStatus :: string
  ps_merchantVerifiedAt :: "stamp option"
  ps_merchantName :: string
  ps_branchOperationalStatus :: string
  ps_merchantOperationalReady :: bool
  ps_groups :: "option_group list"
  ps_options :: "cart_option list"

record line_option =
  lo_optionNameSnapshot :: string
  lo_additionalPriceMinor :: jsnum

record order_line =
  ol_productId :: string
  ol_productNameSnapshot :: string
  ol_quantity :: jsnum
  ol_unitPriceMinor :: jsnum
  ol_lineTotalMinor :: jsnum
  ol_options :: "line_option list"

definition requireLiveCartItemReady ::
  "product_snapshot \<Rightarrow> string list \<Rightarrow> order_error + jsnum" where
  "requireLiveCartItemReady snapshot selectedOptionIds =
     emap (\<lambda>_. ORDER_CART_NOT_READY)
       (validateCartOptionSelections (ps_groups snapshot) (ps_options snapshot) selectedOptionIds)"

fun lineOptions :: "cart_option list \<Rightarrow> string list \<Rightarrow> order_error + line_option list" where
  "lineOptions opts [] = Inr []"
| "lineOptions opts (i # is) =
     (case optionsById opts i of
        None \<Rightarrow> Inl ORDER_CART_NOT_READY
      | Some opt \<Rightarrow>
          if js_trim (co_name opt) = [] then Inl ORDER_CART_NOT_READY
          else ebind (lineOptions opts is) (\<lambda>rest.
            Inr (\<lparr>lo_optionNameSnapshot = co_name opt,
                  lo_additionalPriceMinor = co_additionalPriceMinor opt\<rparr> # rest)))"

definition priceOrderLine ::
  "product_snapshot \<Rightarrow> jsnum \<Rightarrow> string list \<Rightarrow> order_error + order_line" where
  "priceOrderLine snapshot quantity selectedOptionIds =
     (let liveBase = parseMinorUnits (DbNum (ps_livePriceMinor snapshot))
      in if \<not> isInteger liveBase \<or> js_less liveBase (JInt 0) then Inl ORDER_CART_NOT_READY
         else ebind (requireLiveCartItemReady snapshot selectedOptionIds) (\<lambda>additionalPriceMinor.
              ebind (addMinorUnits liveBase additionalPriceMinor) (\<lambda>unitPriceMinor.
              ebind (emap (\<lambda>_. ORDER_FINANCIAL_CONFIGURATION_INVALID)
                       (multiplyMinorUnits unitPriceMinor quantity)) (\<lambda>lineTotalMinor.
              ebind (lineOptions (ps_options snapshot) selectedOptionIds) (\<lambda>options.
              Inr \<lparr>ol_productId = ps_productId snapshot, ol_productNameSnapshot = ps_name snapshot,
                   ol_quantity = quantity, ol_unitPriceMinor = unitPriceMinor,
                   ol_lineTotalMinor = lineTotalMinor, ol_options = options\<rparr>)))))"

definition merchandiseSubtotalMinor :: "order_line list \<Rightarrow> order_error + jsnum" where
  "merchandiseSubtotalMinor lines =
     efold (\<lambda>s line. addMinorUnits s (ol_lineTotalMinor line)) (JInt 0) lines"

section \<open>The financial snapshot\<close>

record financial_amounts =
  fa_currency :: string
  fa_grossMerchandiseSubtotalMinor :: jsnum
  fa_merchantDiscountMinor :: jsnum
  fa_platformDiscountMinor :: jsnum
  fa_totalDiscountMinor :: jsnum
  fa_commissionBaseMinor :: jsnum
  fa_merchantCommissionRateBps :: jsnum
  fa_merchantCommissionAmountMinor :: jsnum
  fa_merchantNetAmountMinor :: jsnum
  fa_customerDeliveryFeeMinor :: jsnum
  fa_driverRemunerationMinor :: jsnum
  fa_speedyGoDeliveryShareMinor :: jsnum
  fa_serviceFeeMinor :: jsnum
  fa_customerPayableMinor :: jsnum
  fa_commissionRuleId :: string
  fa_pricingRuleId :: string

record snapshot_input =
  si_grossMerchandiseSubtotalMinor :: jsnum
  si_customerDeliveryFeeMinor :: jsnum
  si_driverRemunerationMinor :: jsnum
  si_merchantCommissionRateBps :: jsnum
  si_commissionRuleId :: string
  si_pricingRuleId :: string
  si_merchantDiscountMinor :: "jsnum option"
  si_platformDiscountMinor :: "jsnum option"

definition buildOrderFinancialSnapshot :: "snapshot_input \<Rightarrow> order_error + financial_amounts" where
  "buildOrderFinancialSnapshot input =
     (let gross = si_grossMerchandiseSubtotalMinor input;
          fee = si_customerDeliveryFeeMinor input;
          rate = si_merchantCommissionRateBps input;
          merchantDiscountMinor = js_default (si_merchantDiscountMinor input) (JInt 0);
          platformDiscountMinor = js_default (si_platformDiscountMinor input) (JInt 0)
      in if \<not> isInteger gross \<or> js_less gross (JInt 0)
            \<or> js_less (JInt ORDER_EXPECTED_MINOR_MAX) gross
         then Inl ORDER_FINANCIAL_CONFIGURATION_INVALID
         else if \<not> isInteger merchantDiscountMinor \<or> js_less merchantDiscountMinor (JInt 0)
            \<or> \<not> isInteger platformDiscountMinor \<or> js_less platformDiscountMinor (JInt 0)
         then Inl ORDER_FINANCIAL_CONFIGURATION_INVALID
         else ebind (addMinorUnits merchantDiscountMinor platformDiscountMinor)
           (\<lambda>totalDiscountMinor.
         if js_less gross totalDiscountMinor then Inl ORDER_FINANCIAL_CONFIGURATION_INVALID
         else ebind (commissionAmountMinor gross rate) (\<lambda>commission.
              ebind (subtractMinorUnits gross merchantDiscountMinor) (\<lambda>afterMerchant.
              ebind (subtractMinorUnits afterMerchant commission) (\<lambda>merchantNet.
              ebind (subtractMinorUnits fee (si_driverRemunerationMinor input)) (\<lambda>share.
              ebind (subtractMinorUnits gross totalDiscountMinor) (\<lambda>afterDiscounts.
              ebind (addMinorUnits afterDiscounts fee) (\<lambda>withFee.
              ebind (addMinorUnits withFee (JInt 0)) (\<lambda>customerPayable.
              Inr \<lparr>fa_currency = ''DZD'', fa_grossMerchandiseSubtotalMinor = gross,
                   fa_merchantDiscountMinor = merchantDiscountMinor,
                   fa_platformDiscountMinor = platformDiscountMinor,
                   fa_totalDiscountMinor = totalDiscountMinor, fa_commissionBaseMinor = gross,
                   fa_merchantCommissionRateBps = rate,
                   fa_merchantCommissionAmountMinor = commission,
                   fa_merchantNetAmountMinor = merchantNet, fa_customerDeliveryFeeMinor = fee,
                   fa_driverRemunerationMinor = si_driverRemunerationMinor input,
                   fa_speedyGoDeliveryShareMinor = share, fa_serviceFeeMinor = JInt 0,
                   fa_customerPayableMinor = customerPayable,
                   fa_commissionRuleId = si_commissionRuleId input,
                   fa_pricingRuleId = si_pricingRuleId input\<rparr>)))))))))"

definition uniqueSortedIds :: "string list \<Rightarrow> string list" where
  "uniqueSortedIds ids = sort (remdups ids)"

section \<open>Merchant workflow decisions\<close>

datatype merchant_action = ACCEPT | REJECT | START_PREPARATION | MARK_READY
datatype transition_decision = APPLY | ALREADY_ACCEPTED | NOT_REJECTABLE | INVALID

definition isTerminalOrderStatus :: "order_status \<Rightarrow> bool" where
  "isTerminalOrderStatus s \<longleftrightarrow> s = O_COMPLETED \<or> s = O_CANCELLED \<or> s = O_FAILED"

definition inspectMerchantWorkflowTransition ::
  "merchant_action \<Rightarrow> order_status \<Rightarrow> fulfillment_status \<Rightarrow> transition_decision" where
  "inspectMerchantWorkflowTransition action status fulfillment =
     (if action = REJECT then
        (if \<not> isTerminalOrderStatus status \<and> status = O_CREATED \<and> fulfillment = PENDING_ACCEPTANCE
         then APPLY else NOT_REJECTABLE)
      else if isTerminalOrderStatus status then INVALID
      else if action = ACCEPT then
        (if status = O_CREATED \<and> fulfillment = PENDING_ACCEPTANCE then APPLY
         else if status = O_CONFIRMED \<and> fulfillment = ACCEPTED then ALREADY_ACCEPTED
         else INVALID)
      else if action = START_PREPARATION then
        (if status = O_CONFIRMED \<and> fulfillment = ACCEPTED then APPLY else INVALID)
      else if status = O_ACTIVE \<and> fulfillment = PREPARING then APPLY else INVALID)"

definition merchantPreparationPaymentReady :: "string \<Rightarrow> payment_status \<Rightarrow> bool" where
  "merchantPreparationPaymentReady paymentMethod paymentStatus =
     (if paymentMethod = PAYMENT_METHOD_COD
      then paymentStatus \<noteq> PAY_FAILED \<and> paymentStatus \<noteq> PAY_CANCELLED
      else if paymentMethod = PAYMENT_METHOD_ELECTRONIC then paymentStatus = PAY_SUCCEEDED
      else False)"

definition merchantWorkflowEvent :: "merchant_action \<Rightarrow> string \<times> order_status \<times> order_status" where
  "merchantWorkflowEvent action =
     (case action of
        ACCEPT \<Rightarrow> (''MERCHANT_ACCEPTED'', O_CREATED, O_CONFIRMED)
      | REJECT \<Rightarrow> (''MERCHANT_REJECTED'', O_CREATED, O_CANCELLED)
      | START_PREPARATION \<Rightarrow> (''PREPARATION_STARTED'', O_CONFIRMED, O_ACTIVE)
      | MARK_READY \<Rightarrow> (''ORDER_READY'', O_ACTIVE, O_ACTIVE))"

section \<open>Lemmas\<close>

lemma addMinorUnits_ok [guards]:
  "addMinorUnits x y = Inr z \<longleftrightarrow>
   (\<exists>a b. x = JInt a \<and> y = JInt b \<and> 0 \<le> a \<and> 0 \<le> b \<and> a + b \<le> MAX_SAFE_INTEGER \<and> z = JInt (a + b))"
proof (cases "\<exists>a b. x = JInt a \<and> y = JInt b \<and> 0 \<le> a \<and> 0 \<le> b")
  case True
  then obtain a b where "x = JInt a" "y = JInt b" and n: "0 \<le> a" "0 \<le> b" by blast
  then show ?thesis
    using js_add_safe [of a b] js_add_exact [of a b]
    by (auto simp: addMinorUnits_def Let_def simp del: js_add.simps)
next
  case False
  then have "addMinorUnits x y = Inl ORDER_FINANCIAL_CONFIGURATION_INVALID"
    by (cases x; cases y) (auto simp: addMinorUnits_def not_le)
  with False show ?thesis by auto
qed

lemma subtractMinorUnits_ok:
  assumes "a \<le> MAX_SAFE_INTEGER" "b \<le> MAX_SAFE_INTEGER"
  shows "subtractMinorUnits (JInt a) (JInt b) = Inr z \<longleftrightarrow>
    0 \<le> a \<and> 0 \<le> b \<and> b \<le> a \<and> z = JInt (a - b)"
proof (cases "0 \<le> a \<and> 0 \<le> b")
  case True
  then have "\<bar>a - b\<bar> \<le> MAX_SAFE_INTEGER" using assms by linarith
  then have "js_sub_int (JInt a) (JInt b) = JInt (a - b)" by (simp add: double_of_int_exact)
  with True show ?thesis by (auto simp: subtractMinorUnits_def Let_def)
qed (auto simp: subtractMinorUnits_def)

lemma subtractMinorUnits_ints:
  "subtractMinorUnits x y = Inr z \<Longrightarrow> \<exists>a b. x = JInt a \<and> y = JInt b \<and> 0 \<le> a \<and> 0 \<le> b"
  by (cases x; cases y) (auto simp: subtractMinorUnits_def not_less split: if_splits)

lemma requireExpectedMinor_ok [guards]:
  "requireExpectedMinor v = Inr w \<longleftrightarrow>
   (\<exists>n. v = JInt n \<and> w = JInt n \<and> 0 \<le> n \<and> n \<le> ORDER_EXPECTED_MINOR_MAX)"
  by (cases v) (auto simp: requireExpectedMinor_def ORDER_EXPECTED_MINOR_MAX_def
      CATALOG_PRICE_MINOR_MAX_def CART_QUANTITY_MAX_def MAX_SAFE_INTEGER_def)

lemma expected_max_safe: "ORDER_EXPECTED_MINOR_MAX \<le> MAX_SAFE_INTEGER"
  by (simp add: ORDER_EXPECTED_MINOR_MAX_def CATALOG_PRICE_MINOR_MAX_def CART_QUANTITY_MAX_def
      MAX_SAFE_INTEGER_def)

lemma subtractMinorUnits_le:
  assumes "subtractMinorUnits (JInt a) (JInt b) = Inr z"
  shows "b \<le> a"
proof (rule ccontr)
  assume "\<not> b \<le> a"
  then have "double_of_int (a - b) = JNegInf \<or> (\<exists>m. double_of_int (a - b) = JInt m \<and> m < 0)"
    by (intro double_of_int_neg) simp
  with assms show False by (auto simp: subtractMinorUnits_def Let_def split: if_splits)
qed

lemma subtractMinorUnits_exact [guards]:
  assumes "a \<le> MAX_SAFE_INTEGER"
  shows "subtractMinorUnits (JInt a) y = Inr z \<longleftrightarrow>
    (\<exists>b. y = JInt b \<and> 0 \<le> b \<and> b \<le> a \<and> z = JInt (a - b))"
proof
  assume s: "subtractMinorUnits (JInt a) y = Inr z"
  then obtain b where y: "y = JInt b" and "0 \<le> b" using subtractMinorUnits_ints by blast
  moreover have "b \<le> a" using s y subtractMinorUnits_le by blast
  ultimately show "\<exists>b. y = JInt b \<and> 0 \<le> b \<and> b \<le> a \<and> z = JInt (a - b)"
    using s subtractMinorUnits_ok [of a b z] assms by simp
qed (use assms subtractMinorUnits_ok in auto)

lemma commissionAmountMinor_ok [guards]:
  "commissionAmountMinor b r = Inr a \<longleftrightarrow>
   (\<exists>m n. b = JInt m \<and> r = JInt n \<and> 0 \<le> m \<and> m \<le> MAX_SAFE_INTEGER \<and> 0 \<le> n \<and> n \<le> 10000 \<and>
      a = JInt (m * n div 10000))"
  by (simp add: commissionAmountMinor_def emap_Inr commission_amount)

text \<open>The snapshot as exact integers: gross, the two discounts, rate, fee and remuneration.\<close>

definition exact_snapshot ::
  "snapshot_input \<Rightarrow> int \<Rightarrow> int \<Rightarrow> int \<Rightarrow> int \<Rightarrow> int \<Rightarrow> int \<Rightarrow> financial_amounts" where
  "exact_snapshot input g md pd rate fee dr =
     \<lparr>fa_currency = ''DZD'', fa_grossMerchandiseSubtotalMinor = JInt g,
      fa_merchantDiscountMinor = JInt md, fa_platformDiscountMinor = JInt pd,
      fa_totalDiscountMinor = JInt (md + pd), fa_commissionBaseMinor = JInt g,
      fa_merchantCommissionRateBps = JInt rate,
      fa_merchantCommissionAmountMinor = JInt (g * rate div 10000),
      fa_merchantNetAmountMinor = JInt (g - md - g * rate div 10000),
      fa_customerDeliveryFeeMinor = JInt fee, fa_driverRemunerationMinor = JInt dr,
      fa_speedyGoDeliveryShareMinor = JInt (fee - dr), fa_serviceFeeMinor = JInt 0,
      fa_customerPayableMinor = JInt (g - (md + pd) + fee),
      fa_commissionRuleId = si_commissionRuleId input, fa_pricingRuleId = si_pricingRuleId input\<rparr>"

definition snapshot_args :: "snapshot_input \<Rightarrow> int \<Rightarrow> int \<Rightarrow> int \<Rightarrow> int \<Rightarrow> int \<Rightarrow> int \<Rightarrow> bool" where
  "snapshot_args input g md pd rate fee dr \<longleftrightarrow>
     si_grossMerchandiseSubtotalMinor input = JInt g \<and>
     js_default (si_merchantDiscountMinor input) (JInt 0) = JInt md \<and>
     js_default (si_platformDiscountMinor input) (JInt 0) = JInt pd \<and>
     si_merchantCommissionRateBps input = JInt rate \<and>
     si_customerDeliveryFeeMinor input = JInt fee \<and> si_driverRemunerationMinor input = JInt dr"

text \<open>What the code demands: a discount within the gross, a net that stays non-negative.\<close>

definition snapshot_bounds :: "int \<Rightarrow> int \<Rightarrow> int \<Rightarrow> int \<Rightarrow> int \<Rightarrow> int \<Rightarrow> bool" where
  "snapshot_bounds g md pd rate fee dr \<longleftrightarrow>
     0 \<le> g \<and> g \<le> ORDER_EXPECTED_MINOR_MAX \<and> 0 \<le> md \<and> 0 \<le> pd \<and> md + pd \<le> g \<and>
     0 \<le> rate \<and> rate \<le> 10000 \<and> g * rate div 10000 \<le> g - md \<and> 0 \<le> dr \<and> dr \<le> fee \<and>
     g - (md + pd) + fee \<le> MAX_SAFE_INTEGER"

lemma snapshot_sound:
  assumes "buildOrderFinancialSnapshot input = Inr f"
  shows "\<exists>g md pd rate fee dr. snapshot_args input g md pd rate fee dr \<and>
    snapshot_bounds g md pd rate fee dr \<and> f = exact_snapshot input g md pd rate fee dr"
proof -
  let ?gross = "si_grossMerchandiseSubtotalMinor input"
  let ?md = "js_default (si_merchantDiscountMinor input) (JInt 0)"
  let ?pd = "js_default (si_platformDiscountMinor input) (JInt 0)"
  obtain total comm afterM net share afterD withFee payable where
      guards: "isInteger ?gross" "\<not> js_less ?gross (JInt 0)"
        "\<not> js_less (JInt ORDER_EXPECTED_MINOR_MAX) ?gross" "\<not> js_less ?gross total"
    and steps: "addMinorUnits ?md ?pd = Inr total"
        "commissionAmountMinor ?gross (si_merchantCommissionRateBps input) = Inr comm"
        "subtractMinorUnits ?gross ?md = Inr afterM" "subtractMinorUnits afterM comm = Inr net"
        "subtractMinorUnits (si_customerDeliveryFeeMinor input) (si_driverRemunerationMinor input)
          = Inr share"
        "subtractMinorUnits ?gross total = Inr afterD"
        "addMinorUnits afterD (si_customerDeliveryFeeMinor input) = Inr withFee"
        "addMinorUnits withFee (JInt 0) = Inr payable"
    and f: "f = \<lparr>fa_currency = ''DZD'', fa_grossMerchandiseSubtotalMinor = ?gross,
        fa_merchantDiscountMinor = ?md, fa_platformDiscountMinor = ?pd,
        fa_totalDiscountMinor = total, fa_commissionBaseMinor = ?gross,
        fa_merchantCommissionRateBps = si_merchantCommissionRateBps input,
        fa_merchantCommissionAmountMinor = comm, fa_merchantNetAmountMinor = net,
        fa_customerDeliveryFeeMinor = si_customerDeliveryFeeMinor input,
        fa_driverRemunerationMinor = si_driverRemunerationMinor input,
        fa_speedyGoDeliveryShareMinor = share, fa_serviceFeeMinor = JInt 0,
        fa_customerPayableMinor = payable, fa_commissionRuleId = si_commissionRuleId input,
        fa_pricingRuleId = si_pricingRuleId input\<rparr>"
    using assms unfolding buildOrderFinancialSnapshot_def Let_def ebind_Inr if_Inr by auto
  obtain g where g: "?gross = JInt g" "0 \<le> g" "g \<le> ORDER_EXPECTED_MINOR_MAX"
    using guards by (auto simp: isInteger_iff)
  then have gs: "g \<le> MAX_SAFE_INTEGER" using expected_max_safe by simp
  obtain md pd where d: "?md = JInt md" "?pd = JInt pd" "0 \<le> md" "0 \<le> pd" "total = JInt (md + pd)"
    using steps(1) by (auto simp: addMinorUnits_ok)
  obtain rate where r: "si_merchantCommissionRateBps input = JInt rate" "0 \<le> rate" "rate \<le> 10000"
    "comm = JInt (g * rate div 10000)"
    using steps(2) g(1) by (auto simp: commissionAmountMinor_ok)
  have am: "afterM = JInt (g - md)" "md \<le> g"
    using steps(3) g d gs by (auto simp: subtractMinorUnits_exact)
  have net: "net = JInt (g - md - g * rate div 10000)" "g * rate div 10000 \<le> g - md"
    using steps(4) am(1) r(4) gs d(3) by (auto simp: subtractMinorUnits_exact)
  have ad: "afterD = JInt (g - (md + pd))"
    using steps(6) g d gs by (auto simp: subtractMinorUnits_exact)
  obtain fee where fee: "si_customerDeliveryFeeMinor input = JInt fee"
    "g - (md + pd) + fee \<le> MAX_SAFE_INTEGER" "withFee = JInt (g - (md + pd) + fee)" "0 \<le> g - (md + pd)"
    using steps(7) ad by (auto simp: addMinorUnits_ok)
  have pay: "payable = JInt (g - (md + pd) + fee)"
    using steps(8) fee(3) by (auto simp: addMinorUnits_ok)
  obtain dr where dr: "si_driverRemunerationMinor input = JInt dr" "0 \<le> dr" "dr \<le> fee"
    "share = JInt (fee - dr)"
    using steps(5) fee by (auto simp: subtractMinorUnits_exact)
  have "snapshot_args input g md pd rate fee dr"
    using g d r fee dr by (simp add: snapshot_args_def)
  moreover have "snapshot_bounds g md pd rate fee dr"
    using g d r fee dr net by (simp add: snapshot_bounds_def)
  moreover have "f = exact_snapshot input g md pd rate fee dr"
    unfolding f exact_snapshot_def using g d r fee dr net pay by simp
  ultimately show ?thesis by blast
qed

lemma snapshot_complete:
  assumes a: "snapshot_args input g md pd rate fee dr" and b: "snapshot_bounds g md pd rate fee dr"
  shows "buildOrderFinancialSnapshot input = Inr (exact_snapshot input g md pd rate fee dr)"
proof -
  note b' = b [unfolded snapshot_bounds_def]
  have gs: "g \<le> MAX_SAFE_INTEGER" using b' expected_max_safe by linarith
  have "addMinorUnits (JInt md) (JInt pd) = Inr (JInt (md + pd))"
    using b' gs by (simp add: addMinorUnits_ok)
  moreover have "commissionAmountMinor (JInt g) (JInt rate) = Inr (JInt (g * rate div 10000))"
    using b' gs by (simp add: commissionAmountMinor_ok)
  moreover have "subtractMinorUnits (JInt g) (JInt md) = Inr (JInt (g - md))"
    using b' gs by (simp add: subtractMinorUnits_exact)
  moreover have "subtractMinorUnits (JInt (g - md)) (JInt (g * rate div 10000)) =
      Inr (JInt (g - md - g * rate div 10000))"
    using b' gs by (simp add: subtractMinorUnits_exact pos_imp_zdiv_nonneg_iff)
  moreover have "subtractMinorUnits (JInt fee) (JInt dr) = Inr (JInt (fee - dr))"
    using b' by (intro subtractMinorUnits_exact [THEN iffD2]) auto
  moreover have "subtractMinorUnits (JInt g) (JInt (md + pd)) = Inr (JInt (g - (md + pd)))"
    using b' gs by (simp add: subtractMinorUnits_exact)
  moreover have "addMinorUnits (JInt (g - (md + pd))) (JInt fee) = Inr (JInt (g - (md + pd) + fee))"
    using b' by (simp add: addMinorUnits_ok)
  moreover have "addMinorUnits (JInt (g - (md + pd) + fee)) (JInt 0) =
      Inr (JInt (g - (md + pd) + fee))"
    using b' by (simp add: addMinorUnits_ok)
  ultimately show ?thesis
    using a b' unfolding buildOrderFinancialSnapshot_def Let_def snapshot_args_def
    by (simp add: exact_snapshot_def)
qed

lemma lineOptions_ok:
  "lineOptions opts ids = Inr ls \<Longrightarrow>
   map lo_optionNameSnapshot ls = map (\<lambda>i. co_name (the (optionsById opts i))) ids \<and>
   map lo_additionalPriceMinor ls =
     map (\<lambda>i. co_additionalPriceMinor (the (optionsById opts i))) ids"
  by (induction ids arbitrary: ls) (auto simp: ebind_Inr split: option.splits if_splits)

lemma selection_ok_known:
  "selection_ok groups opts ids \<Longrightarrow> i \<in> set ids \<Longrightarrow> \<exists>opt. optionsById opts i = Some opt"
  unfolding selection_ok_def by blast

lemma option_price_known:
  assumes "optionsById opts i = Some opt" "prices_ok opts"
  shows "co_additionalPriceMinor opt = JInt (option_price opts i)"
proof -
  obtain n where "co_additionalPriceMinor opt = JInt n"
    using assms optionsById_Some unfolding prices_ok_def by blast
  with assms(1) show ?thesis by (simp add: option_price_def)
qed

lemma lineOptions_prices:
  assumes l: "lineOptions opts ids = Inr ls" and s: "selection_ok groups opts ids"
    and p: "prices_ok opts"
  shows "map lo_additionalPriceMinor ls = map (\<lambda>i. JInt (option_price opts i)) ids"
proof -
  have "co_additionalPriceMinor (the (optionsById opts i)) = JInt (option_price opts i)"
    if "i \<in> set ids" for i
    using selection_ok_known [OF s that] option_price_known [OF _ p] by (elim exE) simp
  then have "map (\<lambda>i. co_additionalPriceMinor (the (optionsById opts i))) ids =
      map (\<lambda>i. JInt (option_price opts i)) ids"
    by (intro map_cong refl)
  with lineOptions_ok [OF l] show ?thesis by (simp only:)
qed

lemma priceOrderLine_steps:
  assumes "priceOrderLine snapshot quantity ids = Inr line"
  shows "\<exists>extra.
    validateCartOptionSelections (ps_groups snapshot) (ps_options snapshot) ids = Inr extra \<and>
    addMinorUnits (ps_livePriceMinor snapshot) extra = Inr (ol_unitPriceMinor line) \<and>
    multiplyMinorUnits (ol_unitPriceMinor line) quantity = Inr (ol_lineTotalMinor line) \<and>
    lineOptions (ps_options snapshot) ids = Inr (ol_options line) \<and>
    ol_quantity line = quantity \<and> ol_productId line = ps_productId snapshot"
  using assms
  unfolding priceOrderLine_def requireLiveCartItemReady_def Let_def parseMinorUnits.simps
    ebind_Inr if_Inr emap_Inr
  by fastforce

lemma line_price_exact:
  assumes line: "priceOrderLine snapshot quantity ids = Inr line"
    and base: "ps_livePriceMinor snapshot = JInt b"
    and opts: "prices_ok (ps_options snapshot)"
    and small: "sum_list (map (option_price (ps_options snapshot)) ids) \<le> MAX_SAFE_INTEGER"
  shows "\<exists>q. quantity = JInt q \<and> 1 \<le> q \<and>
    ol_unitPriceMinor line = JInt (b + sum_list (map (option_price (ps_options snapshot)) ids)) \<and>
    ol_lineTotalMinor line = JInt ((b + sum_list (map (option_price (ps_options snapshot)) ids)) * q) \<and>
    selection_ok (ps_groups snapshot) (ps_options snapshot) ids \<and>
    map lo_additionalPriceMinor (ol_options line) =
      map (\<lambda>i. JInt (option_price (ps_options snapshot) i)) ids"
proof -
  obtain extra where v: "validateCartOptionSelections (ps_groups snapshot) (ps_options snapshot) ids
        = Inr extra"
    and u: "addMinorUnits (JInt b) extra = Inr (ol_unitPriceMinor line)"
    and m: "multiplyMinorUnits (ol_unitPriceMinor line) quantity = Inr (ol_lineTotalMinor line)"
    and l: "lineOptions (ps_options snapshot) ids = Inr (ol_options line)"
    using priceOrderLine_steps [OF line] base by auto
  have sel: "selection_ok (ps_groups snapshot) (ps_options snapshot) ids"
    using v by (rule validate_selection_ok)
  have "extra = JInt (sum_list (map (option_price (ps_options snapshot)) ids))"
    using validate_price [OF opts small sel] v by simp
  with u m sel lineOptions_prices [OF l sel opts] show ?thesis
    by (auto simp: addMinorUnits_ok multiplyMinorUnits_ok)
qed

lemma merchandiseSubtotal_from:
  "efold (\<lambda>s line. addMinorUnits s (ol_lineTotalMinor line)) (JInt a) lines = Inr g \<Longrightarrow>
   \<exists>ns. map ol_lineTotalMinor lines = map JInt ns \<and> (\<forall>n \<in> set ns. 0 \<le> n) \<and>
     g = JInt (a + sum_list ns)"
proof (induction lines arbitrary: a)
  case Nil
  then show ?case by simp
next
  case (Cons line lines)
  then obtain n where n: "ol_lineTotalMinor line = JInt n" "0 \<le> n"
    and "efold (\<lambda>s line. addMinorUnits s (ol_lineTotalMinor line)) (JInt (a + n)) lines = Inr g"
    by (auto simp: ebind_Inr addMinorUnits_ok)
  from Cons.IH [OF this(3)] obtain ns where "map ol_lineTotalMinor lines = map JInt ns"
    "\<forall>n \<in> set ns. 0 \<le> n" "g = JInt (a + n + sum_list ns)" by blast
  with n show ?case by (intro exI [of _ "n # ns"]) simp
qed

lemma subtotal_exact:
  "merchandiseSubtotalMinor lines = Inr g \<Longrightarrow>
   \<exists>ns. map ol_lineTotalMinor lines = map JInt ns \<and> (\<forall>n \<in> set ns. 0 \<le> n) \<and> g = JInt (sum_list ns)"
  using merchandiseSubtotal_from [of 0] by (simp add: merchandiseSubtotalMinor_def)

lemma subtotal_append:
  "merchandiseSubtotalMinor lines = Inr g \<Longrightarrow>
   g = JInt (sum_list (map (\<lambda>l. the_int (ol_lineTotalMinor l)) lines))"
proof -
  assume "merchandiseSubtotalMinor lines = Inr g"
  then obtain ns where ns: "map ol_lineTotalMinor lines = map JInt ns" "g = JInt (sum_list ns)"
    using subtotal_exact by blast
  have "map the_int (map ol_lineTotalMinor lines) = ns" unfolding ns(1) by (simp add: comp_def)
  with ns(2) show ?thesis by (simp add: comp_def)
qed

section \<open>Properties\<close>

text \<open>
  C10. The price of an order line is exact: the live base price plus the prices of exactly the
  selected options, times the quantity, with the same option prices frozen on the line; and
  the line exists only for a selection the catalogue allows.
\<close>

theorem priceOrderLine_exact:
  assumes "priceOrderLine snapshot quantity ids = Inr line"
    and "ps_livePriceMinor snapshot = JInt b" and "prices_ok (ps_options snapshot)"
    and "sum_list (map (option_price (ps_options snapshot)) ids) \<le> MAX_SAFE_INTEGER"
  shows "\<exists>q. quantity = JInt q \<and> 1 \<le> q \<and>
    ol_unitPriceMinor line = JInt (b + sum_list (map (option_price (ps_options snapshot)) ids)) \<and>
    ol_lineTotalMinor line = JInt ((b + sum_list (map (option_price (ps_options snapshot)) ids)) * q) \<and>
    selection_ok (ps_groups snapshot) (ps_options snapshot) ids \<and>
    map lo_additionalPriceMinor (ol_options line) =
      map (\<lambda>i. JInt (option_price (ps_options snapshot) i)) ids"
  using assms by (rule line_price_exact)

definition example_snapshot :: product_snapshot where
  "example_snapshot =
     \<lparr>ps_productId = ''p'', ps_name = ''Couscous'', ps_merchantId = ''m'', ps_merchantBranchId = ''b'',
      ps_categoryActive = True, ps_productAvailable = True, ps_livePriceMinor = JInt 700,
      ps_merchantStatus = ''ACTIVE'', ps_merchantVerifiedAt = Some (Some 0), ps_merchantName = ''M'',
      ps_branchOperationalStatus = ''ACTIVE'', ps_merchantOperationalReady = True,
      ps_groups = [\<lparr>og_id = ''g'', og_required = True, og_minSelections = 1, og_maxSelections = 1\<rparr>],
      ps_options = [\<lparr>co_id = ''a'', co_optionGroupId = ''g'', co_name = ''A'', co_available = True,
        co_additionalPriceMinor = JInt 50\<rparr>]\<rparr>"

theorem priceOrderLine_exact_witness:
  "\<exists>line. priceOrderLine example_snapshot (JInt 3) [''a''] = Inr line \<and>
     ol_lineTotalMinor line = JInt 2250"
proof -
  obtain line where l: "priceOrderLine example_snapshot (JInt 3) [''a''] = Inr line"
    by (simp add: priceOrderLine_def example_snapshot_def requireLiveCartItemReady_def
        validateCartOptionSelections_def groupCount_def optionsById_def js_map_get_def
        js_sum_def addMinorUnits_def multiplyMinorUnits_def double_of_int_exact MAX_SAFE_INTEGER_def
        CATALOG_PRICE_MINOR_MAX_def CART_QUANTITY_MAX_def js_trim_def is_js_space_def)
  have "prices_ok (ps_options example_snapshot)"
    by (simp add: example_snapshot_def prices_ok_def CATALOG_PRICE_MINOR_MAX_def)
  from priceOrderLine_exact [OF l _ this, of 700] l show ?thesis
    by (auto simp: example_snapshot_def option_price_def optionsById_def js_map_get_def
        MAX_SAFE_INTEGER_def)
qed

text \<open>
  C11. The financial snapshot of an order is built exactly when the amounts are integers within
  their bounds, the discounts do not exceed the gross, the merchant's net is not negative and
  the remuneration does not exceed the delivery fee; then every amount in it is the exact
  integer, and the commission base is the gross subtotal whatever the discounts.
\<close>

theorem buildOrderFinancialSnapshot_spec:
  "buildOrderFinancialSnapshot input = Inr f \<longleftrightarrow>
   (\<exists>g md pd rate fee dr. snapshot_args input g md pd rate fee dr \<and>
      snapshot_bounds g md pd rate fee dr \<and> f = exact_snapshot input g md pd rate fee dr)"
  using snapshot_sound snapshot_complete by blast

text \<open>
  C12. Money is conserved by the snapshot: what the customer pays plus what the platform gives
  away as its discount is exactly the merchant's net, the commission, the driver's
  remuneration and the platform's share of the fee, and none of these is negative.
\<close>

theorem order_money_conserved:
  assumes "buildOrderFinancialSnapshot input = Inr f"
  shows "the_int (fa_customerPayableMinor f) + the_int (fa_platformDiscountMinor f) =
      the_int (fa_merchantNetAmountMinor f) + the_int (fa_merchantCommissionAmountMinor f) +
      the_int (fa_driverRemunerationMinor f) + the_int (fa_speedyGoDeliveryShareMinor f) \<and>
    0 \<le> the_int (fa_customerPayableMinor f) \<and> 0 \<le> the_int (fa_platformDiscountMinor f) \<and>
    0 \<le> the_int (fa_merchantNetAmountMinor f) \<and> 0 \<le> the_int (fa_merchantCommissionAmountMinor f) \<and>
    0 \<le> the_int (fa_driverRemunerationMinor f) \<and> 0 \<le> the_int (fa_speedyGoDeliveryShareMinor f)"
proof -
  obtain g md pd rate fee dr where b: "snapshot_bounds g md pd rate fee dr"
    and f: "f = exact_snapshot input g md pd rate fee dr"
    using snapshot_sound [OF assms] by blast
  have "0 \<le> g * rate div 10000" using b by (simp add: snapshot_bounds_def pos_imp_zdiv_nonneg_iff)
  with b show ?thesis unfolding f exact_snapshot_def snapshot_bounds_def by simp
qed

definition example_snapshot_input :: snapshot_input where
  "example_snapshot_input =
     \<lparr>si_grossMerchandiseSubtotalMinor = JInt 2250, si_customerDeliveryFeeMinor = JInt 300,
      si_driverRemunerationMinor = JInt 200, si_merchantCommissionRateBps = JInt 1500,
      si_commissionRuleId = ''c'', si_pricingRuleId = ''r'',
      si_merchantDiscountMinor = None, si_platformDiscountMinor = Some (JInt 225)\<rparr>"

theorem order_money_conserved_witness:
  "\<exists>f. buildOrderFinancialSnapshot example_snapshot_input = Inr f \<and>
     the_int (fa_customerPayableMinor f) + 225 =
       the_int (fa_merchantNetAmountMinor f) + the_int (fa_merchantCommissionAmountMinor f) + 300"
proof -
  let ?f = "exact_snapshot example_snapshot_input 2250 0 225 1500 300 200"
  have f: "buildOrderFinancialSnapshot example_snapshot_input = Inr ?f"
    by (rule snapshot_complete)
      (simp_all add: snapshot_args_def snapshot_bounds_def example_snapshot_input_def
        ORDER_EXPECTED_MINOR_MAX_def CATALOG_PRICE_MINOR_MAX_def CART_QUANTITY_MAX_def
        MAX_SAFE_INTEGER_def)
  from order_money_conserved [OF f] f show ?thesis by (auto simp: exact_snapshot_def)
qed

end
