(* ===== verification/Ledger.thy ===== *)
theory Ledger
  imports SG_Text
begin

text \<open>
  The financial ledger: \<open>modules/financial-ledger/domain/financial-ledger.policy.ts\<close> (canonical
  references, postings per business event, positions) and the entry table that
  \<open>application/financial-ledger.service.ts\<close> appends to. The state is the list of entries; a
  posting runs in the transaction of its caller under the advisory lock of its reference.
\<close>

section \<open>Policy\<close>

datatype ledger_error =
    LEDGER_INVALID_AMOUNT
  | LEDGER_INVALID_CURRENCY
  | LEDGER_INVALID_SOURCE
  | LEDGER_SOURCE_NOT_ELIGIBLE
  | LEDGER_FINANCIAL_STATE_INVALID
  | LEDGER_REFERENCE_AMBIGUOUS
  | LEDGER_DUPLICATE

fun ledger_http_status :: "ledger_error \<Rightarrow> int" where
  "ledger_http_status LEDGER_INVALID_AMOUNT = 400"
| "ledger_http_status LEDGER_INVALID_CURRENCY = 400"
| "ledger_http_status LEDGER_INVALID_SOURCE = 400"
| "ledger_http_status _ = 409"

datatype ledger_direction = DEBIT | CREDIT

datatype ledger_source =
    SRC_PAYMENT
  | SRC_COD_COLLECTION
  | SRC_COD_REMITTANCE
  | SRC_DRIVER_EARNING
  | SRC_REFUND
  | SRC_MERCHANT_SETTLEMENT

fun source_name :: "ledger_source \<Rightarrow> string" where
  "source_name SRC_PAYMENT = ''PAYMENT''"
| "source_name SRC_COD_COLLECTION = ''COD_COLLECTION''"
| "source_name SRC_COD_REMITTANCE = ''COD_REMITTANCE''"
| "source_name SRC_DRIVER_EARNING = ''DRIVER_EARNING''"
| "source_name SRC_REFUND = ''REFUND''"
| "source_name SRC_MERCHANT_SETTLEMENT = ''MERCHANT_SETTLEMENT''"

abbreviation LEDGER_TYPE_CUSTOMER_PAYMENT :: string where
  "LEDGER_TYPE_CUSTOMER_PAYMENT \<equiv> ''CUSTOMER_PAYMENT''"
abbreviation LEDGER_TYPE_COD_CUSTODY :: string where
  "LEDGER_TYPE_COD_CUSTODY \<equiv> ''COD_CUSTODY''"
abbreviation LEDGER_TYPE_DRIVER_PAYABLE :: string where
  "LEDGER_TYPE_DRIVER_PAYABLE \<equiv> ''DRIVER_PAYABLE''"
abbreviation LEDGER_TYPE_MERCHANT_PAYABLE :: string where
  "LEDGER_TYPE_MERCHANT_PAYABLE \<equiv> ''MERCHANT_PAYABLE''"
abbreviation LEDGER_TYPE_REFUND :: string where "LEDGER_TYPE_REFUND \<equiv> ''REFUND''"

text \<open>An amount argument: a \<open>number\<close> or a \<open>bigint\<close>.\<close>

datatype minor = NumMinor jsnum | BigMinor int

definition buildLedgerReference :: "ledger_source \<Rightarrow> string \<Rightarrow> ledger_error + string" where
  "buildLedgerReference sourceType sourceId =
     (if length sourceId < 8 then Inl LEDGER_INVALID_SOURCE
      else let reference = source_name sourceType @ '':'' @ sourceId
           in if 128 < length reference then Inl LEDGER_INVALID_SOURCE else Inr reference)"

definition ledgerReferencePrefix :: "ledger_source \<Rightarrow> string" where
  "ledgerReferencePrefix sourceType = source_name sourceType @ '':''"

definition all_sources :: "ledger_source list" where
  "all_sources = [SRC_PAYMENT, SRC_COD_COLLECTION, SRC_COD_REMITTANCE, SRC_DRIVER_EARNING,
     SRC_REFUND, SRC_MERCHANT_SETTLEMENT]"

definition parseLedgerReference :: "string \<Rightarrow> (ledger_source \<times> string) option" where
  "parseLedgerReference reference =
     (let name = takeWhile (\<lambda>c. c \<noteq> CHR '':'') reference;
          rest = drop (Suc (length name)) reference
      in if CHR '':'' \<notin> set reference \<or> length name \<le> 0 then None
         else case find (\<lambda>s. source_name s = name) all_sources of
                None \<Rightarrow> None
              | Some s \<Rightarrow> if rest = [] then None else Some (s, rest))"

definition requireCanonicalLedgerReference :: "string \<Rightarrow> ledger_error + string" where
  "requireCanonicalLedgerReference reference =
     (case parseLedgerReference reference of
        None \<Rightarrow> Inl LEDGER_INVALID_SOURCE | Some _ \<Rightarrow> Inr reference)"

definition requireDzd :: "string \<Rightarrow> ledger_error + unit" where
  "requireDzd currency = (if currency \<noteq> ''DZD'' then Inl LEDGER_INVALID_CURRENCY else Inr ())"

fun requireNonNegativeMinor :: "minor \<Rightarrow> ledger_error + int" where
  "requireNonNegativeMinor (BigMinor n) = (if n < 0 then Inl LEDGER_INVALID_AMOUNT else Inr n)"
| "requireNonNegativeMinor (NumMinor x) =
     (if \<not> isInteger x \<or> js_less x (JInt 0) then Inl LEDGER_INVALID_AMOUNT else Inr (the_int x))"

fun requirePositiveMinor :: "minor \<Rightarrow> ledger_error + int" where
  "requirePositiveMinor (BigMinor n) = (if n \<le> 0 then Inl LEDGER_INVALID_AMOUNT else Inr n)"
| "requirePositiveMinor (NumMinor x) =
     (if \<not> isInteger x \<or> \<not> js_less (JInt 0) x then Inl LEDGER_INVALID_AMOUNT else Inr (the_int x))"

record posting =
  po_type :: string
  po_direction :: ledger_direction
  po_amountMinor :: int

definition electronicPaymentPosting :: "minor \<Rightarrow> ledger_error + posting" where
  "electronicPaymentPosting amount = ebind (requirePositiveMinor amount) (\<lambda>n.
     Inr \<lparr>po_type = LEDGER_TYPE_CUSTOMER_PAYMENT, po_direction = DEBIT, po_amountMinor = n\<rparr>)"

definition codCollectionPosting :: "minor \<Rightarrow> ledger_error + posting" where
  "codCollectionPosting amount = ebind (requirePositiveMinor amount) (\<lambda>n.
     Inr \<lparr>po_type = LEDGER_TYPE_COD_CUSTODY, po_direction = DEBIT, po_amountMinor = n\<rparr>)"

definition codRemittancePosting :: "minor \<Rightarrow> ledger_error + posting" where
  "codRemittancePosting amount = ebind (requirePositiveMinor amount) (\<lambda>n.
     Inr \<lparr>po_type = LEDGER_TYPE_COD_CUSTODY, po_direction = CREDIT, po_amountMinor = n\<rparr>)"

definition driverEarningPosting :: "minor \<Rightarrow> ledger_error + posting" where
  "driverEarningPosting amount = ebind (requireNonNegativeMinor amount) (\<lambda>n.
     Inr \<lparr>po_type = LEDGER_TYPE_DRIVER_PAYABLE, po_direction = CREDIT, po_amountMinor = n\<rparr>)"

definition merchantSettlementPosting :: "minor \<Rightarrow> ledger_error + posting" where
  "merchantSettlementPosting netPayable =
     ebind (case netPayable of
              BigMinor n \<Rightarrow> Inr n
            | NumMinor x \<Rightarrow> if \<not> isInteger x then Inl LEDGER_INVALID_AMOUNT else Inr (the_int x))
       (\<lambda>net. if 0 \<le> net
          then Inr \<lparr>po_type = LEDGER_TYPE_MERCHANT_PAYABLE, po_direction = CREDIT, po_amountMinor = net\<rparr>
          else Inr \<lparr>po_type = LEDGER_TYPE_MERCHANT_PAYABLE, po_direction = DEBIT, po_amountMinor = - net\<rparr>)"

definition refundPosting :: "minor \<Rightarrow> ledger_error + posting" where
  "refundPosting amount = ebind (requirePositiveMinor amount) (\<lambda>n.
     Inr \<lparr>po_type = LEDGER_TYPE_REFUND, po_direction = DEBIT, po_amountMinor = n\<rparr>)"

definition deriveMerchantNetPayable :: "int \<Rightarrow> int \<Rightarrow> int" where
  "deriveMerchantNetPayable creditMinor debitMinor = creditMinor - debitMinor"

definition deriveDriverPayable :: "int \<Rightarrow> int \<Rightarrow> int" where
  "deriveDriverPayable creditMinor debitMinor = creditMinor - debitMinor"

definition deriveCodCustody :: "int \<Rightarrow> int \<Rightarrow> int" where
  "deriveCodCustody debitMinor creditMinor = debitMinor - creditMinor"

section \<open>The entry table\<close>

record ledger_entry =
  le_id :: string
  le_orderId :: "string option"
  le_merchantId :: "string option"
  le_driverId :: "string option"
  le_type :: string
  le_direction :: ledger_direction
  le_amountMinor :: int
  le_currency :: string
  le_reversalOfId :: "string option"
  le_reference :: string
  le_createdAt :: instant

record post_input =
  pi_orderId :: "string option"
  pi_merchantId :: "string option"
  pi_driverId :: "string option"
  pi_posting :: posting
  pi_currency :: string
  pi_reference :: string
  pi_newId :: string
  pi_now :: instant

definition findByReference :: "ledger_entry list \<Rightarrow> string \<Rightarrow> ledger_error + ledger_entry option" where
  "findByReference entries reference =
     (case filter (\<lambda>e. le_reference e = reference) entries of
        [] \<Rightarrow> Inr None
      | [e] \<Rightarrow> Inr (Some e)
      | _ \<Rightarrow> Inl LEDGER_REFERENCE_AMBIGUOUS)"

definition createEntry :: "post_input \<Rightarrow> ledger_entry" where
  "createEntry input =
     \<lparr>le_id = pi_newId input, le_orderId = pi_orderId input, le_merchantId = pi_merchantId input,
      le_driverId = pi_driverId input, le_type = po_type (pi_posting input),
      le_direction = po_direction (pi_posting input),
      le_amountMinor = po_amountMinor (pi_posting input), le_currency = ''DZD'',
      le_reversalOfId = None, le_reference = pi_reference input, le_createdAt = pi_now input\<rparr>"

definition postIdempotent ::
  "post_input \<Rightarrow> ledger_entry list \<Rightarrow> ledger_error + ledger_entry \<times> ledger_entry list" where
  "postIdempotent input entries =
     ebind (requireDzd (pi_currency input)) (\<lambda>_.
     ebind (requireCanonicalLedgerReference (pi_reference input)) (\<lambda>reference.
     ebind (findByReference entries reference) (\<lambda>existing.
       case existing of
         Some e \<Rightarrow> Inr (e, entries)
       | None \<Rightarrow> Inr (createEntry input, entries @ [createEntry input]))))"

text \<open>
  \<open>newId\<close> and \<open>now\<close> are the UUID and the time the new row would get. \<open>post_event\<close> is the call
  of \<open>postIdempotent\<close> every \<open>post...\<close> method ends with.
\<close>

definition post_event ::
  "string \<Rightarrow> instant \<Rightarrow> string option \<Rightarrow> string option \<Rightarrow> string option \<Rightarrow> posting \<Rightarrow>
   ledger_source \<Rightarrow> string \<Rightarrow> ledger_entry list \<Rightarrow> ledger_error + ledger_entry \<times> ledger_entry list" where
  "post_event newId now orderId merchantId driverId amounts sourceType sourceId entries =
     ebind (buildLedgerReference sourceType sourceId) (\<lambda>reference.
       postIdempotent \<lparr>pi_orderId = orderId, pi_merchantId = merchantId, pi_driverId = driverId,
         pi_posting = amounts, pi_currency = ''DZD'', pi_reference = reference,
         pi_newId = newId, pi_now = now\<rparr> entries)"

definition postElectronicPaymentSucceeded ::
  "string \<Rightarrow> instant \<Rightarrow> string \<Rightarrow> string \<Rightarrow> minor \<Rightarrow> string \<Rightarrow> ledger_entry list \<Rightarrow>
   ledger_error + ledger_entry \<times> ledger_entry list" where
  "postElectronicPaymentSucceeded newId now paymentId orderId amount currency entries =
     ebind (requireDzd currency) (\<lambda>_. ebind (electronicPaymentPosting amount) (\<lambda>amounts.
       post_event newId now (Some orderId) None None amounts SRC_PAYMENT paymentId entries))"

definition postCodCollection ::
  "string \<Rightarrow> instant \<Rightarrow> string \<Rightarrow> string \<Rightarrow> string \<Rightarrow> minor \<Rightarrow> ledger_entry list \<Rightarrow>
   ledger_error + ledger_entry \<times> ledger_entry list" where
  "postCodCollection newId now collectionId orderId driverId amount entries =
     ebind (codCollectionPosting amount) (\<lambda>amounts.
       post_event newId now (Some orderId) None (Some driverId) amounts
         SRC_COD_COLLECTION collectionId entries)"

definition postCodRemittanceConfirmed ::
  "string \<Rightarrow> instant \<Rightarrow> string \<Rightarrow> string \<Rightarrow> minor \<Rightarrow> ledger_entry list \<Rightarrow>
   ledger_error + ledger_entry \<times> ledger_entry list" where
  "postCodRemittanceConfirmed newId now remittanceId driverId amount entries =
     ebind (codRemittancePosting amount) (\<lambda>amounts.
       post_event newId now None None (Some driverId) amounts SRC_COD_REMITTANCE remittanceId entries)"

definition postDriverEarning ::
  "string \<Rightarrow> instant \<Rightarrow> string \<Rightarrow> string \<Rightarrow> string \<Rightarrow> minor \<Rightarrow> ledger_entry list \<Rightarrow>
   ledger_error + ledger_entry \<times> ledger_entry list" where
  "postDriverEarning newId now earningId orderId driverId netEarning entries =
     ebind (driverEarningPosting netEarning) (\<lambda>amounts.
       post_event newId now (Some orderId) None (Some driverId) amounts
         SRC_DRIVER_EARNING earningId entries)"

definition postMerchantSettlementFinalized ::
  "string \<Rightarrow> instant \<Rightarrow> string \<Rightarrow> string \<Rightarrow> minor \<Rightarrow> ledger_entry list \<Rightarrow>
   ledger_error + ledger_entry \<times> ledger_entry list" where
  "postMerchantSettlementFinalized newId now settlementId merchantId netPayable entries =
     ebind (merchantSettlementPosting netPayable) (\<lambda>amounts.
       post_event newId now None (Some merchantId) None amounts
         SRC_MERCHANT_SETTLEMENT settlementId entries)"

definition postRefundRefunded ::
  "string \<Rightarrow> instant \<Rightarrow> string \<Rightarrow> string \<Rightarrow> minor \<Rightarrow> ledger_entry list \<Rightarrow>
   ledger_error + ledger_entry \<times> ledger_entry list" where
  "postRefundRefunded newId now refundId orderId amount entries =
     ebind (refundPosting amount) (\<lambda>amounts.
       post_event newId now (Some orderId) None None amounts SRC_REFUND refundId entries)"

definition getBySourceReference ::
  "string \<Rightarrow> ledger_entry list \<Rightarrow> ledger_error + ledger_entry option" where
  "getBySourceReference reference entries =
     ebind (requireCanonicalLedgerReference reference) (findByReference entries)"

definition sumDirectionForMerchant ::
  "ledger_entry list \<Rightarrow> string \<Rightarrow> string \<Rightarrow> ledger_direction \<Rightarrow> int" where
  "sumDirectionForMerchant entries merchantId type direction =
     foldl (\<lambda>s e. s + le_amountMinor e) 0
       (filter (\<lambda>e. le_merchantId e = Some merchantId \<and> le_type e = type
                      \<and> le_direction e = direction) entries)"

definition sumDirectionForDriver ::
  "ledger_entry list \<Rightarrow> string \<Rightarrow> string \<Rightarrow> ledger_direction \<Rightarrow> int" where
  "sumDirectionForDriver entries driverId type direction =
     foldl (\<lambda>s e. s + le_amountMinor e) 0
       (filter (\<lambda>e. le_driverId e = Some driverId \<and> le_type e = type
                      \<and> le_direction e = direction) entries)"

text \<open>The views hold decimal strings (\<open>moneyMinorToDecimalString\<close> of a \<open>bigint\<close>).\<close>

record merchant_position =
  mp_merchantId :: string
  mp_creditMinor :: string
  mp_debitMinor :: string
  mp_netPayableMinor :: string

definition getMerchantPosition :: "string \<Rightarrow> ledger_entry list \<Rightarrow> merchant_position" where
  "getMerchantPosition merchantId entries =
     (let c = sumDirectionForMerchant entries merchantId LEDGER_TYPE_MERCHANT_PAYABLE CREDIT;
          d = sumDirectionForMerchant entries merchantId LEDGER_TYPE_MERCHANT_PAYABLE DEBIT
      in \<lparr>mp_merchantId = merchantId, mp_creditMinor = show_int c, mp_debitMinor = show_int d,
          mp_netPayableMinor = show_int (deriveMerchantNetPayable c d)\<rparr>)"

record driver_positions =
  dp_driverId :: string
  dp_driverPayableMinor :: string
  dp_codCustodyMinor :: string

definition getDriverPositions :: "string \<Rightarrow> ledger_entry list \<Rightarrow> driver_positions" where
  "getDriverPositions driverId entries =
     (let pc = sumDirectionForDriver entries driverId LEDGER_TYPE_DRIVER_PAYABLE CREDIT;
          pd = sumDirectionForDriver entries driverId LEDGER_TYPE_DRIVER_PAYABLE DEBIT;
          cd = sumDirectionForDriver entries driverId LEDGER_TYPE_COD_CUSTODY DEBIT;
          cc = sumDirectionForDriver entries driverId LEDGER_TYPE_COD_CUSTODY CREDIT
      in \<lparr>dp_driverId = driverId, dp_driverPayableMinor = show_int (deriveDriverPayable pc pd),
          dp_codCustodyMinor = show_int (deriveCodCustody cd cc)\<rparr>)"

section \<open>References\<close>

lemma source_name_no_colon: "CHR '':'' \<notin> set (source_name s)"
  by (cases s) simp_all

lemma source_name_nonempty: "source_name s \<noteq> []"
  by (cases s) simp_all

lemma find_source: "find (\<lambda>s'. source_name s' = source_name s) all_sources = Some s"
  by (cases s) (simp_all add: all_sources_def)

lemma takeWhile_before: "x \<notin> set n \<Longrightarrow> takeWhile (\<lambda>c. c \<noteq> x) (n @ x # r) = n"
  by (induction n) auto

lemma buildLedgerReference_ok [guards]:
  "buildLedgerReference s i = Inr r \<longleftrightarrow>
   8 \<le> length i \<and> r = source_name s @ '':'' @ i \<and> length r \<le> 128"
  by (auto simp: buildLedgerReference_def Let_def)

lemma reference_parses:
  "buildLedgerReference s i = Inr r \<Longrightarrow> parseLedgerReference r = Some (s, i)"
  using takeWhile_before [OF source_name_no_colon [of s], of i] source_name_nonempty [of s]
  by (auto simp: buildLedgerReference_ok parseLedgerReference_def Let_def find_source)

lemma reference_injective:
  "buildLedgerReference s i = Inr r \<Longrightarrow> buildLedgerReference s' i' = Inr r \<Longrightarrow> s = s' \<and> i = i'"
  using reference_parses [of s i r] reference_parses [of s' i' r] by simp

section \<open>Idempotence\<close>

definition post_valid :: "post_input \<Rightarrow> ledger_entry list \<Rightarrow> bool" where
  "post_valid input entries \<longleftrightarrow>
     pi_currency input = ''DZD'' \<and> parseLedgerReference (pi_reference input) \<noteq> None"

abbreviation le_key :: "ledger_entry \<Rightarrow> string option" where
  "le_key e \<equiv> Some (le_reference e)"

lemma requireCanonical_ok [guards]:
  "requireCanonicalLedgerReference r = Inr x \<longleftrightarrow> x = r \<and> parseLedgerReference r \<noteq> None"
  by (auto simp: requireCanonicalLedgerReference_def split: option.splits)

lemma findByReference_ok:
  "findByReference es r = Inr x \<Longrightarrow>
   (case x of None \<Rightarrow> r \<notin> set (keys_of le_key es)
    | Some e \<Rightarrow> e \<in> set es \<and> le_reference e = r)"
proof -
  assume f: "findByReference es r = Inr x"
  show ?thesis
  proof (cases "filter (\<lambda>e. le_reference e = r) es")
    case Nil
    then have "\<forall>e \<in> set es. le_reference e \<noteq> r" by (simp add: filter_empty_conv)
    with f Nil show ?thesis by (auto simp: findByReference_def set_keys_of)
  next
    case (Cons e rest)
    then have "e \<in> set es \<and> le_reference e = r"
      by (metis (mono_tags, lifting) filter_eq_ConsD in_set_conv_decomp)
    with f Cons show ?thesis by (cases rest) (auto simp: findByReference_def)
  qed
qed

lemma findByReference_unique:
  assumes "distinct (keys_of le_key es)" "e \<in> set es"
  shows "findByReference es (le_reference e) = Inr (Some e)"
proof -
  have "distinct (map le_reference es)"
    using assms(1) by (simp add: keys_of_def List.map_filter_def comp_def)
  then have "filter (\<lambda>x. le_reference x = le_reference e) es = [e]"
    using assms(2)
  proof (induction es)
    case (Cons x es)
    show ?case
    proof (cases "x = e")
      case True
      have "filter (\<lambda>x. le_reference x = le_reference e) es = []"
        using Cons.prems(1) True by (auto simp: filter_empty_conv image_iff)
      with True show ?thesis by simp
    qed (use Cons in auto)
  qed simp
  then show ?thesis by (simp add: findByReference_def)
qed

interpretation ledger: idempotent_insert postIdempotent "\<lambda>es. es" le_key pi_reference post_valid
proof
  fix a s r s'
  assume "postIdempotent a s = Inr (r, s')"
  then obtain x where v: "post_valid a s" and f: "findByReference s (pi_reference a) = Inr x"
    and x: "(r, s') = (case x of Some e \<Rightarrow> (e, s) | None \<Rightarrow> (createEntry a, s @ [createEntry a]))"
    by (auto simp: postIdempotent_def ebind_Inr requireCanonical_ok requireDzd_def post_valid_def
        split: option.splits if_splits)
  show "post_valid a s \<and> le_key r = Some (pi_reference a) \<and>
      (if pi_reference a \<in> set (keys_of le_key s) then r \<in> set s \<and> s' = s else s' = s @ [r])"
  proof (cases x)
    case None
    with v x findByReference_ok [OF f] show ?thesis by (simp add: createEntry_def)
  next
    case (Some e)
    with findByReference_ok [OF f] have "e \<in> set s" "le_reference e = pi_reference a" by simp_all
    moreover from this have "pi_reference a \<in> set (keys_of le_key s)" by (auto simp: set_keys_of)
    ultimately show ?thesis using v x Some by simp
  qed
next
  fix a s r
  assume "post_valid a s" "distinct (keys_of le_key s)" "r \<in> set s" "le_key r = Some (pi_reference a)"
  then show "postIdempotent a s = Inr (r, s)"
    using findByReference_unique [of s r]
    by (auto simp: postIdempotent_def post_valid_def requireDzd_def
        requireCanonicalLedgerReference_def)
qed

section \<open>Business events\<close>

text \<open>What the rest of the program posts, with the amount it means.\<close>

datatype ledger_event =
    EvPayment string string int
  | EvCollection string string string int
  | EvRemittance string string int
  | EvEarning string string string int
  | EvSettlement string string int
  | EvRefund string string int

fun post_ledger_event ::
  "string \<Rightarrow> instant \<Rightarrow> ledger_event \<Rightarrow> ledger_entry list \<Rightarrow>
   ledger_error + ledger_entry \<times> ledger_entry list" where
  "post_ledger_event newId now (EvPayment i ord amt) es =
     postElectronicPaymentSucceeded newId now i ord (BigMinor amt) ''DZD'' es"
| "post_ledger_event newId now (EvCollection i ord drv amt) es =
     postCodCollection newId now i ord drv (BigMinor amt) es"
| "post_ledger_event newId now (EvRemittance i drv amt) es =
     postCodRemittanceConfirmed newId now i drv (BigMinor amt) es"
| "post_ledger_event newId now (EvEarning i ord drv amt) es =
     postDriverEarning newId now i ord drv (BigMinor amt) es"
| "post_ledger_event newId now (EvSettlement i m net) es =
     postMerchantSettlementFinalized newId now i m (BigMinor net) es"
| "post_ledger_event newId now (EvRefund i ord amt) es =
     postRefundRefunded newId now i ord (BigMinor amt) es"

fun event_source :: "ledger_event \<Rightarrow> ledger_source \<times> string" where
  "event_source (EvPayment i _ _) = (SRC_PAYMENT, i)"
| "event_source (EvCollection i _ _ _) = (SRC_COD_COLLECTION, i)"
| "event_source (EvRemittance i _ _) = (SRC_COD_REMITTANCE, i)"
| "event_source (EvEarning i _ _ _) = (SRC_DRIVER_EARNING, i)"
| "event_source (EvSettlement i _ _) = (SRC_MERCHANT_SETTLEMENT, i)"
| "event_source (EvRefund i _ _) = (SRC_REFUND, i)"

definition event_reference :: "ledger_event \<Rightarrow> string" where
  "event_reference ev = source_name (fst (event_source ev)) @ '':'' @ snd (event_source ev)"

fun event_owes_merchant :: "string \<Rightarrow> ledger_event \<Rightarrow> int" where
  "event_owes_merchant m (EvSettlement _ m' net) = (if m' = m then net else 0)"
| "event_owes_merchant m _ = 0"

fun event_owes_driver :: "string \<Rightarrow> ledger_event \<Rightarrow> int" where
  "event_owes_driver d (EvEarning _ _ d' amt) = (if d' = d then amt else 0)"
| "event_owes_driver d _ = 0"

fun event_custody :: "string \<Rightarrow> ledger_event \<Rightarrow> int" where
  "event_custody d (EvCollection _ _ d' amt) = (if d' = d then amt else 0)"
| "event_custody d (EvRemittance _ d' amt) = (if d' = d then - amt else 0)"
| "event_custody d _ = 0"

fun event_amount_ok :: "ledger_event \<Rightarrow> bool" where
  "event_amount_ok (EvPayment _ _ amt) = (0 < amt)"
| "event_amount_ok (EvCollection _ _ _ amt) = (0 < amt)"
| "event_amount_ok (EvRemittance _ _ amt) = (0 < amt)"
| "event_amount_ok (EvEarning _ _ _ amt) = (0 \<le> amt)"
| "event_amount_ok (EvSettlement _ _ _) = True"
| "event_amount_ok (EvRefund _ _ amt) = (0 < amt)"

text \<open>The signed effect of an entry on each position, and when an entry books an event.\<close>

definition entry_owes_merchant :: "string \<Rightarrow> ledger_entry \<Rightarrow> int" where
  "entry_owes_merchant m e =
     (if le_merchantId e = Some m \<and> le_type e = LEDGER_TYPE_MERCHANT_PAYABLE
      then (if le_direction e = CREDIT then le_amountMinor e else - le_amountMinor e) else 0)"

definition entry_owes_driver :: "string \<Rightarrow> ledger_entry \<Rightarrow> int" where
  "entry_owes_driver d e =
     (if le_driverId e = Some d \<and> le_type e = LEDGER_TYPE_DRIVER_PAYABLE
      then (if le_direction e = CREDIT then le_amountMinor e else - le_amountMinor e) else 0)"

definition entry_custody :: "string \<Rightarrow> ledger_entry \<Rightarrow> int" where
  "entry_custody d e =
     (if le_driverId e = Some d \<and> le_type e = LEDGER_TYPE_COD_CUSTODY
      then (if le_direction e = DEBIT then le_amountMinor e else - le_amountMinor e) else 0)"

definition books :: "ledger_event \<Rightarrow> ledger_entry \<Rightarrow> bool" where
  "books ev e \<longleftrightarrow>
     event_amount_ok ev \<and> le_reference e = event_reference ev \<and>
     parseLedgerReference (le_reference e) = Some (event_source ev) \<and>
     le_currency e = ''DZD'' \<and> 0 \<le> le_amountMinor e \<and> le_reversalOfId e = None \<and>
     (\<forall>m. entry_owes_merchant m e = event_owes_merchant m ev) \<and>
     (\<forall>d. entry_owes_driver d e = event_owes_driver d ev) \<and>
     (\<forall>d. entry_custody d e = event_custody d ev)"

text \<open>The histories of the table: \<open>ledger_history evs es\<close> when \<open>evs\<close> are the events that took effect.\<close>

inductive ledger_history :: "ledger_event list \<Rightarrow> ledger_entry list \<Rightarrow> bool" where
  empty: "ledger_history [] []"
| post: "ledger_history evs es \<Longrightarrow> post_ledger_event newId now ev es = Inr (e, es') \<Longrightarrow>
     ledger_history (if es' = es then evs else evs @ [ev]) es'"

section \<open>Lemmas on histories\<close>

lemma post_event_ok:
  "post_event newId now ord mer drv amts s i es = Inr (e, es') \<longleftrightarrow>
   (\<exists>r. buildLedgerReference s i = Inr r \<and>
     postIdempotent \<lparr>pi_orderId = ord, pi_merchantId = mer, pi_driverId = drv, pi_posting = amts,
       pi_currency = ''DZD'', pi_reference = r, pi_newId = newId, pi_now = now\<rparr> es = Inr (e, es'))"
  by (simp add: post_event_def ebind_Inr)

text \<open>Every posting is one idempotent insertion, and a new row books its event.\<close>

lemma post_ledger_event_insert:
  assumes "post_ledger_event newId now ev es = Inr (e, es')"
  shows "\<exists>input. postIdempotent input es = Inr (e, es') \<and> pi_reference input = event_reference ev \<and>
    books ev (createEntry input)"
  using assms
  by (cases ev)
    (auto simp: postElectronicPaymentSucceeded_def postCodCollection_def
      postCodRemittanceConfirmed_def postDriverEarning_def postMerchantSettlementFinalized_def
      postRefundRefunded_def requireDzd_def ebind_Inr post_event_ok electronicPaymentPosting_def
      codCollectionPosting_def codRemittancePosting_def driverEarningPosting_def
      merchantSettlementPosting_def refundPosting_def buildLedgerReference_ok reference_parses
      books_def createEntry_def event_reference_def entry_owes_merchant_def entry_owes_driver_def
      entry_custody_def split: if_splits intro!: exI)

lemma postIdempotent_new_row:
  "postIdempotent input es = Inr (e, es') \<Longrightarrow> es' \<noteq> es \<Longrightarrow> e = createEntry input \<and> es' = es @ [e]"
  by (auto simp: postIdempotent_def ebind_Inr split: option.splits)

lemma post_ledger_event_cases:
  assumes "post_ledger_event newId now ev es = Inr (e, es')"
  shows "le_reference e = event_reference ev \<and>
    (if event_reference ev \<in> set (map le_reference es) then e \<in> set es \<and> es' = es
     else es' = es @ [e] \<and> books ev e)"
proof -
  obtain input where i: "postIdempotent input es = Inr (e, es')"
    and r: "pi_reference input = event_reference ev" and b: "books ev (createEntry input)"
    using post_ledger_event_insert [OF assms] by blast
  have keys: "set (keys_of le_key es) = set (map le_reference es)"
    by (auto simp: set_keys_of)
  note ok = ledger.ins_ok [OF i, unfolded keys r]
  from ok have key: "le_reference e = event_reference ev" by blast
  show ?thesis
  proof (cases "event_reference ev \<in> set (map le_reference es)")
    case True
    with ok have "e \<in> set es \<and> es' = es" by presburger
    with True key show ?thesis by simp
  next
    case False
    with ok have es': "es' = es @ [e]" by presburger
    with postIdempotent_new_row [OF i] b have "books ev e" by simp
    with es' False key show ?thesis by simp
  qed
qed

definition ledger_inv :: "ledger_event list \<Rightarrow> ledger_entry list \<Rightarrow> bool" where
  "ledger_inv evs es \<longleftrightarrow> list_all2 books evs es \<and> distinct (map le_reference es)"

lemma ledger_history_inv: "ledger_history evs es \<Longrightarrow> ledger_inv evs es"
proof (induction rule: ledger_history.induct)
  case empty
  show ?case by (simp add: ledger_inv_def)
next
  case (post evs es newId now ev e es')
  show ?case
  proof (cases "event_reference ev \<in> set (map le_reference es)")
    case True
    with post_ledger_event_cases [OF post.hyps(2)] post.IH show ?thesis by simp
  next
    case False
    with post_ledger_event_cases [OF post.hyps(2)] have "es' = es @ [e]" "books ev e"
      "le_reference e \<notin> set (map le_reference es)" by auto
    moreover from this post.IH have "list_all2 books (evs @ [ev]) (es @ [e])"
      unfolding ledger_inv_def by (intro list_all2_appendI) simp_all
    ultimately show ?thesis using post.IH by (simp add: ledger_inv_def)
  qed
qed

lemma foldl_sum: "foldl (\<lambda>s e. s + f e) (a::int) xs = a + sum_list (map f xs)"
  by (induction xs arbitrary: a) simp_all

lemma sum_filter_if: "sum_list (map f (filter P xs)) = sum_list (map (\<lambda>x. if P x then f x else 0) xs)"
  for f :: "'a \<Rightarrow> int"
  by (induction xs) simp_all

lemma merchant_position_entries:
  "mp_netPayableMinor (getMerchantPosition m es) = show_int (sum_list (map (entry_owes_merchant m) es))"
proof -
  have "sumDirectionForMerchant es m LEDGER_TYPE_MERCHANT_PAYABLE CREDIT
      - sumDirectionForMerchant es m LEDGER_TYPE_MERCHANT_PAYABLE DEBIT
      = sum_list (map (entry_owes_merchant m) es)"
    unfolding sumDirectionForMerchant_def foldl_sum sum_filter_if
    by (induction es) (auto simp: entry_owes_merchant_def intro: ledger_direction.exhaust)
  then show ?thesis by (simp add: getMerchantPosition_def Let_def deriveMerchantNetPayable_def)
qed

lemma driver_positions_entries:
  "dp_driverPayableMinor (getDriverPositions d es) = show_int (sum_list (map (entry_owes_driver d) es))"
  "dp_codCustodyMinor (getDriverPositions d es) = show_int (sum_list (map (entry_custody d) es))"
proof -
  have "sumDirectionForDriver es d LEDGER_TYPE_DRIVER_PAYABLE CREDIT
      - sumDirectionForDriver es d LEDGER_TYPE_DRIVER_PAYABLE DEBIT
      = sum_list (map (entry_owes_driver d) es)"
    unfolding sumDirectionForDriver_def foldl_sum sum_filter_if
    by (induction es) (auto simp: entry_owes_driver_def intro: ledger_direction.exhaust)
  then show "dp_driverPayableMinor (getDriverPositions d es) =
      show_int (sum_list (map (entry_owes_driver d) es))"
    by (simp add: getDriverPositions_def Let_def deriveDriverPayable_def)
  have "sumDirectionForDriver es d LEDGER_TYPE_COD_CUSTODY DEBIT
      - sumDirectionForDriver es d LEDGER_TYPE_COD_CUSTODY CREDIT
      = sum_list (map (entry_custody d) es)"
    unfolding sumDirectionForDriver_def foldl_sum sum_filter_if
    by (induction es) (auto simp: entry_custody_def intro: ledger_direction.exhaust)
  then show "dp_codCustodyMinor (getDriverPositions d es) =
      show_int (sum_list (map (entry_custody d) es))"
    by (simp add: getDriverPositions_def Let_def deriveCodCustody_def)
qed

lemma books_sums:
  "list_all2 books evs es \<Longrightarrow>
   sum_list (map (entry_owes_merchant m) es) = sum_list (map (event_owes_merchant m) evs) \<and>
   sum_list (map (entry_owes_driver d) es) = sum_list (map (event_owes_driver d) evs) \<and>
   sum_list (map (entry_custody d) es) = sum_list (map (event_custody d) evs)"
  by (induction rule: list_all2_induct) (simp_all add: books_def)

lemma event_reference_source:
  "ledger_inv evs es \<Longrightarrow> map le_reference es = map event_reference evs"
  by (auto simp: ledger_inv_def books_def list_all2_conv_all_nth intro!: nth_equalityI)

text \<open>A posting with an admissible amount is one insertion with that event's reference.\<close>

lemma post_ledger_event_valid:
  assumes "event_amount_ok ev" "8 \<le> length (snd (event_source ev))"
    "length (event_reference ev) \<le> 128"
  shows "\<exists>input. (\<forall>es. post_ledger_event newId now ev es = postIdempotent input es) \<and>
    pi_reference input = event_reference ev \<and> post_valid input es'"
proof -
  have r: "buildLedgerReference (fst (event_source ev)) (snd (event_source ev)) =
      Inr (event_reference ev)"
    using assms by (simp add: buildLedgerReference_ok event_reference_def)
  have p: "parseLedgerReference (event_reference ev) \<noteq> None"
    using reference_parses [OF r] by simp
  show ?thesis
    using assms(1) r p
    by (cases ev)
      (auto simp: postElectronicPaymentSucceeded_def postCodCollection_def
        postCodRemittanceConfirmed_def postDriverEarning_def postMerchantSettlementFinalized_def
        postRefundRefunded_def requireDzd_def post_event_def electronicPaymentPosting_def
        codCollectionPosting_def codRemittancePosting_def driverEarningPosting_def
        merchantSettlementPosting_def refundPosting_def post_valid_def intro!: exI)
qed

lemma post_retry:
  assumes h: "ledger_history evs es" and p: "post_ledger_event newId now ev es = Inr (e, es')"
    and b: "event_source ev' = event_source ev" "event_amount_ok ev'"
  shows "post_ledger_event newId' now' ev' es' = Inr (e, es')"
proof -
  have "ledger_history (if es' = es then evs else evs @ [ev]) es'"
    by (rule ledger_history.post [OF h p])
  then have d: "distinct (keys_of le_key es')"
    using ledger_history_inv by (fastforce simp: ledger_inv_def keys_of_def List.map_filter_def comp_def)
  obtain input where i: "postIdempotent input es = Inr (e, es')"
    "pi_reference input = event_reference ev" "books ev (createEntry input)"
    using post_ledger_event_insert [OF p] by blast
  have r: "event_reference ev' = event_reference ev" using b(1) by (simp add: event_reference_def)
  have "\<exists>r. buildLedgerReference (fst (event_source ev)) (snd (event_source ev)) = Inr r"
    using p by (cases ev) (auto simp: postElectronicPaymentSucceeded_def postCodCollection_def
        postCodRemittanceConfirmed_def postDriverEarning_def postMerchantSettlementFinalized_def
        postRefundRefunded_def ebind_Inr post_event_def)
  then have len: "8 \<le> length (snd (event_source ev'))" "length (event_reference ev') \<le> 128"
    using b(1) by (auto simp: buildLedgerReference_ok event_reference_def)
  obtain input' where i': "\<forall>es. post_ledger_event newId' now' ev' es = postIdempotent input' es"
    "pi_reference input' = event_reference ev'" "post_valid input' es'"
    using post_ledger_event_valid [OF b(2) len] by blast
  have "postIdempotent input' es' = Inr (e, es')"
    by (rule ledger.ins_replay [OF i'(3) d ledger.ins_member [OF i(1)]])
      (use ledger.ins_ok [OF i(1)] i(2) i'(2) r in simp)
  with i'(1) show ?thesis by simp
qed

section \<open>Properties\<close>

text \<open>
  C13. A ledger reference determines the business event it was built for: it parses back to its
  source type and id, so two different sources can never share an entry.
\<close>

theorem ledger_reference_roundtrip:
  "buildLedgerReference s i = Inr r \<Longrightarrow>
   parseLedgerReference r = Some (s, i) \<and> requireCanonicalLedgerReference r = Inr r"
  using reference_parses by (simp add: requireCanonical_ok)

theorem ledger_reference_roundtrip_witness:
  "parseLedgerReference ''REFUND:0198c2f0'' = Some (SRC_REFUND, ''0198c2f0'')"
  using ledger_reference_roundtrip [of SRC_REFUND "''0198c2f0''" "''REFUND:0198c2f0''"]
  by (simp add: buildLedgerReference_ok)

text \<open>
  C14. After any history of postings each entry books exactly one business event, each source
  at most once, and the positions shown to merchants and drivers are exact: what a merchant is
  owed is the sum of its settlements (negative ones included), what a driver is owed the sum of
  its earnings, and the cash in its hands collections minus remittances.
\<close>

theorem ledger_positions_exact:
  assumes "ledger_history evs es"
  shows "distinct (map event_source evs) \<and> length es = length evs \<and>
    mp_netPayableMinor (getMerchantPosition m es) =
      show_int (sum_list (map (event_owes_merchant m) evs)) \<and>
    dp_driverPayableMinor (getDriverPositions d es) =
      show_int (sum_list (map (event_owes_driver d) evs)) \<and>
    dp_codCustodyMinor (getDriverPositions d es) = show_int (sum_list (map (event_custody d) evs))"
proof -
  have inv: "ledger_inv evs es" using assms by (rule ledger_history_inv)
  then have l2: "list_all2 books evs es" and "distinct (map event_reference evs)"
    using event_reference_source by (auto simp: ledger_inv_def simp flip: event_reference_source)
  then have "distinct (map event_source evs)"
    by (auto simp: distinct_map event_reference_def inj_on_def)
  with books_sums [OF l2, of m d] list_all2_lengthD [OF l2] show ?thesis
    by (simp add: merchant_position_entries driver_positions_entries)
qed

theorem ledger_positions_exact_witness:
  "\<exists>es. ledger_history [EvCollection ''c0000001'' ''o'' ''d'' 900, EvSettlement ''s0000001'' ''m'' (- 40)] es \<and>
     dp_codCustodyMinor (getDriverPositions ''d'' es) = ''900'' \<and>
     mp_netPayableMinor (getMerchantPosition ''m'' es) = ''-40''"
proof -
  let ?c = "EvCollection ''c0000001'' ''o'' ''d'' 900" and ?s = "EvSettlement ''s0000001'' ''m'' (- 40)"
  obtain e1 es1 where p1: "post_ledger_event ''1'' 0 ?c [] = Inr (e1, es1)"
    and es1: "es1 = [e1]" "le_reference e1 = ''COD_COLLECTION:c0000001''"
    by (simp add: postCodCollection_def codCollectionPosting_def post_event_def
        buildLedgerReference_def postIdempotent_def requireDzd_def findByReference_def createEntry_def
        requireCanonicalLedgerReference_def parseLedgerReference_def all_sources_def)
  obtain e2 es2 where p2: "post_ledger_event ''2'' 0 ?s es1 = Inr (e2, es2)" and es2: "es2 = es1 @ [e2]"
    by (simp add: es1 postMerchantSettlementFinalized_def merchantSettlementPosting_def post_event_def
        buildLedgerReference_def postIdempotent_def requireDzd_def findByReference_def createEntry_def
        requireCanonicalLedgerReference_def parseLedgerReference_def all_sources_def)
  have h: "ledger_history [?c, ?s] es2"
    using ledger_history.post [OF ledger_history.post [OF ledger_history.empty p1], of "''2''" 0 ?s] p2
    by (simp add: es1 es2)
  have "show_int 900 = ''900''" "show_int (- 40) = ''-40''" by code_simp+
  with ledger_positions_exact [OF h, of "''m''" "''d''"] h show ?thesis by auto
qed

text \<open>
  A retried posting is harmless: once an event is posted, posting the same source again,
  whatever amount the retry carries, returns the first entry and leaves the ledger unchanged.
\<close>

theorem ledger_post_retry:
  assumes "ledger_history evs es" and "post_ledger_event newId now ev es = Inr (e, es')"
    and "event_source ev' = event_source ev" and "event_amount_ok ev'"
  shows "post_ledger_event newId' now' ev' es' = Inr (e, es')"
  using assms by (rule post_retry)

theorem ledger_post_retry_witness:
  "\<exists>e es. post_ledger_event ''1'' 0 (EvRefund ''r0000001'' ''o'' 70) [] = Inr (e, es) \<and>
     post_ledger_event ''2'' 9 (EvRefund ''r0000001'' ''o'' 70) es = Inr (e, es)"
proof -
  obtain e es where p: "post_ledger_event ''1'' 0 (EvRefund ''r0000001'' ''o'' 70) [] = Inr (e, es)"
    by (simp add: postRefundRefunded_def refundPosting_def post_event_def
        buildLedgerReference_def postIdempotent_def requireDzd_def findByReference_def createEntry_def
        requireCanonicalLedgerReference_def parseLedgerReference_def all_sources_def)
  from ledger_post_retry [OF ledger_history.empty p refl, of "''2''" 9] p show ?thesis by auto
qed

end
