(* ===== verification/Refund_Policy.thy ===== *)
theory Refund_Policy
  imports Order_Policy Money
begin

text \<open>
  \<open>modules/refunds/domain/refund.policy.ts\<close>: which refunds may exist for a payment, how much is
  still refundable, and which status may follow which. Amounts are \<open>bigint\<close>s.
\<close>

datatype refund_status =
  REQUESTED | UNDER_REVIEW | APPROVED | PROCESSING | REFUNDED | REJECTED | R_FAILED

datatype refund_method = ORIGINAL_PAYMENT | MANUAL_COD | MANUAL_OTHER

datatype refund_origin =
  ADMIN | CUSTOMER_CANCELLATION | MERCHANT_REJECTION | LATE_PAYMENT_SUCCESS

datatype refund_error =
    REFUND_NOT_FOUND
  | REFUND_PAYMENT_NOT_SUCCEEDED
  | REFUND_AMOUNT_INVALID
  | REFUND_INSUFFICIENT_REMAINING
  | REFUND_ORDER_NOT_ELIGIBLE
  | REFUND_FINANCIAL_STATE_INVALID
  | REFUND_METHOD_INVALID
  | REFUND_INVALID_STATE
  | REFUND_CURRENCY_MISMATCH
  | REFUND_PROVIDER_UNSUPPORTED
  | REFUND_ADMIN_REQUIRED
  | REFUND_REASON_INVALID
  | REFUND_PAYMENT_TRANSACTION_INVALID

fun refund_http_status :: "refund_error \<Rightarrow> int" where
  "refund_http_status REFUND_NOT_FOUND = 404"
| "refund_http_status REFUND_AMOUNT_INVALID = 400"
| "refund_http_status REFUND_METHOD_INVALID = 400"
| "refund_http_status REFUND_PROVIDER_UNSUPPORTED = 503"
| "refund_http_status REFUND_REASON_INVALID = 400"
| "refund_http_status _ = 409"

definition isReservingRefundStatus :: "refund_status \<Rightarrow> bool" where
  "isReservingRefundStatus s \<longleftrightarrow>
     s \<in> {REQUESTED, UNDER_REVIEW, APPROVED, PROCESSING, REFUNDED}"

definition isReleasedRefundStatus :: "refund_status \<Rightarrow> bool" where
  "isReleasedRefundStatus s \<longleftrightarrow> s \<in> {REJECTED, R_FAILED}"

definition isRefundEligibleOrderStatus :: "order_status \<Rightarrow> bool" where
  "isRefundEligibleOrderStatus s \<longleftrightarrow> s \<in> {O_COMPLETED, O_CANCELLED, O_FAILED}"

definition requirePositiveRefundAmount :: "jsnum \<Rightarrow> refund_error + jsnum" where
  "requirePositiveRefundAmount amountMinor =
     (if \<not> isSafeInteger amountMinor \<or> \<not> isInteger amountMinor \<or> \<not> js_less (JInt 0) amountMinor
      then Inl REFUND_AMOUNT_INVALID else Inr amountMinor)"

fun parseRefundAmountMinor :: "money_value \<Rightarrow> refund_error + int" where
  "parseRefundAmountMinor (MBig n) =
     (if n < 0 then Inl REFUND_FINANCIAL_STATE_INVALID else Inr n)"
| "parseRefundAmountMinor (MNum x) =
     (if \<not> isSafeInteger x \<or> js_less x (JInt 0) then Inl REFUND_FINANCIAL_STATE_INVALID
      else Inr (the_int x))"
| "parseRefundAmountMinor (MStr s) =
     (if js_trim s \<noteq> s \<or> \<not> all_digits s then Inl REFUND_FINANCIAL_STATE_INVALID
      else Inr (int (read_nat s)))"
| "parseRefundAmountMinor _ = Inl REFUND_FINANCIAL_STATE_INVALID"

definition REFUND_REASON_MAX_LENGTH :: nat where "REFUND_REASON_MAX_LENGTH = 255"

definition requireRefundReason :: "string \<Rightarrow> refund_error + string" where
  "requireRefundReason reason =
     (let trimmed = js_trim reason
      in if trimmed = [] \<or> REFUND_REASON_MAX_LENGTH < length trimmed
         then Inl REFUND_REASON_INVALID else Inr trimmed)"

definition requireSucceededPayment :: "payment_status \<Rightarrow> refund_error + unit" where
  "requireSucceededPayment s =
     (if s \<noteq> PAY_SUCCEEDED then Inl REFUND_PAYMENT_NOT_SUCCEEDED else Inr ())"

definition requireEligibleOrderStatus :: "order_status \<Rightarrow> refund_error + unit" where
  "requireEligibleOrderStatus s =
     (if \<not> isRefundEligibleOrderStatus s then Inl REFUND_ORDER_NOT_ELIGIBLE else Inr ())"

definition requirePaymentSnapshotConsistency ::
  "int \<Rightarrow> int \<Rightarrow> string \<Rightarrow> string \<Rightarrow> refund_error + unit" where
  "requirePaymentSnapshotConsistency paymentAmount snapshotPayable paymentCurrency snapshotCurrency =
     (if paymentCurrency \<noteq> ''DZD'' \<or> snapshotCurrency \<noteq> ''DZD''
      then Inl REFUND_FINANCIAL_STATE_INVALID
      else ebind (parseRefundAmountMinor (MBig paymentAmount)) (\<lambda>p.
           ebind (parseRefundAmountMinor (MBig snapshotPayable)) (\<lambda>s.
           if p \<noteq> s then Inl REFUND_FINANCIAL_STATE_INVALID else Inr ())))"

record refund_capacity =
  rc_originalPaidMinor :: int
  rc_reservedRefundMinor :: int
  rc_successfulRefundMinor :: int
  rc_remainingRefundableMinor :: int

definition calculateRefundCapacity :: "int \<Rightarrow> int \<Rightarrow> int \<Rightarrow> refund_error + refund_capacity" where
  "calculateRefundCapacity originalPaid reserved successful =
     ebind (parseRefundAmountMinor (MBig originalPaid)) (\<lambda>originalPaidMinor.
     ebind (parseRefundAmountMinor (MBig reserved)) (\<lambda>reservedRefundMinor.
     ebind (parseRefundAmountMinor (MBig successful)) (\<lambda>successfulRefundMinor.
     let remaining = originalPaidMinor - reservedRefundMinor
     in Inr \<lparr>rc_originalPaidMinor = originalPaidMinor, rc_reservedRefundMinor = reservedRefundMinor,
             rc_successfulRefundMinor = successfulRefundMinor,
             rc_remainingRefundableMinor = (if remaining < 0 then 0 else remaining)\<rparr>)))"

definition requireRefundableAmount :: "jsnum \<Rightarrow> int \<Rightarrow> refund_error + unit" where
  "requireRefundableAmount amountMinor remaining =
     ebind (requirePositiveRefundAmount amountMinor) (\<lambda>_.
     ebind (parseRefundAmountMinor (MBig remaining)) (\<lambda>r.
     if r < the_int amountMinor then Inl REFUND_INSUFFICIENT_REMAINING else Inr ()))"

definition resolveRefundMethodBinding ::
  "refund_method \<Rightarrow> string \<Rightarrow> string option \<Rightarrow> refund_error + refund_method" where
  "resolveRefundMethodBinding refundMethod paymentMethod paymentTransactionId =
     (if refundMethod = ORIGINAL_PAYMENT then Inl REFUND_PROVIDER_UNSUPPORTED
      else if paymentTransactionId \<noteq> None then Inl REFUND_METHOD_INVALID
      else if paymentMethod = PAYMENT_METHOD_COD then
        (if refundMethod \<noteq> MANUAL_COD then Inl REFUND_METHOD_INVALID else Inr MANUAL_COD)
      else if paymentMethod = PAYMENT_METHOD_ELECTRONIC then
        (if refundMethod \<noteq> MANUAL_OTHER then Inl REFUND_METHOD_INVALID else Inr MANUAL_OTHER)
      else Inl REFUND_METHOD_INVALID)"

definition canMarkUnderReview :: "refund_status \<Rightarrow> bool" where
  "canMarkUnderReview s \<longleftrightarrow> s = REQUESTED"

definition canAuthorizeRefund :: "refund_status \<Rightarrow> bool" where
  "canAuthorizeRefund s \<longleftrightarrow> s = REQUESTED \<or> s = UNDER_REVIEW"

definition canRejectRefund :: "refund_status \<Rightarrow> bool" where
  "canRejectRefund s \<longleftrightarrow> s = REQUESTED \<or> s = UNDER_REVIEW"

definition canConfirmManualRefund :: "refund_status \<Rightarrow> refund_method \<Rightarrow> bool" where
  "canConfirmManualRefund s m \<longleftrightarrow>
     (if m \<noteq> MANUAL_COD \<and> m \<noteq> MANUAL_OTHER then False else s = APPROVED)"

definition canFailRefund :: "refund_status \<Rightarrow> bool" where
  "canFailRefund s \<longleftrightarrow> s = APPROVED \<or> s = PROCESSING"

section \<open>Lemmas\<close>

lemma requirePositiveRefundAmount_ok [guards]:
  "requirePositiveRefundAmount x = Inr y \<longleftrightarrow>
   (\<exists>n. x = JInt n \<and> y = x \<and> 0 < n \<and> n \<le> MAX_SAFE_INTEGER)"
  by (cases x) (auto simp: requirePositiveRefundAmount_def)

lemma parseRefund_big [simp]: "0 \<le> n \<Longrightarrow> parseRefundAmountMinor (MBig n) = Inr n"
  by simp

lemma requirePaymentSnapshotConsistency_ok [guards]:
  "requirePaymentSnapshotConsistency p s pc sc = Inr u \<longleftrightarrow>
   pc = ''DZD'' \<and> sc = ''DZD'' \<and> 0 \<le> p \<and> s = p"
  by (auto simp: requirePaymentSnapshotConsistency_def)

lemma calculateRefundCapacity_ok [guards]:
  "calculateRefundCapacity p r s = Inr c \<longleftrightarrow> 0 \<le> p \<and> 0 \<le> r \<and> 0 \<le> s \<and>
   c = \<lparr>rc_originalPaidMinor = p, rc_reservedRefundMinor = r, rc_successfulRefundMinor = s,
        rc_remainingRefundableMinor = max 0 (p - r)\<rparr>"
  by (auto simp: calculateRefundCapacity_def Let_def ebind_Inr split: if_splits)

lemma requireRefundableAmount_ok [guards]:
  "requireRefundableAmount x r = Inr u \<longleftrightarrow>
   (\<exists>n. x = JInt n \<and> 0 < n \<and> n \<le> MAX_SAFE_INTEGER \<and> n \<le> r)"
  by (auto simp: requireRefundableAmount_def ebind_Inr requirePositiveRefundAmount_ok split: if_splits)

end
