(* ===== verification/Settlement_Policy.thy ===== *)
theory Settlement_Policy
  imports Refund_Policy
begin

text \<open>
  \<open>modules/merchant-settlements/domain/merchant-settlement.policy.ts\<close> with its errors and types: what
  a merchant is owed for the completed sales of a period, less what it owes for refunds. Stored
  timestamps have one textual format, whose order is the order of the instants.
\<close>

datatype settlement_error =
    MERCHANT_SETTLEMENT_NOT_FOUND
  | MERCHANT_SETTLEMENT_INVALID_STATE
  | MERCHANT_SETTLEMENT_PERIOD_INVALID
  | MERCHANT_SETTLEMENT_ORDER_NOT_ELIGIBLE
  | MERCHANT_SETTLEMENT_SALE_EXISTS
  | MERCHANT_SETTLEMENT_REFUND_NOT_ELIGIBLE
  | MERCHANT_SETTLEMENT_REFUND_ADJUSTMENT_EXISTS
  | MERCHANT_SETTLEMENT_LIABILITY_INVALID
  | MERCHANT_SETTLEMENT_SALE_REQUIRED
  | MERCHANT_SETTLEMENT_MERCHANT_MISMATCH
  | MERCHANT_SETTLEMENT_ADMIN_REQUIRED
  | MERCHANT_SETTLEMENT_FINANCIAL_STATE_INVALID
  | MERCHANT_SETTLEMENT_DRAFT_EXISTS

fun settlement_http_status :: "settlement_error \<Rightarrow> int" where
  "settlement_http_status MERCHANT_SETTLEMENT_NOT_FOUND = 404"
| "settlement_http_status MERCHANT_SETTLEMENT_PERIOD_INVALID = 400"
| "settlement_http_status MERCHANT_SETTLEMENT_LIABILITY_INVALID = 400"
| "settlement_http_status _ = 409"

datatype settlement_status = SETTLEMENT_DRAFT | SETTLEMENT_FINALIZED

datatype settlement_line_type = SALE | REFUND_ADJUSTMENT

record settlement_line =
  ml_id :: string
  ml_settlementId :: string
  ml_orderId :: "string option"
  ml_type :: settlement_line_type
  ml_grossMerchandiseMinor :: int
  ml_commissionMinor :: int
  ml_merchantNetMinor :: int
  ml_adjustmentMinor :: int
  ml_reference :: "string option"
  ml_createdAt :: instant

record settlement_totals =
  st_grossSalesMinor :: int
  st_commissionMinor :: int
  st_refundAdjustmentsMinor :: int
  st_manualAdjustmentsMinor :: int
  st_netPayableMinor :: int

record line_amounts =
  la_grossMerchandiseMinor :: int
  la_commissionMinor :: int
  la_merchantNetMinor :: int
  la_adjustmentMinor :: int

definition requireDraftStatus :: "settlement_status \<Rightarrow> settlement_error + unit" where
  "requireDraftStatus status =
     (if status \<noteq> SETTLEMENT_DRAFT then Inl MERCHANT_SETTLEMENT_INVALID_STATE else Inr ())"

definition isInstantInSettlementPeriod :: "instant \<Rightarrow> instant \<Rightarrow> instant \<Rightarrow> bool" where
  "isInstantInSettlementPeriod eventAt periodStart periodEnd \<longleftrightarrow> periodStart \<le> eventAt \<and> eventAt < periodEnd"

text \<open>The bounds of a period as an administrator types them: \<open>None\<close> where \<open>Date.parse\<close> is NaN.\<close>

definition requireValidSettlementPeriod :: "stamp \<Rightarrow> stamp \<Rightarrow> settlement_error + instant \<times> instant" where
  "requireValidSettlementPeriod periodStart periodEnd =
     (case (periodStart, periodEnd) of
        (Some a, Some b) \<Rightarrow> if a < b then Inr (a, b) else Inl MERCHANT_SETTLEMENT_PERIOD_INVALID
      | _ \<Rightarrow> Inl MERCHANT_SETTLEMENT_PERIOD_INVALID)"

definition isSaleEligibleOrder :: "order_status \<Rightarrow> payment_status \<Rightarrow> instant option \<Rightarrow> bool" where
  "isSaleEligibleOrder orderStatus paymentStatus completedAt \<longleftrightarrow>
     orderStatus = O_COMPLETED \<and> paymentStatus = PAY_SUCCEEDED \<and> completedAt \<noteq> None"

definition isRefundEligibleForAdjustment :: "refund_status \<Rightarrow> instant option \<Rightarrow> bool" where
  "isRefundEligibleForAdjustment status completedAt \<longleftrightarrow> status = REFUNDED \<and> completedAt \<noteq> None"

definition requireMerchantLiabilityMinor :: "jsnum \<Rightarrow> int \<Rightarrow> settlement_error + int" where
  "requireMerchantLiabilityMinor merchantLiabilityMinor refund =
     (if \<not> isInteger merchantLiabilityMinor \<or> js_less merchantLiabilityMinor (JInt 0) \<or> refund \<le> 0
      then Inl MERCHANT_SETTLEMENT_LIABILITY_INVALID
      else if refund < the_int merchantLiabilityMinor then Inl MERCHANT_SETTLEMENT_LIABILITY_INVALID
      else Inr (the_int merchantLiabilityMinor))"

definition buildSaleLineAmounts :: "int \<Rightarrow> int \<Rightarrow> int \<Rightarrow> settlement_error + line_amounts" where
  "buildSaleLineAmounts gross commission net =
     (if gross < 0 \<or> commission < 0 \<or> net < 0 then Inl MERCHANT_SETTLEMENT_LIABILITY_INVALID
      else Inr \<lparr>la_grossMerchandiseMinor = gross, la_commissionMinor = commission,
                la_merchantNetMinor = net, la_adjustmentMinor = 0\<rparr>)"

definition buildRefundAdjustmentAmounts :: "int \<Rightarrow> line_amounts" where
  "buildRefundAdjustmentAmounts liability =
     \<lparr>la_grossMerchandiseMinor = 0, la_commissionMinor = 0, la_merchantNetMinor = 0,
      la_adjustmentMinor = - liability\<rparr>"

fun add_line :: "int \<times> int \<times> int \<times> int \<times> int \<Rightarrow> settlement_line \<Rightarrow> int \<times> int \<times> int \<times> int \<times> int" where
  "add_line (gross, commission, refunds, nets, adjustments) l =
     (case ml_type l of
        SALE \<Rightarrow> (gross + ml_grossMerchandiseMinor l, commission + ml_commissionMinor l, refunds,
                 nets + ml_merchantNetMinor l, adjustments)
      | REFUND_ADJUSTMENT \<Rightarrow> (gross, commission, refunds + ml_adjustmentMinor l, nets,
                 adjustments + ml_adjustmentMinor l))"

definition deriveSettlementTotals :: "settlement_line list \<Rightarrow> settlement_totals" where
  "deriveSettlementTotals ls =
     (case foldl add_line (0, 0, 0, 0, 0) ls of (gross, commission, refunds, nets, adjustments) \<Rightarrow>
        \<lparr>st_grossSalesMinor = gross, st_commissionMinor = commission, st_refundAdjustmentsMinor = refunds,
         st_manualAdjustmentsMinor = 0, st_netPayableMinor = nets + adjustments\<rparr>)"

section \<open>Lemmas\<close>

lemma requireMerchantLiability_ok [guards]:
  "requireMerchantLiabilityMinor x refund = Inr n \<longleftrightarrow> x = JInt n \<and> 0 \<le> n \<and> n \<le> refund \<and> 0 < refund"
  by (cases x) (auto simp: requireMerchantLiabilityMinor_def)

lemma buildSaleLineAmounts_ok [guards]:
  "buildSaleLineAmounts g c n = Inr a \<longleftrightarrow>
   0 \<le> g \<and> 0 \<le> c \<and> 0 \<le> n \<and> a = \<lparr>la_grossMerchandiseMinor = g, la_commissionMinor = c,
      la_merchantNetMinor = n, la_adjustmentMinor = 0\<rparr>"
  by (auto simp: buildSaleLineAmounts_def)

lemma requireDraftStatus_ok [guards]: "requireDraftStatus st = Inr u \<longleftrightarrow> st = SETTLEMENT_DRAFT"
  by (simp add: requireDraftStatus_def)

lemma requireValidSettlementPeriod_ok [guards]:
  "requireValidSettlementPeriod a b = Inr (s, e) \<longleftrightarrow> a = Some s \<and> b = Some e \<and> s < e"
  by (auto simp: requireValidSettlementPeriod_def split: option.splits if_splits)

text \<open>The totals are the sums over the lines.\<close>

definition line_due :: "settlement_line \<Rightarrow> int" where
  "line_due l = (case ml_type l of SALE \<Rightarrow> ml_merchantNetMinor l | REFUND_ADJUSTMENT \<Rightarrow> ml_adjustmentMinor l)"

definition sum_lines :: "settlement_line_type \<Rightarrow> (settlement_line \<Rightarrow> int) \<Rightarrow> settlement_line list \<Rightarrow> int" where
  "sum_lines ty f ls = sum_list (map f (filter (\<lambda>l. ml_type l = ty) ls))"

lemma foldl_add_line:
  "foldl add_line (g, c, r, n, a) ls =
     (g + sum_lines SALE ml_grossMerchandiseMinor ls, c + sum_lines SALE ml_commissionMinor ls,
      r + sum_lines REFUND_ADJUSTMENT ml_adjustmentMinor ls, n + sum_lines SALE ml_merchantNetMinor ls,
      a + sum_lines REFUND_ADJUSTMENT ml_adjustmentMinor ls)"
  by (induction ls arbitrary: g c r n a) (auto simp: sum_lines_def split: settlement_line_type.split)

lemma sum_line_due:
  "sum_list (map line_due ls) = sum_lines SALE ml_merchantNetMinor ls + sum_lines REFUND_ADJUSTMENT ml_adjustmentMinor ls"
  by (induction ls) (auto simp: sum_lines_def line_due_def split: settlement_line_type.split)

lemma deriveSettlementTotals_sums:
  "deriveSettlementTotals ls =
     \<lparr>st_grossSalesMinor = sum_lines SALE ml_grossMerchandiseMinor ls,
      st_commissionMinor = sum_lines SALE ml_commissionMinor ls,
      st_refundAdjustmentsMinor = sum_lines REFUND_ADJUSTMENT ml_adjustmentMinor ls,
      st_manualAdjustmentsMinor = 0, st_netPayableMinor = sum_list (map line_due ls)\<rparr>"
  by (simp add: deriveSettlementTotals_def foldl_add_line sum_line_due)

end
