(* ===== verification/Payment_Policy.thy ===== *)
theory Payment_Policy
  imports Order_Policy
begin

text \<open>
  Policies and error codes of the modules that move money around an order:
  \<open>payments/domain/payment.policy.ts\<close>, \<open>cod/domain/cod.policy.ts\<close>,
  \<open>driver-remuneration/domain/driver-remuneration.policy.ts\<close>. A \<open>bigint\<close> column read by
  \<open>parseMinorUnits\<close> is a \<open>number\<close>, and NaN above the catalogue's price cap.
\<close>

section \<open>Payments\<close>

datatype payment_error =
    PAYMENT_NOT_FOUND
  | PAYMENT_METHOD_NOT_ELECTRONIC
  | PAYMENT_ALREADY_SUCCEEDED
  | PAYMENT_NOT_INITIABLE
  | PAYMENT_PROVIDER_UNAVAILABLE
  | PAYMENT_PROVIDER_CONFIGURATION_INVALID
  | PAYMENT_AMOUNT_MISMATCH
  | PAYMENT_CURRENCY_MISMATCH
  | PAYMENT_WEBHOOK_INVALID_SIGNATURE
  | PAYMENT_WEBHOOK_UNKNOWN_REFERENCE
  | PAYMENT_INVALID_STATE

fun payment_http_status :: "payment_error \<Rightarrow> int" where
  "payment_http_status PAYMENT_NOT_FOUND = 404"
| "payment_http_status PAYMENT_PROVIDER_UNAVAILABLE = 503"
| "payment_http_status PAYMENT_PROVIDER_CONFIGURATION_INVALID = 503"
| "payment_http_status PAYMENT_WEBHOOK_INVALID_SIGNATURE = 401"
| "payment_http_status PAYMENT_WEBHOOK_UNKNOWN_REFERENCE = 404"
| "payment_http_status _ = 409"

datatype tx_status =
  TX_CREATED | TX_INITIATED | TX_SUCCEEDED | TX_FAILED | TX_CANCELLED | TX_IGNORED

definition isElectronicMethod :: "string \<Rightarrow> bool" where
  "isElectronicMethod m \<longleftrightarrow> m = PAYMENT_METHOD_ELECTRONIC"

definition isPaymentInitiableOrderStatus :: "order_status \<Rightarrow> bool" where
  "isPaymentInitiableOrderStatus s \<longleftrightarrow> s = O_CREATED \<or> s = O_CONFIRMED \<or> s = O_ACTIVE"

definition isPaymentExecutionTerminal :: "payment_status \<Rightarrow> bool" where
  "isPaymentExecutionTerminal s \<longleftrightarrow> s = PAY_SUCCEEDED"

definition isPaymentCancelled :: "payment_status \<Rightarrow> bool" where
  "isPaymentCancelled s \<longleftrightarrow> s = PAY_CANCELLED"

definition isFrozenCurrency :: "string \<Rightarrow> bool" where
  "isFrozenCurrency c \<longleftrightarrow> c = ''DZD''"

definition amountsMatch :: "jsnum \<Rightarrow> jsnum \<Rightarrow> bool" where
  "amountsMatch paymentAmountMinor snapshotPayableMinor \<longleftrightarrow>
     isInteger paymentAmountMinor \<and> isInteger snapshotPayableMinor
     \<and> \<not> js_neq paymentAmountMinor snapshotPayableMinor
     \<and> \<not> js_less paymentAmountMinor (JInt 0)"

definition isOpenAttemptStatus :: "tx_status \<Rightarrow> bool" where
  "isOpenAttemptStatus s \<longleftrightarrow> s = TX_CREATED \<or> s = TX_INITIATED"

definition initiationIdempotencyKey :: "string \<Rightarrow> string \<Rightarrow> string" where
  "initiationIdempotencyKey paymentId attemptId = ''init:'' @ paymentId @ '':'' @ attemptId"

definition webhookIdempotencyKey :: "string \<Rightarrow> string \<Rightarrow> string" where
  "webhookIdempotencyKey provider eventId = ''wh:'' @ provider @ '':'' @ eventId"

definition normalizeProviderCurrency :: "string option \<Rightarrow> string" where
  "normalizeProviderCurrency v =
     (case v of None \<Rightarrow> ''DZD'' | Some s \<Rightarrow> if s = [] then ''DZD'' else js_upper (js_trim s))"

section \<open>Cash on delivery\<close>

datatype cod_error =
    DRIVER_COD_COLLECTION_ASSIGNMENT_NOT_ACTIVE
  | DRIVER_COD_COLLECTION_NOT_READY
  | DRIVER_COD_COLLECTION_METHOD_NOT_COD
  | DRIVER_COD_COLLECTION_PAYMENT_NOT_ELIGIBLE
  | DRIVER_COD_COLLECTION_AMOUNT_MISMATCH
  | DRIVER_COD_COLLECTION_ALREADY_EXISTS
  | DRIVER_COD_COLLECTION_INCONSISTENT_STATE
  | DRIVER_COD_PROFILE_NOT_FOUND
  | DRIVER_COD_REMITTANCE_NOT_FOUND
  | DRIVER_COD_REMITTANCE_ALREADY_CONFIRMED
  | DRIVER_COD_REMITTANCE_INSUFFICIENT_CUSTODY
  | DRIVER_COD_REMITTANCE_INVALID_AMOUNT
  | DRIVER_COD_REMITTANCE_OPEN_EXISTS
  | DRIVER_COD_REMITTANCE_INVALID_STATE

fun cod_http_status :: "cod_error \<Rightarrow> int" where
  "cod_http_status DRIVER_COD_PROFILE_NOT_FOUND = 404"
| "cod_http_status DRIVER_COD_REMITTANCE_NOT_FOUND = 404"
| "cod_http_status DRIVER_COD_REMITTANCE_INVALID_AMOUNT = 400"
| "cod_http_status _ = 409"

datatype collection_reconciliation = OUTSTANDING | PARTIAL | RECONCILED

definition deriveCollectionReconciliation :: "jsnum \<Rightarrow> jsnum \<Rightarrow> collection_reconciliation" where
  "deriveCollectionReconciliation collected allocated =
     (if js_less allocated (JInt 0) \<or> allocated = JInt 0 then OUTSTANDING
      else if allocated = collected \<and> allocated \<noteq> JNaN \<or> js_less collected allocated then RECONCILED
      else PARTIAL)"

definition isExactCodAmount :: "jsnum \<Rightarrow> jsnum \<Rightarrow> jsnum \<Rightarrow> bool" where
  "isExactCodAmount collected paymentAmount snapshotPayable \<longleftrightarrow>
     isInteger collected \<and> \<not> js_less collected (JInt 0)
     \<and> \<not> js_neq collected paymentAmount \<and> \<not> js_neq paymentAmount snapshotPayable"

definition isPositiveMinor :: "jsnum \<Rightarrow> bool" where
  "isPositiveMinor amount \<longleftrightarrow> isInteger amount \<and> isSafeInteger amount \<and> js_less (JInt 0) amount"

section \<open>Driver remuneration\<close>

datatype earning_error =
    DRIVER_EARNING_NOT_FOUND
  | DRIVER_EARNING_ALREADY_EXISTS
  | DRIVER_EARNING_FINANCIAL_STATE_INVALID
  | DRIVER_EARNING_AMOUNT_INVALID
  | DRIVER_EARNING_DELIVERY_NOT_COMPLETED
  | DRIVER_EARNING_ASSIGNMENT_INVALID

fun earning_http_status :: "earning_error \<Rightarrow> int" where
  "earning_http_status DRIVER_EARNING_NOT_FOUND = 404"
| "earning_http_status DRIVER_EARNING_AMOUNT_INVALID = 400"
| "earning_http_status _ = 409"

definition requireDriverRemunerationMinor :: "jsnum \<Rightarrow> earning_error + jsnum" where
  "requireDriverRemunerationMinor amountMinor =
     (if \<not> isInteger amountMinor \<or> \<not> isSafeInteger amountMinor \<or> js_less amountMinor (JInt 0)
      then Inl DRIVER_EARNING_AMOUNT_INVALID else Inr amountMinor)"

record earning_amounts =
  ea_baseRemunerationMinor :: jsnum
  ea_bonusMinor :: jsnum
  ea_adjustmentMinor :: jsnum
  ea_netEarningMinor :: jsnum

definition buildDriverEarningAmounts :: "jsnum \<Rightarrow> earning_error + earning_amounts" where
  "buildDriverEarningAmounts baseRemunerationMinor =
     ebind (requireDriverRemunerationMinor baseRemunerationMinor) (\<lambda>base.
       let net = js_add (js_add base (JInt 0)) (JInt 0)
       in if js_less net (JInt 0) \<or> \<not> isSafeInteger net then Inl DRIVER_EARNING_FINANCIAL_STATE_INVALID
          else Inr \<lparr>ea_baseRemunerationMinor = base, ea_bonusMinor = JInt 0,
                    ea_adjustmentMinor = JInt 0, ea_netEarningMinor = net\<rparr>)"

definition normalizeDriverEarningListQuery ::
  "jsnum option \<Rightarrow> jsnum option \<Rightarrow> int \<Rightarrow> int \<Rightarrow> earning_error + jsnum \<times> jsnum" where
  "normalizeDriverEarningListQuery limit offset default_limit max_limit =
     (let l = js_default limit (JInt default_limit); o' = js_default offset (JInt 0)
      in if \<not> isInteger l \<or> js_less l (JInt 1) \<or> js_less (JInt max_limit) l
         then Inl DRIVER_EARNING_FINANCIAL_STATE_INVALID
         else if \<not> isInteger o' \<or> js_less o' (JInt 0)
         then Inl DRIVER_EARNING_FINANCIAL_STATE_INVALID
         else Inr (l, o'))"

section \<open>Lemmas\<close>

lemma buildDriverEarningAmounts_ok [guards]:
  "buildDriverEarningAmounts x = Inr a \<longleftrightarrow>
   (\<exists>n. x = JInt n \<and> 0 \<le> n \<and> n \<le> MAX_SAFE_INTEGER \<and>
      a = \<lparr>ea_baseRemunerationMinor = JInt n, ea_bonusMinor = JInt 0, ea_adjustmentMinor = JInt 0,
           ea_netEarningMinor = JInt n\<rparr>)"
  by (cases x) (auto simp: buildDriverEarningAmounts_def requireDriverRemunerationMinor_def Let_def
      ebind_Inr double_of_int_exact not_less split: if_splits)

lemma isExactCodAmount_iff [guards]:
  "isExactCodAmount c p s \<longleftrightarrow> (\<exists>n. 0 \<le> n \<and> c = JInt n \<and> p = JInt n \<and> s = JInt n)"
  by (cases c) (auto simp: isExactCodAmount_def js_neq_def)

lemma amountsMatch_iff [guards]: "amountsMatch p s \<longleftrightarrow> (\<exists>n. 0 \<le> n \<and> p = JInt n \<and> s = JInt n)"
  by (cases p) (auto simp: amountsMatch_def js_neq_def)

lemma isPositiveMinor_iff [guards]:
  "isPositiveMinor x \<longleftrightarrow> (\<exists>n. x = JInt n \<and> 0 < n \<and> n \<le> MAX_SAFE_INTEGER)"
  by (cases x) (auto simp: isPositiveMinor_def)

lemma parseMinorUnits_int:
  "parseMinorUnits (DbBig n) = JInt m \<longleftrightarrow> 0 \<le> n \<and> n \<le> CATALOG_PRICE_MINOR_MAX \<and> m = n"
  using parseMinorUnits_range [of n] by (cases "0 \<le> n \<and> n \<le> CATALOG_PRICE_MINOR_MAX") auto

end
