(* ===== verification/Delivery_Policy.thy ===== *)
theory Delivery_Policy
  imports Order_Policy
begin

text \<open>
  \<open>modules/delivery/domain/delivery.policy.ts\<close>, \<open>driver-delivery.policy.ts\<close> and
  \<open>modules/matching/domain/matching.policy.ts\<close>: the statuses of a delivery, the driver's actions,
  offers to drivers and the location checks. Coordinates and distances are floating-point
  numbers computed by \<open>haversineMeters\<close>, a parameter \<open>distance\<close> of the model.
\<close>

section \<open>Deliveries\<close>

datatype delivery_status =
    SEARCHING_DRIVER | DRIVER_ASSIGNED | TO_PICKUP | AT_PICKUP | PICKED_UP | IN_TRANSIT
  | ARRIVED_CUSTOMER | DELIVERED | D_FAILED | D_CANCELLED

datatype delivery_error = DELIVERY_NOT_FOUND | DELIVERY_ORDER_NOT_ELIGIBLE | DELIVERY_PAYMENT_NOT_READY

fun delivery_http_status :: "delivery_error \<Rightarrow> int" where
  "delivery_http_status DELIVERY_NOT_FOUND = 404"
| "delivery_http_status _ = 409"

datatype driver_delivery_error =
    DRIVER_DELIVERY_NOT_FOUND
  | DRIVER_DELIVERY_INVALID_STATE
  | DRIVER_DELIVERY_ASSIGNMENT_NOT_ACTIVE
  | DRIVER_DELIVERY_ACTION_NOT_ALLOWED
  | DRIVER_DELIVERY_PAYMENT_NOT_READY
  | DRIVER_DELIVERY_COD_COMPLETION_NOT_READY
  | DRIVER_DELIVERY_LOCATION_REQUIRED
  | DRIVER_DELIVERY_LOCATION_STALE
  | DRIVER_DELIVERY_NOT_NEAR_PICKUP
  | DRIVER_DELIVERY_NOT_NEAR_DROPOFF

fun driver_delivery_http_status :: "driver_delivery_error \<Rightarrow> int" where
  "driver_delivery_http_status DRIVER_DELIVERY_NOT_FOUND = 404"
| "driver_delivery_http_status _ = 409"

definition isOrderEligibleForDelivery :: "order_status \<Rightarrow> fulfillment_status \<Rightarrow> bool" where
  "isOrderEligibleForDelivery s f \<longleftrightarrow> s = O_ACTIVE \<and> f = READY"

definition isDeliveryPaymentEligible :: "string \<Rightarrow> payment_status \<Rightarrow> bool" where
  "isDeliveryPaymentEligible m s =
     (if m = PAYMENT_METHOD_COD then s \<noteq> PAY_FAILED \<and> s \<noteq> PAY_CANCELLED
      else if m = PAYMENT_METHOD_ELECTRONIC then s = PAY_SUCCEEDED
      else False)"

definition isTerminalDeliveryStatus :: "delivery_status \<Rightarrow> bool" where
  "isTerminalDeliveryStatus s \<longleftrightarrow> s = DELIVERED \<or> s = D_FAILED \<or> s = D_CANCELLED"

section \<open>The driver's actions\<close>

datatype driver_action =
  START_TO_PICKUP | ARRIVE_PICKUP | CONFIRM_PICKUP | START_DELIVERY | ARRIVE_CUSTOMER | COMPLETE_DELIVERY

datatype timestamp_field = F_pickedUpAt | F_arrivedCustomerAt | F_deliveredAt

record delivery_transition =
  dt_from :: delivery_status
  dt_to :: delivery_status
  dt_eventType :: string
  dt_timestampField :: "timestamp_field option"

fun transitionForAction :: "driver_action \<Rightarrow> delivery_transition" where
  "transitionForAction START_TO_PICKUP =
     \<lparr>dt_from = DRIVER_ASSIGNED, dt_to = TO_PICKUP, dt_eventType = ''DRIVER_STARTED_TO_PICKUP'',
      dt_timestampField = None\<rparr>"
| "transitionForAction ARRIVE_PICKUP =
     \<lparr>dt_from = TO_PICKUP, dt_to = AT_PICKUP, dt_eventType = ''DRIVER_ARRIVED_PICKUP'',
      dt_timestampField = None\<rparr>"
| "transitionForAction CONFIRM_PICKUP =
     \<lparr>dt_from = AT_PICKUP, dt_to = PICKED_UP, dt_eventType = ''ORDER_PICKED_UP'',
      dt_timestampField = Some F_pickedUpAt\<rparr>"
| "transitionForAction START_DELIVERY =
     \<lparr>dt_from = PICKED_UP, dt_to = IN_TRANSIT, dt_eventType = ''DELIVERY_IN_TRANSIT'',
      dt_timestampField = None\<rparr>"
| "transitionForAction ARRIVE_CUSTOMER =
     \<lparr>dt_from = IN_TRANSIT, dt_to = ARRIVED_CUSTOMER, dt_eventType = ''DRIVER_ARRIVED_CUSTOMER'',
      dt_timestampField = Some F_arrivedCustomerAt\<rparr>"
| "transitionForAction COMPLETE_DELIVERY =
     \<lparr>dt_from = ARRIVED_CUSTOMER, dt_to = DELIVERED, dt_eventType = ''DELIVERY_COMPLETED'',
      dt_timestampField = Some F_deliveredAt\<rparr>"

definition DRIVER_DELIVERY_ACTIONS :: "driver_action list" where
  "DRIVER_DELIVERY_ACTIONS =
     [START_TO_PICKUP, ARRIVE_PICKUP, CONFIRM_PICKUP, START_DELIVERY, ARRIVE_CUSTOMER, COMPLETE_DELIVERY]"

definition allowedActionsForStatus :: "delivery_status \<Rightarrow> driver_action list" where
  "allowedActionsForStatus s =
     filter (\<lambda>a. dt_from (transitionForAction a) = s) DRIVER_DELIVERY_ACTIONS"

definition actionRequiresArrivalLocation :: "driver_action \<Rightarrow> bool" where
  "actionRequiresArrivalLocation a \<longleftrightarrow> a = ARRIVE_PICKUP \<or> a = ARRIVE_CUSTOMER"

section \<open>Offers and locations\<close>

datatype matching_error =
    DRIVER_ASSIGNMENT_NOT_FOUND
  | DRIVER_ASSIGNMENT_INVALID_STATE
  | DRIVER_ASSIGNMENT_EXPIRED
  | DRIVER_NOT_MATCHING_ELIGIBLE
  | DRIVER_LOCATION_REQUIRED
  | DRIVER_LOCATION_STALE
  | DRIVER_LOCATION_INVALID
  | DELIVERY_NOT_SEARCHING_DRIVER
  | DELIVERY_ALREADY_ASSIGNED
  | DRIVER_ALREADY_ASSIGNED
  | MATCHING_NO_ELIGIBLE_DRIVER

datatype assignment_status = A_OFFERED | A_ACCEPTED | A_REJECTED | A_EXPIRED | A_RELEASED

definition isOpenOffer :: "assignment_status \<Rightarrow> stamp option \<Rightarrow> bool" where
  "isOpenOffer s releasedAt \<longleftrightarrow> s = A_OFFERED \<and> releasedAt = None"

definition isAcceptedAssignment :: "assignment_status \<Rightarrow> stamp option \<Rightarrow> bool" where
  "isAcceptedAssignment s releasedAt \<longleftrightarrow> s = A_ACCEPTED \<and> releasedAt = None"

definition js_le :: "jsnum \<Rightarrow> jsnum \<Rightarrow> bool" where
  "js_le x y \<longleftrightarrow> x \<noteq> JNaN \<and> y \<noteq> JNaN \<and> \<not> js_less y x"

definition isValidLatitude :: "jsnum \<Rightarrow> bool" where
  "isValidLatitude v \<longleftrightarrow> isFinite v \<and> js_le (JInt (- 90)) v \<and> js_le v (JInt 90)"

definition isValidLongitude :: "jsnum \<Rightarrow> bool" where
  "isValidLongitude v \<longleftrightarrow> isFinite v \<and> js_le (JInt (- 180)) v \<and> js_le v (JInt 180)"

definition isValidLocation :: "jsnum \<Rightarrow> jsnum \<Rightarrow> bool" where
  "isValidLocation latitude longitude \<longleftrightarrow> isValidLatitude latitude \<and> isValidLongitude longitude"

definition isLocationFresh :: "stamp \<Rightarrow> int \<Rightarrow> instant \<Rightarrow> bool" where
  "isLocationFresh recordedAt maxAgeMs nowMs =
     (case recordedAt of
        None \<Rightarrow> False
      | Some recordedMs \<Rightarrow> if maxAgeMs \<le> 0 then False else nowMs - recordedMs \<le> maxAgeMs)"

definition offerExpiresAt :: "instant \<Rightarrow> int \<Rightarrow> instant" where
  "offerExpiresAt assignedAt offerTimeoutMs = assignedAt + offerTimeoutMs"

definition isOfferExpired :: "stamp \<Rightarrow> int \<Rightarrow> instant \<Rightarrow> bool" where
  "isOfferExpired assignedAt offerTimeoutMs nowMs =
     (case assignedAt of
        None \<Rightarrow> True
      | Some start \<Rightarrow> if offerTimeoutMs \<le> 0 then True else start + offerTimeoutMs \<le> nowMs)"

definition remainingOfferDelayMs :: "stamp \<Rightarrow> int \<Rightarrow> instant \<Rightarrow> int" where
  "remainingOfferDelayMs assignedAt offerTimeoutMs nowMs =
     (case assignedAt of
        None \<Rightarrow> 0
      | Some start \<Rightarrow> if offerTimeoutMs \<le> 0 then 0 else max 0 (start + offerTimeoutMs - nowMs))"

definition isWithinPickupRadius :: "jsnum \<Rightarrow> jsnum \<Rightarrow> bool" where
  "isWithinPickupRadius distanceMeters radiusMeters \<longleftrightarrow>
     isFinite distanceMeters \<and> isFinite radiusMeters \<and> js_less (JInt 0) radiusMeters
     \<and> js_le distanceMeters radiusMeters"

record location =
  lc_latitude :: jsnum
  lc_longitude :: jsnum
  lc_recordedAt :: stamp

datatype arrival_decision = AD_ok | AD_missing | AD_stale | AD_too_far

definition decideArrivalLocation ::
  "(jsnum \<Rightarrow> jsnum \<Rightarrow> jsnum \<Rightarrow> jsnum \<Rightarrow> jsnum) \<Rightarrow> location option \<Rightarrow> jsnum \<Rightarrow> jsnum \<Rightarrow> int \<Rightarrow>
   jsnum \<Rightarrow> instant \<Rightarrow> arrival_decision" where
  "decideArrivalLocation distance loc targetLatitude targetLongitude maxAgeMs radiusMeters nowMs =
     (case loc of
        None \<Rightarrow> AD_missing
      | Some l \<Rightarrow>
          if \<not> isValidLocation (lc_latitude l) (lc_longitude l)
             \<or> \<not> isValidLocation targetLatitude targetLongitude then AD_too_far
          else if \<not> isLocationFresh (lc_recordedAt l) maxAgeMs nowMs then AD_stale
          else if \<not> isWithinPickupRadius
                     (distance (lc_latitude l) (lc_longitude l) targetLatitude targetLongitude)
                     radiusMeters then AD_too_far
          else AD_ok)"

record candidate =
  cd_driverId :: string
  cd_distanceMeters :: rat

text \<open>Drivers nearest first, ties by id (UUIDs); distances are finite.\<close>

definition rankCandidates :: "candidate list \<Rightarrow> candidate list" where
  "rankCandidates cs = sort_key (\<lambda>c. cd_distanceMeters c) (sort_key (\<lambda>c. cd_driverId c) cs)"

section \<open>Pickup handoff\<close>

text \<open>
  \<open>pickup-handoff.types.ts\<close> and \<open>pickup-handoff.errors.ts\<close>: the code a merchant shows and the driver
  types in. The HMAC that hashes a code and the cipher that seals it are parameters of the model.
\<close>

datatype handoff_error =
    PICKUP_HANDOFF_NOT_FOUND
  | PICKUP_HANDOFF_INVALID_STATE
  | PICKUP_HANDOFF_CODE_INVALID
  | PICKUP_HANDOFF_EXPIRED
  | PICKUP_HANDOFF_LOCKED
  | PICKUP_HANDOFF_ALREADY_CONSUMED
  | PICKUP_HANDOFF_ASSIGNMENT_CONFLICT
  | PICKUP_HANDOFF_RATE_LIMITED

fun handoff_http_status :: "handoff_error \<Rightarrow> int" where
  "handoff_http_status PICKUP_HANDOFF_NOT_FOUND = 404"
| "handoff_http_status PICKUP_HANDOFF_LOCKED = 429"
| "handoff_http_status PICKUP_HANDOFF_RATE_LIMITED = 429"
| "handoff_http_status _ = 409"

datatype handoff_status = H_PENDING | H_CONSUMED | H_INVALIDATED | H_EXPIRED | H_LOCKED

definition PICKUP_HANDOFF_TTL_MS :: int where
  "PICKUP_HANDOFF_TTL_MS = 30 * 60 * 1000"

definition PICKUP_HANDOFF_MAX_ATTEMPTS :: int where
  "PICKUP_HANDOFF_MAX_ATTEMPTS = 5"

definition PICKUP_HANDOFF_LOCK_DURATION_MS :: int where
  "PICKUP_HANDOFF_LOCK_DURATION_MS = 15 * 60 * 1000"

definition pickupHandoffAttemptsRemaining :: "int \<Rightarrow> int \<Rightarrow> int" where
  "pickupHandoffAttemptsRemaining attemptCount maxAttempts = max 0 (maxAttempts - attemptCount)"

definition pickupHandoffExpiresAt :: "instant \<Rightarrow> instant" where
  "pickupHandoffExpiresAt now = now + PICKUP_HANDOFF_TTL_MS"

definition pickupHandoffLockedUntil :: "instant \<Rightarrow> instant" where
  "pickupHandoffLockedUntil now = now + PICKUP_HANDOFF_LOCK_DURATION_MS"

definition isPickupHandoffExpired :: "instant \<Rightarrow> instant \<Rightarrow> bool" where
  "isPickupHandoffExpired expiresAt now \<longleftrightarrow> expiresAt \<le> now"

definition isPickupHandoffLocked :: "instant option \<Rightarrow> instant \<Rightarrow> bool" where
  "isPickupHandoffLocked lockedUntil now \<longleftrightarrow> (case lockedUntil of None \<Rightarrow> False | Some u \<Rightarrow> now < u)"

end
