(* ===== verification/Driver_Policy.thy ===== *)
theory Driver_Policy
  imports SG_Text
begin

text \<open>
  \<open>modules/drivers/domain/driver.policy.ts\<close> and \<open>driver.errors.ts\<close>: the verification of a driver,
  the documents and the vehicle it needs, and when a driver may go online or be offered deliveries.
  A date is an ISO string, compared as JavaScript compares strings; the day of today is computed from
  the clock.
\<close>

datatype verification_status = V_UNVERIFIED | V_PENDING_REVIEW | V_APPROVED | V_REJECTED | V_SUSPENDED

datatype availability_status = AV_OFFLINE | AV_ONLINE | AV_OFFLINE_AFTER_CURRENT_DELIVERY | AV_SUSPENDED

datatype vehicle_status = VEHICLE_ACTIVE | VEHICLE_INACTIVE

datatype driver_error =
    DRIVER_PROFILE_NOT_FOUND
  | DRIVER_PROFILE_ALREADY_EXISTS
  | DRIVER_ONBOARDING_INCOMPLETE
  | DRIVER_VERIFICATION_INVALID_STATE
  | DRIVER_NOT_OPERATIONAL
  | DRIVER_NOT_APPROVED
  | DRIVER_DOCUMENT_REQUIRED
  | DRIVER_LICENSE_REQUIRED
  | DRIVER_VEHICLE_REQUIRED
  | DRIVER_VEHICLE_NOT_FOUND
  | DRIVER_VEHICLE_CONFLICT
  | DRIVER_DOCUMENT_INVALID
  | DRIVER_AVAILABILITY_INVALID_TRANSITION

section \<open>Dates\<close>

definition is_leap :: "nat \<Rightarrow> bool" where
  "is_leap y \<longleftrightarrow> (y mod 4 = 0 \<and> y mod 100 \<noteq> 0) \<or> y mod 400 = 0"

definition days_in_month :: "nat \<Rightarrow> nat \<Rightarrow> nat" where
  "days_in_month y m =
     (if m = 2 then (if is_leap y then 29 else 28) else if m \<in> {4, 6, 9, 11} then 30 else 31)"

text \<open>
  \<open>ISO_DATE\<close> and the round trip through \<open>Date\<close>: a date that does not exist comes back as another
  one, or not at all, so exactly the dates of the calendar pass.
\<close>

fun isIsoDate :: "string \<Rightarrow> bool" where
  "isIsoDate [y1, y2, y3, y4, s1, m1, m2, s2, d1, d2] =
     (s1 = CHR ''-'' \<and> s2 = CHR ''-'' \<and> list_all is_digit [y1, y2, y3, y4, m1, m2, d1, d2] \<and>
      (let y = read_nat [y1, y2, y3, y4]; m = read_nat [m1, m2]; d = read_nat [d1, d2]
       in 1 \<le> m \<and> m \<le> 12 \<and> 1 \<le> d \<and> d \<le> days_in_month y m))"
| "isIsoDate _ = False"

definition pad :: "nat \<Rightarrow> nat \<Rightarrow> string" where
  "pad k n = (let s = show_nat n in replicate (k - length s) (CHR ''0'') @ s)"

text \<open>The proleptic Gregorian date of a day counted from 1970-01-01.\<close>

definition civil_of_day :: "int \<Rightarrow> int \<times> nat \<times> nat" where
  "civil_of_day days =
     (let z = days + 719468; era = z div 146097; doe = z mod 146097;
          yoe = (doe - doe div 1460 + doe div 36524 - doe div 146096) div 365;
          doy = doe - (365 * yoe + yoe div 4 - yoe div 100);
          mp = (5 * doy + 2) div 153;
          d = doy - (153 * mp + 2) div 5 + 1;
          m = (if mp < 10 then mp + 3 else mp - 9)
      in (yoe + era * 400 + (if m \<le> 2 then 1 else 0), nat m, nat d))"

text \<open>\<open>new Date().toISOString().slice(0, 10)\<close>, for the years 0 to 9999.\<close>

definition utcTodayIsoDate :: "instant \<Rightarrow> string" where
  "utcTodayIsoDate now =
     (case civil_of_day (now div 86400000) of
        (y, m, d) \<Rightarrow> pad 4 (nat y) @ ''-'' @ pad 2 m @ ''-'' @ pad 2 d)"

text \<open>A missing or empty date is falsy.\<close>

definition isExpiryValid :: "string option \<Rightarrow> string \<Rightarrow> bool" where
  "isExpiryValid expiryDate today =
     (case expiryDate of None \<Rightarrow> False | Some e \<Rightarrow> e \<noteq> [] \<and> isIsoDate e \<and> today \<le> e)"

definition isOptionalExpiryValid :: "string option \<Rightarrow> string \<Rightarrow> bool" where
  "isOptionalExpiryValid expiryDate today =
     (if expiryDate = None \<or> expiryDate = Some [] then True else isExpiryValid expiryDate today)"

section \<open>Onboarding\<close>

abbreviation (input) DOC_IDENTITY :: string where "DOC_IDENTITY \<equiv> ''IDENTITY''"
abbreviation (input) DOC_LICENSE :: string where "DOC_LICENSE \<equiv> ''DRIVING_LICENSE''"

definition isDriverDocumentType :: "string \<Rightarrow> bool" where
  "isDriverDocumentType t \<longleftrightarrow> t \<in> set [DOC_IDENTITY, DOC_LICENSE]"

definition isDriverVehicleType :: "string \<Rightarrow> bool" where
  "isDriverVehicleType t \<longleftrightarrow> t \<in> set [''MOTORCYCLE'', ''CAR'', ''SCOOTER'']"

definition isEditableOnboardingStatus :: "verification_status \<Rightarrow> bool" where
  "isEditableOnboardingStatus s \<longleftrightarrow> s = V_UNVERIFIED \<or> s = V_REJECTED"

definition canSubmitVerification :: "verification_status \<Rightarrow> bool" where
  "canSubmitVerification s \<longleftrightarrow> s = V_UNVERIFIED \<or> s = V_REJECTED"

definition isApprovedVerification :: "verification_status \<Rightarrow> bool" where
  "isApprovedVerification s \<longleftrightarrow> s = V_APPROVED"

definition isSuspendedVerification :: "verification_status \<Rightarrow> bool" where
  "isSuspendedVerification s \<longleftrightarrow> s = V_SUSPENDED"

definition normalizePlate :: "string \<Rightarrow> string" where
  "normalizePlate p = js_upper (filter (\<lambda>c. \<not> is_js_space c) p)"

definition isProfileComplete :: "string \<Rightarrow> bool" where
  "isProfileComplete fullName \<longleftrightarrow> 0 < length (js_trim fullName)"

record driver_document =
  doc_id :: string
  doc_driverId :: string
  doc_type :: string
  doc_fileUrl :: string
  doc_status :: string
  doc_expiryDate :: "string option"

record vehicle_row =
  vh_id :: string
  vh_driverId :: string
  vh_type :: string
  vh_plateNumber :: string
  vh_model :: string
  vh_color :: "string option"
  vh_status :: vehicle_status
  vh_createdAt :: instant

definition isIdentityDocumentComplete :: "driver_document option \<Rightarrow> string \<Rightarrow> bool" where
  "isIdentityDocumentComplete input today =
     (case input of None \<Rightarrow> False
      | Some d \<Rightarrow> doc_type d = DOC_IDENTITY \<and> isOptionalExpiryValid (doc_expiryDate d) today)"

definition isDrivingLicenseComplete :: "driver_document option \<Rightarrow> string \<Rightarrow> bool" where
  "isDrivingLicenseComplete input today =
     (case input of None \<Rightarrow> False
      | Some d \<Rightarrow> doc_type d = DOC_LICENSE \<and> isExpiryValid (doc_expiryDate d) today)"

definition hasActiveVehicle :: "vehicle_row list \<Rightarrow> bool" where
  "hasActiveVehicle vehicles \<longleftrightarrow> list_ex (\<lambda>v. vh_status v = VEHICLE_ACTIVE) vehicles"

record readiness_input =
  ri_verificationStatus :: verification_status
  ri_fullName :: string
  ri_identity :: "driver_document option"
  ri_license :: "driver_document option"
  ri_vehicles :: "vehicle_row list"

definition isOnboardingReady :: "readiness_input \<Rightarrow> string \<Rightarrow> bool" where
  "isOnboardingReady i today \<longleftrightarrow>
     isProfileComplete (ri_fullName i) \<and> isIdentityDocumentComplete (ri_identity i) today \<and>
     isDrivingLicenseComplete (ri_license i) today \<and> hasActiveVehicle (ri_vehicles i)"

definition isOperationalReady :: "readiness_input \<Rightarrow> string \<Rightarrow> bool" where
  "isOperationalReady i today \<longleftrightarrow>
     isApprovedVerification (ri_verificationStatus i) \<and> isOnboardingReady i today"

definition canGoOnline :: "verification_status \<Rightarrow> availability_status option \<Rightarrow> bool \<Rightarrow> bool" where
  "canGoOnline verification availability operationalReady \<longleftrightarrow>
     operationalReady \<and> availability = Some AV_OFFLINE \<and> \<not> isSuspendedVerification verification"

definition canParticipateInMatching ::
  "verification_status \<Rightarrow> availability_status option \<Rightarrow> bool \<Rightarrow> bool" where
  "canParticipateInMatching verification availability operationalReady \<longleftrightarrow>
     operationalReady \<and> availability = Some AV_ONLINE \<and> isApprovedVerification verification"

definition objectKeyForDocument :: "string \<Rightarrow> string" where
  "objectKeyForDocument documentId = ''sg-object:driver-document:'' @ documentId"

end
