(* ===== verification/Shop.thy ===== *)
theory Shop
  imports Settlement_Policy Payment_Policy Delivery_Policy Driver_Policy Ledger Promotion
begin

text \<open>
  The tables that the order, payment, refund, delivery, cash-on-delivery, remuneration and settlement
  modules share, as one state record, with the row operations of their repositories. A row
  has the columns of \<open>prisma/contract.prisma\<close> that the modelled code reads or writes; amounts
  are BIGINT columns; the surrogate ids of event rows, which nothing reads, are left out. A
  service method that opens a transaction is a function \<open>shop \<Rightarrow> app_error + 'a \<times> shop\<close>: an
  error rolls every write back.
\<close>

section \<open>Rows\<close>

record order_row =
  o_id :: string
  o_customerId :: string
  o_merchantBranchId :: string
  o_status :: order_status
  o_fulfillmentStatus :: fulfillment_status
  o_confirmedAt :: "instant option"
  o_completedAt :: "instant option"
  o_updatedAt :: instant
  o_preparationMinutes :: "int option"
  o_originalPreparationMinutes :: "int option"
  o_estimatedReadyAt :: "instant option"
  o_originalEstimatedReadyAt :: "instant option"
  o_preparationEstimateVersion :: int

record snapshot_row =
  sn_orderId :: string
  sn_currency :: string
  sn_grossMerchandiseSubtotalMinor :: int
  sn_merchantDiscountMinor :: int
  sn_platformDiscountMinor :: int
  sn_merchantCommissionAmountMinor :: int
  sn_merchantNetAmountMinor :: int
  sn_customerDeliveryFeeMinor :: int
  sn_driverRemunerationMinor :: int
  sn_speedyGoDeliveryShareMinor :: int
  sn_customerPayableMinor :: int

record payment_row =
  p_id :: string
  p_orderId :: string
  p_method :: string
  p_status :: payment_status
  p_amountMinor :: int
  p_currency :: string
  p_updatedAt :: instant

record payment_tx_row =
  t_id :: string
  t_paymentId :: string
  t_provider :: string
  t_providerReference :: "string option"
  t_status :: tx_status
  t_amountMinor :: int
  t_idempotencyKey :: string
  t_processedAt :: "instant option"
  t_createdAt :: instant

record order_event =
  ev_orderId :: string
  ev_eventType :: string
  ev_actorType :: string
  ev_actorId :: string
  ev_fromStatus :: "order_status option"
  ev_toStatus :: order_status
  ev_occurredAt :: instant

record cancellation_row =
  ca_orderId :: string
  ca_reason :: string
  ca_reasonCode :: "string option"
  ca_cancelledByAccountId :: string
  ca_cancelledAt :: instant

record estimate_revision =
  er_orderId :: string
  er_revisionNumber :: int
  er_previousEstimatedReadyAt :: "instant option"
  er_newEstimatedReadyAt :: instant
  er_addMinutes :: int
  er_reason :: "string option"
  er_actorAccountId :: string

record item_row =
  oi_orderId :: string
  oi_productId :: string
  oi_productNameSnapshot :: string
  oi_quantity :: int
  oi_unitPriceMinor :: int
  oi_lineTotalMinor :: int
  oi_options :: "(string \<times> int) list"

datatype cart_status = CART_ACTIVE | CART_ABANDONED | CART_CONVERTED

text \<open>A cart with its items: product, quantity, persisted unit price and option ids.\<close>

record cart_item_row =
  ci_id :: string
  ci_productId :: string
  ci_quantity :: int
  ci_unitPriceMinor :: int
  ci_optionIds :: "string list"

record cart_row =
  ct_id :: string
  ct_customerId :: string
  ct_merchantBranchId :: string
  ct_status :: cart_status
  ct_items :: "cart_item_row list"

record refund_row =
  r_id :: string
  r_orderId :: string
  r_paymentTransactionId :: "string option"
  r_refundMethod :: refund_method
  r_amountMinor :: int
  r_status :: refund_status
  r_reason :: string
  r_internalNote :: "string option"
  r_requestOrigin :: refund_origin
  r_requestedByAdminId :: "string option"
  r_paidTerminalIntentKey :: "string option"
  r_requestedAt :: instant
  r_completedAt :: "instant option"

text \<open>The address an order is delivered to; coordinates are NUMERIC(9,6) columns read as numbers.\<close>

record address_row =
  ad_orderId :: string
  ad_latitude :: jsnum
  ad_longitude :: jsnum

record delivery_row =
  d_id :: string
  d_orderId :: string
  d_status :: delivery_status
  d_driverSearchStartedAt :: instant
  d_pickedUpAt :: "instant option"
  d_arrivedCustomerAt :: "instant option"
  d_deliveredAt :: "instant option"
  d_updatedAt :: instant

record delivery_event =
  de_deliveryId :: string
  de_type :: string
  de_driverId :: "string option"
  de_occurredAt :: instant

record assignment_row =
  a_id :: string
  a_deliveryId :: string
  a_driverId :: string
  a_status :: assignment_status
  a_version :: int
  a_assignedAt :: instant
  a_acceptedAt :: "instant option"
  a_releasedAt :: "instant option"

text \<open>The challenge a driver answers at the counter; the code itself is stored hashed and sealed.\<close>

record handoff_row =
  h_id :: string
  h_deliveryId :: string
  h_assignmentId :: string
  h_assignmentVersion :: int
  h_codeHash :: string
  h_codeSealed :: string
  h_status :: handoff_status
  h_attemptCount :: int
  h_maxAttempts :: int
  h_expiresAt :: instant
  h_lockedUntil :: "instant option"
  h_consumedAt :: "instant option"
  h_consumedByDriverId :: "string option"
  h_createdByAccountId :: "string option"
  h_invalidatedAt :: "instant option"
  h_invalidatedReason :: "string option"
  h_version :: int
  h_createdAt :: instant

record driver_row =
  dr_id :: string
  dr_accountId :: string
  dr_fullName :: string
  dr_verificationStatus :: verification_status
  dr_approvedAt :: "instant option"
  dr_updatedAt :: instant

record availability_row =
  av_driverId :: string
  av_status :: availability_status
  av_offlineAfterCurrentDelivery :: bool

record collection_row =
  co_collectionId :: string
  co_orderId :: string
  co_driverId :: string
  co_expectedAmountMinor :: int
  co_collectedAmountMinor :: int
  co_collectedAt :: instant
  co_status :: string

datatype remittance_status = DECLARED | CONFIRMED

record remittance_row =
  rm_id :: string
  rm_driverId :: string
  rm_submittedAmountMinor :: int
  rm_confirmedAmountMinor :: int
  rm_status :: remittance_status
  rm_reference :: string
  rm_submittedAt :: instant
  rm_confirmedAt :: "instant option"

record allocation_row =
  al_remittanceId :: string
  al_collectionId :: string
  al_allocatedAmountMinor :: int

record discrepancy_row =
  di_driverId :: string
  di_remittanceId :: string
  di_expectedMinor :: int
  di_confirmedMinor :: int
  di_differenceMinor :: int
  di_status :: string
  di_cause :: string

record earning_row =
  e_id :: string
  e_deliveryId :: string
  e_driverId :: string
  e_baseRemunerationMinor :: int
  e_bonusMinor :: int
  e_adjustmentMinor :: int
  e_netEarningMinor :: int
  e_status :: string
  e_validatedAt :: instant

record settlement_row =
  ms_id :: string
  ms_merchantId :: string
  ms_periodStart :: instant
  ms_periodEnd :: instant
  ms_grossSalesMinor :: int
  ms_commissionMinor :: int
  ms_refundAdjustmentsMinor :: int
  ms_manualAdjustmentsMinor :: int
  ms_netPayableMinor :: int
  ms_status :: settlement_status
  ms_paidAt :: "instant option"
  ms_createdAt :: instant

record shop =
  s_orders :: "order_row list"
  s_snapshots :: "snapshot_row list"
  s_payments :: "payment_row list"
  s_txs :: "payment_tx_row list"
  s_events :: "order_event list"
  s_cancellations :: "cancellation_row list"
  s_revisions :: "estimate_revision list"
  s_refunds :: "refund_row list"
  s_deliveries :: "delivery_row list"
  s_deliveryEvents :: "delivery_event list"
  s_assignments :: "assignment_row list"
  s_drivers :: "driver_row list"
  s_documents :: "driver_document list"
  s_vehicles :: "vehicle_row list"
  s_availability :: "availability_row list"
  s_collections :: "collection_row list"
  s_remittances :: "remittance_row list"
  s_allocations :: "allocation_row list"
  s_discrepancies :: "discrepancy_row list"
  s_earnings :: "earning_row list"
  s_items :: "item_row list"
  s_carts :: "cart_row list"
  s_addresses :: "address_row list"
  s_handoffs :: "handoff_row list"
  s_settlements :: "settlement_row list"
  s_settlementLines :: "settlement_line list"
  s_ledger :: "ledger_entry list"

datatype app_error =
    OrderE order_error
  | RefundE refund_error
  | LedgerE ledger_error
  | PaymentE payment_error
  | CodE cod_error
  | EarningE earning_error
  | DeliveryE delivery_error
  | DriverDeliveryE driver_delivery_error
  | HandoffE handoff_error
  | MatchingE matching_error
  | DriverE driver_error
  | SettlementE settlement_error
  | PromotionE promotion_error
  | CustomerProfileNotFoundE
  | MerchantAccessE
  | MerchantStatusRestrictedE
  | UniqueViolationE
  | InternalE

section \<open>Row operations\<close>

text \<open>\<open>T.where({ key: k }).first()\<close>, \<open>T.where(p).update(f)\<close> and \<open>T.where(p).all()\<close>.\<close>

definition t_find :: "('r \<Rightarrow> 'k) \<Rightarrow> 'k \<Rightarrow> 'r list \<Rightarrow> 'r option" where
  "t_find key k rows = find (\<lambda>r. key r = k) rows"

definition t_update :: "('r \<Rightarrow> bool) \<Rightarrow> ('r \<Rightarrow> 'r) \<Rightarrow> 'r list \<Rightarrow> 'r list" where
  "t_update p f rows = map (\<lambda>r. if p r then f r else r) rows"

lemma t_find_Some [table_simps]: "t_find key k rows = Some r \<Longrightarrow> r \<in> set rows \<and> key r = k"
  unfolding t_find_def by (metis (mono_tags, lifting) find_Some_iff nth_mem)

lemma t_find_None: "t_find key k rows = None \<longleftrightarrow> k \<notin> key ` set rows"
  by (auto simp: t_find_def find_None_iff)

lemma t_find_distinct:
  "distinct (map key rows) \<Longrightarrow> r \<in> set rows \<Longrightarrow> t_find key (key r) rows = Some r"
  by (cases "t_find key (key r) rows")
    (auto simp: t_find_None distinct_map inj_on_def dest!: t_find_Some)

lemma t_update_keys [simp]:
  "(\<And>r. key (f r) = key r) \<Longrightarrow> map key (t_update p f rows) = map key rows"
  by (simp add: t_update_def)

lemma t_update_key_set [simp]:
  "(\<And>r. key (f r) = key r) \<Longrightarrow> key ` set (t_update p f rows) = key ` set rows"
  using t_update_keys [of key f p rows] by (metis list.set_map)

lemma t_find_update:
  "(\<And>r. key (f r) = key r) \<Longrightarrow>
   t_find key k (t_update p f rows) =
   map_option (\<lambda>r. if p r then f r else r) (t_find key k rows)"
  by (induction rows) (simp_all add: t_find_def t_update_def)

lemma t_find_append_new:
  "k \<notin> key ` set rows \<Longrightarrow> t_find key k (rows @ [r]) = (if key r = k then Some r else None)"
  by (induction rows) (auto simp: t_find_def)

lemma t_find_append_other:
  "key r \<noteq> k \<Longrightarrow> t_find key k (rows @ [r]) = t_find key k rows"
  by (induction rows) (auto simp: t_find_def)

lemma t_update_in:
  "r \<in> set (t_update p f rows) \<longleftrightarrow> (\<exists>x \<in> set rows. r = (if p x then f x else x))"
  by (auto simp: t_update_def)

lemma t_update_append [simp]: "t_update p f (xs @ ys) = t_update p f xs @ t_update p f ys"
  by (simp add: t_update_def)

lemma t_update_id: "(\<And>r. r \<in> set rows \<Longrightarrow> p r \<Longrightarrow> f r = r) \<Longrightarrow> t_update p f rows = rows"
  by (simp add: t_update_def map_idI)

lemma t_find_split: "k \<notin> key ` set xs \<Longrightarrow> key r = k \<Longrightarrow> t_find key k (xs @ r # ys) = Some r"
  by (induction xs) (auto simp: t_find_def)

lemma t_update_split:
  assumes "\<forall>q \<in> set xs \<union> set ys. \<not> P q" "P r"
  shows "t_update P f (xs @ r # ys) = xs @ f r # ys"
proof -
  have "t_update P f xs = xs" "t_update P f ys = ys" using assms(1) by (auto intro: t_update_id)
  with assms(2) show ?thesis by (simp add: t_update_def)
qed

text \<open>How a repository reads a BIGINT column: \<open>parseMoneyMinorDecimalString\<close>, which throws on a negative amount.\<close>

definition readMinor :: "bool \<Rightarrow> int \<Rightarrow> app_error + int" where
  "readMinor allowNegative n = emap (\<lambda>_. InternalE) (parseMoneyMinorDecimalString allowNegative (MBig n))"

lemma readMinor_ok [guards]: "readMinor neg n = Inr m \<longleftrightarrow> m = n \<and> (neg \<or> 0 \<le> n)"
  by (auto simp: readMinor_def emap_Inr not_less)

text \<open>A ledger posting inside the transaction of another module.\<close>

definition in_ledger ::
  "(ledger_entry list \<Rightarrow> ledger_error + ledger_entry \<times> ledger_entry list) \<Rightarrow> shop \<Rightarrow> app_error + shop" where
  "in_ledger post s =
     ebind (emap LedgerE (post (s_ledger s))) (\<lambda>(e, entries). Inr (s\<lparr>s_ledger := entries\<rparr>))"

lemma in_ledger_ok [guards]:
  "in_ledger post s = Inr s' \<longleftrightarrow>
   (\<exists>e entries. post (s_ledger s) = Inr (e, entries) \<and> s' = s\<lparr>s_ledger := entries\<rparr>)"
  by (auto simp: in_ledger_def ebind_Inr emap_Inr)

text \<open>The order and payment locks: \<open>lockOrder\<close> and \<open>lockPayment\<close> touch \<open>updatedAt\<close> and re-read.\<close>

definition lockOrder :: "instant \<Rightarrow> string \<Rightarrow> shop \<Rightarrow> order_row option \<times> shop" where
  "lockOrder now orderId s =
     (let s' = s\<lparr>s_orders := t_update (\<lambda>o'. o_id o' = orderId) (\<lambda>o'. o'\<lparr>o_updatedAt := now\<rparr>) (s_orders s)\<rparr>
      in (t_find o_id orderId (s_orders s'), s'))"

definition lockPayment :: "instant \<Rightarrow> string \<Rightarrow> shop \<Rightarrow> payment_row option \<times> shop" where
  "lockPayment now paymentId s =
     (let s' = s\<lparr>s_payments := t_update (\<lambda>p. p_id p = paymentId) (\<lambda>p. p\<lparr>p_updatedAt := now\<rparr>) (s_payments s)\<rparr>
      in (t_find p_id paymentId (s_payments s'), s'))"

text \<open>\<open>findProfileByAccountId\<close> of the driver repository: the driver of an account.\<close>

definition driverOfAccount :: "string \<Rightarrow> shop \<Rightarrow> string option" where
  "driverOfAccount accountId s = map_option dr_id (t_find dr_accountId accountId (s_drivers s))"

text \<open>What the services read outside these tables: customer accounts, roles, merchants and their branches.\<close>

record directory =
  dir_customerOfAccount :: "string \<Rightarrow> string option"
  dir_merchantOfBranch :: "string \<Rightarrow> string option"
  dir_merchantApproved :: "string \<Rightarrow> bool"
  dir_canMutateOrders :: "string \<Rightarrow> string \<Rightarrow> bool"
  dir_isAdmin :: "string \<Rightarrow> bool"
  dir_canReadOrders :: "string \<Rightarrow> string \<Rightarrow> bool"
  dir_canReadSettlements :: "string \<Rightarrow> string \<Rightarrow> bool"
  dir_merchantExists :: "string \<Rightarrow> bool"
  dir_branchLocation :: "string \<Rightarrow> (jsnum \<times> jsnum) option"

end
