(* ===== verification/Refund.thy ===== *)
theory Refund
  imports Shop
begin

text \<open>
  Refunds: \<open>modules/refunds/application/refund.service.ts\<close> (the administrator's refunds and
  their status machine), \<open>paid-terminal-refund.service.ts\<close> (the automatic refund intent of a
  paid order that ends unfulfilled) and \<open>infrastructure/refund.repository.ts\<close>. Every operation
  locks the payment row first, so operations on one order run one after the other.
\<close>

section \<open>Repository\<close>

record refund_context =
  cx_orderId :: string
  cx_orderStatus :: order_status
  cx_customerId :: string
  cx_paymentId :: string
  cx_paymentMethod :: string
  cx_paymentStatus :: payment_status
  cx_paymentAmountMinor :: int
  cx_paymentCurrency :: string
  cx_snapshotPayableMinor :: int
  cx_snapshotCurrency :: string

definition findFinancialContextByOrderId ::
  "string \<Rightarrow> shop \<Rightarrow> refund_error + refund_context option" where
  "findFinancialContextByOrderId orderId s =
     (case t_find o_id orderId (s_orders s) of
        None \<Rightarrow> Inr None
      | Some order \<Rightarrow>
          (case (t_find p_orderId orderId (s_payments s), t_find sn_orderId orderId (s_snapshots s)) of
             (Some payment, Some snapshot) \<Rightarrow>
               ebind (parseRefundAmountMinor (MBig (p_amountMinor payment))) (\<lambda>amount.
               ebind (parseRefundAmountMinor (MBig (sn_customerPayableMinor snapshot))) (\<lambda>payable.
               Inr (Some \<lparr>cx_orderId = o_id order, cx_orderStatus = o_status order,
                 cx_customerId = o_customerId order, cx_paymentId = p_id payment,
                 cx_paymentMethod = p_method payment, cx_paymentStatus = p_status payment,
                 cx_paymentAmountMinor = amount, cx_paymentCurrency = p_currency payment,
                 cx_snapshotPayableMinor = payable, cx_snapshotCurrency = sn_currency snapshot\<rparr>)))
           | _ \<Rightarrow> Inr None))"

definition lockRefundPayment :: "instant \<Rightarrow> string \<Rightarrow> shop \<Rightarrow> refund_error + payment_row option \<times> shop" where
  "lockRefundPayment now paymentId s =
     (case lockPayment now paymentId s of
        (None, s') \<Rightarrow> Inr (None, s')
      | (Some p, s') \<Rightarrow> ebind (parseRefundAmountMinor (MBig (p_amountMinor p))) (\<lambda>_. Inr (Some p, s')))"

definition sumReservedAndSuccessful :: "string \<Rightarrow> shop \<Rightarrow> refund_error + int \<times> int" where
  "sumReservedAndSuccessful orderId s =
     efold (\<lambda>(reserved, successful) row.
         ebind (parseRefundAmountMinor (MBig (r_amountMinor row))) (\<lambda>amount.
           Inr (if isReservingRefundStatus (r_status row) then reserved + amount else reserved,
                if r_status row = REFUNDED then successful + amount else successful)))
       (0, 0) (filter (\<lambda>r. r_orderId r = orderId) (s_refunds s))"

text \<open>The insertion; \<open>paidTerminalIntentKey\<close> has a unique index.\<close>

definition insertRefund :: "refund_row \<Rightarrow> shop \<Rightarrow> app_error + refund_row \<times> shop" where
  "insertRefund row s =
     (if r_paidTerminalIntentKey row \<noteq> None
         \<and> r_paidTerminalIntentKey row \<in> r_paidTerminalIntentKey ` set (s_refunds s)
      then Inl UniqueViolationE
      else Inr (row, s\<lparr>s_refunds := s_refunds s @ [row]\<rparr>))"

definition findRefundById :: "string \<Rightarrow> shop \<Rightarrow> refund_row option" where
  "findRefundById refundId s = t_find r_id refundId (s_refunds s)"

definition findByPaidTerminalIntentKey :: "string \<Rightarrow> shop \<Rightarrow> refund_row option" where
  "findByPaidTerminalIntentKey k s = t_find r_paidTerminalIntentKey (Some k) (s_refunds s)"

definition listRefundsByOrderId :: "string \<Rightarrow> shop \<Rightarrow> refund_row list" where
  "listRefundsByOrderId orderId s =
     sort_key r_requestedAt (filter (\<lambda>r. r_orderId r = orderId) (s_refunds s))"

definition updateRefundStatus ::
  "string \<Rightarrow> refund_status \<Rightarrow> refund_status list \<Rightarrow> instant option \<Rightarrow> string option \<Rightarrow> shop \<Rightarrow>
   refund_row option \<times> shop" where
  "updateRefundStatus refundId status fromStatuses completedAt note s =
     (case findRefundById refundId s of
        None \<Rightarrow> (None, s)
      | Some current \<Rightarrow>
          if r_status current \<notin> set fromStatuses then (Some current, s)
          else let patch = (\<lambda>r. r\<lparr>r_status := status, r_internalNote := note,
                   r_completedAt := (case completedAt of None \<Rightarrow> r_completedAt r | Some t \<Rightarrow> Some t)\<rparr>);
                   s' = s\<lparr>s_refunds := t_update (\<lambda>r. r_id r = refundId \<and> r_status r = r_status current)
                            patch (s_refunds s)\<rparr>
               in (findRefundById refundId s', s'))"

section \<open>The administrator's operations\<close>

record create_refund_command =
  cmd_orderId :: string
  cmd_amountMinor :: jsnum
  cmd_reason :: string
  cmd_refundMethod :: refund_method
  cmd_requestedByAdminId :: string
  cmd_internalNote :: "string option"

definition requireTrustedAdmin :: "directory \<Rightarrow> string \<Rightarrow> app_error + unit" where
  "requireTrustedAdmin dir adminId =
     (if \<not> dir_isAdmin dir adminId then Inl (RefundE REFUND_ADMIN_REQUIRED) else Inr ())"

text \<open>
  What every operation does first: find the payment of the order, lock it and read the context
  again under the lock.
\<close>

definition lockedContext ::
  "instant \<Rightarrow> string \<Rightarrow> shop \<Rightarrow> app_error + payment_row \<times> refund_context \<times> shop" where
  "lockedContext now orderId s =
     ebind (emap RefundE (findFinancialContextByOrderId orderId s)) (\<lambda>context.
       case context of
         None \<Rightarrow> Inl (RefundE REFUND_FINANCIAL_STATE_INVALID)
       | Some c \<Rightarrow>
           ebind (emap RefundE (lockRefundPayment now (cx_paymentId c) s)) (\<lambda>(locked, s1).
             case locked of
               None \<Rightarrow> Inl (RefundE REFUND_FINANCIAL_STATE_INVALID)
             | Some p \<Rightarrow>
                 ebind (emap RefundE (findFinancialContextByOrderId orderId s1)) (\<lambda>fresh.
                   case fresh of
                     None \<Rightarrow> Inl (RefundE REFUND_FINANCIAL_STATE_INVALID)
                   | Some f \<Rightarrow> Inr (p, f, s1))))"

text \<open>The checks shared by the administrator's refund and the automatic intent.\<close>

definition requireRefundableState :: "payment_row \<Rightarrow> refund_context \<Rightarrow> app_error + unit" where
  "requireRefundableState p fresh =
     emap RefundE (
       ebind (requireSucceededPayment (p_status p)) (\<lambda>_.
       ebind (requireEligibleOrderStatus (cx_orderStatus fresh)) (\<lambda>_.
       requirePaymentSnapshotConsistency (p_amountMinor p) (cx_snapshotPayableMinor fresh)
         (p_currency p) (cx_snapshotCurrency fresh))))"

definition refundCapacity :: "string \<Rightarrow> payment_row \<Rightarrow> shop \<Rightarrow> app_error + refund_capacity" where
  "refundCapacity orderId p s =
     emap RefundE (ebind (sumReservedAndSuccessful orderId s) (\<lambda>(reserved, successful).
       calculateRefundCapacity (p_amountMinor p) reserved successful))"

definition createRefundInTx ::
  "directory \<Rightarrow> instant \<Rightarrow> string \<Rightarrow> create_refund_command \<Rightarrow> shop \<Rightarrow> app_error + refund_row \<times> shop" where
  "createRefundInTx dir now newId command s =
     ebind (emap RefundE (requirePositiveRefundAmount (cmd_amountMinor command))) (\<lambda>_.
     ebind (emap RefundE (requireRefundReason (cmd_reason command))) (\<lambda>reason.
     ebind (requireTrustedAdmin dir (cmd_requestedByAdminId command)) (\<lambda>_.
     if cmd_refundMethod command = ORIGINAL_PAYMENT then Inl (RefundE REFUND_PROVIDER_UNSUPPORTED)
     else ebind (lockedContext now (cmd_orderId command) s) (\<lambda>(p, fresh, s1).
     ebind (requireRefundableState p fresh) (\<lambda>_.
     ebind (refundCapacity (cmd_orderId command) p s1) (\<lambda>capacity.
     ebind (emap RefundE (requireRefundableAmount (cmd_amountMinor command)
              (rc_remainingRefundableMinor capacity))) (\<lambda>_.
     ebind (emap RefundE (resolveRefundMethodBinding (cmd_refundMethod command) (p_method p) None))
       (\<lambda>binding.
     insertRefund \<lparr>r_id = newId, r_orderId = cmd_orderId command, r_paymentTransactionId = None,
         r_refundMethod = binding, r_amountMinor = the_int (cmd_amountMinor command),
         r_status = REQUESTED, r_reason = reason, r_internalNote = cmd_internalNote command,
         r_requestOrigin = ADMIN, r_requestedByAdminId = Some (cmd_requestedByAdminId command),
         r_paidTerminalIntentKey = None, r_requestedAt = now, r_completedAt = None\<rparr> s1))))))))"

definition transitionRefundInTx ::
  "instant \<Rightarrow> string \<Rightarrow> (refund_status \<Rightarrow> bool) \<Rightarrow> refund_status \<Rightarrow> refund_status list \<Rightarrow>
   refund_status \<Rightarrow> string js_opt \<Rightarrow> shop \<Rightarrow> app_error + refund_row \<times> shop" where
  "transitionRefundInTx now refundId allowed toStatus fromStatuses idempotentStatus note s =
     (case findRefundById refundId s of
        None \<Rightarrow> Inl (RefundE REFUND_NOT_FOUND)
      | Some seed \<Rightarrow>
          ebind (emap RefundE (findFinancialContextByOrderId (r_orderId seed) s)) (\<lambda>context.
            case context of
              None \<Rightarrow> Inl (RefundE REFUND_FINANCIAL_STATE_INVALID)
            | Some c \<Rightarrow>
                ebind (emap RefundE (lockRefundPayment now (cx_paymentId c) s)) (\<lambda>(_, s1).
                  case findRefundById refundId s1 of
                    None \<Rightarrow> Inl (RefundE REFUND_NOT_FOUND)
                  | Some refund \<Rightarrow>
                      if r_status refund = idempotentStatus then Inr (refund, s1)
                      else if \<not> allowed (r_status refund) then Inl (RefundE REFUND_INVALID_STATE)
                      else let note' = (case note of Undef \<Rightarrow> r_internalNote refund
                                          | Null \<Rightarrow> None | Val n \<Rightarrow> Some n)
                           in case updateRefundStatus refundId toStatus fromStatuses None note' s1 of
                                (None, _) \<Rightarrow> Inl (RefundE REFUND_NOT_FOUND)
                              | (Some updated, s2) \<Rightarrow>
                                  if r_status updated \<noteq> toStatus then Inl (RefundE REFUND_INVALID_STATE)
                                  else Inr (updated, s2))))"

definition markUnderReview ::
  "directory \<Rightarrow> instant \<Rightarrow> string \<Rightarrow> string \<Rightarrow> string js_opt \<Rightarrow> shop \<Rightarrow> app_error + refund_row \<times> shop" where
  "markUnderReview dir now refundId adminId note s =
     ebind (requireTrustedAdmin dir adminId) (\<lambda>_.
       transitionRefundInTx now refundId canMarkUnderReview UNDER_REVIEW [REQUESTED] UNDER_REVIEW note s)"

definition authorizeRefundInTx ::
  "directory \<Rightarrow> instant \<Rightarrow> string \<Rightarrow> string \<Rightarrow> string js_opt \<Rightarrow> shop \<Rightarrow> app_error + refund_row \<times> shop" where
  "authorizeRefundInTx dir now refundId adminId note s =
     ebind (requireTrustedAdmin dir adminId) (\<lambda>_.
       transitionRefundInTx now refundId canAuthorizeRefund APPROVED [REQUESTED, UNDER_REVIEW]
         APPROVED note s)"

definition rejectRefundInTx ::
  "directory \<Rightarrow> instant \<Rightarrow> string \<Rightarrow> string \<Rightarrow> string js_opt \<Rightarrow> shop \<Rightarrow> app_error + refund_row \<times> shop" where
  "rejectRefundInTx dir now refundId adminId note s =
     ebind (requireTrustedAdmin dir adminId) (\<lambda>_.
       transitionRefundInTx now refundId canRejectRefund REJECTED [REQUESTED, UNDER_REVIEW]
         REJECTED note s)"

definition failRefund ::
  "directory \<Rightarrow> instant \<Rightarrow> string \<Rightarrow> string \<Rightarrow> string js_opt \<Rightarrow> shop \<Rightarrow> app_error + refund_row \<times> shop" where
  "failRefund dir now refundId adminId note s =
     ebind (requireTrustedAdmin dir adminId) (\<lambda>_.
       transitionRefundInTx now refundId canFailRefund R_FAILED [APPROVED, PROCESSING]
         R_FAILED note s)"

definition confirmManualRefundInTx ::
  "directory \<Rightarrow> instant \<Rightarrow> string \<Rightarrow> string \<Rightarrow> string \<Rightarrow> string js_opt \<Rightarrow> shop \<Rightarrow>
   app_error + refund_row \<times> shop" where
  "confirmManualRefundInTx dir now newId refundId adminId note s =
     ebind (requireTrustedAdmin dir adminId) (\<lambda>_.
       case findRefundById refundId s of
         None \<Rightarrow> Inl (RefundE REFUND_NOT_FOUND)
       | Some seed \<Rightarrow>
           ebind (emap RefundE (findFinancialContextByOrderId (r_orderId seed) s)) (\<lambda>context.
             case context of
               None \<Rightarrow> Inl (RefundE REFUND_FINANCIAL_STATE_INVALID)
             | Some c \<Rightarrow>
                 ebind (emap RefundE (lockRefundPayment now (cx_paymentId c) s)) (\<lambda>(locked, s1).
                   case locked of
                     None \<Rightarrow> Inl (RefundE REFUND_FINANCIAL_STATE_INVALID)
                   | Some p \<Rightarrow>
                       ebind (emap RefundE (requireSucceededPayment (p_status p))) (\<lambda>_.
                         case findRefundById refundId s1 of
                           None \<Rightarrow> Inl (RefundE REFUND_NOT_FOUND)
                         | Some current \<Rightarrow>
                             if r_status current = REFUNDED then
                               ebind (in_ledger (postRefundRefunded newId now (r_id current)
                                   (r_orderId current) (BigMinor (r_amountMinor current))) s1)
                                 (\<lambda>s2. Inr (current, s2))
                             else if \<not> canConfirmManualRefund (r_status current) (r_refundMethod current)
                               then Inl (RefundE REFUND_INVALID_STATE)
                             else let note' = (case note of Undef \<Rightarrow> r_internalNote current
                                                 | Null \<Rightarrow> None | Val n \<Rightarrow> Some n)
                               in case updateRefundStatus refundId REFUNDED [APPROVED] (Some now) note' s1 of
                                    (None, _) \<Rightarrow> Inl (RefundE REFUND_NOT_FOUND)
                                  | (Some updated, s2) \<Rightarrow>
                                      if r_status updated \<noteq> REFUNDED then Inl (RefundE REFUND_INVALID_STATE)
                                      else ebind (in_ledger (postRefundRefunded newId now (r_id updated)
                                             (r_orderId updated) (BigMinor (r_amountMinor updated))) s2)
                                           (\<lambda>s3. Inr (updated, s3))))))"

definition attemptProviderRefund :: "app_error + refund_row" where
  "attemptProviderRefund = Inl (RefundE REFUND_PROVIDER_UNSUPPORTED)"

definition getCapacity :: "string \<Rightarrow> shop \<Rightarrow> refund_error + refund_capacity" where
  "getCapacity orderId s =
     ebind (findFinancialContextByOrderId orderId s) (\<lambda>context.
       case context of
         None \<Rightarrow> Inl REFUND_FINANCIAL_STATE_INVALID
       | Some c \<Rightarrow>
           ebind (requireSucceededPayment (cx_paymentStatus c)) (\<lambda>_.
           ebind (requirePaymentSnapshotConsistency (cx_paymentAmountMinor c)
                    (cx_snapshotPayableMinor c) (cx_paymentCurrency c) (cx_snapshotCurrency c)) (\<lambda>_.
           ebind (sumReservedAndSuccessful orderId s) (\<lambda>(reserved, successful).
             calculateRefundCapacity (cx_paymentAmountMinor c) reserved successful))))"

section \<open>The automatic refund intent\<close>

record refund_intent =
  in_refundId :: string
  in_refundStatus :: refund_status
  in_refundAmountMinor :: string
  in_created :: bool
  in_requestOrigin :: refund_origin

definition toIntentView :: "refund_row \<Rightarrow> bool \<Rightarrow> refund_intent" where
  "toIntentView row created =
     \<lparr>in_refundId = r_id row, in_refundStatus = r_status row,
      in_refundAmountMinor = show_int (r_amountMinor row), in_created = created,
      in_requestOrigin = r_requestOrigin row\<rparr>"

definition is_hex :: "char \<Rightarrow> bool" where
  "is_hex c \<longleftrightarrow>
     (let n = of_char c :: nat
      in (48 \<le> n \<and> n \<le> 57) \<or> (97 \<le> n \<and> n \<le> 102) \<or> (65 \<le> n \<and> n \<le> 70))"

definition is_uuid :: "string \<Rightarrow> bool" where
  "is_uuid s \<longleftrightarrow> length s = 36 \<and>
     list_all (\<lambda>(i, c). if i \<in> {8, 13, 18, 23} then c = CHR ''-'' else is_hex c) (enumerate 0 s)"

definition paidTerminalIntentKeyForPayment :: "string \<Rightarrow> app_error + string" where
  "paidTerminalIntentKeyForPayment paymentId =
     (if \<not> is_uuid (js_trim paymentId) then Inl (OrderE ORDER_CANCELLATION_REFUND_REQUIRED)
      else Inr (''paid-terminal:v1:'' @ js_trim paymentId))"

definition isPaidTerminalRefundOrigin :: "refund_origin \<Rightarrow> bool" where
  "isPaidTerminalRefundOrigin origin \<longleftrightarrow>
     origin \<in> {CUSTOMER_CANCELLATION, MERCHANT_REJECTION, LATE_PAYMENT_SUCCESS}"

definition requireCompatibleExistingIntent :: "refund_row \<Rightarrow> int \<Rightarrow> app_error + unit" where
  "requireCompatibleExistingIntent existing paymentAmountMinor =
     (if \<not> isPaidTerminalRefundOrigin (r_requestOrigin existing)
      then Inl (OrderE ORDER_CANCELLATION_REFUND_REQUIRED)
      else if r_requestedByAdminId existing \<noteq> None
      then Inl (OrderE ORDER_CANCELLATION_REFUND_REQUIRED)
      else if paymentAmountMinor < r_amountMinor existing
      then Inl (OrderE ORDER_CANCELLATION_REFUND_REQUIRED) else Inr ())"

text \<open>The part of the automatic intent that runs when no refund has its key yet.\<close>

definition new_intent ::
  "instant \<Rightarrow> string \<Rightarrow> string \<Rightarrow> refund_origin \<Rightarrow> string \<Rightarrow> string option \<Rightarrow> payment_row \<Rightarrow>
   string \<Rightarrow> shop \<Rightarrow> app_error + refund_intent \<times> shop" where
  "new_intent now newId orderId origin reason note p intentKey s1 =
     ebind (refundCapacity orderId p s1) (\<lambda>capacity.
          if rc_remainingRefundableMinor capacity \<le> 0 then
            (case find (\<lambda>r. isReservingRefundStatus (r_status r)) (rev (listRefundsByOrderId orderId s1)) of
               None \<Rightarrow> Inl (OrderE ORDER_CANCELLATION_REFUND_REQUIRED)
             | Some reuse \<Rightarrow>
                 if p_amountMinor p < r_amountMinor reuse
                 then Inl (OrderE ORDER_CANCELLATION_REFUND_REQUIRED)
                 else Inr (toIntentView reuse False, s1))
          else
            (case insertRefund \<lparr>r_id = newId, r_orderId = orderId, r_paymentTransactionId = None,
                r_refundMethod = MANUAL_OTHER, r_amountMinor = rc_remainingRefundableMinor capacity,
                r_status = REQUESTED, r_reason = take 255 reason, r_internalNote = note,
                r_requestOrigin = origin, r_requestedByAdminId = None,
                r_paidTerminalIntentKey = Some intentKey, r_requestedAt = now, r_completedAt = None\<rparr> s1 of
               Inr (created, s2) \<Rightarrow> Inr (toIntentView created True, s2)
             | Inl e \<Rightarrow>
                 if e \<noteq> UniqueViolationE then Inl e
                 else (case findByPaidTerminalIntentKey intentKey s1 of
                         None \<Rightarrow> Inl (OrderE ORDER_CANCELLATION_REFUND_REQUIRED)
                       | Some raced \<Rightarrow>
                           ebind (requireCompatibleExistingIntent raced (p_amountMinor p)) (\<lambda>_.
                             Inr (toIntentView raced False, s1)))))"

definition ensureRefundIntentInTx ::
  "instant \<Rightarrow> string \<Rightarrow> string \<Rightarrow> refund_origin \<Rightarrow> string \<Rightarrow> string option \<Rightarrow> shop \<Rightarrow>
   app_error + refund_intent \<times> shop" where
  "ensureRefundIntentInTx now newId orderId origin reason note s =
     (if \<not> isPaidTerminalRefundOrigin origin then Inl (OrderE ORDER_CANCELLATION_REFUND_REQUIRED)
      else ebind (lockedContext now orderId s) (\<lambda>(p, fresh, s1).
      ebind (requireRefundableState p fresh) (\<lambda>_.
      if p_method p \<noteq> PAYMENT_METHOD_ELECTRONIC then Inl (OrderE ORDER_CANCELLATION_REFUND_REQUIRED)
      else ebind (paidTerminalIntentKeyForPayment (p_id p)) (\<lambda>intentKey.
      case findByPaidTerminalIntentKey intentKey s1 of
        Some existing \<Rightarrow> Inr (toIntentView existing False, s1)
      | None \<Rightarrow> new_intent now newId orderId origin reason note p intentKey s1))))"

end
