(* ===== verification/Refund_Books.thy ===== *)
theory Refund_Books
  imports Refund
begin

text \<open>
  Correctness of the refund operations. \<open>refund_spec\<close> is an abstract machine over the refunds and
  their ledger entries that every operation implements (\<open>run_refund_spec\<close>); \<open>refund_books\<close> is its
  invariant: refunds stay within a succeeded payment, automatic intents are unique per payment,
  and a refund is in the ledger exactly when the money went back. \<open>refund_history\<close> interleaves the
  operations with steps of other modules that respect the refunds.
\<close>

section \<open>What a lock leaves alone\<close>

text \<open>A payment lock moves \<open>updatedAt\<close> only; \<open>same_money s s'\<close> says the rest is untouched.\<close>

definition pay_view :: "payment_row \<Rightarrow> payment_row" where
  "pay_view p = p\<lparr>p_updatedAt := 0\<rparr>"

lemma pay_view_simps [simp]:
  "p_id (pay_view p) = p_id p" "p_orderId (pay_view p) = p_orderId p"
  "p_method (pay_view p) = p_method p" "p_status (pay_view p) = p_status p"
  "p_amountMinor (pay_view p) = p_amountMinor p" "p_currency (pay_view p) = p_currency p"
  by (simp_all add: pay_view_def)

definition same_money :: "shop \<Rightarrow> shop \<Rightarrow> bool" where
  "same_money s s' \<longleftrightarrow> s' = s\<lparr>s_payments := s_payments s'\<rparr> \<and>
     map pay_view (s_payments s') = map pay_view (s_payments s)"

lemma same_money_simps:
  assumes "same_money s s'"
  shows "s_refunds s' = s_refunds s" "s_ledger s' = s_ledger s" "s_orders s' = s_orders s"
    "s_snapshots s' = s_snapshots s"
  using assms by (auto simp: same_money_def) (metis shop.select_convs shop.update_convs shop.surjective)+

lemma lockPayment_same: "lockPayment now i s = (p, s') \<Longrightarrow> same_money s s'"
  by (auto simp: lockPayment_def Let_def same_money_def t_update_def pay_view_def)

lemma lockPayment_found: "lockPayment now i s = (Some p, s') \<Longrightarrow> p \<in> set (s_payments s') \<and> p_id p = i"
  by (auto simp: lockPayment_def Let_def dest!: t_find_Some)

lemma lockRefundPayment_ok [guards]:
  "lockRefundPayment now i s = Inr (l, s') \<longleftrightarrow>
   lockPayment now i s = (l, s') \<and> (\<forall>p. l = Some p \<longrightarrow> 0 \<le> p_amountMinor p)"
  by (auto simp: lockRefundPayment_def ebind_Inr split: prod.splits option.splits if_splits)

lemma findFinancialContext_ok:
  "findFinancialContextByOrderId orderId s = Inr (Some c) \<Longrightarrow>
   \<exists>ord p sn. t_find o_id orderId (s_orders s) = Some ord \<and>
     t_find p_orderId orderId (s_payments s) = Some p \<and>
     t_find sn_orderId orderId (s_snapshots s) = Some sn \<and>
     cx_paymentId c = p_id p \<and> cx_orderStatus c = o_status ord \<and>
     cx_snapshotPayableMinor c = sn_customerPayableMinor sn \<and>
     cx_snapshotCurrency c = sn_currency sn"
  by (auto simp: findFinancialContextByOrderId_def ebind_Inr split: option.splits if_splits)

lemma lockedContext_ok:
  assumes "lockedContext now orderId s = Inr (p, f, s')"
    and "distinct (map p_id (s_payments s))"
  shows "same_money s s' \<and> p \<in> set (s_payments s') \<and> p_orderId p = orderId \<and>
    0 \<le> p_amountMinor p \<and> findFinancialContextByOrderId orderId s' = Inr (Some f)"
proof -
  obtain c where c: "findFinancialContextByOrderId orderId s = Inr (Some c)"
    and l: "lockPayment now (cx_paymentId c) s = (Some p, s')" and "0 \<le> p_amountMinor p"
    and f: "findFinancialContextByOrderId orderId s' = Inr (Some f)"
    using assms(1) by (auto simp: lockedContext_def ebind_Inr emap_Inr lockRefundPayment_ok
        split: option.splits)
  from findFinancialContext_ok [OF c] obtain q where
    "t_find p_orderId orderId (s_payments s) = Some q" and i: "cx_paymentId c = p_id q" by blast
  then have q: "q \<in> set (s_payments s)" "p_orderId q = orderId" by (auto dest!: t_find_Some)
  have "t_find p_id (p_id q) (s_payments s) = Some q" by (rule t_find_distinct [OF assms(2) q(1)])
  with l i have "p_orderId p = p_orderId q"
    by (auto simp: lockPayment_def Let_def t_find_update)
  with q lockPayment_same [OF l] lockPayment_found [OF l] f \<open>0 \<le> p_amountMinor p\<close> show ?thesis
    by auto
qed

section \<open>Reserved amounts\<close>

definition reserved :: "shop \<Rightarrow> string \<Rightarrow> int" where
  "reserved s orderId = sum_list (map r_amountMinor
     (filter (\<lambda>r. r_orderId r = orderId \<and> isReservingRefundStatus (r_status r)) (s_refunds s)))"

definition refunded :: "shop \<Rightarrow> string \<Rightarrow> int" where
  "refunded s orderId = sum_list (map r_amountMinor
     (filter (\<lambda>r. r_orderId r = orderId \<and> r_status r = REFUNDED) (s_refunds s)))"

lemma sums_fold:
  assumes "\<forall>r \<in> set rows. 0 \<le> r_amountMinor r"
  shows "efold (\<lambda>(reserved, successful) row.
         ebind (parseRefundAmountMinor (MBig (r_amountMinor row))) (\<lambda>amount.
           Inr (if isReservingRefundStatus (r_status row) then reserved + amount else reserved,
                if r_status row = REFUNDED then successful + amount else successful))) (a, b) rows
     = Inr (a + sum_list (map r_amountMinor (filter (\<lambda>r. isReservingRefundStatus (r_status r)) rows)),
            b + sum_list (map r_amountMinor (filter (\<lambda>r. r_status r = REFUNDED) rows)))"
  using assms by (induction rows arbitrary: a b) simp_all

lemma sumReservedAndSuccessful_exact:
  assumes "\<forall>r \<in> set (s_refunds s). 0 \<le> r_amountMinor r"
  shows "sumReservedAndSuccessful orderId s = Inr (reserved s orderId, refunded s orderId)"
  using sums_fold [of "filter (\<lambda>r. r_orderId r = orderId) (s_refunds s)" 0 0] assms
  by (simp add: sumReservedAndSuccessful_def reserved_def refunded_def conj_commute)

lemma refundCapacity_exact:
  assumes "\<forall>r \<in> set (s_refunds s). 0 \<le> r_amountMinor r"
    and "refundCapacity orderId p s = Inr c"
  shows "rc_remainingRefundableMinor c = max 0 (p_amountMinor p - reserved s orderId)"
  using assms by (auto simp: refundCapacity_def sumReservedAndSuccessful_exact emap_Inr
      calculateRefundCapacity_ok)

lemma reserved_append:
  "reserved (s\<lparr>s_refunds := s_refunds s @ [r]\<rparr>) orderId = reserved s orderId +
     (if r_orderId r = orderId \<and> isReservingRefundStatus (r_status r) then r_amountMinor r else 0)"
  by (simp add: reserved_def)

section \<open>Abstract refunds\<close>

text \<open>
  What the operations may do to the refunds of a shop: request one within what is left of a
  succeeded payment, move one along \<open>refund_edge\<close>, or confirm an approved one and book it.
\<close>

inductive refund_edge :: "refund_status \<Rightarrow> refund_status \<Rightarrow> bool" where
  "refund_edge REQUESTED UNDER_REVIEW"
| "refund_edge REQUESTED APPROVED"
| "refund_edge UNDER_REVIEW APPROVED"
| "refund_edge REQUESTED REJECTED"
| "refund_edge UNDER_REVIEW REJECTED"
| "refund_edge APPROVED R_FAILED"
| "refund_edge PROCESSING R_FAILED"

inductive_simps refund_edge_simps [simp]: "refund_edge a b"

definition book_refund ::
  "string \<Rightarrow> instant \<Rightarrow> refund_row \<Rightarrow> ledger_entry list \<Rightarrow> ledger_error + ledger_entry \<times> ledger_entry list" where
  "book_refund newId now r es =
     post_ledger_event newId now (EvRefund (r_id r) (r_orderId r) (r_amountMinor r)) es"

inductive refund_spec :: "shop \<Rightarrow> shop \<Rightarrow> bool" where
  stay: "same_money s s' \<Longrightarrow> refund_spec s s'"
| request: "same_money s s1 \<Longrightarrow> p \<in> set (s_payments s1) \<Longrightarrow> p_orderId p = r_orderId r \<Longrightarrow>
    p_status p = PAY_SUCCEEDED \<Longrightarrow> r_status r = REQUESTED \<Longrightarrow> r_completedAt r = None \<Longrightarrow>
    0 < r_amountMinor r \<Longrightarrow> reserved s (r_orderId r) + r_amountMinor r \<le> p_amountMinor p \<Longrightarrow>
    r_id r \<notin> r_id ` set (s_refunds s) \<Longrightarrow>
    r_paidTerminalIntentKey r = None \<or>
      r_paidTerminalIntentKey r \<notin> r_paidTerminalIntentKey ` set (s_refunds s) \<Longrightarrow>
    refund_spec s (s1\<lparr>s_refunds := s_refunds s @ [r]\<rparr>)"
| move: "same_money s s1 \<Longrightarrow> s_refunds s = xs @ r # ys \<Longrightarrow> refund_edge (r_status r) st \<Longrightarrow>
    refund_spec s (s1\<lparr>s_refunds := xs @ r\<lparr>r_status := st, r_internalNote := note\<rparr> # ys\<rparr>)"
| confirm: "same_money s s1 \<Longrightarrow> s_refunds s = xs @ r # ys \<Longrightarrow> r_status r = APPROVED \<Longrightarrow>
    r_refundMethod r \<noteq> ORIGINAL_PAYMENT \<Longrightarrow> book_refund newId now r (s_ledger s) = Inr (e, es) \<Longrightarrow>
    refund_spec s (s1\<lparr>s_refunds := xs @ r\<lparr>r_status := REFUNDED, r_internalNote := note,
      r_completedAt := Some now\<rparr> # ys, s_ledger := es\<rparr>)"
| again: "same_money s s1 \<Longrightarrow> r \<in> set (s_refunds s) \<Longrightarrow> r_status r = REFUNDED \<Longrightarrow>
    book_refund newId now r (s_ledger s) = Inr (e, es) \<Longrightarrow> refund_spec s (s1\<lparr>s_ledger := es\<rparr>)"

datatype refund_call =
    CreateRefund string create_refund_command
  | MarkUnderReview string string "string js_opt"
  | AuthorizeRefund string string "string js_opt"
  | RejectRefund string string "string js_opt"
  | FailRefund string string "string js_opt"
  | ConfirmManualRefund string string string "string js_opt"
  | EnsureRefundIntent string string refund_origin string "string option"

fun run_refund :: "directory \<Rightarrow> instant \<Rightarrow> refund_call \<Rightarrow> shop \<Rightarrow> app_error + shop" where
  "run_refund dir now (CreateRefund newId c) s =
     ebind (createRefundInTx dir now newId c s) (\<lambda>(_, s'). Inr s')"
| "run_refund dir now (MarkUnderReview i a n) s =
     ebind (markUnderReview dir now i a n s) (\<lambda>(_, s'). Inr s')"
| "run_refund dir now (AuthorizeRefund i a n) s =
     ebind (authorizeRefundInTx dir now i a n s) (\<lambda>(_, s'). Inr s')"
| "run_refund dir now (RejectRefund i a n) s =
     ebind (rejectRefundInTx dir now i a n s) (\<lambda>(_, s'). Inr s')"
| "run_refund dir now (FailRefund i a n) s =
     ebind (failRefund dir now i a n s) (\<lambda>(_, s'). Inr s')"
| "run_refund dir now (ConfirmManualRefund newId i a n) s =
     ebind (confirmManualRefundInTx dir now newId i a n s) (\<lambda>(_, s'). Inr s')"
| "run_refund dir now (EnsureRefundIntent newId ord org reason n) s =
     ebind (ensureRefundIntentInTx now newId ord org reason n s) (\<lambda>(_, s'). Inr s')"

fun fresh_for :: "refund_call \<Rightarrow> shop \<Rightarrow> bool" where
  "fresh_for (CreateRefund newId _) s \<longleftrightarrow> newId \<notin> r_id ` set (s_refunds s)"
| "fresh_for (EnsureRefundIntent newId _ _ _ _) s \<longleftrightarrow> newId \<notin> r_id ` set (s_refunds s)"
| "fresh_for _ s \<longleftrightarrow> True"

section \<open>Refinement\<close>

lemma findRefundById_split:
  assumes "findRefundById i s = Some r"
  shows "\<exists>xs ys. s_refunds s = xs @ r # ys \<and> r_id r = i \<and> i \<notin> r_id ` set xs"
proof -
  have "find (\<lambda>x. r_id x = i) rs = Some r \<Longrightarrow> \<exists>xs ys. rs = xs @ r # ys \<and> r_id r = i \<and> i \<notin> r_id ` set xs" for rs
  proof (induction rs)
    case (Cons x rs)
    show ?case
    proof (cases "r_id x = i")
      case True
      with Cons.prems have "x # rs = [] @ r # rs \<and> r_id r = i \<and> i \<notin> r_id ` set []" by simp
      then show ?thesis by blast
    next
      case False
      with Cons obtain xs ys where "rs = xs @ r # ys" "r_id r = i" "i \<notin> r_id ` set xs" by auto
      with False have "x # rs = (x # xs) @ r # ys \<and> r_id r = i \<and> i \<notin> r_id ` set (x # xs)" by simp
      then show ?thesis by blast
    qed
  qed simp
  with assms show ?thesis by (simp add: findRefundById_def t_find_def)
qed

lemma updateRefundStatus_split:
  assumes d: "distinct (map r_id (s_refunds s))"
    and u: "updateRefundStatus i st from ca note s = (Some r', s')" and st: "r_status r' = st"
    and f: "findRefundById i s = Some r" and no: "r_status r \<noteq> st"
  shows "\<exists>xs ys. s_refunds s = xs @ r # ys \<and> r_status r \<in> set from \<and>
    r' = r\<lparr>r_status := st, r_internalNote := note,
      r_completedAt := (case ca of None \<Rightarrow> r_completedAt r | Some t \<Rightarrow> Some t)\<rparr> \<and>
    s' = s\<lparr>s_refunds := xs @ r' # ys\<rparr>"
proof -
  obtain xs ys where x: "s_refunds s = xs @ r # ys" "r_id r = i" "i \<notin> r_id ` set xs"
    using findRefundById_split [OF f] by blast
  then have y: "i \<notin> r_id ` set ys" using d by auto
  let ?u = "r\<lparr>r_status := st, r_internalNote := note,
      r_completedAt := (case ca of None \<Rightarrow> r_completedAt r | Some t \<Rightarrow> Some t)\<rparr>"
  have from': "r_status r \<in> set from"
    using u f st no by (auto simp: updateRefundStatus_def split: if_splits)
  have "t_update (\<lambda>q. r_id q = i \<and> r_status q = r_status r)
      (\<lambda>r. r\<lparr>r_status := st, r_internalNote := note,
        r_completedAt := (case ca of None \<Rightarrow> r_completedAt r | Some t \<Rightarrow> Some t)\<rparr>) (xs @ r # ys)
      = xs @ ?u # ys"
    by (rule t_update_split) (use x y in \<open>auto simp: image_iff\<close>)
  with u f from' x have "s' = s\<lparr>s_refunds := xs @ ?u # ys\<rparr>"
    "Some r' = t_find r_id i (xs @ ?u # ys)"
    by (auto simp: updateRefundStatus_def Let_def findRefundById_def)
  moreover have "t_find r_id i (xs @ ?u # ys) = Some ?u"
    by (rule t_find_split) (use x in auto)
  ultimately show ?thesis using x(1) from' by (intro exI [of _ xs] exI [of _ ys]) simp
qed

lemma transitionRefund_spec:
  assumes t: "transitionRefundInTx now i allowed st from st note s = Inr (r', s')"
    and d: "distinct (map r_id (s_refunds s))"
    and e: "\<And>a. a \<in> set from \<Longrightarrow> refund_edge a st"
  shows "refund_spec s s'"
proof -
  obtain cx l s1 r where l: "lockPayment now cx s = (l, s1)"
    and f: "findRefundById i s1 = Some r"
    and body: "(if r_status r = st then Inr (r, s1)
      else if \<not> allowed (r_status r) then Inl (RefundE REFUND_INVALID_STATE)
      else let note' = (case note of Undef \<Rightarrow> r_internalNote r | Null \<Rightarrow> None | Val n \<Rightarrow> Some n)
           in case updateRefundStatus i st from None note' s1 of
                (None, _) \<Rightarrow> Inl (RefundE REFUND_NOT_FOUND)
              | (Some updated, s2) \<Rightarrow>
                  if r_status updated \<noteq> st then Inl (RefundE REFUND_INVALID_STATE)
                  else Inr (updated, s2)) = Inr (r', s')"
    using t by (auto simp: transitionRefundInTx_def ebind_Inr emap_Inr lockRefundPayment_ok
        option_Inr [where f = "\<lambda>c. ebind (q c) (h c)" for q h] option_Inr [where x = "findRefundById j t" for j t] prod_Inr [where x = "lp :: payment_row option \<times> shop" for lp])
  then have rest: "r_status r = st \<and> s' = s1 \<or> r_status r \<noteq> st \<and>
      (\<exists>n. updateRefundStatus i st from None n s1 = (Some r', s') \<and> r_status r' = st)"
    by (auto simp: Let_def option_Inr prod_Inr split: if_splits)
  have m: "same_money s s1" using l by (rule lockPayment_same)
  from rest show ?thesis
  proof
    assume "r_status r = st \<and> s' = s1"
    with m show ?thesis by (simp add: refund_spec.stay)
  next
    assume "r_status r \<noteq> st \<and>
      (\<exists>n. updateRefundStatus i st from None n s1 = (Some r', s') \<and> r_status r' = st)"
    then obtain n where no: "r_status r \<noteq> st" and u: "updateRefundStatus i st from None n s1 = (Some r', s')" "r_status r' = st"
      by blast
    have d1: "distinct (map r_id (s_refunds s1))" using d m by (simp add: same_money_simps)
    from updateRefundStatus_split [OF d1 u f no] obtain xs ys where
      "s_refunds s1 = xs @ r # ys" "r_status r \<in> set from"
      "s' = s1\<lparr>s_refunds := xs @ r\<lparr>r_status := st, r_internalNote := n\<rparr> # ys\<rparr>"
      by auto
    with refund_spec.move [OF m _ e, of xs r ys n] m show ?thesis
      by (simp add: same_money_simps)
  qed
qed

lemma insertRefund_ok [guards]:
  "insertRefund r s = Inr (r', s') \<longleftrightarrow> r' = r \<and> s' = s\<lparr>s_refunds := s_refunds s @ [r]\<rparr> \<and>
   (r_paidTerminalIntentKey r = None \<or>
    r_paidTerminalIntentKey r \<notin> r_paidTerminalIntentKey ` set (s_refunds s))"
  by (auto simp: insertRefund_def)

lemma reserved_same: "same_money s s' \<Longrightarrow> reserved s' = reserved s"
  by (intro ext) (simp add: reserved_def same_money_simps)

lemma requireRefundableState_ok [guards]:
  "requireRefundableState p f = Inr u \<longleftrightarrow> p_status p = PAY_SUCCEEDED \<and>
   isRefundEligibleOrderStatus (cx_orderStatus f) \<and> p_currency p = ''DZD'' \<and>
   cx_snapshotCurrency f = ''DZD'' \<and> 0 \<le> p_amountMinor p \<and> cx_snapshotPayableMinor f = p_amountMinor p"
  by (auto simp: requireRefundableState_def ebind_Inr emap_Inr requireSucceededPayment_def
      requireEligibleOrderStatus_def requirePaymentSnapshotConsistency_ok)

definition refund_keys :: "shop \<Rightarrow> bool" where
  "refund_keys s \<longleftrightarrow> distinct (map p_id (s_payments s)) \<and> distinct (map p_orderId (s_payments s)) \<and>
     distinct (map r_id (s_refunds s)) \<and> (\<forall>r \<in> set (s_refunds s). 0 < r_amountMinor r)"

lemma createRefund_spec:
  assumes k: "refund_keys s" and c: "createRefundInTx dir now newId cmd s = Inr (r, s')"
    and fresh: "newId \<notin> r_id ` set (s_refunds s)"
  shows "refund_spec s s'"
proof -
  obtain p f s1 cap where lc: "lockedContext now (cmd_orderId cmd) s = Inr (p, f, s1)"
    and cap: "refundCapacity (cmd_orderId cmd) p s1 = Inr cap"
    and st: "p_status p = PAY_SUCCEEDED"
    and amt: "\<exists>n. cmd_amountMinor cmd = JInt n \<and> 0 < n \<and> n \<le> rc_remainingRefundableMinor cap"
    and r: "r_id r = newId" "r_orderId r = cmd_orderId cmd" "r_amountMinor r = the_int (cmd_amountMinor cmd)"
      "r_status r = REQUESTED" "r_completedAt r = None" "r_paidTerminalIntentKey r = None"
      "s' = s1\<lparr>s_refunds := s_refunds s1 @ [r]\<rparr>"
    using c by (auto simp: createRefundInTx_def ebind_Inr emap_Inr requireRefundableState_ok
        requireRefundableAmount_ok insertRefund_ok split: if_splits)
  from k have d: "distinct (map p_id (s_payments s))" by (simp add: refund_keys_def)
  note lk = lockedContext_ok [OF lc d]
  then have m: "same_money s s1" by blast
  have "\<forall>r \<in> set (s_refunds s1). 0 \<le> r_amountMinor r"
    using k m by (auto simp: refund_keys_def same_money_simps)
  from refundCapacity_exact [OF this cap] amt r(3)
  have "0 < r_amountMinor r" "reserved s (r_orderId r) + r_amountMinor r \<le> p_amountMinor p"
    by (auto simp: r(2) reserved_same [OF m])
  with refund_spec.request [OF m, of p r] lk st r fresh m show ?thesis
    by (simp add: same_money_simps)
qed

lemma new_intent_ok:
  assumes "new_intent now newId ord org reason n p key s1 = Inr (v, s')"
    and none: "findByPaidTerminalIntentKey key s1 = None"
  shows "(s' = s1 \<and> in_created v = False) \<or> (\<exists>cap r. refundCapacity ord p s1 = Inr cap \<and>
      0 < rc_remainingRefundableMinor cap \<and> r_id r = newId \<and> r_orderId r = ord \<and>
      r_amountMinor r = rc_remainingRefundableMinor cap \<and> r_status r = REQUESTED \<and>
      r_completedAt r = None \<and> r_paidTerminalIntentKey r = Some key \<and> r_requestOrigin r = org \<and>
      v = toIntentView r True \<and> insertRefund r s1 = Inr (r, s'))"
proof -
  obtain cap where cap: "refundCapacity ord p s1 = Inr cap"
    using assms(1) by (auto simp: new_intent_def ebind_Inr)
  let ?r = "\<lparr>r_id = newId, r_orderId = ord, r_paymentTransactionId = None,
                r_refundMethod = MANUAL_OTHER, r_amountMinor = rc_remainingRefundableMinor cap,
                r_status = REQUESTED, r_reason = take 255 reason, r_internalNote = n,
                r_requestOrigin = org, r_requestedByAdminId = None,
                r_paidTerminalIntentKey = Some key, r_requestedAt = now, r_completedAt = None\<rparr>"
  show ?thesis
  proof (cases "rc_remainingRefundableMinor cap \<le> 0")
    case True
    with assms cap have "s' = s1 \<and> in_created v = False"
      by (auto simp: new_intent_def option_Inr toIntentView_def split: if_splits)
    then show ?thesis by blast
  next
    case False
    with assms cap have "insertRefund ?r s1 = Inr (?r, s') \<and> v = toIntentView ?r True"
      by (auto simp: new_intent_def insertRefund_def split: if_splits)
    with cap False show ?thesis by (intro disjI2 exI [of _ cap] exI [of _ ?r]) simp
  qed
qed

lemma ensureRefundIntent_spec:
  assumes k: "refund_keys s" and c: "ensureRefundIntentInTx now newId ord org reason n s = Inr (v, s')"
    and fresh: "newId \<notin> r_id ` set (s_refunds s)"
  shows "refund_spec s s'"
proof -
  obtain p f s1 key where lc: "lockedContext now ord s = Inr (p, f, s1)"
    and st: "p_status p = PAY_SUCCEEDED"
    and body: "(case findByPaidTerminalIntentKey key s1 of
        Some existing \<Rightarrow> Inr (toIntentView existing False, s1)
      | None \<Rightarrow> new_intent now newId ord org reason n p key s1) = Inr (v, s')"
    using c unfolding ensureRefundIntentInTx_def
    by (auto simp: ebind_Inr requireRefundableState_ok split: if_splits)
  have rest: "s' = s1 \<or> (\<exists>cap r. refundCapacity ord p s1 = Inr cap \<and>
      0 < rc_remainingRefundableMinor cap \<and> r_id r = newId \<and> r_orderId r = ord \<and>
      r_amountMinor r = rc_remainingRefundableMinor cap \<and> r_status r = REQUESTED \<and>
      r_completedAt r = None \<and> insertRefund r s1 = Inr (r, s'))"
  proof (cases "findByPaidTerminalIntentKey key s1")
    case (Some e)
    with body show ?thesis by simp
  next
    case None
    with body have "new_intent now newId ord org reason n p key s1 = Inr (v, s')" by simp
    from new_intent_ok [OF this None] show ?thesis by blast
  qed
  from k have d: "distinct (map p_id (s_payments s))" by (simp add: refund_keys_def)
  note lk = lockedContext_ok [OF lc d]
  then have m: "same_money s s1" by blast
  from rest show ?thesis
  proof
    assume "s' = s1"
    with m show ?thesis by (simp add: refund_spec.stay)
  next
    assume "\<exists>cap r. refundCapacity ord p s1 = Inr cap \<and>
      0 < rc_remainingRefundableMinor cap \<and> r_id r = newId \<and> r_orderId r = ord \<and>
      r_amountMinor r = rc_remainingRefundableMinor cap \<and> r_status r = REQUESTED \<and>
      r_completedAt r = None \<and> insertRefund r s1 = Inr (r, s')"
    then obtain cap r where cap: "refundCapacity ord p s1 = Inr cap"
      and r: "0 < rc_remainingRefundableMinor cap" "r_id r = newId" "r_orderId r = ord"
        "r_amountMinor r = rc_remainingRefundableMinor cap" "r_status r = REQUESTED"
        "r_completedAt r = None" "insertRefund r s1 = Inr (r, s')" by blast
    have "\<forall>r \<in> set (s_refunds s1). 0 \<le> r_amountMinor r"
      using k m by (auto simp: refund_keys_def same_money_simps)
    from refundCapacity_exact [OF this cap] r
    have "0 < r_amountMinor r" "reserved s (r_orderId r) + r_amountMinor r \<le> p_amountMinor p"
      by (auto simp: reserved_same [OF m])
    with refund_spec.request [OF m, of p r] lk st r fresh m show ?thesis
      by (simp add: same_money_simps insertRefund_ok)
  qed
qed

lemma confirmRefund_spec:
  assumes k: "refund_keys s" and c: "confirmManualRefundInTx dir now newId i a note s = Inr (r', s')"
  shows "refund_spec s s'"
proof -
  obtain cx p s1 r where l: "lockPayment now cx s = (Some p, s1)"
    and f: "findRefundById i s1 = Some r"
    and body: "(if r_status r = REFUNDED then
         ebind (in_ledger (postRefundRefunded newId now (r_id r) (r_orderId r)
           (BigMinor (r_amountMinor r))) s1) (\<lambda>s2. Inr (r, s2))
       else if \<not> canConfirmManualRefund (r_status r) (r_refundMethod r)
       then Inl (RefundE REFUND_INVALID_STATE)
       else let note' = (case note of Undef \<Rightarrow> r_internalNote r | Null \<Rightarrow> None | Val n \<Rightarrow> Some n)
         in case updateRefundStatus i REFUNDED [APPROVED] (Some now) note' s1 of
              (None, _) \<Rightarrow> Inl (RefundE REFUND_NOT_FOUND)
            | (Some updated, s2) \<Rightarrow>
                if r_status updated \<noteq> REFUNDED then Inl (RefundE REFUND_INVALID_STATE)
                else ebind (in_ledger (postRefundRefunded newId now (r_id updated)
                       (r_orderId updated) (BigMinor (r_amountMinor updated))) s2)
                     (\<lambda>s3. Inr (updated, s3))) = Inr (r', s')"
    using c by (auto simp: confirmManualRefundInTx_def ebind_Inr emap_Inr lockRefundPayment_ok
        option_Inr [where f = "\<lambda>c. ebind (q c) (h c)" for q h] option_Inr [where x = "findRefundById j t" for j t] prod_Inr [where x = "lp :: payment_row option \<times> shop" for lp])
  then have rest: "r_status r = REFUNDED \<and> in_ledger (book_refund newId now r) s1 = Inr s' \<or>
      canConfirmManualRefund (r_status r) (r_refundMethod r) \<and>
      (\<exists>n s2. updateRefundStatus i REFUNDED [APPROVED] (Some now) n s1 = (Some r', s2) \<and>
         r_status r' = REFUNDED \<and> in_ledger (book_refund newId now r') s2 = Inr s')"
    by (auto simp: Let_def option_Inr prod_Inr book_refund_def [abs_def] ebind_Inr split: if_splits)
  have m: "same_money s s1" using l by (rule lockPayment_same)
  note same = same_money_simps [OF m]
  from rest show ?thesis
  proof
    assume "r_status r = REFUNDED \<and> in_ledger (book_refund newId now r) s1 = Inr s'"
    moreover have "r \<in> set (s_refunds s)" using findRefundById_split [OF f] by (auto simp: same)
    ultimately show ?thesis
      using refund_spec.again [OF m, of r newId now] by (auto simp: in_ledger_ok same)
  next
    assume "canConfirmManualRefund (r_status r) (r_refundMethod r) \<and>
      (\<exists>n s2. updateRefundStatus i REFUNDED [APPROVED] (Some now) n s1 = (Some r', s2) \<and>
         r_status r' = REFUNDED \<and> in_ledger (book_refund newId now r') s2 = Inr s')"
    then obtain n s2 where can: "canConfirmManualRefund (r_status r) (r_refundMethod r)"
      and u: "updateRefundStatus i REFUNDED [APPROVED] (Some now) n s1 = (Some r', s2)"
        "r_status r' = REFUNDED"
      and b: "in_ledger (book_refund newId now r') s2 = Inr s'" by blast
    have d1: "distinct (map r_id (s_refunds s1))" using k by (simp add: refund_keys_def same)
    have "r_status r \<noteq> REFUNDED" using can by (auto simp: canConfirmManualRefund_def split: if_splits)
    from updateRefundStatus_split [OF d1 u f this] obtain xs ys where
      x: "s_refunds s1 = xs @ r # ys" "r_status r = APPROVED"
      and r': "r' = r\<lparr>r_status := REFUNDED, r_internalNote := n, r_completedAt := Some now\<rparr>"
      and s2: "s2 = s1\<lparr>s_refunds := xs @ r' # ys\<rparr>"
      by auto
    from b obtain e es where "book_refund newId now r (s_ledger s) = Inr (e, es)"
      and s': "s' = s2\<lparr>s_ledger := es\<rparr>"
      by (auto simp: in_ledger_ok s2 book_refund_def r' same)
    moreover have "r_refundMethod r \<noteq> ORIGINAL_PAYMENT"
      using can by (auto simp: canConfirmManualRefund_def split: if_splits)
    ultimately show ?thesis
      using refund_spec.confirm [OF m, of xs r ys newId now e es n] x by (simp add: s2 r' same)
  qed
qed

lemma run_refund_spec:
  assumes k: "refund_keys s" and f: "fresh_for call s" and r: "run_refund dir now call s = Inr s'"
  shows "refund_spec s s'"
proof -
  from k have d: "distinct (map r_id (s_refunds s))" by (simp add: refund_keys_def)
  show ?thesis
    using r f
    by (cases call)
      (auto simp: ebind_Inr markUnderReview_def authorizeRefundInTx_def rejectRefundInTx_def
        failRefund_def intro: createRefund_spec [OF k] ensureRefundIntent_spec [OF k]
        confirmRefund_spec [OF k] transitionRefund_spec [OF _ d])
qed

section \<open>The books of the refunds\<close>

definition refund_reference :: "string \<Rightarrow> string" where
  "refund_reference i = source_name SRC_REFUND @ '':'' @ i"

definition entries_of :: "shop \<Rightarrow> refund_row \<Rightarrow> ledger_entry list" where
  "entries_of s r = filter (\<lambda>e. le_reference e = refund_reference (r_id r)) (s_ledger s)"

definition booked_right :: "refund_row \<Rightarrow> ledger_entry \<Rightarrow> bool" where
  "booked_right r e \<longleftrightarrow> le_type e = LEDGER_TYPE_REFUND \<and> le_direction e = DEBIT \<and>
     le_amountMinor e = r_amountMinor r \<and> le_orderId e = Some (r_orderId r)"

text \<open>The refund is booked by exactly one entry once the money went back, by none before.\<close>

definition refund_booked :: "shop \<Rightarrow> refund_row \<Rightarrow> bool" where
  "refund_booked s r \<longleftrightarrow>
     (if r_status r = REFUNDED then r_completedAt r \<noteq> None \<and> (\<exists>e. entries_of s r = [e] \<and> booked_right r e)
      else r_completedAt r = None \<and> entries_of s r = [])"

definition within_payment :: "shop \<Rightarrow> refund_row \<Rightarrow> bool" where
  "within_payment s r \<longleftrightarrow> (\<exists>p \<in> set (s_payments s). p_orderId p = r_orderId r \<and>
     p_status p = PAY_SUCCEEDED \<and> reserved s (r_orderId r) \<le> p_amountMinor p)"

definition refund_books :: "shop \<Rightarrow> bool" where
  "refund_books s \<longleftrightarrow> refund_keys s \<and> distinct (keys_of r_paidTerminalIntentKey (s_refunds s)) \<and>
     (\<forall>r \<in> set (s_refunds s). within_payment s r \<and> refund_booked s r) \<and>
     (\<forall>e \<in> set (s_ledger s). \<forall>i. le_reference e = refund_reference i \<longrightarrow> i \<in> r_id ` set (s_refunds s))"

text \<open>What the other modules may do between two refund operations.\<close>

definition is_refund_entry :: "ledger_entry \<Rightarrow> bool" where
  "is_refund_entry e \<longleftrightarrow> take 7 (le_reference e) = ''REFUND:''"

definition respects_refunds :: "shop \<Rightarrow> shop \<Rightarrow> bool" where
  "respects_refunds s s' \<longleftrightarrow> s_refunds s' = s_refunds s \<and>
     filter is_refund_entry (s_ledger s') = filter is_refund_entry (s_ledger s) \<and>
     distinct (map p_id (s_payments s')) \<and> distinct (map p_orderId (s_payments s')) \<and>
     (\<forall>p \<in> set (s_payments s). p_status p = PAY_SUCCEEDED \<longrightarrow>
        (\<exists>p' \<in> set (s_payments s'). p_orderId p' = p_orderId p \<and> p_status p' = PAY_SUCCEEDED \<and>
           p_amountMinor p' = p_amountMinor p))"

inductive refund_history :: "directory \<Rightarrow> shop \<Rightarrow> bool" for dir where
  start: "s_refunds s = [] \<Longrightarrow> filter is_refund_entry (s_ledger s) = [] \<Longrightarrow>
    distinct (map p_id (s_payments s)) \<Longrightarrow> distinct (map p_orderId (s_payments s)) \<Longrightarrow>
    refund_history dir s"
| call: "refund_history dir s \<Longrightarrow> fresh_for c s \<Longrightarrow> run_refund dir now c s = Inr s' \<Longrightarrow>
    refund_history dir s'"
| other: "refund_history dir s \<Longrightarrow> respects_refunds s s' \<Longrightarrow> refund_history dir s'"

lemma refund_reference_inj [simp]: "refund_reference i = refund_reference j \<longleftrightarrow> i = j"
  by (simp add: refund_reference_def)

lemma is_refund_entry_reference: "le_reference e = refund_reference i \<Longrightarrow> is_refund_entry e"
  by (simp add: is_refund_entry_def refund_reference_def)

lemma entries_of_refund: "entries_of s r = filter (\<lambda>e. le_reference e = refund_reference (r_id r)) (filter is_refund_entry (s_ledger s))"
  by (auto simp: entries_of_def is_refund_entry_reference intro: filter_cong)

lemma reserved_split:
  assumes "s_refunds s = xs @ r # ys" "s_refunds s' = xs @ u # ys" "r_orderId u = r_orderId r"
    "r_amountMinor u = r_amountMinor r" "0 \<le> r_amountMinor r" "isReservingRefundStatus (r_status r)"
  shows "reserved s' ord \<le> reserved s ord"
  using assms by (auto simp: reserved_def)

text \<open>Payments as far as refunds read them.\<close>

lemma same_money_payment:
  assumes "same_money s s'" "p \<in> set (s_payments s)"
  shows "\<exists>p' \<in> set (s_payments s'). p_orderId p' = p_orderId p \<and> p_status p' = p_status p \<and>
    p_amountMinor p' = p_amountMinor p"
proof -
  have "pay_view p \<in> set (map pay_view (s_payments s'))"
    using assms by (simp add: same_money_def del: set_map) simp
  then obtain p' where "p' \<in> set (s_payments s')" "pay_view p' = pay_view p" by auto
  then show ?thesis by (metis pay_view_simps(2,4,5))
qed

lemma same_money_distinct:
  assumes "same_money s s'"
  shows "map p_id (s_payments s') = map p_id (s_payments s)"
    "map p_orderId (s_payments s') = map p_orderId (s_payments s)"
proof -
  have m: "map pay_view (s_payments s') = map pay_view (s_payments s)"
    using assms by (simp add: same_money_def)
  have "map p_id (map pay_view ps) = map p_id ps" "map p_orderId (map pay_view ps) = map p_orderId ps" for ps
    by simp_all
  with m show "map p_id (s_payments s') = map p_id (s_payments s)"
    "map p_orderId (s_payments s') = map p_orderId (s_payments s)" by metis+
qed

lemma book_refund_cases:
  assumes b: "book_refund newId now r es = Inr (e, es')"
    and none: "filter (\<lambda>e. le_reference e = refund_reference (r_id r)) es = []"
  shows "es' = es @ [e] \<and> le_reference e = refund_reference (r_id r) \<and> booked_right r e"
proof -
  have no: "event_reference (EvRefund (r_id r) (r_orderId r) (r_amountMinor r)) \<notin> set (map le_reference es)"
    using none by (auto simp: filter_empty_conv event_reference_def refund_reference_def)
  from post_ledger_event_cases [OF b [unfolded book_refund_def]] no have
    e: "es' = es @ [e]" "le_reference e = refund_reference (r_id r)"
    by (simp_all add: event_reference_def refund_reference_def)
  obtain input where i: "postIdempotent input es = Inr (e, es')"
    and "pi_posting input = \<lparr>po_type = LEDGER_TYPE_REFUND, po_direction = DEBIT, po_amountMinor = r_amountMinor r\<rparr>"
    and "pi_orderId input = Some (r_orderId r)"
    using b by (auto simp: book_refund_def postRefundRefunded_def refundPosting_def ebind_Inr
        post_event_ok split: if_splits)
  then have "booked_right r (createEntry input)" by (simp add: booked_right_def createEntry_def)
  with e postIdempotent_new_row [OF i] show ?thesis by simp
qed

lemma book_refund_again:
  assumes b: "book_refund newId now r es = Inr (e, es')"
    and some: "filter (\<lambda>e. le_reference e = refund_reference (r_id r)) es = [e0]"
  shows "es' = es"
proof -
  from some have "e0 \<in> set (filter (\<lambda>e. le_reference e = refund_reference (r_id r)) es)" by simp
  then have "refund_reference (r_id r) \<in> set (map le_reference es)" by force
  then have "event_reference (EvRefund (r_id r) (r_orderId r) (r_amountMinor r)) \<in> set (map le_reference es)"
    by (simp add: event_reference_def refund_reference_def)
  with post_ledger_event_cases [OF b [unfolded book_refund_def]] show ?thesis by simp
qed

lemma within_payment_mono:
  assumes "within_payment s r" and "same_money s s1" and "s_payments s' = s_payments s1"
    and "r_orderId u = r_orderId r" and "reserved s' (r_orderId r) \<le> reserved s (r_orderId r)"
  shows "within_payment s' u"
proof -
  obtain p where p: "p \<in> set (s_payments s)" "p_orderId p = r_orderId r" "p_status p = PAY_SUCCEEDED"
    "reserved s (r_orderId r) \<le> p_amountMinor p"
    using assms(1) by (auto simp: within_payment_def)
  from same_money_payment [OF assms(2) p(1)] p assms(3-5) show ?thesis
    by (fastforce simp: within_payment_def)
qed

lemma keys_of_replace:
  "rkey u = rkey r \<Longrightarrow> keys_of rkey (xs @ u # ys) = keys_of rkey (xs @ r # ys)"
  by (simp add: keys_of_def List.map_filter_def split: option.splits)

lemma refund_booksI:
  assumes "refund_keys s" "distinct (keys_of r_paidTerminalIntentKey (s_refunds s))"
    and "\<And>r. r \<in> set (s_refunds s) \<Longrightarrow> within_payment s r"
    and "\<And>r. r \<in> set (s_refunds s) \<Longrightarrow> refund_booked s r"
    and "\<And>e i. e \<in> set (s_ledger s) \<Longrightarrow> le_reference e = refund_reference i \<Longrightarrow> i \<in> r_id ` set (s_refunds s)"
  shows "refund_books s"
  using assms by (simp add: refund_books_def)

lemma refund_booksD:
  assumes "refund_books s"
  shows "refund_keys s" "distinct (keys_of r_paidTerminalIntentKey (s_refunds s))"
    "r \<in> set (s_refunds s) \<Longrightarrow> within_payment s r"
    "r \<in> set (s_refunds s) \<Longrightarrow> refund_booked s r"
    "e \<in> set (s_ledger s) \<Longrightarrow> le_reference e = refund_reference i \<Longrightarrow> i \<in> r_id ` set (s_refunds s)"
  using assms by (simp_all add: refund_books_def)

lemma refund_keysD:
  assumes "refund_keys s"
  shows "distinct (map p_id (s_payments s))" "distinct (map p_orderId (s_payments s))"
    "distinct (map r_id (s_refunds s))" "r \<in> set (s_refunds s) \<Longrightarrow> 0 < r_amountMinor r"
  using assms by (simp_all add: refund_keys_def)

lemma refund_booked_same:
  "entries_of s' r = entries_of s r \<Longrightarrow> refund_booked s r \<Longrightarrow> refund_booked s' r"
  by (simp add: refund_booked_def)

lemma refund_books_stay:
  assumes b: "refund_books s" and m: "same_money s s'"
  shows "refund_books s'"
proof (rule refund_booksI)
  note same = same_money_simps [OF m] same_money_distinct [OF m]
  show "refund_keys s'" using refund_booksD(1) [OF b] by (simp add: refund_keys_def same)
  show "distinct (keys_of r_paidTerminalIntentKey (s_refunds s'))"
    using refund_booksD(2) [OF b] by (simp add: same)
  show "within_payment s' r" if "r \<in> set (s_refunds s')" for r
    by (rule within_payment_mono [OF refund_booksD(3) [OF b] m refl refl])
      (use that in \<open>simp_all add: same reserved_same [OF m]\<close>)
  show "refund_booked s' r" if "r \<in> set (s_refunds s')" for r
    by (rule refund_booked_same [OF _ refund_booksD(4) [OF b]])
      (use that in \<open>simp_all add: same entries_of_def\<close>)
  show "i \<in> r_id ` set (s_refunds s')"
    if "e \<in> set (s_ledger s')" "le_reference e = refund_reference i" for e i
    using refund_booksD(5) [OF b] that by (simp add: same)
qed

lemma refund_books_request:
  assumes b: "refund_books s" and m: "same_money s s1" and p: "p \<in> set (s_payments s1)"
    "p_orderId p = r_orderId r" "p_status p = PAY_SUCCEEDED"
    and r: "r_status r = REQUESTED" "r_completedAt r = None" "0 < r_amountMinor r"
    and cap: "reserved s (r_orderId r) + r_amountMinor r \<le> p_amountMinor p"
    and new: "r_id r \<notin> r_id ` set (s_refunds s)" and key: "r_paidTerminalIntentKey r = None \<or>
      r_paidTerminalIntentKey r \<notin> r_paidTerminalIntentKey ` set (s_refunds s)"
  shows "refund_books (s1\<lparr>s_refunds := s_refunds s @ [r]\<rparr>)" (is "refund_books ?s")
proof (rule refund_booksI)
  note same = same_money_simps [OF m] same_money_distinct [OF m]
  have res: "reserved ?s ord = reserved s ord + (if r_orderId r = ord then r_amountMinor r else 0)" for ord
    using r(1) by (simp add: reserved_def isReservingRefundStatus_def)
  have led: "entries_of ?s q = entries_of s q" for q by (simp add: entries_of_def same)
  show "refund_keys ?s"
    using refund_booksD(1) [OF b] r(3) new by (auto simp: refund_keys_def same)
  show "distinct (keys_of r_paidTerminalIntentKey (s_refunds ?s))"
    using refund_booksD(2) [OF b] key
    by (cases "r_paidTerminalIntentKey r") (auto simp: set_keys_of image_iff)
  have wr: "within_payment ?s q" if "r_orderId q = r_orderId r" for q
    unfolding within_payment_def using p cap that by (intro bexI [of _ p]) (simp_all add: res)
  have wq: "within_payment ?s q" if "q \<in> set (s_refunds s)" "r_orderId q \<noteq> r_orderId r" for q
    by (rule within_payment_mono [OF refund_booksD(3) [OF b that(1)] m]) (use that in \<open>simp_all add: res\<close>)
  show "within_payment ?s q" if "q \<in> set (s_refunds ?s)" for q
    using that wr [of q] wq [of q] by auto
  have none: "entries_of s r = []"
    using new refund_booksD(5) [OF b] by (fastforce simp: entries_of_def filter_empty_conv)
  show "refund_booked ?s q" if "q \<in> set (s_refunds ?s)" for q
  proof (cases "q = r")
    case True
    with none r show ?thesis by (simp add: refund_booked_def led)
  next
    case False
    with that show ?thesis by (intro refund_booked_same [OF led refund_booksD(4) [OF b]]) simp
  qed
  show "i \<in> r_id ` set (s_refunds ?s)"
    if "e \<in> set (s_ledger ?s)" "le_reference e = refund_reference i" for e i
    using refund_booksD(5) [OF b _ that(2)] that(1) by (simp add: same)
qed

text \<open>A change of one row that keeps its amount, order, id and key, and maybe books it.\<close>

lemma refund_books_change:
  assumes b: "refund_books s" and m: "same_money s s1" and x: "s_refunds s = xs @ r # ys"
    and u: "r_id u = r_id r" "r_orderId u = r_orderId r" "r_amountMinor u = r_amountMinor r"
      "r_paidTerminalIntentKey u = r_paidTerminalIntentKey r"
    and st: "isReservingRefundStatus (r_status r)"
    and other: "\<And>q. r_id q \<noteq> r_id r \<Longrightarrow> entries_of (s1\<lparr>s_refunds := xs @ u # ys, s_ledger := es\<rparr>) q = entries_of s q"
    and bk: "refund_booked (s1\<lparr>s_refunds := xs @ u # ys, s_ledger := es\<rparr>) u"
    and led: "\<And>e i. e \<in> set es \<Longrightarrow> le_reference e = refund_reference i \<Longrightarrow> i = r_id r \<or> e \<in> set (s_ledger s)"
  shows "refund_books (s1\<lparr>s_refunds := xs @ u # ys, s_ledger := es\<rparr>)" (is "refund_books ?s")
proof (rule refund_booksI)
  note same = same_money_simps [OF m] same_money_distinct [OF m]
  have r: "r \<in> set (s_refunds s)" by (simp add: x)
  note keys = refund_keysD [OF refund_booksD(1) [OF b]]
  have amt: "0 < r_amountMinor r" by (rule keys(4) [OF r])
  have ids: "map r_id (xs @ u # ys) = map r_id (s_refunds s)" by (simp add: x u)
  have dist: "distinct (map r_id (xs @ u # ys))" using keys(3) by (simp only: ids)
  have idset: "r_id ` set (s_refunds ?s) = r_id ` set (s_refunds s)" using ids by (simp add: x u)
  have res: "reserved ?s ord \<le> reserved s ord" for ord
    by (rule reserved_split [OF x, of _ u]) (use amt st u in simp_all)
  show "refund_keys ?s"
    using keys dist amt u(3) by (auto simp: refund_keys_def same x)
  show "distinct (keys_of r_paidTerminalIntentKey (s_refunds ?s))"
    using refund_booksD(2) [OF b] keys_of_replace [of r_paidTerminalIntentKey u r xs ys, OF u(4)] x by simp
  have w: "within_payment ?s q'" if "q \<in> set (s_refunds s)" "r_orderId q' = r_orderId q" for q q'
    by (rule within_payment_mono [OF refund_booksD(3) [OF b that(1)] m]) (use that res in simp_all)
  show "within_payment ?s q" if "q \<in> set (s_refunds ?s)" for q
  proof (cases "q = u")
    case True
    with w [OF r, of u] u show ?thesis by simp
  next
    case False
    with that show ?thesis by (intro w [of q q]) (auto simp: x)
  qed
  show "refund_booked ?s q" if q: "q \<in> set (s_refunds ?s)" for q
  proof (cases "q = u")
    case True
    with bk show ?thesis by simp
  next
    case False
    then have "q \<in> set xs \<union> set ys" using q by auto
    moreover from this have "r_id q \<noteq> r_id r" using dist u(1) by (auto simp: image_iff)
    ultimately show ?thesis
      by (intro refund_booked_same [OF other refund_booksD(4) [OF b]]) (auto simp: x)
  qed
  show "i \<in> r_id ` set (s_refunds ?s)"
    if e: "e \<in> set (s_ledger ?s)" "le_reference e = refund_reference i" for e i
    using led [of e i] e refund_booksD(5) [OF b _ e(2)] r unfolding idset by auto
qed

lemma refund_spec_books:
  assumes "refund_spec s s'" and b: "refund_books s"
  shows "refund_books s'"
  using assms(1)
proof cases
  case stay
  show ?thesis by (rule refund_books_stay [OF b stay])
next
  case (request s1 p r)
  show ?thesis unfolding request(1) by (rule refund_books_request [OF b request(2-11)])
next
  case (move s1 xs r ys st n)
  let ?u = "r\<lparr>r_status := st, r_internalNote := n\<rparr>"
  have led: "s_ledger s1 = s_ledger s" by (rule same_money_simps(2) [OF move(2)])
  have bk: "refund_booked s r" by (rule refund_booksD(4) [OF b]) (simp add: move(3))
  have "refund_books (s1\<lparr>s_refunds := xs @ ?u # ys, s_ledger := s_ledger s\<rparr>)"
  proof (rule refund_books_change [OF b move(2,3)])
    show "isReservingRefundStatus (r_status r)" using move(4) by (auto simp: isReservingRefundStatus_def)
    show "refund_booked (s1\<lparr>s_refunds := xs @ ?u # ys, s_ledger := s_ledger s\<rparr>) ?u"
      using bk move(4) by (auto simp: refund_booked_def entries_of_def split: if_splits)
  qed (simp_all add: entries_of_def)
  then show ?thesis by (simp add: move(1) flip: led)
next
  case (confirm s1 xs r ys newId now e es n)
  let ?u = "r\<lparr>r_status := REFUNDED, r_internalNote := n, r_completedAt := Some now\<rparr>"
  have bk: "refund_booked s r" by (rule refund_booksD(4) [OF b]) (simp add: confirm(3))
  then have none: "filter (\<lambda>e. le_reference e = refund_reference (r_id r)) (s_ledger s) = []"
    using confirm(4) by (simp add: refund_booked_def entries_of_def)
  note new = book_refund_cases [OF confirm(6) none]
  show ?thesis
    unfolding confirm(1)
  proof (rule refund_books_change [OF b confirm(2,3)])
    show "isReservingRefundStatus (r_status r)" using confirm(4) by (simp add: isReservingRefundStatus_def)
    show "refund_booked (s1\<lparr>s_refunds := xs @ ?u # ys, s_ledger := es\<rparr>) ?u"
      using none new by (simp add: refund_booked_def entries_of_def booked_right_def)
    show "entries_of (s1\<lparr>s_refunds := xs @ ?u # ys, s_ledger := es\<rparr>) q = entries_of s q"
      if "r_id q \<noteq> r_id r" for q
      using that new by (auto simp: entries_of_def)
    show "i = r_id r \<or> e' \<in> set (s_ledger s)"
      if "e' \<in> set es" "le_reference e' = refund_reference i" for e' i
      using that new by auto
  qed simp_all
next
  case (again s1 r newId now e es)
  obtain e0 where "filter (\<lambda>e. le_reference e = refund_reference (r_id r)) (s_ledger s) = [e0]"
    using refund_booksD(4) [OF b again(3)] again(4) by (auto simp: refund_booked_def entries_of_def)
  from book_refund_again [OF again(5) this] have es: "es = s_ledger s1"
    by (simp add: same_money_simps [OF again(2)])
  show ?thesis unfolding again(1) es using refund_books_stay [OF b again(2)] by simp
qed

lemma respects_refunds_books:
  assumes o': "respects_refunds s s'" and b: "refund_books s"
  shows "refund_books s'"
proof (rule refund_booksI)
  have rf: "s_refunds s' = s_refunds s" and led: "filter is_refund_entry (s_ledger s') = filter is_refund_entry (s_ledger s)"
    using o' by (simp_all add: respects_refunds_def)
  have res: "reserved s' = reserved s" by (intro ext) (simp add: reserved_def rf)
  show "refund_keys s'"
    using refund_booksD(1) [OF b] o' by (simp add: refund_keys_def rf respects_refunds_def)
  show "distinct (keys_of r_paidTerminalIntentKey (s_refunds s'))"
    using refund_booksD(2) [OF b] by (simp add: rf)
  show "within_payment s' r" if r: "r \<in> set (s_refunds s')" for r
  proof -
    obtain p where p: "p \<in> set (s_payments s)" "p_orderId p = r_orderId r" "p_status p = PAY_SUCCEEDED"
      "reserved s (r_orderId r) \<le> p_amountMinor p"
      using refund_booksD(3) [OF b, of r] r unfolding rf within_payment_def by blast
    then obtain p' where "p' \<in> set (s_payments s')" "p_orderId p' = p_orderId p"
      "p_status p' = PAY_SUCCEEDED" "p_amountMinor p' = p_amountMinor p"
      using o' unfolding respects_refunds_def by blast
    with p show ?thesis unfolding within_payment_def res by (intro bexI [of _ p']) simp_all
  qed
  show "refund_booked s' r" if "r \<in> set (s_refunds s')" for r
    by (rule refund_booked_same [OF _ refund_booksD(4) [OF b]])
      (use that in \<open>simp_all add: rf led entries_of_refund\<close>)
  show "i \<in> r_id ` set (s_refunds s')"
    if e: "e \<in> set (s_ledger s')" "le_reference e = refund_reference i" for e i
  proof -
    have "e \<in> set (filter is_refund_entry (s_ledger s'))" using e is_refund_entry_reference by simp
    then have "e \<in> set (s_ledger s)" by (simp add: led)
    from refund_booksD(5) [OF b this e(2)] show ?thesis by (simp add: rf)
  qed
qed

lemma refund_history_books: "refund_history dir s \<Longrightarrow> refund_books s"
proof (induction rule: refund_history.induct)
  case (start s)
  then have "le_reference e \<noteq> refund_reference i" if "e \<in> set (s_ledger s)" for e i
    using that by (auto simp: filter_empty_conv dest: is_refund_entry_reference)
  with start show ?case by (auto simp: refund_books_def refund_keys_def keys_of_def List.map_filter_def)
next
  case (call s c now s')
  then have "refund_keys s" by (simp add: refund_books_def)
  from refund_spec_books [OF run_refund_spec [OF this call.hyps(2,3)] call.IH] show ?case .
next
  case (other s s')
  then show ?case using respects_refunds_books by blast
qed

section \<open>The locked context, computed\<close>

definition context_of :: "order_row \<Rightarrow> payment_row \<Rightarrow> snapshot_row \<Rightarrow> refund_context" where
  "context_of ord p sn = \<lparr>cx_orderId = o_id ord, cx_orderStatus = o_status ord,
     cx_customerId = o_customerId ord, cx_paymentId = p_id p, cx_paymentMethod = p_method p,
     cx_paymentStatus = p_status p, cx_paymentAmountMinor = p_amountMinor p,
     cx_paymentCurrency = p_currency p, cx_snapshotPayableMinor = sn_customerPayableMinor sn,
     cx_snapshotCurrency = sn_currency sn\<rparr>"

lemma findFinancialContext_iff:
  "findFinancialContextByOrderId orderId s = Inr (Some c) \<longleftrightarrow>
   (\<exists>ord p sn. t_find o_id orderId (s_orders s) = Some ord \<and>
     t_find p_orderId orderId (s_payments s) = Some p \<and>
     t_find sn_orderId orderId (s_snapshots s) = Some sn \<and>
     0 \<le> p_amountMinor p \<and> 0 \<le> sn_customerPayableMinor sn \<and> c = context_of ord p sn)"
  by (auto simp: findFinancialContextByOrderId_def context_of_def ebind_Inr split: option.splits if_splits)

definition locked_payment :: "instant \<Rightarrow> payment_row \<Rightarrow> payment_row" where
  "locked_payment now p = p\<lparr>p_updatedAt := now\<rparr>"

lemma locked_payment_simps [simp]:
  "p_id (locked_payment now p) = p_id p" "p_orderId (locked_payment now p) = p_orderId p"
  "p_status (locked_payment now p) = p_status p" "p_method (locked_payment now p) = p_method p"
  "p_amountMinor (locked_payment now p) = p_amountMinor p"
  "p_currency (locked_payment now p) = p_currency p"
  "context_of ord (locked_payment now p) sn = context_of ord p sn"
  by (simp_all add: locked_payment_def context_of_def)

definition touch :: "instant \<Rightarrow> string \<Rightarrow> shop \<Rightarrow> shop" where
  "touch now i s = s\<lparr>s_payments :=
     t_update (\<lambda>p. p_id p = i) (locked_payment now) (s_payments s)\<rparr>"

lemma lockedContext_found:
  assumes d: "distinct (map p_id (s_payments s))"
    and o': "t_find o_id orderId (s_orders s) = Some ord"
    and p: "t_find p_orderId orderId (s_payments s) = Some p"
    and sn: "t_find sn_orderId orderId (s_snapshots s) = Some sn"
    and nn: "0 \<le> p_amountMinor p" "0 \<le> sn_customerPayableMinor sn"
  shows "lockedContext now orderId s =
    Inr (locked_payment now p, context_of ord p sn, touch now (p_id p) s)"
proof -
  have "p \<in> set (s_payments s)" using t_find_Some [OF p] by blast
  from t_find_distinct [OF d this]
  have l: "lockRefundPayment now (p_id p) s = Inr (Some (locked_payment now p), touch now (p_id p) s)"
    using nn by (simp add: lockRefundPayment_ok lockPayment_def touch_def Let_def t_find_update
        locked_payment_def [abs_def])
  have c: "findFinancialContextByOrderId orderId s = Inr (Some (context_of ord p sn))"
    using o' p sn nn by (simp add: findFinancialContext_iff)
  have "t_find p_orderId orderId (s_payments (touch now (p_id p) s)) = Some (locked_payment now p)"
    using p by (simp add: touch_def t_find_update)
  then have c': "findFinancialContextByOrderId orderId (touch now (p_id p) s) =
      Inr (Some (context_of ord p sn))"
    using o' sn nn by (simp add: findFinancialContext_iff touch_def)
  have "cx_paymentId (context_of ord p sn) = p_id p" by (simp add: context_of_def)
  with l c c' show ?thesis by (simp add: lockedContext_def)
qed

lemma lockedContext_iff:
  assumes "distinct (map p_id (s_payments s))"
  shows "lockedContext now orderId s = Inr (q, f, s') \<longleftrightarrow>
   (\<exists>ord p sn. t_find o_id orderId (s_orders s) = Some ord \<and>
     t_find p_orderId orderId (s_payments s) = Some p \<and>
     t_find sn_orderId orderId (s_snapshots s) = Some sn \<and>
     0 \<le> p_amountMinor p \<and> 0 \<le> sn_customerPayableMinor sn \<and> q = locked_payment now p \<and>
     f = context_of ord p sn \<and> s' = touch now (p_id p) s)" (is "?l \<longleftrightarrow> ?r")
proof
  assume l: ?l
  then obtain c where "findFinancialContextByOrderId orderId s = Inr (Some c)"
    by (auto simp: lockedContext_def ebind_Inr emap_Inr option_Inr)
  then obtain ord p sn where f: "t_find o_id orderId (s_orders s) = Some ord"
    "t_find p_orderId orderId (s_payments s) = Some p"
    "t_find sn_orderId orderId (s_snapshots s) = Some sn"
    "0 \<le> p_amountMinor p" "0 \<le> sn_customerPayableMinor sn"
    by (auto simp: findFinancialContext_iff)
  from lockedContext_found [OF assms f] l f show ?r by simp
next
  assume ?r
  with lockedContext_found [OF assms] show ?l by blast
qed

lemma touch_simps [simp]:
  "s_orders (touch now i s) = s_orders s" "s_snapshots (touch now i s) = s_snapshots s"
  "s_refunds (touch now i s) = s_refunds s" "s_ledger (touch now i s) = s_ledger s"
  "map p_id (s_payments (touch now i s)) = map p_id (s_payments s)"
  "reserved (touch now i s) = reserved s"
  by (simp_all add: touch_def reserved_def fun_eq_iff)

lemma touch_payment:
  "t_find p_orderId ord (s_payments s) = Some p \<Longrightarrow>
   t_find p_orderId ord (s_payments (touch now (p_id p) s)) = Some (locked_payment now p)"
  by (simp add: touch_def t_find_update)

text \<open>The automatic intent, from the rows it reads.\<close>

lemma ensureRefundIntent_created:
  assumes k: "refund_keys s"
    and c: "ensureRefundIntentInTx now newId orderId org reason n s = Inr (v, s')" "in_created v"
  obtains ord p sn r key where "t_find o_id orderId (s_orders s) = Some ord"
    "t_find p_orderId orderId (s_payments s) = Some p"
    "t_find sn_orderId orderId (s_snapshots s) = Some sn"
    "0 \<le> p_amountMinor p" "0 \<le> sn_customerPayableMinor sn"
    "requireRefundableState p (context_of ord p sn) = Inr ()"
    "p_method p = PAYMENT_METHOD_ELECTRONIC"
    "paidTerminalIntentKeyForPayment (p_id p) = Inr key"
    "findByPaidTerminalIntentKey key s = None" "r_paidTerminalIntentKey r = Some key"
    "r_status r = REQUESTED" "r_orderId r = orderId"
    "0 < r_amountMinor r" "r_amountMinor r = p_amountMinor p - reserved s orderId"
    "v = toIntentView r True" "s' = (touch now (p_id p) s)\<lparr>s_refunds := s_refunds s @ [r]\<rparr>"
proof -
  have d: "distinct (map p_id (s_payments s))" by (rule refund_keysD(1) [OF k])
  obtain q f s1 key where lc: "lockedContext now orderId s = Inr (q, f, s1)"
    and st: "requireRefundableState q f = Inr ()" and me: "p_method q = PAYMENT_METHOD_ELECTRONIC"
    and key: "paidTerminalIntentKeyForPayment (p_id q) = Inr key"
    and body: "(case findByPaidTerminalIntentKey key s1 of
        Some existing \<Rightarrow> Inr (toIntentView existing False, s1)
      | None \<Rightarrow> new_intent now newId orderId org reason n q key s1) = Inr (v, s')"
    using c(1) unfolding ensureRefundIntentInTx_def by (auto simp: ebind_Inr split: if_splits)
  obtain ord p sn where f: "t_find o_id orderId (s_orders s) = Some ord"
    "t_find p_orderId orderId (s_payments s) = Some p"
    "t_find sn_orderId orderId (s_snapshots s) = Some sn"
    "0 \<le> p_amountMinor p" "0 \<le> sn_customerPayableMinor sn"
    and q: "q = locked_payment now p" and fc: "f = context_of ord p sn" and s1: "s1 = touch now (p_id p) s"
    using lc unfolding lockedContext_iff [OF d] by blast
  have none: "findByPaidTerminalIntentKey key s1 = None"
    using body c(2) by (cases "findByPaidTerminalIntentKey key s1") (auto simp: toIntentView_def)
  with body have "new_intent now newId orderId org reason n q key s1 = Inr (v, s')" by simp
  from new_intent_ok [OF this none] c(2) obtain cap r where
    cap: "refundCapacity orderId q s1 = Inr cap" "0 < rc_remainingRefundableMinor cap"
    and r: "r_orderId r = orderId" "r_amountMinor r = rc_remainingRefundableMinor cap"
      "r_status r = REQUESTED" "r_paidTerminalIntentKey r = Some key" "v = toIntentView r True"
      "insertRefund r s1 = Inr (r, s')" by blast
  have "\<forall>r \<in> set (s_refunds s1). 0 \<le> r_amountMinor r"
    using refund_keysD(4) [OF k] by (auto simp: s1 less_imp_le)
  from refundCapacity_exact [OF this cap(1)] cap(2) r(2)
  have "0 < r_amountMinor r" "r_amountMinor r = p_amountMinor p - reserved s orderId"
    by (auto simp: q s1)
  moreover have "requireRefundableState p (context_of ord p sn) = Inr ()"
    using st by (simp add: q fc requireRefundableState_ok)
  moreover have "findByPaidTerminalIntentKey key s = None"
    using none by (simp add: s1 findByPaidTerminalIntentKey_def)
  moreover have "s' = (touch now (p_id p) s)\<lparr>s_refunds := s_refunds s @ [r]\<rparr>"
    using r(6) by (simp add: insertRefund_ok s1)
  ultimately show thesis using that f me key r by (simp add: q)
qed

lemma refund_intent_again:
  assumes k: "refund_keys s"
    and c: "ensureRefundIntentInTx now newId orderId org reason n s = Inr (v, s')" "in_created v"
    and o': "isPaidTerminalRefundOrigin org'"
  shows "\<exists>v' s''. ensureRefundIntentInTx now' newId' orderId org' reason' n' s' = Inr (v', s'') \<and>
      in_refundId v' = in_refundId v \<and> in_created v' = False \<and> s_refunds s'' = s_refunds s'"
proof -
  obtain ord p sn r key where f: "t_find o_id orderId (s_orders s) = Some ord"
    "t_find p_orderId orderId (s_payments s) = Some p"
    "t_find sn_orderId orderId (s_snapshots s) = Some sn"
    "0 \<le> p_amountMinor p" "0 \<le> sn_customerPayableMinor sn"
    and st: "requireRefundableState p (context_of ord p sn) = Inr ()"
    and me: "p_method p = PAYMENT_METHOD_ELECTRONIC"
    and key: "paidTerminalIntentKeyForPayment (p_id p) = Inr key"
    and none: "findByPaidTerminalIntentKey key s = None" and rk: "r_paidTerminalIntentKey r = Some key"
    and v: "v = toIntentView r True"
    and s': "s' = (touch now (p_id p) s)\<lparr>s_refunds := s_refunds s @ [r]\<rparr>"
    by (rule ensureRefundIntent_created [OF k c]) blast
  have p': "t_find p_orderId orderId (s_payments s') = Some (locked_payment now p)"
    using touch_payment [OF f(2)] by (simp add: s')
  have d: "distinct (map p_id (s_payments s'))" using refund_keysD(1) [OF k] by (simp add: s')
  have lc: "lockedContext now' orderId s' = Inr (locked_payment now' (locked_payment now p),
      context_of ord p sn, touch now' (p_id p) s')"
    using lockedContext_found [OF d _ p', of ord sn now'] f by (simp add: s')
  have found: "findByPaidTerminalIntentKey key (touch now' (p_id p) s') = Some r"
    using none rk by (simp add: findByPaidTerminalIntentKey_def s' t_find_append_new t_find_None)
  have st': "requireRefundableState (locked_payment now' (locked_payment now p)) (context_of ord p sn) = Inr ()"
    using st by (simp add: requireRefundableState_ok)
  show ?thesis
    using o' lc st' me key found
    by (intro exI [of _ "toIntentView r False"] exI [of _ "touch now' (p_id p) s'"])
      (simp add: ensureRefundIntentInTx_def v toIntentView_def)
qed

lemma touch_orders: "map p_orderId (s_payments (touch now i s)) = map p_orderId (s_payments s)"
  by (simp add: touch_def)

lemma resolveRefundMethodBinding_ok [guards]:
  "resolveRefundMethodBinding m pm None = Inr b \<longleftrightarrow>
   b = m \<and> (pm = PAYMENT_METHOD_COD \<and> m = MANUAL_COD \<or> pm = PAYMENT_METHOD_ELECTRONIC \<and> m = MANUAL_OTHER)"
  by (cases m) (auto simp: resolveRefundMethodBinding_def)

lemma requireRefundReason_ok [guards]:
  "requireRefundReason reason = Inr t \<longleftrightarrow>
   t = js_trim reason \<and> js_trim reason \<noteq> [] \<and> length (js_trim reason) \<le> REFUND_REASON_MAX_LENGTH"
  by (auto simp: requireRefundReason_def Let_def)

lemma refundCapacity_some:
  assumes "refund_keys s" "0 \<le> p_amountMinor p"
  shows "\<exists>c. refundCapacity orderId p s = Inr c \<and>
    rc_remainingRefundableMinor c = max 0 (p_amountMinor p - reserved s orderId)"
proof -
  have nn: "\<forall>r \<in> set (s_refunds s). 0 \<le> r_amountMinor r"
    using refund_keysD(4) [OF assms(1)] by (auto simp: less_imp_le)
  then have "0 \<le> reserved s orderId" "0 \<le> refunded s orderId"
    unfolding reserved_def refunded_def by (auto intro!: sum_list_nonneg)
  with nn assms(2) show ?thesis
    by (simp add: refundCapacity_def sumReservedAndSuccessful_exact calculateRefundCapacity_ok emap_Inr)
qed

section \<open>An example\<close>

definition example_order :: order_row where
  "example_order = \<lparr>o_id = ''order-1'', o_customerId = ''cust'', o_merchantBranchId = ''br'',
     o_status = O_CANCELLED, o_fulfillmentStatus = PENDING_ACCEPTANCE, o_confirmedAt = None,
     o_completedAt = None, o_updatedAt = 0, o_preparationMinutes = None,
     o_originalPreparationMinutes = None, o_estimatedReadyAt = None,
     o_originalEstimatedReadyAt = None, o_preparationEstimateVersion = 0\<rparr>"

definition example_financials :: snapshot_row where
  "example_financials = \<lparr>sn_orderId = ''order-1'', sn_currency = ''DZD'',
     sn_grossMerchandiseSubtotalMinor = 700, sn_merchantDiscountMinor = 0,
     sn_platformDiscountMinor = 0, sn_merchantCommissionAmountMinor = 70,
     sn_merchantNetAmountMinor = 630, sn_customerDeliveryFeeMinor = 200,
     sn_driverRemunerationMinor = 150, sn_speedyGoDeliveryShareMinor = 50,
     sn_customerPayableMinor = 900\<rparr>"

definition example_payment :: payment_row where
  "example_payment = \<lparr>p_id = ''0198c2f0-0000-7000-8000-000000000001'', p_orderId = ''order-1'',
     p_method = PAYMENT_METHOD_ELECTRONIC, p_status = PAY_SUCCEEDED, p_amountMinor = 900,
     p_currency = ''DZD'', p_updatedAt = 0\<rparr>"

definition example_shop :: shop where
  "example_shop = \<lparr>s_orders = [example_order], s_snapshots = [example_financials],
     s_payments = [example_payment], s_txs = [], s_events = [], s_cancellations = [],
     s_revisions = [], s_refunds = [], s_deliveries = [], s_deliveryEvents = [],
     s_assignments = [],
     s_drivers = [\<lparr>dr_id = ''drv'', dr_accountId = ''drv-acc'', dr_fullName = ''Driver'',
       dr_verificationStatus = V_APPROVED, dr_approvedAt = Some 0, dr_updatedAt = 0\<rparr>],
     s_documents = [], s_vehicles = [], s_availability = [], s_collections = [], s_remittances = [],
     s_allocations = [], s_discrepancies = [], s_earnings = [], s_items = [], s_carts = [],
     s_addresses = [], s_handoffs = [], s_settlements = [], s_settlementLines = [], s_ledger = []\<rparr>"

definition example_directory :: directory where
  "example_directory = \<lparr>dir_customerOfAccount = (\<lambda>_. Some ''cust''),
     dir_merchantOfBranch = (\<lambda>_. Some ''mer''), dir_merchantApproved = (\<lambda>_. True),
     dir_canMutateOrders = (\<lambda>_ _. True), dir_isAdmin = (\<lambda>a. a = ''adm''),
     dir_canReadOrders = (\<lambda>_ _. True), dir_canReadSettlements = (\<lambda>_ _. True), dir_merchantExists = (\<lambda>m. m = ''mer''),
     dir_branchLocation = (\<lambda>_. Some (JInt 36, JInt 3))\<rparr>"

definition example_refund_command :: "int \<Rightarrow> create_refund_command" where
  "example_refund_command n = \<lparr>cmd_orderId = ''order-1'', cmd_amountMinor = JInt n,
     cmd_reason = ''damaged'', cmd_refundMethod = MANUAL_OTHER, cmd_requestedByAdminId = ''adm'',
     cmd_internalNote = None\<rparr>"

lemma example_shop_history: "refund_history dir example_shop"
  by (rule refund_history.start) (simp_all add: example_shop_def)

lemma example_shop_rows:
  "t_find o_id ''order-1'' (s_orders example_shop) = Some example_order"
  "t_find p_orderId ''order-1'' (s_payments example_shop) = Some example_payment"
  "t_find sn_orderId ''order-1'' (s_snapshots example_shop) = Some example_financials"
  by (simp_all add: example_shop_def t_find_def example_order_def example_payment_def
      example_financials_def)

text \<open>A history to apply the properties at: a partial refund requested, approved and confirmed.\<close>

definition run_refunds :: "directory \<Rightarrow> instant \<Rightarrow> refund_call list \<Rightarrow> shop \<Rightarrow> app_error + shop" where
  "run_refunds dir now cs s =
     efold (\<lambda>s c. if fresh_for c s then run_refund dir now c s else Inl InternalE) s cs"

lemma run_refunds_history:
  assumes "refund_history dir s" "run_refunds dir now cs s = Inr s'"
  shows "refund_history dir s'"
  using assms(2) unfolding run_refunds_def
  by (rule efold_invariant) (use assms(1) in \<open>auto intro: refund_history.call split: if_splits\<close>)

definition example_steps :: "refund_call list" where
  "example_steps = [CreateRefund ''refund-1'' (example_refund_command 300),
     AuthorizeRefund ''refund-1'' ''adm'' Undef, ConfirmManualRefund ''entry-1'' ''refund-1'' ''adm'' Null]"

definition refund_digest where
  "refund_digest s = (map (\<lambda>r. (r_id r, r_orderId r, r_status r, r_amountMinor r)) (s_refunds s),
     map (\<lambda>e. (le_reference e, le_amountMinor e)) (s_ledger s))"

lemma example_run:
  "map_sum id refund_digest (run_refunds example_directory 5 example_steps example_shop) =
   Inr ([(''refund-1'', ''order-1'', REFUNDED, 300)], [(''REFUND:refund-1'', 300)])"
  by code_simp

lemma example_run_ok:
  obtains s r where "run_refunds example_directory 5 example_steps example_shop = Inr s"
    "refund_history example_directory s" "s_refunds s = [r]" "r_id r = ''refund-1''"
    "r_orderId r = ''order-1''" "r_status r = REFUNDED" "r_amountMinor r = 300"
proof -
  obtain s where s: "run_refunds example_directory 5 example_steps example_shop = Inr s"
    and v: "refund_digest s = ([(''refund-1'', ''order-1'', REFUNDED, 300)], [(''REFUND:refund-1'', 300)])"
    using example_run by (cases "run_refunds example_directory 5 example_steps example_shop") auto
  have h: "refund_history example_directory s" by (rule run_refunds_history [OF example_shop_history s])
  from v obtain r where "s_refunds s = [r]" "r_id r = ''refund-1''"
    "r_orderId r = ''order-1''" "r_status r = REFUNDED" "r_amountMinor r = 300"
    by (auto simp: refund_digest_def)
  with s h show thesis by (rule that)
qed

section \<open>Properties\<close>

text \<open>
  C15. Refunds never exceed the payment. Along every history of refund operations, interleaved
  with other modules that keep succeeded payments, each refund is positive and stands against a
  succeeded payment of its order whose amount covers all refunds of the order that are
  requested, under review, approved, processing or refunded.
\<close>

theorem refund_within_payment:
  assumes "refund_history dir s" and "r \<in> set (s_refunds s)"
  shows "0 < r_amountMinor r \<and> (\<exists>p \<in> set (s_payments s). p_orderId p = r_orderId r \<and>
    p_status p = PAY_SUCCEEDED \<and> reserved s (r_orderId r) \<le> p_amountMinor p)"
  using refund_history_books [OF assms(1)] assms(2)
  by (simp add: refund_books_def refund_keys_def within_payment_def)

theorem refund_within_payment_witness:
  "\<exists>s. refund_history example_directory s \<and> reserved s ''order-1'' = 300 \<and>
     (\<exists>p \<in> set (s_payments s). p_orderId p = ''order-1'' \<and> 300 \<le> p_amountMinor p)"
proof -
  obtain s r where h: "refund_history example_directory s" and r: "s_refunds s = [r]"
    "r_orderId r = ''order-1''" "r_status r = REFUNDED" "r_amountMinor r = 300"
    by (rule example_run_ok)
  have v: "reserved s ''order-1'' = 300" using r by (simp add: reserved_def isReservingRefundStatus_def)
  from refund_within_payment [OF h, of r] r h v show ?thesis by auto
qed

text \<open>
  C16. A refund is booked exactly once, when the money went back: a refunded refund has its
  completion time and exactly one ledger entry, a refund debit of its amount on its order; any
  other refund has neither.
\<close>

theorem refund_booked_once:
  assumes "refund_history dir s" and "r \<in> set (s_refunds s)"
  shows "if r_status r = REFUNDED
    then r_completedAt r \<noteq> None \<and>
      (\<exists>e. filter (\<lambda>e. le_reference e = ''REFUND:'' @ r_id r) (s_ledger s) = [e] \<and>
         le_type e = LEDGER_TYPE_REFUND \<and> le_direction e = DEBIT \<and>
         le_amountMinor e = r_amountMinor r \<and> le_orderId e = Some (r_orderId r))
    else r_completedAt r = None \<and>
      filter (\<lambda>e. le_reference e = ''REFUND:'' @ r_id r) (s_ledger s) = []"
proof -
  have "refund_booked s r" using refund_history_books [OF assms(1)] assms(2) by (simp add: refund_books_def)
  moreover have "refund_reference (r_id r) = ''REFUND:'' @ r_id r" by (simp add: refund_reference_def)
  ultimately show ?thesis unfolding refund_booked_def booked_right_def entries_of_def by (simp only:)
qed

theorem refund_booked_once_witness:
  "\<exists>s r e. refund_history example_directory s \<and> s_refunds s = [r] \<and> r_status r = REFUNDED \<and>
     filter (\<lambda>e. le_reference e = ''REFUND:refund-1'') (s_ledger s) = [e] \<and> le_amountMinor e = 300"
proof -
  obtain s r where h: "refund_history example_directory s" and r: "s_refunds s = [r]" "r_id r = ''refund-1''"
    "r_status r = REFUNDED" "r_amountMinor r = 300"
    by (rule example_run_ok)
  from refund_booked_once [OF h, of r] r have
    "\<exists>e. filter (\<lambda>e. le_reference e = ''REFUND:refund-1'') (s_ledger s) = [e] \<and> le_amountMinor e = 300"
    by auto
  with h r show ?thesis by blast
qed

text \<open>
  C17. Every refund operation that succeeds does one of the five things the abstract machine
  allows: nothing, request one refund within what is left of a succeeded payment, move one
  refund along an allowed edge, confirm an approved manual refund and book it, or book a
  refunded one again.
\<close>

theorem run_refund_refines:
  assumes "refund_history dir s" and "fresh_for c s" and "run_refund dir now c s = Inr s'"
  shows "refund_spec s s'"
  using refund_history_books [OF assms(1)] run_refund_spec [OF _ assms(2,3)]
  by (simp add: refund_books_def)

theorem run_refund_refines_witness:
  "\<exists>s'. run_refund example_directory 5 (CreateRefund ''refund-1'' (example_refund_command 300)) example_shop = Inr s'
     \<and> refund_spec example_shop s'"
proof -
  have "map_sum id refund_digest (run_refund example_directory 5
      (CreateRefund ''refund-1'' (example_refund_command 300)) example_shop) =
      Inr ([(''refund-1'', ''order-1'', REQUESTED, 300)], [])" by code_simp
  then obtain s' where s': "run_refund example_directory 5
      (CreateRefund ''refund-1'' (example_refund_command 300)) example_shop = Inr s'"
    by (cases "run_refund example_directory 5
      (CreateRefund ''refund-1'' (example_refund_command 300)) example_shop") auto
  have "fresh_for (CreateRefund ''refund-1'' (example_refund_command 300)) example_shop"
    by (simp add: example_shop_def)
  from run_refund_refines [OF example_shop_history this s'] s' show ?thesis by blast
qed

text \<open>
  Refunded, rejected and failed refunds are final: no operation, on that refund or any
  other, changes such a row again.
\<close>

theorem refund_terminal_final:
  assumes "refund_history dir s" and "fresh_for c s" and "run_refund dir now c s = Inr s'"
    and "r \<in> set (s_refunds s)" and "r_status r \<in> {REFUNDED, REJECTED, R_FAILED}"
  shows "r \<in> set (s_refunds s')"
proof -
  have k: "refund_keys s" using refund_history_books [OF assms(1)] by (simp add: refund_books_def)
  from run_refund_spec [OF k assms(2,3)] show ?thesis
  proof cases
    case stay
    with assms(4) show ?thesis by (simp add: same_money_simps)
  next
    case (again s1 r newId now e es)
    with assms(4) show ?thesis by (simp add: same_money_simps)
  qed (use assms(4,5) in auto)
qed

theorem refund_terminal_final_witness:
  "\<exists>s r s'. run_refund example_directory 9 (CreateRefund ''refund-2'' (example_refund_command 600)) s = Inr s'
     \<and> s_refunds s = [r] \<and> r \<in> set (s_refunds s')"
proof -
  obtain s r where run: "run_refunds example_directory 5 example_steps example_shop = Inr s"
    and h: "refund_history example_directory s" and r: "s_refunds s = [r]" "r_id r = ''refund-1''"
    "r_status r = REFUNDED"
    by (rule example_run_ok)
  have "map_sum id refund_digest (ebind (run_refunds example_directory 5 example_steps example_shop)
      (\<lambda>s. run_refund example_directory 9 (CreateRefund ''refund-2'' (example_refund_command 600)) s)) =
      Inr ([(''refund-1'', ''order-1'', REFUNDED, 300), (''refund-2'', ''order-1'', REQUESTED, 600)],
        [(''REFUND:refund-1'', 300)])" by code_simp
  then obtain s' where s': "run_refund example_directory 9
      (CreateRefund ''refund-2'' (example_refund_command 600)) s = Inr s'"
    unfolding run ebind.simps
    by (cases "run_refund example_directory 9 (CreateRefund ''refund-2'' (example_refund_command 600)) s") auto
  have "fresh_for (CreateRefund ''refund-2'' (example_refund_command 600)) s" by (simp add: r)
  from refund_terminal_final [OF h this s', of r] r s' show ?thesis by auto
qed

text \<open>
  The automatic refund intent of an order that was paid and ends unfulfilled covers all the
  money: when a new one is made, the refunds of the order then reserve exactly the payment's
  amount. Asking again, whoever asks and for whatever automatic reason, answers with that same
  refund and adds none.
\<close>

theorem refund_intent_covers:
  assumes "refund_history dir s"
    and "ensureRefundIntentInTx now newId ord origin reason note s = Inr (v, s')" and "in_created v"
    and "isPaidTerminalRefundOrigin origin'"
  shows "(\<exists>p \<in> set (s_payments s'). p_orderId p = ord \<and> p_status p = PAY_SUCCEEDED \<and>
      reserved s' ord = p_amountMinor p) \<and>
    (\<exists>v' s''. ensureRefundIntentInTx now' newId' ord origin' reason' note' s' = Inr (v', s'') \<and>
      in_refundId v' = in_refundId v \<and> in_created v' = False \<and> s_refunds s'' = s_refunds s')"
proof
  have k: "refund_keys s" by (rule refund_booksD(1) [OF refund_history_books [OF assms(1)]])
  obtain o' p sn r where p: "t_find p_orderId ord (s_payments s) = Some p"
    and st: "requireRefundableState p (context_of o' p sn) = Inr ()"
    and r: "r_status r = REQUESTED" "r_orderId r = ord" "r_amountMinor r = p_amountMinor p - reserved s ord"
    and s': "s' = (touch now (p_id p) s)\<lparr>s_refunds := s_refunds s @ [r]\<rparr>"
    by (rule ensureRefundIntent_created [OF k assms(2,3)]) blast
  have "t_find p_orderId ord (s_payments s') = Some (locked_payment now p)"
    using touch_payment [OF p] by (simp add: s')
  moreover have "reserved s' ord = p_amountMinor p"
    using r reserved_append [of "touch now (p_id p) s" r ord]
    by (simp add: s' isReservingRefundStatus_def)
  ultimately show "\<exists>p \<in> set (s_payments s'). p_orderId p = ord \<and> p_status p = PAY_SUCCEEDED \<and>
      reserved s' ord = p_amountMinor p"
    using st by (intro bexI [of _ "locked_payment now p"])
      (auto dest!: t_find_Some simp: requireRefundableState_ok)
  show "\<exists>v' s''. ensureRefundIntentInTx now' newId' ord origin' reason' note' s' = Inr (v', s'') \<and>
      in_refundId v' = in_refundId v \<and> in_created v' = False \<and> s_refunds s'' = s_refunds s'"
    by (rule refund_intent_again [OF k assms(2,3,4)])
qed

theorem refund_intent_covers_witness:
  "\<exists>v s'. ensureRefundIntentInTx 5 ''r1'' ''order-1'' CUSTOMER_CANCELLATION ''cancelled'' None example_shop
       = Inr (v, s') \<and> in_refundAmountMinor v = ''900'' \<and> reserved s' ''order-1'' = 900 \<and>
     (\<exists>v' s''. ensureRefundIntentInTx 6 ''r2'' ''order-1'' LATE_PAYMENT_SUCCESS ''late'' None s' = Inr (v', s'')
        \<and> in_refundId v' = ''r1'' \<and> s_refunds s'' = s_refunds s')"
proof -
  let ?run = "ensureRefundIntentInTx 5 ''r1'' ''order-1'' CUSTOMER_CANCELLATION ''cancelled'' None example_shop"
  have "map_sum id (\<lambda>(v, s'). (in_refundId v, in_created v, in_refundAmountMinor v, reserved s' ''order-1'')) ?run =
      Inr (''r1'', True, ''900'', 900)" by code_simp
  then obtain v s' where s': "?run = Inr (v, s')" and v: "in_created v" "in_refundId v = ''r1''"
    "in_refundAmountMinor v = ''900''" "reserved s' ''order-1'' = 900"
    by (cases ?run) auto
  have o': "isPaidTerminalRefundOrigin LATE_PAYMENT_SUCCESS" by (simp add: isPaidTerminalRefundOrigin_def)
  from refund_intent_covers [OF example_shop_history s' v(1) o', of 6 "''r2''" "''late''" None] s' v
  show ?thesis by auto
qed

text \<open>
  An administrator's refund is accepted exactly when it should be: a positive amount within
  what the order's other live refunds leave of a succeeded payment that matches the order's
  snapshot, an order that has ended, a reason, a known administrator, and the manual method
  that goes with the payment's.
\<close>

theorem createRefund_exactly_when:
  assumes "refund_history dir s"
  shows "(\<exists>r s'. createRefundInTx dir now newId cmd s = Inr (r, s')) \<longleftrightarrow>
    (\<exists>n ord p sn. cmd_amountMinor cmd = JInt n \<and> 0 < n \<and> n \<le> MAX_SAFE_INTEGER \<and>
       js_trim (cmd_reason cmd) \<noteq> [] \<and> length (js_trim (cmd_reason cmd)) \<le> REFUND_REASON_MAX_LENGTH \<and>
       dir_isAdmin dir (cmd_requestedByAdminId cmd) \<and>
       t_find o_id (cmd_orderId cmd) (s_orders s) = Some ord \<and>
       t_find p_orderId (cmd_orderId cmd) (s_payments s) = Some p \<and>
       t_find sn_orderId (cmd_orderId cmd) (s_snapshots s) = Some sn \<and>
       isRefundEligibleOrderStatus (o_status ord) \<and> p_status p = PAY_SUCCEEDED \<and>
       p_currency p = ''DZD'' \<and> sn_currency sn = ''DZD'' \<and>
       sn_customerPayableMinor sn = p_amountMinor p \<and>
       reserved s (cmd_orderId cmd) + n \<le> p_amountMinor p \<and>
       (p_method p = PAYMENT_METHOD_COD \<and> cmd_refundMethod cmd = MANUAL_COD \<or>
        p_method p = PAYMENT_METHOD_ELECTRONIC \<and> cmd_refundMethod cmd = MANUAL_OTHER))"
    (is "?l \<longleftrightarrow> ?r")
proof
  have k: "refund_keys s" by (rule refund_booksD(1) [OF refund_history_books [OF assms]])
  have d: "distinct (map p_id (s_payments s))" by (rule refund_keysD(1) [OF k])
  have kt: "refund_keys (touch now i s)" for i
    using k by (simp add: refund_keys_def touch_orders)
  have cx: "cx_orderStatus (context_of ord p sn) = o_status ord"
    "cx_snapshotPayableMinor (context_of ord p sn) = sn_customerPayableMinor sn"
    "cx_snapshotCurrency (context_of ord p sn) = sn_currency sn" for ord p sn
    by (simp_all add: context_of_def)
  {
    assume ?l
    then obtain r s' where c: "createRefundInTx dir now newId cmd s = Inr (r, s')" by blast
    obtain n q f s1 cap where a: "cmd_amountMinor cmd = JInt n" "0 < n" "n \<le> MAX_SAFE_INTEGER"
      "js_trim (cmd_reason cmd) \<noteq> []" "length (js_trim (cmd_reason cmd)) \<le> REFUND_REASON_MAX_LENGTH"
      "dir_isAdmin dir (cmd_requestedByAdminId cmd)"
      and lc: "lockedContext now (cmd_orderId cmd) s = Inr (q, f, s1)"
      and st: "requireRefundableState q f = Inr ()"
      and cap: "refundCapacity (cmd_orderId cmd) q s1 = Inr cap" "n \<le> rc_remainingRefundableMinor cap"
      and bind: "resolveRefundMethodBinding (cmd_refundMethod cmd) (p_method q) None = Inr (r_refundMethod r)"
      using c by (auto simp: createRefundInTx_def ebind_Inr emap_Inr requirePositiveRefundAmount_ok
          requireRefundReason_ok requireTrustedAdmin_def requireRefundableAmount_ok insertRefund_ok
          split: if_splits)
    obtain ord p sn where f: "t_find o_id (cmd_orderId cmd) (s_orders s) = Some ord"
      "t_find p_orderId (cmd_orderId cmd) (s_payments s) = Some p"
      "t_find sn_orderId (cmd_orderId cmd) (s_snapshots s) = Some sn"
      and nn: "0 \<le> p_amountMinor p"
      and q: "q = locked_payment now p" and fc: "f = context_of ord p sn" and s1: "s1 = touch now (p_id p) s"
      using lc unfolding lockedContext_iff [OF d] by blast
    from refundCapacity_some [of "touch now (p_id p) s" q "cmd_orderId cmd", OF kt] cap nn
    have "n \<le> max 0 (p_amountMinor p - reserved s (cmd_orderId cmd))" by (auto simp: q s1)
    with a(2) have "reserved s (cmd_orderId cmd) + n \<le> p_amountMinor p" by auto
    with a f st bind show ?r
      by (intro exI [of _ n] exI [of _ ord] exI [of _ p] exI [of _ sn])
        (simp add: requireRefundableState_ok q fc cx resolveRefundMethodBinding_ok)
  }
  {
    assume ?r
    then obtain n ord p sn where a: "cmd_amountMinor cmd = JInt n" "0 < n" "n \<le> MAX_SAFE_INTEGER"
       "js_trim (cmd_reason cmd) \<noteq> []" "length (js_trim (cmd_reason cmd)) \<le> REFUND_REASON_MAX_LENGTH"
       "dir_isAdmin dir (cmd_requestedByAdminId cmd)"
      and f: "t_find o_id (cmd_orderId cmd) (s_orders s) = Some ord"
       "t_find p_orderId (cmd_orderId cmd) (s_payments s) = Some p"
       "t_find sn_orderId (cmd_orderId cmd) (s_snapshots s) = Some sn"
      and st: "isRefundEligibleOrderStatus (o_status ord)" "p_status p = PAY_SUCCEEDED"
       "p_currency p = ''DZD''" "sn_currency sn = ''DZD''" "sn_customerPayableMinor sn = p_amountMinor p"
      and cap: "reserved s (cmd_orderId cmd) + n \<le> p_amountMinor p"
      and me: "p_method p = PAYMENT_METHOD_COD \<and> cmd_refundMethod cmd = MANUAL_COD \<or>
        p_method p = PAYMENT_METHOD_ELECTRONIC \<and> cmd_refundMethod cmd = MANUAL_OTHER"
      by blast
    have "0 \<le> reserved s (cmd_orderId cmd)"
      using refund_keysD(4) [OF k] unfolding reserved_def by (auto intro!: sum_list_nonneg simp: less_imp_le)
    with cap a(2) have nn: "0 \<le> p_amountMinor p" by simp
    have lc: "lockedContext now (cmd_orderId cmd) s =
        Inr (locked_payment now p, context_of ord p sn, touch now (p_id p) s)"
      by (rule lockedContext_found [OF d f]) (use nn st in simp_all)
    have rs: "requireRefundableState (locked_payment now p) (context_of ord p sn) = Inr ()"
      using st nn by (simp add: requireRefundableState_ok cx)
    obtain c where c: "refundCapacity (cmd_orderId cmd) (locked_payment now p) (touch now (p_id p) s) = Inr c"
      "rc_remainingRefundableMinor c = max 0 (p_amountMinor p - reserved s (cmd_orderId cmd))"
      using refundCapacity_some [of "touch now (p_id p) s" "locked_payment now p" "cmd_orderId cmd", OF kt] nn by auto
    have ra: "requireRefundableAmount (cmd_amountMinor cmd) (rc_remainingRefundableMinor c) = Inr ()"
      using a cap by (simp add: requireRefundableAmount_ok c(2))
    have bind: "resolveRefundMethodBinding (cmd_refundMethod cmd) (p_method (locked_payment now p)) None
        = Inr (cmd_refundMethod cmd)"
      using me by (simp add: resolveRefundMethodBinding_ok)
    have pos: "requirePositiveRefundAmount (cmd_amountMinor cmd) = Inr (cmd_amountMinor cmd)"
      using a by (simp add: requirePositiveRefundAmount_ok)
    have rea: "requireRefundReason (cmd_reason cmd) = Inr (js_trim (cmd_reason cmd))"
      using a by (simp add: requireRefundReason_ok)
    have "cmd_refundMethod cmd \<noteq> ORIGINAL_PAYMENT" using me by auto
    with a(6) show ?l
      by (auto simp: createRefundInTx_def pos rea requireTrustedAdmin_def lc rs c(1) ra bind [simplified] insertRefund_def)
  }
qed

theorem createRefund_exactly_when_witness:
  "(\<exists>r s'. createRefundInTx example_directory 5 ''r'' (example_refund_command 900) example_shop = Inr (r, s'))
   \<and> \<not> (\<exists>r s'. createRefundInTx example_directory 5 ''r'' (example_refund_command 901) example_shop = Inr (r, s'))"
proof -
  note iff = createRefund_exactly_when [OF example_shop_history [of example_directory], of 5 "''r''"]
  have t: "js_trim ''damaged'' = ''damaged''" by code_simp
  have z: "reserved example_shop ''order-1'' = 0" by (simp add: reserved_def example_shop_def)
  show ?thesis
    unfolding iff
    by (simp add: example_refund_command_def t z example_shop_rows MAX_SAFE_INTEGER_def
        REFUND_REASON_MAX_LENGTH_def example_directory_def isRefundEligibleOrderStatus_def)
      (simp add: example_order_def example_payment_def example_financials_def)
qed

end
