(* ===== verification/Order_Flow.thy ===== *)
theory Order_Flow
  imports Refund_Books
begin

text \<open>
  The life of an order after it is placed:
  \<open>modules/orders/application/merchant-order.service.ts\<close> (accept, reject, start, ready, and the
  preparation estimate), the customer's cancellation in \<open>order.service.ts\<close>, the conditional
  updates of \<open>infrastructure/order.repository.ts\<close> behind them, and the policies
  \<open>customer-order-cancellation.policy.ts\<close>, \<open>preparation-estimate.policy.ts\<close> and
  \<open>merchant-delivery-impact.ts\<close>. An operation is one transaction: \<open>locked\<close> is the clock when the
  order is locked and \<open>now\<close> when the update is made.
\<close>

section \<open>Policies\<close>

definition PREPARATION_MINUTES_MIN :: int where "PREPARATION_MINUTES_MIN = 5"
definition PREPARATION_MINUTES_MAX :: int where "PREPARATION_MINUTES_MAX = 120"
definition PREPARATION_ADD_MINUTES_MIN :: int where "PREPARATION_ADD_MINUTES_MIN = 1"
definition PREPARATION_ADD_MINUTES_MAX :: int where "PREPARATION_ADD_MINUTES_MAX = 60"
definition PREPARATION_ESTIMATE_REASON_MAX :: nat where "PREPARATION_ESTIMATE_REASON_MAX = 255"
definition MERCHANT_REJECTION_REASON_MAX_LENGTH :: nat where
  "MERCHANT_REJECTION_REASON_MAX_LENGTH = 255"
definition CUSTOMER_CANCELLATION_REASON_MAX_LENGTH :: nat where
  "CUSTOMER_CANCELLATION_REASON_MAX_LENGTH = 255"

definition isEligibleFulfillmentForPrepEstimateUpdate ::
  "fulfillment_status \<Rightarrow> order_status \<Rightarrow> bool" where
  "isEligibleFulfillmentForPrepEstimateUpdate fulfillmentStatus orderStatus =
     (if orderStatus = O_CANCELLED \<or> orderStatus = O_FAILED then False
      else fulfillmentStatus = ACCEPTED \<or> fulfillmentStatus = PREPARING)"

definition computeEstimatedReadyAt :: "instant \<Rightarrow> int \<Rightarrow> instant" where
  "computeEstimatedReadyAt acceptInstant preparationMinutes = acceptInstant + preparationMinutes * 60000"

definition deriveIsPreparationLate ::
  "stamp option \<Rightarrow> fulfillment_status \<Rightarrow> order_status \<Rightarrow> instant \<Rightarrow> bool" where
  "deriveIsPreparationLate estimatedReadyAt fulfillmentStatus orderStatus now =
     (case estimatedReadyAt of
        None \<Rightarrow> False
      | Some ready \<Rightarrow>
          if orderStatus = O_CANCELLED \<or> orderStatus = O_FAILED \<or> orderStatus = O_COMPLETED then False
          else if fulfillmentStatus \<noteq> ACCEPTED \<and> fulfillmentStatus \<noteq> PREPARING then False
          else (case ready of None \<Rightarrow> False | Some ms \<Rightarrow> ms < now))"

datatype delivery_impact =
    NOT_APPLICABLE | DELIVERY_TIMING_UNAVAILABLE | MAY_DELAY_DRIVER_ASSIGNMENT | MAY_DELAY_PICKUP
  | DRIVER_WAITING | RESOLVED

definition deriveMerchantDeliveryImpact ::
  "bool \<Rightarrow> fulfillment_status \<Rightarrow> order_status \<Rightarrow> delivery_status option \<Rightarrow> delivery_impact" where
  "deriveMerchantDeliveryImpact isPreparationLate fulfillment orderStatus delivery =
     (if orderStatus = O_CANCELLED \<or> orderStatus = O_FAILED \<or> orderStatus = O_COMPLETED then RESOLVED
      else if delivery \<in> {Some PICKED_UP, Some IN_TRANSIT, Some ARRIVED_CUSTOMER, Some DELIVERED}
      then RESOLVED
      else if delivery = Some D_FAILED \<or> delivery = Some D_CANCELLED then DELIVERY_TIMING_UNAVAILABLE
      else if delivery = Some AT_PICKUP then DRIVER_WAITING
      else if delivery = Some DRIVER_ASSIGNED \<or> delivery = Some TO_PICKUP
      then (if isPreparationLate \<or> fulfillment \<noteq> READY then MAY_DELAY_PICKUP else RESOLVED)
      else if delivery = Some SEARCHING_DRIVER then MAY_DELAY_DRIVER_ASSIGNMENT
      else if fulfillment = ACCEPTED \<or> fulfillment = PREPARING
      then (if isPreparationLate then MAY_DELAY_DRIVER_ASSIGNMENT else DELIVERY_TIMING_UNAVAILABLE)
      else if fulfillment = READY \<and> delivery = None then MAY_DELAY_DRIVER_ASSIGNMENT
      else DELIVERY_TIMING_UNAVAILABLE)"

definition derivePreparationDelayMinutes :: "bool \<Rightarrow> stamp option \<Rightarrow> instant \<Rightarrow> int option" where
  "derivePreparationDelayMinutes isPreparationLate estimatedReadyAt asOf =
     (if \<not> isPreparationLate then None
      else case estimatedReadyAt of
             None \<Rightarrow> None
           | Some None \<Rightarrow> None
           | Some (Some ready) \<Rightarrow>
               let ms = asOf - ready in if ms \<le> 0 then None else Some (ms div 60000))"

datatype cancellation_decision =
    CD_APPLY | IDEMPOTENT_CANCELLED | DENIED_FULFILLMENT_STARTED | DENIED_TERMINAL | DENIED_STATE

definition inspectCustomerCancellation ::
  "order_status \<Rightarrow> fulfillment_status \<Rightarrow> cancellation_decision" where
  "inspectCustomerCancellation status fulfillmentStatus =
     (if status = O_CANCELLED then IDEMPOTENT_CANCELLED
      else if status = O_CREATED \<and> fulfillmentStatus = PENDING_ACCEPTANCE then CD_APPLY
      else if fulfillmentStatus \<noteq> PENDING_ACCEPTANCE then DENIED_FULFILLMENT_STARTED
      else if status = O_COMPLETED \<or> status = O_FAILED \<or> status = O_CONFIRMED \<or> status = O_ACTIVE
      then DENIED_TERMINAL
      else DENIED_STATE)"

definition assertCustomerCancellationAllowed :: "cancellation_decision \<Rightarrow> order_error + unit" where
  "assertCustomerCancellationAllowed decision =
     (if decision = CD_APPLY \<or> decision = IDEMPOTENT_CANCELLED then Inr ()
      else Inl ORDER_CANCELLATION_NOT_ALLOWED)"

definition containsForbiddenReasonChars :: "string \<Rightarrow> bool" where
  "containsForbiddenReasonChars value =
     list_ex (\<lambda>c. (of_char c :: nat) < 32 \<or> (of_char c :: nat) = 127
                  \<or> c = CHR ''<'' \<or> c = CHR ''>'') value"

definition normalizeCustomerCancellationReason :: "string option \<Rightarrow> order_error + string" where
  "normalizeCustomerCancellationReason raw =
     (case raw of
        None \<Rightarrow> Inr ''Customer cancelled before Merchant acceptance''
      | Some r \<Rightarrow>
          let trimmed = js_trim r
          in if trimmed = [] then Inr ''Customer cancelled before Merchant acceptance''
             else if CUSTOMER_CANCELLATION_REASON_MAX_LENGTH < length trimmed
             then Inl ORDER_CANCELLATION_REASON_INVALID
             else if containsForbiddenReasonChars trimmed then Inl ORDER_CANCELLATION_REASON_INVALID
             else Inr trimmed)"

definition electronicPaymentRequiresRefundIntent :: "payment_status \<Rightarrow> bool" where
  "electronicPaymentRequiresRefundIntent s \<longleftrightarrow> s = PAY_SUCCEEDED"

definition electronicPaymentOpenForLateSuccess :: "string \<Rightarrow> payment_status \<Rightarrow> bool" where
  "electronicPaymentOpenForLateSuccess m s \<longleftrightarrow>
     m = PAYMENT_METHOD_ELECTRONIC \<and> (s = PAY_PENDING \<or> s = PAY_PROCESSING)"

definition MERCHANT_CANCELLATION_REASON_CODES :: "string list" where
  "MERCHANT_CANCELLATION_REASON_CODES =
     [''PRODUCT_UNAVAILABLE'', ''TOO_BUSY'', ''CLOSING_SOON'', ''OTHER'']"

definition isMerchantCancellationReasonCode :: "string option \<Rightarrow> bool" where
  "isMerchantCancellationReasonCode v \<longleftrightarrow>
     (case v of None \<Rightarrow> False | Some c \<Rightarrow> c \<in> set MERCHANT_CANCELLATION_REASON_CODES)"

section \<open>Conditional updates\<close>

text \<open>
  \<open>Order.where({ id, status, fulfillmentStatus, updatedAt }).update(f)\<close>, the optimistic update of
  every transition.
\<close>

definition updateOrderIf ::
  "string \<Rightarrow> order_status \<Rightarrow> fulfillment_status \<Rightarrow> instant \<Rightarrow> (order_row \<Rightarrow> order_row) \<Rightarrow> shop \<Rightarrow> shop" where
  "updateOrderIf orderId status fulfillment expectedUpdatedAt f s =
     s\<lparr>s_orders := t_update (\<lambda>o'. o_id o' = orderId \<and> o_status o' = status
          \<and> o_fulfillmentStatus o' = fulfillment \<and> o_updatedAt o' = expectedUpdatedAt) f (s_orders s)\<rparr>"

definition insertOrderEvent ::
  "string \<Rightarrow> string \<Rightarrow> string \<Rightarrow> string \<Rightarrow> order_status option \<Rightarrow> order_status \<Rightarrow> instant \<Rightarrow> shop \<Rightarrow> shop" where
  "insertOrderEvent orderId actorType actorId eventType fromStatus toStatus now s =
     s\<lparr>s_events := s_events s @ [\<lparr>ev_orderId = orderId, ev_eventType = eventType,
        ev_actorType = actorType, ev_actorId = actorId, ev_fromStatus = fromStatus,
        ev_toStatus = toStatus, ev_occurredAt = now\<rparr>]\<rparr>"

text \<open>\<open>OrderCancellation.orderId\<close> is unique.\<close>

definition insertCancellation :: "cancellation_row \<Rightarrow> shop \<Rightarrow> app_error + shop" where
  "insertCancellation row s =
     (if ca_orderId row \<in> ca_orderId ` set (s_cancellations s) then Inl UniqueViolationE
      else Inr (s\<lparr>s_cancellations := s_cancellations s @ [row]\<rparr>))"

text \<open>\<open>(orderId, revisionNumber)\<close> is unique.\<close>

definition insertRevision :: "estimate_revision \<Rightarrow> shop \<Rightarrow> app_error + shop" where
  "insertRevision row s =
     (if (er_orderId row, er_revisionNumber row)
           \<in> (\<lambda>r. (er_orderId r, er_revisionNumber r)) ` set (s_revisions s)
      then Inl UniqueViolationE
      else Inr (s\<lparr>s_revisions := s_revisions s @ [row]\<rparr>))"

definition findPaymentByOrderId :: "string \<Rightarrow> shop \<Rightarrow> payment_row option" where
  "findPaymentByOrderId orderId s = t_find p_orderId orderId (s_payments s)"

definition applyMerchantAccept ::
  "string \<Rightarrow> string \<Rightarrow> instant \<Rightarrow> instant \<Rightarrow> int option \<Rightarrow> shop \<Rightarrow> app_error + bool \<times> shop" where
  "applyMerchantAccept orderId actorAccountId expectedUpdatedAt now preparationMinutes s =
     (let s1 = updateOrderIf orderId O_CREATED PENDING_ACCEPTANCE expectedUpdatedAt
           (\<lambda>o'. let o'' = o'\<lparr>o_status := O_CONFIRMED, o_fulfillmentStatus := ACCEPTED,
                             o_confirmedAt := Some now, o_updatedAt := now\<rparr>
                 in case preparationMinutes of
                      None \<Rightarrow> o''
                    | Some m \<Rightarrow> o''\<lparr>o_preparationMinutes := Some m,
                        o_originalPreparationMinutes := Some m,
                        o_estimatedReadyAt := Some (computeEstimatedReadyAt now m),
                        o_originalEstimatedReadyAt := Some (computeEstimatedReadyAt now m),
                        o_preparationEstimateVersion := 1\<rparr>) s
      in case t_find o_id orderId (s_orders s1) of
           None \<Rightarrow> Inr (False, s1)
         | Some row \<Rightarrow>
             if o_status row \<noteq> O_CONFIRMED \<or> o_fulfillmentStatus row \<noteq> ACCEPTED then Inr (False, s1)
             else let s2 = insertOrderEvent orderId ''MERCHANT'' actorAccountId ''MERCHANT_ACCEPTED''
                             (Some O_CREATED) O_CONFIRMED now s1
                  in case (preparationMinutes, o_estimatedReadyAt row) of
                       (Some m, Some ready) \<Rightarrow>
                         ebind (insertRevision \<lparr>er_orderId = orderId, er_revisionNumber = 1,
                             er_previousEstimatedReadyAt = None, er_newEstimatedReadyAt = ready,
                             er_addMinutes = m, er_reason = None, er_actorAccountId = actorAccountId\<rparr> s2)
                           (\<lambda>s3. Inr (True, s3))
                     | _ \<Rightarrow> Inr (True, s2))"

datatype estimate_result = ER_OK | ER_CONFLICT | ER_NOT_ALLOWED | ER_NO_ESTIMATE

definition applyPreparationEstimateAdd ::
  "string \<Rightarrow> string \<Rightarrow> instant \<Rightarrow> int \<Rightarrow> int \<Rightarrow> string option \<Rightarrow> instant \<Rightarrow> shop \<Rightarrow>
   app_error + estimate_result \<times> shop" where
  "applyPreparationEstimateAdd orderId actorAccountId expectedUpdatedAt expectedEstimateVersion
       addMinutes reason now s =
     (case t_find o_id orderId (s_orders s) of
        None \<Rightarrow> Inr (ER_NOT_ALLOWED, s)
      | Some existing \<Rightarrow>
          if o_status existing = O_CANCELLED \<or> o_status existing = O_FAILED
             \<or> o_status existing = O_COMPLETED then Inr (ER_NOT_ALLOWED, s)
          else if o_fulfillmentStatus existing \<noteq> ACCEPTED \<and> o_fulfillmentStatus existing \<noteq> PREPARING
          then Inr (ER_NOT_ALLOWED, s)
          else (case o_estimatedReadyAt existing of
             None \<Rightarrow> Inr (ER_NO_ESTIMATE, s)
           | Some previous \<Rightarrow>
               if o_preparationEstimateVersion existing < 1 then Inr (ER_NO_ESTIMATE, s)
               else if o_preparationEstimateVersion existing \<noteq> expectedEstimateVersion
               then Inr (ER_CONFLICT, s)
               else let nextVersion = expectedEstimateVersion + 1;
                  s1 = s\<lparr>s_orders := t_update (\<lambda>o'. o_id o' = orderId
                         \<and> o_updatedAt o' = expectedUpdatedAt
                         \<and> o_preparationEstimateVersion o' = expectedEstimateVersion)
                       (\<lambda>o'. o'\<lparr>o_estimatedReadyAt := Some (previous + addMinutes * 60000),
                              o_preparationEstimateVersion := nextVersion, o_updatedAt := now\<rparr>)
                       (s_orders s)\<rparr>
               in (case t_find o_id orderId (s_orders s1) of
                     None \<Rightarrow> Inr (ER_CONFLICT, s1)
                   | Some row \<Rightarrow>
                       if o_preparationEstimateVersion row \<noteq> nextVersion then Inr (ER_CONFLICT, s1)
                       else (case o_estimatedReadyAt row of
                               None \<Rightarrow> Inr (ER_CONFLICT, s1)
                             | Some ready \<Rightarrow>
                                 ebind (insertRevision \<lparr>er_orderId = orderId,
                                     er_revisionNumber = nextVersion,
                                     er_previousEstimatedReadyAt = Some previous,
                                     er_newEstimatedReadyAt = ready, er_addMinutes = addMinutes,
                                     er_reason = reason, er_actorAccountId = actorAccountId\<rparr> s1)
                                   (\<lambda>s2. Inr (ER_OK, s2))))))"

definition applyStartPreparation ::
  "string \<Rightarrow> string \<Rightarrow> instant \<Rightarrow> instant \<Rightarrow> shop \<Rightarrow> bool \<times> shop" where
  "applyStartPreparation orderId actorAccountId expectedUpdatedAt now s =
     (let s1 = updateOrderIf orderId O_CONFIRMED ACCEPTED expectedUpdatedAt
           (\<lambda>o'. o'\<lparr>o_status := O_ACTIVE, o_fulfillmentStatus := PREPARING, o_updatedAt := now\<rparr>) s
      in case t_find o_id orderId (s_orders s1) of
           None \<Rightarrow> (False, s1)
         | Some row \<Rightarrow>
             if o_status row \<noteq> O_ACTIVE \<or> o_fulfillmentStatus row \<noteq> PREPARING then (False, s1)
             else (True, insertOrderEvent orderId ''MERCHANT'' actorAccountId ''PREPARATION_STARTED''
                           (Some O_CONFIRMED) O_ACTIVE now s1))"

definition applyMarkReady ::
  "string \<Rightarrow> string \<Rightarrow> instant \<Rightarrow> instant \<Rightarrow> shop \<Rightarrow> bool \<times> shop" where
  "applyMarkReady orderId actorAccountId expectedUpdatedAt now s =
     (let s1 = updateOrderIf orderId O_ACTIVE PREPARING expectedUpdatedAt
           (\<lambda>o'. o'\<lparr>o_fulfillmentStatus := READY, o_updatedAt := now\<rparr>) s
      in case t_find o_id orderId (s_orders s1) of
           None \<Rightarrow> (False, s1)
         | Some row \<Rightarrow>
             if o_status row \<noteq> O_ACTIVE \<or> o_fulfillmentStatus row \<noteq> READY then (False, s1)
             else (True, insertOrderEvent orderId ''MERCHANT'' actorAccountId ''ORDER_READY''
                           (Some O_ACTIVE) O_ACTIVE now s1))"

text \<open>A payment that has not started is cancelled with the order; others stay as they are.\<close>

definition cancelPendingPayment :: "string \<Rightarrow> instant \<Rightarrow> shop \<Rightarrow> shop" where
  "cancelPendingPayment orderId now s =
     s\<lparr>s_payments := t_update (\<lambda>p. p_orderId p = orderId \<and> p_status p = PAY_PENDING)
         (\<lambda>p. p\<lparr>p_status := PAY_CANCELLED, p_updatedAt := now\<rparr>) (s_payments s)\<rparr>"

definition applyMerchantReject ::
  "string \<Rightarrow> string \<Rightarrow> string \<Rightarrow> instant \<Rightarrow> instant \<Rightarrow> string option \<Rightarrow> shop \<Rightarrow> app_error + bool \<times> shop" where
  "applyMerchantReject orderId actorAccountId reason expectedUpdatedAt now reasonCode s =
     (let s1 = updateOrderIf orderId O_CREATED PENDING_ACCEPTANCE expectedUpdatedAt
           (\<lambda>o'. o'\<lparr>o_status := O_CANCELLED, o_updatedAt := now\<rparr>) s
      in case t_find o_id orderId (s_orders s1) of
           None \<Rightarrow> Inr (False, s1)
         | Some row \<Rightarrow>
             if o_status row \<noteq> O_CANCELLED \<or> o_fulfillmentStatus row \<noteq> PENDING_ACCEPTANCE
             then Inr (False, s1)
             else ebind (insertCancellation \<lparr>ca_orderId = orderId, ca_reason = reason,
                    ca_reasonCode = reasonCode, ca_cancelledByAccountId = actorAccountId,
                    ca_cancelledAt = now\<rparr> s1) (\<lambda>s2.
                  Inr (True, insertOrderEvent orderId ''MERCHANT'' actorAccountId
                    ''MERCHANT_REJECTED'' (Some O_CREATED) O_CANCELLED now
                    (cancelPendingPayment orderId now s2))))"

definition applyCustomerCancel ::
  "string \<Rightarrow> string \<Rightarrow> string \<Rightarrow> instant \<Rightarrow> instant \<Rightarrow> shop \<Rightarrow> app_error + bool \<times> shop" where
  "applyCustomerCancel orderId actorAccountId reason expectedUpdatedAt now s =
     (let s1 = updateOrderIf orderId O_CREATED PENDING_ACCEPTANCE expectedUpdatedAt
           (\<lambda>o'. o'\<lparr>o_status := O_CANCELLED, o_updatedAt := now\<rparr>) s
      in case t_find o_id orderId (s_orders s1) of
           None \<Rightarrow> Inr (False, s1)
         | Some row \<Rightarrow>
             if o_status row \<noteq> O_CANCELLED \<or> o_fulfillmentStatus row \<noteq> PENDING_ACCEPTANCE
             then Inr (False, s1)
             else ebind (insertCancellation \<lparr>ca_orderId = orderId, ca_reason = reason,
                    ca_reasonCode = None, ca_cancelledByAccountId = actorAccountId,
                    ca_cancelledAt = now\<rparr> s1) (\<lambda>s2.
                  Inr (True, insertOrderEvent orderId ''CUSTOMER'' actorAccountId
                    ''CUSTOMER_CANCELLED'' (Some O_CREATED) O_CANCELLED now
                    (cancelPendingPayment orderId now s2))))"

datatype cancellation_blocker = BL_DELIVERY | BL_COD

definition findCustomerCancellationBlocker :: "string \<Rightarrow> shop \<Rightarrow> cancellation_blocker option" where
  "findCustomerCancellationBlocker orderId s =
     (case t_find d_orderId orderId (s_deliveries s) of
        Some delivery \<Rightarrow>
          if d_status delivery \<noteq> D_CANCELLED \<and> d_status delivery \<noteq> D_FAILED then Some BL_DELIVERY
          else if orderId \<in> co_orderId ` set (s_collections s) then Some BL_COD else None
      | None \<Rightarrow> if orderId \<in> co_orderId ` set (s_collections s) then Some BL_COD else None)"

section \<open>The merchant's operations\<close>

definition PAID_TERMINAL_REASON_MERCHANT_REJECT :: string where
  "PAID_TERMINAL_REASON_MERCHANT_REJECT =
     ''Merchant rejected before acceptance; refund workflow required''"

definition PAID_TERMINAL_REASON_CUSTOMER_CANCEL :: string where
  "PAID_TERMINAL_REASON_CUSTOMER_CANCEL =
     ''Customer cancelled before Merchant acceptance; refund workflow required''"

definition requireOrderCapability :: "directory \<Rightarrow> string \<Rightarrow> string \<Rightarrow> app_error + unit" where
  "requireOrderCapability dir accountId merchantId =
     (if \<not> dir_canMutateOrders dir accountId merchantId then Inl MerchantAccessE else Inr ())"

definition requireRejectionReason :: "string option \<Rightarrow> app_error + string" where
  "requireRejectionReason reason =
     (let trimmed = (case reason of None \<Rightarrow> [] | Some r \<Rightarrow> js_trim r)
      in if length trimmed < 1 \<or> MERCHANT_REJECTION_REASON_MAX_LENGTH < length trimmed
         then Inl (OrderE MERCHANT_ORDER_NOT_REJECTABLE) else Inr trimmed)"

definition normalizeReasonCode :: "string option \<Rightarrow> app_error + string option" where
  "normalizeReasonCode reasonCode =
     (if reasonCode = None then Inr None
      else if \<not> isMerchantCancellationReasonCode reasonCode
      then Inl (OrderE MERCHANT_ORDER_NOT_REJECTABLE) else Inr reasonCode)"

definition requirePreparationMinutes :: "jsnum \<Rightarrow> app_error + unit" where
  "requirePreparationMinutes minutes =
     (if \<not> isInteger minutes \<or> js_less minutes (JInt PREPARATION_MINUTES_MIN)
         \<or> js_less (JInt PREPARATION_MINUTES_MAX) minutes
      then Inl (OrderE MERCHANT_ORDER_PREP_ESTIMATE_INVALID) else Inr ())"

text \<open>The checks that open every merchant transaction: the merchant may work, and owns the order.\<close>

definition lockMerchantOrder ::
  "directory \<Rightarrow> instant \<Rightarrow> string \<Rightarrow> string \<Rightarrow> shop \<Rightarrow> app_error + order_row \<times> shop" where
  "lockMerchantOrder dir locked merchantId orderId s =
     (if \<not> dir_merchantApproved dir merchantId then Inl MerchantStatusRestrictedE
      else case t_find o_id orderId (s_orders s) of
        None \<Rightarrow> Inl (OrderE MERCHANT_ORDER_NOT_FOUND)
      | Some row \<Rightarrow>
          if dir_merchantOfBranch dir (o_merchantBranchId row) \<noteq> Some merchantId
          then Inl (OrderE MERCHANT_ORDER_NOT_FOUND)
          else (case lockOrder locked orderId s of
                  (None, _) \<Rightarrow> Inl (OrderE MERCHANT_ORDER_NOT_FOUND)
                | (Some l, s1) \<Rightarrow>
                    if dir_merchantOfBranch dir (o_merchantBranchId l) \<noteq> Some merchantId
                    then Inl (OrderE MERCHANT_ORDER_NOT_FOUND) else Inr (l, s1)))"

text \<open>The refund of a paid order that the merchant or the customer ends.\<close>

definition refundIfPaid ::
  "instant \<Rightarrow> string \<Rightarrow> string \<Rightarrow> refund_origin \<Rightarrow> string \<Rightarrow> shop \<Rightarrow>
   app_error + refund_intent option \<times> shop" where
  "refundIfPaid now newId orderId origin reason s =
     (case findPaymentByOrderId orderId s of
        None \<Rightarrow> Inr (None, s)
      | Some p \<Rightarrow>
          if \<not> electronicPaymentRequiresRefundIntent (p_status p) then Inr (None, s)
          else ebind (ensureRefundIntentInTx now newId orderId origin reason None s)
                 (\<lambda>(intent, s'). Inr (Some intent, s')))"

definition transition ::
  "directory \<Rightarrow> instant \<Rightarrow> instant \<Rightarrow> string \<Rightarrow> string \<Rightarrow> string \<Rightarrow> string \<Rightarrow> merchant_action \<Rightarrow>
   string option \<Rightarrow> int option \<Rightarrow> string option \<Rightarrow> shop \<Rightarrow> app_error + shop" where
  "transition dir locked now newId accountId merchantId orderId action reason preparationMinutes
       reasonCode s =
     ebind (requireOrderCapability dir accountId merchantId) (\<lambda>_.
     ebind (if action = REJECT then requireRejectionReason reason else Inr []) (\<lambda>rejectionReason.
     ebind (if action = REJECT then normalizeReasonCode reasonCode else Inr None)
       (\<lambda>rejectionReasonCode.
     ebind (lockMerchantOrder dir locked merchantId orderId s) (\<lambda>(l, s1).
     case inspectMerchantWorkflowTransition action (o_status l) (o_fulfillmentStatus l) of
       ALREADY_ACCEPTED \<Rightarrow> Inl (OrderE MERCHANT_ORDER_ALREADY_ACCEPTED)
     | NOT_REJECTABLE \<Rightarrow> Inl (OrderE MERCHANT_ORDER_NOT_REJECTABLE)
     | INVALID \<Rightarrow> Inl (OrderE MERCHANT_ORDER_INVALID_TRANSITION)
     | APPLY \<Rightarrow>
         let payment = findPaymentByOrderId orderId s1
         in if action = START_PREPARATION \<and>
               (case payment of None \<Rightarrow> True
                  | Some p \<Rightarrow> \<not> merchantPreparationPaymentReady (p_method p) (p_status p))
            then Inl (OrderE MERCHANT_ORDER_PAYMENT_NOT_READY)
            else if action = REJECT \<and> payment = None
            then Inl (OrderE MERCHANT_ORDER_NOT_REJECTABLE)
            else ebind (case action of
                   ACCEPT \<Rightarrow> applyMerchantAccept orderId accountId (o_updatedAt l) now preparationMinutes s1
                 | REJECT \<Rightarrow> applyMerchantReject orderId accountId rejectionReason (o_updatedAt l) now
                     rejectionReasonCode s1
                 | START_PREPARATION \<Rightarrow> Inr (applyStartPreparation orderId accountId (o_updatedAt l) now s1)
                 | MARK_READY \<Rightarrow> Inr (applyMarkReady orderId accountId (o_updatedAt l) now s1))
               (\<lambda>(applied, s2).
                 if \<not> applied then Inl (OrderE (if action = REJECT then MERCHANT_ORDER_NOT_REJECTABLE
                                             else MERCHANT_ORDER_INVALID_TRANSITION))
                 else if action = REJECT
                 then ebind (refundIfPaid now newId orderId MERCHANT_REJECTION
                               PAID_TERMINAL_REASON_MERCHANT_REJECT s2) (\<lambda>(_, s3). Inr s3)
                 else Inr s2)))))"

definition acceptOrder ::
  "directory \<Rightarrow> instant \<Rightarrow> instant \<Rightarrow> string \<Rightarrow> string \<Rightarrow> string \<Rightarrow> jsnum option \<Rightarrow> shop \<Rightarrow> app_error + shop" where
  "acceptOrder dir locked now accountId merchantId orderId preparationMinutes s =
     ebind (case preparationMinutes of None \<Rightarrow> Inr () | Some m \<Rightarrow> requirePreparationMinutes m) (\<lambda>_.
       transition dir locked now [] accountId merchantId orderId ACCEPT None
         (map_option the_int preparationMinutes) None s)"

definition rejectOrder ::
  "directory \<Rightarrow> instant \<Rightarrow> instant \<Rightarrow> string \<Rightarrow> string \<Rightarrow> string \<Rightarrow> string \<Rightarrow> string \<Rightarrow> string option \<Rightarrow>
   shop \<Rightarrow> app_error + shop" where
  "rejectOrder dir locked now newId accountId merchantId orderId reason reasonCode s =
     transition dir locked now newId accountId merchantId orderId REJECT (Some reason) None reasonCode s"

definition startPreparation ::
  "directory \<Rightarrow> instant \<Rightarrow> instant \<Rightarrow> string \<Rightarrow> string \<Rightarrow> string \<Rightarrow> shop \<Rightarrow> app_error + shop" where
  "startPreparation dir locked now accountId merchantId orderId s =
     transition dir locked now [] accountId merchantId orderId START_PREPARATION None None None s"

definition markReady ::
  "directory \<Rightarrow> instant \<Rightarrow> instant \<Rightarrow> string \<Rightarrow> string \<Rightarrow> string \<Rightarrow> shop \<Rightarrow> app_error + shop" where
  "markReady dir locked now accountId merchantId orderId s =
     transition dir locked now [] accountId merchantId orderId MARK_READY None None None s"

definition updatePreparationEstimate ::
  "directory \<Rightarrow> instant \<Rightarrow> instant \<Rightarrow> string \<Rightarrow> string \<Rightarrow> string \<Rightarrow> jsnum \<Rightarrow> jsnum \<Rightarrow> string option \<Rightarrow>
   shop \<Rightarrow> app_error + shop" where
  "updatePreparationEstimate dir locked now accountId merchantId orderId addMinutes
       expectedEstimateVersion reason s =
     ebind (requireOrderCapability dir accountId merchantId) (\<lambda>_.
     if \<not> isInteger addMinutes \<or> js_less addMinutes (JInt PREPARATION_ADD_MINUTES_MIN)
        \<or> js_less (JInt PREPARATION_ADD_MINUTES_MAX) addMinutes
     then Inl (OrderE MERCHANT_ORDER_PREP_ESTIMATE_INVALID)
     else if \<not> isInteger expectedEstimateVersion \<or> js_less expectedEstimateVersion (JInt 1)
     then Inl (OrderE MERCHANT_ORDER_PREP_ESTIMATE_INVALID)
     else let reason' = (case reason of None \<Rightarrow> None
                           | Some r \<Rightarrow> if js_trim r = [] then None else Some (js_trim r))
     in if (case reason' of None \<Rightarrow> False | Some r \<Rightarrow> PREPARATION_ESTIMATE_REASON_MAX < length r)
     then Inl (OrderE MERCHANT_ORDER_PREP_ESTIMATE_INVALID)
     else ebind (lockMerchantOrder dir locked merchantId orderId s) (\<lambda>(l, s1).
     if \<not> isEligibleFulfillmentForPrepEstimateUpdate (o_fulfillmentStatus l) (o_status l)
     then Inl (OrderE MERCHANT_ORDER_PREP_ESTIMATE_NOT_ALLOWED)
     else ebind (applyPreparationEstimateAdd orderId accountId (o_updatedAt l)
                   (the_int expectedEstimateVersion) (the_int addMinutes) reason' now s1) (\<lambda>(r, s2).
     case r of
       ER_OK \<Rightarrow> Inr s2
     | ER_CONFLICT \<Rightarrow> Inl (OrderE MERCHANT_ORDER_PREP_ESTIMATE_CONFLICT)
     | ER_NO_ESTIMATE \<Rightarrow> Inl (OrderE MERCHANT_ORDER_PREP_ESTIMATE_NOT_ALLOWED)
     | ER_NOT_ALLOWED \<Rightarrow> Inl (OrderE MERCHANT_ORDER_PREP_ESTIMATE_NOT_ALLOWED))))"

section \<open>The customer's cancellation\<close>

record cancellation_view =
  cv_orderStatus :: order_status
  cv_cancelledAt :: "instant option"
  cv_refund :: "refund_intent option"

definition cancelOrder ::
  "directory \<Rightarrow> instant \<Rightarrow> instant \<Rightarrow> string \<Rightarrow> string \<Rightarrow> string \<Rightarrow> string option \<Rightarrow> shop \<Rightarrow>
   app_error + cancellation_view \<times> shop" where
  "cancelOrder dir locked now newId accountId orderId reasonRaw s =
     ebind (emap OrderE (normalizeCustomerCancellationReason reasonRaw)) (\<lambda>reason.
     case dir_customerOfAccount dir accountId of
       None \<Rightarrow> Inl CustomerProfileNotFoundE
     | Some profile \<Rightarrow>
         (case lockOrder locked orderId s of
            (None, _) \<Rightarrow> Inl (OrderE ORDER_NOT_FOUND)
          | (Some l, s1) \<Rightarrow>
              if o_customerId l \<noteq> profile then Inl (OrderE ORDER_NOT_FOUND)
              else let decision = inspectCustomerCancellation (o_status l) (o_fulfillmentStatus l)
              in ebind (emap OrderE (assertCustomerCancellationAllowed decision)) (\<lambda>_.
                 case findCustomerCancellationBlocker orderId s1 of
                   Some BL_DELIVERY \<Rightarrow> Inl (OrderE ORDER_CANCELLATION_FULFILLMENT_ACTIVE)
                 | Some BL_COD \<Rightarrow> Inl (OrderE ORDER_CANCELLATION_COD_COLLECTED)
                 | None \<Rightarrow>
                     if decision = IDEMPOTENT_CANCELLED then
                       ebind (refundIfPaid now newId orderId CUSTOMER_CANCELLATION
                                PAID_TERMINAL_REASON_CUSTOMER_CANCEL s1) (\<lambda>(intent, s2).
                         Inr (\<lparr>cv_orderStatus = o_status l,
                               cv_cancelledAt = map_option ca_cancelledAt
                                 (t_find ca_orderId orderId (s_cancellations s1)),
                               cv_refund = intent\<rparr>, s2))
                     else
                       ebind (applyCustomerCancel orderId accountId reason (o_updatedAt l) now s1)
                         (\<lambda>(applied, s2).
                       if \<not> applied then Inl (OrderE ORDER_CANCELLATION_CONFLICT)
                       else ebind (refundIfPaid now newId orderId CUSTOMER_CANCELLATION
                                PAID_TERMINAL_REASON_CUSTOMER_CANCEL s2) (\<lambda>(intent, s3).
                         Inr (\<lparr>cv_orderStatus = O_CANCELLED,
                               cv_cancelledAt = map_option ca_cancelledAt
                                 (t_find ca_orderId orderId (s_cancellations s3)),
                               cv_refund = intent\<rparr>, s3))))))"

end
