(* ===== verification/Order_Books.thy ===== *)
theory Order_Books
  imports Order_Flow Refund_Books
begin

text \<open>
  What the order modules promise: the abstract machine \<open>order_spec\<close> on the order books (orders,
  payments, and the event, cancellation and estimate logs), its invariant \<open>order_inv\<close>, and the
  proof that every operation of \<open>Order_Flow\<close> is a step of it.
\<close>

section \<open>The order books\<close>

text \<open>What the order modules promise about: orders and payments up to their update stamps, and
  the event, cancellation and estimate logs.\<close>

definition order_view :: "order_row \<Rightarrow> order_row" where
  "order_view o' = o'\<lparr>o_updatedAt := 0\<rparr>"

lemma order_view_simps [simp]:
  "o_id (order_view o') = o_id o'" "o_status (order_view o') = o_status o'"
  "o_fulfillmentStatus (order_view o') = o_fulfillmentStatus o'"
  "o_confirmedAt (order_view o') = o_confirmedAt o'"
  "o_estimatedReadyAt (order_view o') = o_estimatedReadyAt o'"
  "o_originalEstimatedReadyAt (order_view o') = o_originalEstimatedReadyAt o'"
  "o_preparationEstimateVersion (order_view o') = o_preparationEstimateVersion o'"
  by (simp_all add: order_view_def)

record order_books =
  ob_orders :: "order_row list"
  ob_events :: "order_event list"
  ob_cancellations :: "cancellation_row list"
  ob_revisions :: "estimate_revision list"
  ob_payments :: "payment_row list"

definition books_of :: "shop \<Rightarrow> order_books" where
  "books_of s = \<lparr>ob_orders = map order_view (s_orders s), ob_events = s_events s,
     ob_cancellations = s_cancellations s, ob_revisions = s_revisions s,
     ob_payments = map pay_view (s_payments s)\<rparr>"

definition event_of :: "string \<Rightarrow> order_status option \<Rightarrow> order_status \<Rightarrow> order_event \<Rightarrow> bool" where
  "event_of i from to' e \<longleftrightarrow> ev_orderId e = i \<and> ev_fromStatus e = from \<and> ev_toStatus e = to'"

definition set_order :: "string \<Rightarrow> (order_row \<Rightarrow> order_row) \<Rightarrow> order_books \<Rightarrow> order_books" where
  "set_order i g b = b\<lparr>ob_orders := t_update (\<lambda>o'. o_id o' = i) g (ob_orders b)\<rparr>"

definition log_event :: "order_event \<Rightarrow> order_books \<Rightarrow> order_books" where
  "log_event e b = b\<lparr>ob_events := ob_events b @ [e]\<rparr>"

definition accepted_row :: "instant \<Rightarrow> int option \<Rightarrow> order_row \<Rightarrow> order_row" where
  "accepted_row now m o' =
     (let o'' = o'\<lparr>o_status := O_CONFIRMED, o_fulfillmentStatus := ACCEPTED, o_confirmedAt := Some now\<rparr>
      in case m of
           None \<Rightarrow> o''
         | Some k \<Rightarrow> o''\<lparr>o_preparationMinutes := Some k, o_originalPreparationMinutes := Some k,
             o_estimatedReadyAt := Some (computeEstimatedReadyAt now k),
             o_originalEstimatedReadyAt := Some (computeEstimatedReadyAt now k),
             o_preparationEstimateVersion := 1\<rparr>)"

definition first_revision :: "string \<Rightarrow> string \<Rightarrow> instant \<Rightarrow> int option \<Rightarrow> estimate_revision list" where
  "first_revision i actor now m =
     (case m of None \<Rightarrow> []
      | Some k \<Rightarrow> [\<lparr>er_orderId = i, er_revisionNumber = 1, er_previousEstimatedReadyAt = None,
          er_newEstimatedReadyAt = computeEstimatedReadyAt now k, er_addMinutes = k,
          er_reason = None, er_actorAccountId = actor\<rparr>])"

definition payment_open :: "order_books \<Rightarrow> string \<Rightarrow> bool" where
  "payment_open b i \<longleftrightarrow> (\<exists>p. t_find p_orderId i (ob_payments b) = Some p \<and>
     merchantPreparationPaymentReady (p_method p) (p_status p))"

text \<open>A payment may move on, but a payment ready for preparation stays ready.\<close>

definition payment_advances :: "payment_row \<Rightarrow> payment_row \<Rightarrow> bool" where
  "payment_advances p p' \<longleftrightarrow> p_id p' = p_id p \<and> p_orderId p' = p_orderId p \<and>
     p_method p' = p_method p \<and> p_amountMinor p' = p_amountMinor p \<and> p_currency p' = p_currency p \<and>
     (merchantPreparationPaymentReady (p_method p) (p_status p) \<longrightarrow>
      merchantPreparationPaymentReady (p_method p) (p_status p'))"

inductive order_spec :: "order_books \<Rightarrow> order_books \<Rightarrow> bool" where
  stay: "order_spec b b"
| place: "o_id o' \<notin> o_id ` set (ob_orders b) \<Longrightarrow> o_id o' \<notin> p_orderId ` set (ob_payments b) \<Longrightarrow>
    o_status o' = O_CREATED \<Longrightarrow> o_fulfillmentStatus o' = PENDING_ACCEPTANCE \<Longrightarrow>
    o_estimatedReadyAt o' = None \<Longrightarrow> o_preparationEstimateVersion o' = 0 \<Longrightarrow>
    p_orderId p = o_id o' \<Longrightarrow> p_status p = PAY_PENDING \<Longrightarrow> event_of (o_id o') None O_CREATED e \<Longrightarrow>
    order_spec b (log_event e (b\<lparr>ob_orders := ob_orders b @ [o'], ob_payments := ob_payments b @ [p]\<rparr>))"
| accept: "t_find o_id i (ob_orders b) = Some o' \<Longrightarrow> o_status o' = O_CREATED \<Longrightarrow>
    o_fulfillmentStatus o' = PENDING_ACCEPTANCE \<Longrightarrow> event_of i (Some O_CREATED) O_CONFIRMED e \<Longrightarrow>
    (case m of None \<Rightarrow> True | Some k \<Rightarrow> PREPARATION_MINUTES_MIN \<le> k \<and> k \<le> PREPARATION_MINUTES_MAX) \<Longrightarrow>
    order_spec b (log_event e ((set_order i (accepted_row now m) b)
      \<lparr>ob_revisions := ob_revisions b @ first_revision i actor now m\<rparr>))"
| cancel: "t_find o_id i (ob_orders b) = Some o' \<Longrightarrow> o_status o' = O_CREATED \<Longrightarrow>
    o_fulfillmentStatus o' = PENDING_ACCEPTANCE \<Longrightarrow> event_of i (Some O_CREATED) O_CANCELLED e \<Longrightarrow>
    ca_orderId c = i \<Longrightarrow> i \<notin> ca_orderId ` set (ob_cancellations b) \<Longrightarrow>
    order_spec b (log_event e ((set_order i (\<lambda>o'. o'\<lparr>o_status := O_CANCELLED\<rparr>) b)
      \<lparr>ob_cancellations := ob_cancellations b @ [c],
       ob_payments := t_update (\<lambda>p. p_orderId p = i \<and> p_status p = PAY_PENDING)
         (\<lambda>p. p\<lparr>p_status := PAY_CANCELLED\<rparr>) (ob_payments b)\<rparr>))"
| start: "t_find o_id i (ob_orders b) = Some o' \<Longrightarrow> o_status o' = O_CONFIRMED \<Longrightarrow>
    o_fulfillmentStatus o' = ACCEPTED \<Longrightarrow> payment_open b i \<Longrightarrow>
    event_of i (Some O_CONFIRMED) O_ACTIVE e \<Longrightarrow>
    order_spec b (log_event e
      (set_order i (\<lambda>o'. o'\<lparr>o_status := O_ACTIVE, o_fulfillmentStatus := PREPARING\<rparr>) b))"
| ready: "t_find o_id i (ob_orders b) = Some o' \<Longrightarrow> o_status o' = O_ACTIVE \<Longrightarrow>
    o_fulfillmentStatus o' = PREPARING \<Longrightarrow> event_of i (Some O_ACTIVE) O_ACTIVE e \<Longrightarrow>
    order_spec b (log_event e (set_order i (\<lambda>o'. o'\<lparr>o_fulfillmentStatus := READY\<rparr>) b))"
| estimate: "t_find o_id i (ob_orders b) = Some o' \<Longrightarrow>
    isEligibleFulfillmentForPrepEstimateUpdate (o_fulfillmentStatus o') (o_status o') \<Longrightarrow>
    o_estimatedReadyAt o' = Some t \<Longrightarrow> o_preparationEstimateVersion o' = v \<Longrightarrow> 1 \<le> v \<Longrightarrow>
    PREPARATION_ADD_MINUTES_MIN \<le> k \<Longrightarrow> k \<le> PREPARATION_ADD_MINUTES_MAX \<Longrightarrow>
    er_orderId r = i \<Longrightarrow> er_revisionNumber r = v + 1 \<Longrightarrow> er_previousEstimatedReadyAt r = Some t \<Longrightarrow>
    er_newEstimatedReadyAt r = t + k * 60000 \<Longrightarrow> er_addMinutes r = k \<Longrightarrow>
    order_spec b ((set_order i (\<lambda>o'. o'\<lparr>o_estimatedReadyAt := Some (t + k * 60000),
        o_preparationEstimateVersion := v + 1\<rparr>) b)\<lparr>ob_revisions := ob_revisions b @ [r]\<rparr>)"
| complete: "t_find o_id i (ob_orders b) = Some o' \<Longrightarrow> o_status o' = O_ACTIVE \<Longrightarrow>
    o_fulfillmentStatus o' = READY \<Longrightarrow> event_of i (Some O_ACTIVE) O_COMPLETED e \<Longrightarrow>
    order_spec b (log_event e
      (set_order i (\<lambda>o'. o'\<lparr>o_status := O_COMPLETED, o_completedAt := Some now\<rparr>) b))"
| pay: "list_all2 (payment_advances) (ob_payments b) ps \<Longrightarrow> order_spec b (b\<lparr>ob_payments := ps\<rparr>)"

section \<open>The invariant of the books\<close>

text \<open>The statuses an order can have together.\<close>

definition legal_status :: "order_status \<Rightarrow> fulfillment_status \<Rightarrow> bool" where
  "legal_status s f \<longleftrightarrow> (s, f) \<in> {(O_CREATED, PENDING_ACCEPTANCE), (O_CONFIRMED, ACCEPTED),
     (O_ACTIVE, PREPARING), (O_ACTIVE, READY), (O_CANCELLED, PENDING_ACCEPTANCE), (O_COMPLETED, READY)}"

definition payment_fits :: "order_books \<Rightarrow> order_row \<Rightarrow> bool" where
  "payment_fits b o' \<longleftrightarrow> (\<exists>p. t_find p_orderId (o_id o') (ob_payments b) = Some p \<and>
     (o_fulfillmentStatus o' \<in> {PREPARING, READY} \<longrightarrow>
        merchantPreparationPaymentReady (p_method p) (p_status p)))"

inductive trail :: "order_event list \<Rightarrow> order_status \<Rightarrow> bool" where
  placed: "ev_fromStatus e = None \<Longrightarrow> ev_toStatus e = O_CREATED \<Longrightarrow> trail [e] O_CREATED"
| moved: "trail es st \<Longrightarrow> ev_fromStatus e = Some st \<Longrightarrow> trail (es @ [e]) (ev_toStatus e)"

definition trail_of :: "order_books \<Rightarrow> string \<Rightarrow> order_event list" where
  "trail_of b i = filter (\<lambda>e. ev_orderId e = i) (ob_events b)"

definition revisions_of :: "order_books \<Rightarrow> string \<Rightarrow> estimate_revision list" where
  "revisions_of b i = filter (\<lambda>r. er_orderId r = i) (ob_revisions b)"

text \<open>The estimate is the acceptance instant plus all minutes ever added, revision by revision.\<close>

definition estimate_ok :: "order_books \<Rightarrow> order_row \<Rightarrow> bool" where
  "estimate_ok b o' \<longleftrightarrow>
     (let rs = revisions_of b (o_id o') in
      o_preparationEstimateVersion o' = int (length rs) \<and>
      map er_revisionNumber rs = map (\<lambda>k. int k + 1) [0..<length rs] \<and>
      (\<forall>r \<in> set rs. 0 < er_addMinutes r) \<and>
      (if rs = [] then o_estimatedReadyAt o' = None
       else \<exists>c. o_confirmedAt o' = Some c \<and>
         o_estimatedReadyAt o' = Some (c + 60000 * sum_list (map er_addMinutes rs)) \<and>
         o_originalEstimatedReadyAt o' = Some (c + 60000 * er_addMinutes (hd rs))))"

definition order_ok :: "order_books \<Rightarrow> order_row \<Rightarrow> bool" where
  "order_ok b o' \<longleftrightarrow> legal_status (o_status o') (o_fulfillmentStatus o') \<and> payment_fits b o' \<and>
     trail (trail_of b (o_id o')) (o_status o') \<and> estimate_ok b o' \<and>
     (o_status o' = O_CREATED \<longrightarrow> o_preparationEstimateVersion o' = 0) \<and>
     (o_status o' = O_CANCELLED) = (o_id o' \<in> ca_orderId ` set (ob_cancellations b))"

definition order_inv :: "order_books \<Rightarrow> bool" where
  "order_inv b \<longleftrightarrow> distinct (map o_id (ob_orders b)) \<and> distinct (map p_orderId (ob_payments b)) \<and>
     distinct (map ca_orderId (ob_cancellations b)) \<and>
     ev_orderId ` set (ob_events b) \<union> er_orderId ` set (ob_revisions b)
       \<union> ca_orderId ` set (ob_cancellations b) \<subseteq> o_id ` set (ob_orders b) \<and>
     (\<forall>o' \<in> set (ob_orders b). order_ok b o')"

lemma order_invI:
  assumes "distinct (map o_id (ob_orders b))" "distinct (map p_orderId (ob_payments b))"
    "distinct (map ca_orderId (ob_cancellations b))"
    "ev_orderId ` set (ob_events b) \<subseteq> o_id ` set (ob_orders b)"
    "er_orderId ` set (ob_revisions b) \<subseteq> o_id ` set (ob_orders b)"
    "ca_orderId ` set (ob_cancellations b) \<subseteq> o_id ` set (ob_orders b)"
    "\<And>o'. o' \<in> set (ob_orders b) \<Longrightarrow> order_ok b o'"
  shows "order_inv b"
  using assms by (simp add: order_inv_def)

lemma order_invD:
  assumes "order_inv b"
  shows "distinct (map o_id (ob_orders b))" "distinct (map p_orderId (ob_payments b))"
    "distinct (map ca_orderId (ob_cancellations b))"
    "ev_orderId ` set (ob_events b) \<subseteq> o_id ` set (ob_orders b)"
    "er_orderId ` set (ob_revisions b) \<subseteq> o_id ` set (ob_orders b)"
    "ca_orderId ` set (ob_cancellations b) \<subseteq> o_id ` set (ob_orders b)"
    "o' \<in> set (ob_orders b) \<Longrightarrow> order_ok b o'"
  using assms by (simp_all add: order_inv_def)

text \<open>\<open>order_ok\<close> reads only what concerns the order.\<close>

lemma order_ok_cong:
  assumes "order_ok b o'" and "trail_of b' (o_id o') = trail_of b (o_id o')"
    and "revisions_of b' (o_id o') = revisions_of b (o_id o')"
    and "o_id o' \<in> ca_orderId ` set (ob_cancellations b') \<longleftrightarrow> o_id o' \<in> ca_orderId ` set (ob_cancellations b)"
    and "payment_fits b' o'"
  shows "order_ok b' o'"
  using assms by (simp add: order_ok_def estimate_ok_def)

lemma payment_fits_cong:
  "payment_fits b o' \<Longrightarrow> t_find p_orderId (o_id o') (ob_payments b') = t_find p_orderId (o_id o') (ob_payments b) \<Longrightarrow>
   payment_fits b' o'"
  by (simp add: payment_fits_def)

text \<open>A step that rewrites the row of one order and appends to the logs of that order only.\<close>

lemma order_inv_change:
  assumes b: "order_inv b" and f: "t_find o_id i (ob_orders b) = Some o'"
    and ords: "ob_orders b' = t_update (\<lambda>o'. o_id o' = i) g (ob_orders b)"
    and gid: "\<And>q. o_id (g q) = o_id q"
    and evs: "ob_events b' = ob_events b @ es" "\<forall>e \<in> set es. ev_orderId e = i"
    and revs: "ob_revisions b' = ob_revisions b @ rs" "\<forall>r \<in> set rs. er_orderId r = i"
    and cas: "ob_cancellations b' = ob_cancellations b @ cs" "\<forall>c \<in> set cs. ca_orderId c = i"
      "distinct (map ca_orderId (ob_cancellations b'))"
    and pays: "map p_orderId (ob_payments b') = map p_orderId (ob_payments b)"
      "\<And>j. j \<noteq> i \<Longrightarrow> t_find p_orderId j (ob_payments b') = t_find p_orderId j (ob_payments b)"
    and ok: "order_ok b' (g o')"
  shows "order_inv b'"
proof (rule order_invI)
  have o': "o' \<in> set (ob_orders b)" "o_id o' = i" using t_find_Some [OF f] by blast+
  have ids: "map o_id (ob_orders b') = map o_id (ob_orders b)" by (simp add: ords gid)
  have idset: "o_id ` set (ob_orders b') = o_id ` set (ob_orders b)" using ids by (metis list.set_map)
  have i: "i \<in> o_id ` set (ob_orders b)" using o' by blast
  show "distinct (map o_id (ob_orders b'))" using order_invD(1) [OF b] by (simp add: ids)
  show "distinct (map p_orderId (ob_payments b'))" using order_invD(2) [OF b] by (simp add: pays(1))
  show "distinct (map ca_orderId (ob_cancellations b'))" by (rule cas(3))
  show "ev_orderId ` set (ob_events b') \<subseteq> o_id ` set (ob_orders b')"
    using order_invD(4) [OF b] i evs by (auto simp: idset)
  show "er_orderId ` set (ob_revisions b') \<subseteq> o_id ` set (ob_orders b')"
    using order_invD(5) [OF b] i revs by (auto simp: idset)
  show "ca_orderId ` set (ob_cancellations b') \<subseteq> o_id ` set (ob_orders b')"
    using order_invD(6) [OF b] i cas(1,2) by (auto simp: idset)
  show "order_ok b' q'" if q': "q' \<in> set (ob_orders b')" for q'
  proof -
    obtain q where q: "q \<in> set (ob_orders b)" "q' = (if o_id q = i then g q else q)"
      using q' by (auto simp: ords t_update_in)
    show ?thesis
    proof (cases "o_id q = i")
      case True
      with o' q order_invD(1) [OF b] have "q = o'" by (auto simp: distinct_map inj_on_def)
      with ok q True show ?thesis by simp
    next
      case False
      have "order_ok b q" by (rule order_invD(7) [OF b q(1)])
      moreover have "trail_of b' (o_id q) = trail_of b (o_id q)"
        using evs False by (auto simp: trail_of_def filter_empty_conv)
      moreover have "revisions_of b' (o_id q) = revisions_of b (o_id q)"
        using revs False by (auto simp: revisions_of_def filter_empty_conv)
      moreover have "o_id q \<in> ca_orderId ` set (ob_cancellations b') \<longleftrightarrow>
          o_id q \<in> ca_orderId ` set (ob_cancellations b)"
        using cas False by auto
      moreover have "payment_fits b' q"
        using \<open>order_ok b q\<close> pays(2) [OF False] by (auto simp: order_ok_def intro: payment_fits_cong)
      ultimately have "order_ok b' q" by (rule order_ok_cong)
      with q False show ?thesis by simp
    qed
  qed
qed

lemma trail_move:
  "trail (trail_of b i) st \<Longrightarrow> event_of i (Some st) st' e \<Longrightarrow>
   ob_events b' = ob_events b @ [e] \<Longrightarrow> trail (trail_of b' i) st'"
  using trail.moved [of "trail_of b i" st e] by (auto simp: trail_of_def event_of_def)

lemma estimate_ok_cong:
  "estimate_ok b o' \<Longrightarrow> o_id q = o_id o' \<Longrightarrow> o_confirmedAt q = o_confirmedAt o' \<Longrightarrow>
   o_estimatedReadyAt q = o_estimatedReadyAt o' \<Longrightarrow>
   o_originalEstimatedReadyAt q = o_originalEstimatedReadyAt o' \<Longrightarrow>
   o_preparationEstimateVersion q = o_preparationEstimateVersion o' \<Longrightarrow>
   revisions_of b' (o_id o') = revisions_of b (o_id o') \<Longrightarrow> estimate_ok b' q"
  by (simp add: estimate_ok_def Let_def split del: if_split cong: if_cong)

lemma estimate_none:
  "estimate_ok b o' \<Longrightarrow> o_preparationEstimateVersion o' = 0 \<Longrightarrow> revisions_of b (o_id o') = []"
  by (simp add: estimate_ok_def Let_def)

lemma accepted_row_simps [simp]:
  "o_id (accepted_row now m o') = o_id o'" "o_status (accepted_row now m o') = O_CONFIRMED"
  "o_fulfillmentStatus (accepted_row now m o') = ACCEPTED"
  "o_confirmedAt (accepted_row now m o') = Some now"
  by (simp_all add: accepted_row_def Let_def split: option.splits)

lemma payment_fits_free:
  "payment_fits b o' \<Longrightarrow> o_id q = o_id o' \<Longrightarrow> o_fulfillmentStatus q \<notin> {PREPARING, READY} \<Longrightarrow>
   ob_payments b' = ob_payments b \<Longrightarrow> payment_fits b' q"
  by (auto simp: payment_fits_def)

lemma estimate_ok_accept:
  assumes "estimate_ok b o'" "o_preparationEstimateVersion o' = 0" "o_id o' = i"
    and k: "case m of None \<Rightarrow> True | Some k \<Rightarrow> PREPARATION_MINUTES_MIN \<le> k \<and> k \<le> PREPARATION_MINUTES_MAX"
    and "ob_revisions b' = ob_revisions b @ first_revision i actor now m"
  shows "estimate_ok b' (accepted_row now m o')"
proof -
  have none: "revisions_of b i = []" using estimate_none assms(1-3) by blast
  then have rs: "revisions_of b' i = first_revision i actor now m"
    using assms(5) by (auto simp: revisions_of_def first_revision_def split: option.splits)
  have t: "o_estimatedReadyAt o' = None" using assms(1,3) none by (simp add: estimate_ok_def)
  show ?thesis
  proof (cases m)
    case None
    then have "accepted_row now m o' = o'\<lparr>o_status := O_CONFIRMED, o_fulfillmentStatus := ACCEPTED,
        o_confirmedAt := Some now\<rparr>" by (simp add: accepted_row_def)
    with None rs t assms(2,3) show ?thesis by (simp add: estimate_ok_def first_revision_def)
  next
    case (Some k)
    with k have "0 < k" by (simp add: PREPARATION_MINUTES_MIN_def)
    with Some rs assms(3) show ?thesis
      by (simp add: estimate_ok_def first_revision_def accepted_row_def computeEstimatedReadyAt_def)
  qed
qed

lemma estimate_ok_add:
  assumes e: "estimate_ok b o'" and i: "o_id o' = i" and t: "o_estimatedReadyAt o' = Some t"
    and v: "o_preparationEstimateVersion o' = v" "1 \<le> v" and k: "0 < k"
    and r: "er_orderId r = i" "er_revisionNumber r = v + 1" "er_addMinutes r = k"
    and b': "ob_revisions b' = ob_revisions b @ [r]"
    and q: "o_id q = i" "o_confirmedAt q = o_confirmedAt o'"
      "o_estimatedReadyAt q = Some (t + k * 60000)" "o_preparationEstimateVersion q = v + 1"
      "o_originalEstimatedReadyAt q = o_originalEstimatedReadyAt o'"
  shows "estimate_ok b' q"
proof -
  let ?rs = "revisions_of b i"
  have rs: "revisions_of b' i = ?rs @ [r]" using b' r(1) by (simp add: revisions_of_def)
  have old: "v = int (length ?rs)" "map er_revisionNumber ?rs = map (\<lambda>k. int k + 1) [0..<length ?rs]"
    "\<forall>r \<in> set ?rs. 0 < er_addMinutes r"
    using e i v(1) by (simp_all add: estimate_ok_def Let_def)
  from old(1) v(2) have ne: "?rs \<noteq> []" by auto
  with e i obtain c where c: "o_confirmedAt o' = Some c"
    "o_estimatedReadyAt o' = Some (c + 60000 * sum_list (map er_addMinutes ?rs))"
    "o_originalEstimatedReadyAt o' = Some (c + 60000 * er_addMinutes (hd ?rs))"
    by (auto simp: estimate_ok_def Let_def)
  with t have "t = c + 60000 * sum_list (map er_addMinutes ?rs)" by simp
  with old ne c q r k show ?thesis
    by (simp add: estimate_ok_def rs Let_def algebra_simps)
qed

lemma order_spec_inv:
  assumes s: "order_spec b b'" and b: "order_inv b"
  shows "order_inv b'"
  using s
proof cases
  case stay
  with b show ?thesis by simp
next
  case (place o' p e)
  have ev: "ev_orderId e = o_id o'" "ev_fromStatus e = None" "ev_toStatus e = O_CREATED"
    using place(10) by (simp_all add: event_of_def)
  have b': "ob_orders b' = ob_orders b @ [o']" "ob_payments b' = ob_payments b @ [p]"
    "ob_events b' = ob_events b @ [e]" "ob_cancellations b' = ob_cancellations b"
    "ob_revisions b' = ob_revisions b"
    by (simp_all add: place(1) log_event_def)
  have fresh: "o_id o' \<notin> ev_orderId ` set (ob_events b)" "o_id o' \<notin> er_orderId ` set (ob_revisions b)"
    "o_id o' \<notin> ca_orderId ` set (ob_cancellations b)"
    using order_invD(4,5,6) [OF b] place(2) by blast+
  have other: "order_ok b' q" if q: "q \<in> set (ob_orders b)" for q
  proof (rule order_ok_cong [OF order_invD(7) [OF b q]])
    have ne: "o_id q \<noteq> o_id o'" using q place(2) by (metis imageI)
    show "trail_of b' (o_id q) = trail_of b (o_id q)" using ne ev by (simp add: trail_of_def b')
    show "revisions_of b' (o_id q) = revisions_of b (o_id q)" by (simp add: revisions_of_def b')
    show "o_id q \<in> ca_orderId ` set (ob_cancellations b') \<longleftrightarrow> o_id q \<in> ca_orderId ` set (ob_cancellations b)"
      by (simp add: b')
    have "t_find p_orderId (o_id q) (ob_payments b') = t_find p_orderId (o_id q) (ob_payments b)"
      unfolding b'(2) by (rule t_find_append_other) (use ne place(8) in simp)
    moreover have "payment_fits b q" using order_invD(7) [OF b q] by (simp add: order_ok_def)
    ultimately show "payment_fits b' q" by (rule payment_fits_cong [rotated])
  qed
  have "t_find p_orderId (o_id o') (ob_payments b') = Some p"
    unfolding b'(2) using t_find_append_new [OF place(3), of p] place(8) by simp
  then have pf: "payment_fits b' o'" using place(4,5) by (simp add: payment_fits_def)
  have tr: "trail_of b' (o_id o') = [e]" using fresh ev by (auto simp: trail_of_def b' filter_empty_conv image_iff)
  have rv: "revisions_of b' (o_id o') = []" using fresh by (auto simp: revisions_of_def b' filter_empty_conv image_iff)
  have "order_ok b' o'"
    using place(4-7) pf fresh trail.placed [OF ev(2,3)] tr rv
    by (simp add: order_ok_def legal_status_def estimate_ok_def b'(4))
  with other order_invD [OF b] place(2,3,8) ev show ?thesis
    by (intro order_invI) (auto simp: b')
next
  case (accept i o' e m actor now)
  have o': "o' \<in> set (ob_orders b)" "o_id o' = i" using t_find_Some [OF accept(2)] by blast+
  note ok = order_invD(7) [OF b o'(1)]
  have e: "ev_orderId e = i" using accept(5) by (simp add: event_of_def)
  have b': "ob_events b' = ob_events b @ [e]" "ob_payments b' = ob_payments b"
    "ob_cancellations b' = ob_cancellations b"
    "ob_revisions b' = ob_revisions b @ first_revision i actor now m"
    by (simp_all add: accept(1) log_event_def set_order_def)
  show ?thesis
  proof (rule order_inv_change [OF b accept(2), where g = "accepted_row now m"
      and es = "[e]" and rs = "first_revision i actor now m" and cs = "[]"])
    show "order_ok b' (accepted_row now m o')"
      using ok accept(3,4) o'(2)
      by (simp add: order_ok_def legal_status_def b'(3) estimate_ok_accept [OF _ _ o'(2) accept(6) b'(4)]
          payment_fits_free [of b o' "accepted_row now m o'" b'] b'(2)
          trail_move [OF _ accept(5) b'(1)])
    show "\<forall>r \<in> set (first_revision i actor now m). er_orderId r = i"
      by (auto simp: first_revision_def split: option.splits)
  qed (use e order_invD(3) [OF b] in \<open>simp_all add: b' accept(1) log_event_def set_order_def\<close>)
next
  case (cancel i o' e c)
  have o': "o' \<in> set (ob_orders b)" "o_id o' = i" using t_find_Some [OF cancel(2)] by blast+
  note ok = order_invD(7) [OF b o'(1)]
  have e: "ev_orderId e = i" using cancel(5) by (simp add: event_of_def)
  let ?c = "\<lambda>p. p\<lparr>p_status := PAY_CANCELLED\<rparr>" let ?P = "\<lambda>p. p_orderId p = i \<and> p_status p = PAY_PENDING"
  let ?q = "o'\<lparr>o_status := O_CANCELLED\<rparr>"
  have b': "ob_events b' = ob_events b @ [e]" "ob_payments b' = t_update ?P ?c (ob_payments b)"
    "ob_cancellations b' = ob_cancellations b @ [c]" "ob_revisions b' = ob_revisions b"
    by (simp_all add: cancel(1) log_event_def set_order_def)
  have find: "t_find p_orderId j (ob_payments b') =
      map_option (\<lambda>p. if ?P p then ?c p else p) (t_find p_orderId j (ob_payments b))" for j
    by (simp add: b' t_find_update)
  obtain p where p: "t_find p_orderId i (ob_payments b) = Some p"
    using ok o'(2) by (auto simp: order_ok_def payment_fits_def)
  have "p_orderId p = i" using t_find_Some [OF p] by blast
  then have fits: "payment_fits b' ?q"
    using find [of i] p o'(2) cancel(4) by (simp add: payment_fits_def)
  have "estimate_ok b' ?q"
    by (rule estimate_ok_cong [of b o']) (use ok in \<open>simp_all add: order_ok_def revisions_of_def b'(4)\<close>)
  with ok cancel(3,4,6) o'(2) fits have okq: "order_ok b' ?q"
    by (simp add: order_ok_def legal_status_def b'(3) trail_move [OF _ cancel(5) b'(1)])
  show ?thesis
  proof (rule order_inv_change [OF b cancel(2), where g = "\<lambda>o'. o'\<lparr>o_status := O_CANCELLED\<rparr>"
      and es = "[e]" and rs = "[]" and cs = "[c]"])
    show "t_find p_orderId j (ob_payments b') = t_find p_orderId j (ob_payments b)" if "j \<noteq> i" for j
      using that find [of j] by (cases "t_find p_orderId j (ob_payments b)") (auto dest!: t_find_Some)
  qed (use e okq order_invD(3) [OF b] cancel(6,7) in
      \<open>simp_all add: b' cancel(1) log_event_def set_order_def\<close>)
next
  case (start i o' e)
  have o': "o' \<in> set (ob_orders b)" "o_id o' = i" using t_find_Some [OF start(2)] by blast+
  note ok = order_invD(7) [OF b o'(1)]
  have e: "ev_orderId e = i" using start(6) by (simp add: event_of_def)
  let ?g = "\<lambda>o'. o'\<lparr>o_status := O_ACTIVE, o_fulfillmentStatus := PREPARING\<rparr>"
  have b': "ob_events b' = ob_events b @ [e]" "ob_payments b' = ob_payments b"
    "ob_cancellations b' = ob_cancellations b" "ob_revisions b' = ob_revisions b"
    by (simp_all add: start(1) log_event_def set_order_def)
  have fits: "payment_fits b' (?g o')"
    using start(5) o'(2) by (auto simp: payment_open_def payment_fits_def b')
  have "estimate_ok b' (?g o')"
    by (rule estimate_ok_cong [of b o']) (use ok in \<open>simp_all add: order_ok_def revisions_of_def b'(4)\<close>)
  with ok start(3,4) fits o'(2) have okq: "order_ok b' (?g o')"
    by (simp add: order_ok_def legal_status_def b'(3) trail_move [OF _ start(6) b'(1)])
  show ?thesis
    by (rule order_inv_change [OF b start(2), where g = ?g and es = "[e]" and rs = "[]" and cs = "[]"])
      (use e okq order_invD(3) [OF b] in \<open>simp_all add: b' start(1) log_event_def set_order_def\<close>)
next
  case (ready i o' e)
  have o': "o' \<in> set (ob_orders b)" "o_id o' = i" using t_find_Some [OF ready(2)] by blast+
  note ok = order_invD(7) [OF b o'(1)]
  have e: "ev_orderId e = i" using ready(5) by (simp add: event_of_def)
  let ?g = "\<lambda>o'. o'\<lparr>o_fulfillmentStatus := READY\<rparr>"
  have b': "ob_events b' = ob_events b @ [e]" "ob_payments b' = ob_payments b"
    "ob_cancellations b' = ob_cancellations b" "ob_revisions b' = ob_revisions b"
    by (simp_all add: ready(1) log_event_def set_order_def)
  have fits: "payment_fits b' (?g o')"
    using ok ready(3,4) by (auto simp: order_ok_def payment_fits_def b')
  have "estimate_ok b' (?g o')"
    by (rule estimate_ok_cong [of b o']) (use ok in \<open>simp_all add: order_ok_def revisions_of_def b'(4)\<close>)
  with ok ready(3,4) fits o'(2) have okq: "order_ok b' (?g o')"
    by (simp add: order_ok_def legal_status_def b'(3) trail_move [OF _ ready(5) b'(1)])
  show ?thesis
    by (rule order_inv_change [OF b ready(2), where g = ?g and es = "[e]" and rs = "[]" and cs = "[]"])
      (use e okq order_invD(3) [OF b] in \<open>simp_all add: b' ready(1) log_event_def set_order_def\<close>)
next
  case (estimate i o' t v k r)
  have o': "o' \<in> set (ob_orders b)" "o_id o' = i" using t_find_Some [OF estimate(2)] by blast+
  note ok = order_invD(7) [OF b o'(1)]
  let ?g = "\<lambda>o'. o'\<lparr>o_estimatedReadyAt := Some (t + k * 60000), o_preparationEstimateVersion := v + 1\<rparr>"
  have b': "ob_events b' = ob_events b" "ob_payments b' = ob_payments b"
    "ob_cancellations b' = ob_cancellations b" "ob_revisions b' = ob_revisions b @ [r]"
    by (simp_all add: estimate(1) set_order_def)
  have k: "0 < k" using estimate(7) by (simp add: PREPARATION_ADD_MINUTES_MIN_def)
  have "estimate_ok b' (?g o')"
    by (rule estimate_ok_add [OF _ o'(2) estimate(4,5,6) k estimate(9,10,13) b'(4)])
      (use ok o'(2) in \<open>simp_all add: order_ok_def\<close>)
  moreover have "o_status o' \<noteq> O_CREATED" using ok estimate(5,6) by (auto simp: order_ok_def)
  moreover have "payment_fits b o'" using ok by (simp add: order_ok_def)
  then have "payment_fits b' (?g o')" by (simp add: payment_fits_def b')
  ultimately have okq: "order_ok b' (?g o')"
    using ok by (simp add: order_ok_def b' trail_of_def)
  show ?thesis
    by (rule order_inv_change [OF b estimate(2), where g = ?g and es = "[]" and rs = "[r]" and cs = "[]"])
      (use okq estimate(9) order_invD(3) [OF b] in \<open>simp_all add: b' estimate(1) set_order_def\<close>)
next
  case (complete i o' e now)
  have o': "o' \<in> set (ob_orders b)" "o_id o' = i" using t_find_Some [OF complete(2)] by blast+
  note ok = order_invD(7) [OF b o'(1)]
  have e: "ev_orderId e = i" using complete(5) by (simp add: event_of_def)
  let ?g = "\<lambda>o'. o'\<lparr>o_status := O_COMPLETED, o_completedAt := Some now\<rparr>"
  have b': "ob_events b' = ob_events b @ [e]" "ob_payments b' = ob_payments b"
    "ob_cancellations b' = ob_cancellations b" "ob_revisions b' = ob_revisions b"
    by (simp_all add: complete(1) log_event_def set_order_def)
  have fits: "payment_fits b' (?g o')"
    using ok complete(3,4) by (auto simp: order_ok_def payment_fits_def b')
  have "estimate_ok b' (?g o')"
    by (rule estimate_ok_cong [of b o']) (use ok in \<open>simp_all add: order_ok_def revisions_of_def b'(4)\<close>)
  with ok complete(3,4) fits o'(2) have okq: "order_ok b' (?g o')"
    by (simp add: order_ok_def legal_status_def b'(3) trail_move [OF _ complete(5) b'(1)])
  show ?thesis
    by (rule order_inv_change [OF b complete(2), where g = ?g and es = "[e]" and rs = "[]" and cs = "[]"])
      (use e okq order_invD(3) [OF b] in \<open>simp_all add: b' complete(1) log_event_def set_order_def\<close>)
next
  case (pay ps)
  have b': "ob_orders b' = ob_orders b" "ob_events b' = ob_events b" "ob_payments b' = ps"
    "ob_cancellations b' = ob_cancellations b" "ob_revisions b' = ob_revisions b"
    by (simp_all add: pay(1))
  have keys: "map p_orderId ps = map p_orderId (ob_payments b)"
    using pay(2) by (auto simp: list_all2_conv_all_nth payment_advances_def intro!: nth_equalityI)
  have find: "t_find p_orderId j (ob_payments b) = Some p \<Longrightarrow>
      \<exists>p'. t_find p_orderId j ps = Some p' \<and> payment_advances p p'" for j p
    using pay(2) by (induction rule: list_all2_induct)
      (auto simp: t_find_def payment_advances_def split: if_splits)
  show ?thesis
  proof (rule order_invI)
    show "order_ok b' q" if "q \<in> set (ob_orders b')" for q
    proof (rule order_ok_cong [of b])
      have q: "q \<in> set (ob_orders b)" using that b' by simp
      show ok: "order_ok b q" by (rule order_invD(7) [OF b q])
      then obtain p where p: "t_find p_orderId (o_id q) (ob_payments b) = Some p"
        and fit: "o_fulfillmentStatus q \<in> {PREPARING, READY} \<longrightarrow>
            merchantPreparationPaymentReady (p_method p) (p_status p)"
        by (auto simp: order_ok_def payment_fits_def)
      from find [OF p] obtain p' where p': "t_find p_orderId (o_id q) ps = Some p'"
        and adv: "payment_advances p p'" by blast
      have "p_orderId p = o_id q" using t_find_Some [OF p] by blast
      with adv fit q p' show "payment_fits b' q"
        by (auto simp: payment_fits_def payment_advances_def b')
    qed (simp_all add: b' trail_of_def revisions_of_def)
  qed (use order_invD(1-6) [OF b] keys in \<open>simp_all add: b'\<close>)
qed

section \<open>The operations keep the books\<close>

lemma find_view:
  "t_find o_id i (map order_view xs) = map_option order_view (t_find o_id i xs)"
  by (induction xs) (simp_all add: t_find_def)

lemma books_of_simps [simp]:
  "ob_orders (books_of s) = map order_view (s_orders s)" "ob_events (books_of s) = s_events s"
  "ob_cancellations (books_of s) = s_cancellations s" "ob_revisions (books_of s) = s_revisions s"
  "ob_payments (books_of s) = map pay_view (s_payments s)"
  by (simp_all add: books_of_def)

lemma books_order_distinct: "order_inv (books_of s) \<Longrightarrow> distinct (map o_id (s_orders s))"
  using order_invD(1) [of "books_of s"] by (simp add: comp_def)

lemma lockOrder_ok:
  assumes "lockOrder now i s = (Some l, s1)"
  shows "books_of s1 = books_of s \<and> t_find o_id i (s_orders s1) = Some l \<and> o_updatedAt l = now \<and>
    s1 = s\<lparr>s_orders := s_orders s1\<rparr> \<and>
    (\<exists>l0. t_find o_id i (s_orders s) = Some l0 \<and> l = l0\<lparr>o_updatedAt := now\<rparr>)"
proof -
  have s1: "s1 = s\<lparr>s_orders := t_update (\<lambda>o'. o_id o' = i) (\<lambda>o'. o'\<lparr>o_updatedAt := now\<rparr>) (s_orders s)\<rparr>"
    and l: "t_find o_id i (s_orders s1) = Some l"
    using assms by (auto simp: lockOrder_def Let_def)
  have v: "map order_view (s_orders s1) = map order_view (s_orders s)"
    by (simp add: s1 t_update_def order_view_def)
  from l obtain l0 where l0: "t_find o_id i (s_orders s) = Some l0"
    "l = (if o_id l0 = i then l0\<lparr>o_updatedAt := now\<rparr> else l0)"
    by (auto simp: s1 t_find_update)
  then have "o_id l0 = i" using t_find_Some [OF l0(1)] by blast
  with l0 l v s1 show ?thesis by (simp add: books_of_def)
qed

lemma lockMerchantOrder_ok:
  assumes "lockMerchantOrder dir locked m i s = Inr (l, s1)"
  shows "lockOrder locked i s = (Some l, s1) \<and> dir_merchantApproved dir m \<and>
    dir_merchantOfBranch dir (o_merchantBranchId l) = Some m"
  using assms by (auto simp: lockMerchantOrder_def split: if_splits option.splits prod.splits)

lemma updateOrderIf_books:
  assumes d: "distinct (map o_id (s_orders s))" and f: "t_find o_id i (s_orders s) = Some l"
    and st: "o_status l = st" "o_fulfillmentStatus l = fu" "o_updatedAt l = e"
    and g: "\<And>q. order_view (h q) = g (order_view q)" and hid: "\<And>q. o_id (h q) = o_id q"
  shows "updateOrderIf i st fu e h s = s\<lparr>s_orders := t_update (\<lambda>o'. o_id o' = i) h (s_orders s)\<rparr> \<and>
    books_of (updateOrderIf i st fu e h s) = set_order i g (books_of s) \<and>
    t_find o_id i (s_orders (updateOrderIf i st fu e h s)) = Some (h l)"
proof -
  have l: "l \<in> set (s_orders s)" "o_id l = i" using t_find_Some [OF f] by blast+
  have "q = l" if "q \<in> set (s_orders s)" "o_id q = i" for q
    using that l d by (auto simp: distinct_map inj_on_def)
  then have u: "t_update (\<lambda>o'. o_id o' = i \<and> o_status o' = st \<and> o_fulfillmentStatus o' = fu \<and> o_updatedAt o' = e)
      h (s_orders s) = t_update (\<lambda>o'. o_id o' = i) h (s_orders s)"
    using st by (auto simp: t_update_def)
  have "map order_view (t_update (\<lambda>o'. o_id o' = i) h (s_orders s)) =
      t_update (\<lambda>o'. o_id o' = i) g (map order_view (s_orders s))"
    by (simp add: t_update_def g)
  moreover have "t_find o_id i (t_update (\<lambda>o'. o_id o' = i) h (s_orders s)) = Some (h l)"
    using f l(2) by (simp add: t_find_update hid)
  ultimately show ?thesis
    by (simp add: updateOrderIf_def u books_of_def set_order_def)
qed

definition event_row ::
  "string \<Rightarrow> string \<Rightarrow> string \<Rightarrow> string \<Rightarrow> order_status option \<Rightarrow> order_status \<Rightarrow> instant \<Rightarrow> order_event" where
  "event_row i act a t from to' now = \<lparr>ev_orderId = i, ev_eventType = t, ev_actorType = act,
     ev_actorId = a, ev_fromStatus = from, ev_toStatus = to', ev_occurredAt = now\<rparr>"

lemma event_row_of [simp]: "event_of i from to' (event_row i act a t from to' now)"
  by (simp add: event_of_def event_row_def)

lemma books_insertOrderEvent [simp]:
  "books_of (insertOrderEvent i act a t from to' now s) = log_event (event_row i act a t from to' now) (books_of s)"
  by (simp add: insertOrderEvent_def books_of_def log_event_def event_row_def)

lemma insertRevision_ok [guards]:
  "insertRevision r s = Inr s' \<longleftrightarrow> s' = s\<lparr>s_revisions := s_revisions s @ [r]\<rparr> \<and>
   (er_orderId r, er_revisionNumber r) \<notin> (\<lambda>r. (er_orderId r, er_revisionNumber r)) ` set (s_revisions s)"
  by (auto simp: insertRevision_def)

lemma insertCancellation_ok [guards]:
  "insertCancellation c s = Inr s' \<longleftrightarrow> s' = s\<lparr>s_cancellations := s_cancellations s @ [c]\<rparr> \<and>
   ca_orderId c \<notin> ca_orderId ` set (s_cancellations s)"
  by (auto simp: insertCancellation_def)

lemma books_revisions [simp]:
  "books_of (s\<lparr>s_revisions := rs\<rparr>) = (books_of s)\<lparr>ob_revisions := rs\<rparr>"
  by (simp add: books_of_def)

lemma books_cancellations [simp]:
  "books_of (s\<lparr>s_cancellations := rs\<rparr>) = (books_of s)\<lparr>ob_cancellations := rs\<rparr>"
  by (simp add: books_of_def)

lemma log_event_simps [simp]:
  "ob_revisions (log_event e b) = ob_revisions b" "ob_payments (log_event e b) = ob_payments b"
  "ob_cancellations (log_event e b) = ob_cancellations b" "ob_orders (log_event e b) = ob_orders b"
  "(log_event e b)\<lparr>ob_revisions := rs\<rparr> = log_event e (b\<lparr>ob_revisions := rs\<rparr>)"
  by (simp_all add: log_event_def)

lemma set_order_simps [simp]:
  "ob_revisions (set_order i g b) = ob_revisions b" "ob_payments (set_order i g b) = ob_payments b"
  "ob_cancellations (set_order i g b) = ob_cancellations b" "ob_events (set_order i g b) = ob_events b"
  by (simp_all add: set_order_def)

lemma set_order_same_revisions [simp]:
  "(set_order i g (books_of s))\<lparr>ob_revisions := s_revisions s\<rparr> = set_order i g (books_of s)"
  by (simp add: set_order_def books_of_def)

lemma applyMerchantAccept_books:
  assumes d: "distinct (map o_id (s_orders s))" and f: "t_find o_id i (s_orders s) = Some l"
    and st: "o_status l = O_CREATED" "o_fulfillmentStatus l = PENDING_ACCEPTANCE" "o_updatedAt l = e"
    and a: "applyMerchantAccept i actor e now m s = Inr (True, s')"
  shows "\<exists>ev. event_of i (Some O_CREATED) O_CONFIRMED ev \<and>
    books_of s' = log_event ev ((set_order i (accepted_row now m) (books_of s))
      \<lparr>ob_revisions := s_revisions s @ first_revision i actor now m\<rparr>) \<and>
    s_refunds s' = s_refunds s \<and> s_payments s' = s_payments s \<and> s_ledger s' = s_ledger s"
proof -
  define h :: "order_row \<Rightarrow> order_row" where "h = (\<lambda>o'. let o'' = o'\<lparr>o_status := O_CONFIRMED, o_fulfillmentStatus := ACCEPTED,
                             o_confirmedAt := Some now, o_updatedAt := now\<rparr>
                 in case m of
                      None \<Rightarrow> o''
                    | Some m \<Rightarrow> o''\<lparr>o_preparationMinutes := Some m,
                        o_originalPreparationMinutes := Some m,
                        o_estimatedReadyAt := Some (computeEstimatedReadyAt now m),
                        o_originalEstimatedReadyAt := Some (computeEstimatedReadyAt now m),
                        o_preparationEstimateVersion := 1\<rparr>)"
  define s1 where "s1 = updateOrderIf i O_CREATED PENDING_ACCEPTANCE e h s"
  have view: "order_view (h q) = accepted_row now m (order_view q)" for q
    by (cases q; cases m) (simp_all add: h_def order_view_def accepted_row_def Let_def)
  have hid: "o_id (h q) = o_id q" for q by (simp add: h_def Let_def split: option.splits)
  note u = updateOrderIf_books [OF d f st, of h "accepted_row now m", OF view hid, folded s1_def]
  have row: "t_find o_id i (s_orders s1) = Some (h l)"
    and bk: "books_of s1 = set_order i (accepted_row now m) (books_of s)" using u by blast+
  have hl: "o_status (h l) = O_CONFIRMED" "o_fulfillmentStatus (h l) = ACCEPTED"
    by (simp_all add: h_def Let_def split: option.splits)
  have s1: "s_revisions s1 = s_revisions s" "s_refunds s1 = s_refunds s" "s_payments s1 = s_payments s"
    "s_ledger s1 = s_ledger s"
    by (simp_all add: s1_def updateOrderIf_def)
  let ?e = "event_row i ''MERCHANT'' actor ''MERCHANT_ACCEPTED'' (Some O_CREATED) O_CONFIRMED now"
  let ?s2 = "insertOrderEvent i ''MERCHANT'' actor ''MERCHANT_ACCEPTED'' (Some O_CREATED) O_CONFIRMED now s1"
  have s2: "s_revisions ?s2 = s_revisions s" "s_refunds ?s2 = s_refunds s" "s_payments ?s2 = s_payments s"
    "s_ledger ?s2 = s_ledger s"
    by (simp_all add: insertOrderEvent_def s1)
  have a': "(case (m, o_estimatedReadyAt (h l)) of
                       (Some m, Some ready) \<Rightarrow>
                         ebind (insertRevision \<lparr>er_orderId = i, er_revisionNumber = 1,
                             er_previousEstimatedReadyAt = None, er_newEstimatedReadyAt = ready,
                             er_addMinutes = m, er_reason = None, er_actorAccountId = actor\<rparr> ?s2)
                           (\<lambda>s3. Inr (True, s3))
                     | _ \<Rightarrow> Inr (True, ?s2)) = (Inr (True, s') :: app_error + bool \<times> shop)"
    using a row hl unfolding applyMerchantAccept_def h_def [symmetric] s1_def [symmetric] by (simp add: Let_def)
  show ?thesis
  proof (cases m)
    case None
    with a' have "s' = ?s2" by simp
    then show ?thesis using bk s2 None
      by (intro exI [of _ ?e]) (simp add: first_revision_def)
  next
    case (Some k)
    then have "o_estimatedReadyAt (h l) = Some (computeEstimatedReadyAt now k)" by (simp add: h_def)
    with a' Some s2(1) have "s' = ?s2\<lparr>s_revisions := s_revisions s @ first_revision i actor now m\<rparr>"
      by (auto simp: ebind_Inr insertRevision_ok first_revision_def)
    then show ?thesis using bk s2 by (intro exI [of _ ?e]) simp
  qed
qed

lemma applyStart_books:
  assumes d: "distinct (map o_id (s_orders s))" and f: "t_find o_id i (s_orders s) = Some l"
    and st: "o_status l = O_CONFIRMED" "o_fulfillmentStatus l = ACCEPTED" "o_updatedAt l = e"
  shows "\<exists>s' ev. applyStartPreparation i actor e now s = (True, s') \<and>
    event_of i (Some O_CONFIRMED) O_ACTIVE ev \<and>
    books_of s' = log_event ev
      (set_order i (\<lambda>o'. o'\<lparr>o_status := O_ACTIVE, o_fulfillmentStatus := PREPARING\<rparr>) (books_of s)) \<and>
    s_refunds s' = s_refunds s \<and> s_payments s' = s_payments s \<and> s_ledger s' = s_ledger s"
proof -
  let ?h = "\<lambda>o'::order_row. o'\<lparr>o_status := O_ACTIVE, o_fulfillmentStatus := PREPARING, o_updatedAt := now\<rparr>"
  let ?g = "\<lambda>o'::order_row. o'\<lparr>o_status := O_ACTIVE, o_fulfillmentStatus := PREPARING\<rparr>"
  define s1 where "s1 = updateOrderIf i O_CONFIRMED ACCEPTED e ?h s"
  have u: "s1 = s\<lparr>s_orders := t_update (\<lambda>o'. o_id o' = i) ?h (s_orders s)\<rparr> \<and>
      books_of s1 = set_order i ?g (books_of s) \<and> t_find o_id i (s_orders s1) = Some (?h l)"
    unfolding s1_def by (rule updateOrderIf_books [OF d f st]) (simp_all add: order_view_def)
  then have bk: "books_of s1 = set_order i ?g (books_of s)" and row: "t_find o_id i (s_orders s1) = Some (?h l)"
    by blast+
  have s1: "s_refunds s1 = s_refunds s" "s_payments s1 = s_payments s" "s_ledger s1 = s_ledger s"
    by (simp_all add: s1_def updateOrderIf_def)
  let ?e = "insertOrderEvent i ''MERCHANT'' actor ''PREPARATION_STARTED'' (Some O_CONFIRMED) O_ACTIVE now s1"
  have "applyStartPreparation i actor e now s = (True, ?e)"
    using row unfolding applyStartPreparation_def s1_def [symmetric] by (simp add: Let_def)
  moreover have "s_refunds ?e = s_refunds s" "s_payments ?e = s_payments s" "s_ledger ?e = s_ledger s"
    by (simp_all add: insertOrderEvent_def s1)
  moreover have "books_of ?e = log_event (event_row i ''MERCHANT'' actor ''PREPARATION_STARTED''
      (Some O_CONFIRMED) O_ACTIVE now) (set_order i ?g (books_of s))" by (simp add: bk)
  ultimately show ?thesis by (metis event_row_of)
qed

lemma applyReady_books:
  assumes d: "distinct (map o_id (s_orders s))" and f: "t_find o_id i (s_orders s) = Some l"
    and st: "o_status l = O_ACTIVE" "o_fulfillmentStatus l = PREPARING" "o_updatedAt l = e"
  shows "\<exists>s' ev. applyMarkReady i actor e now s = (True, s') \<and>
    event_of i (Some O_ACTIVE) O_ACTIVE ev \<and>
    books_of s' = log_event ev
      (set_order i (\<lambda>o'. o'\<lparr>o_fulfillmentStatus := READY\<rparr>) (books_of s)) \<and>
    s_refunds s' = s_refunds s \<and> s_payments s' = s_payments s \<and> s_ledger s' = s_ledger s"
proof -
  let ?h = "\<lambda>o'::order_row. o'\<lparr>o_fulfillmentStatus := READY, o_updatedAt := now\<rparr>"
  let ?g = "\<lambda>o'::order_row. o'\<lparr>o_fulfillmentStatus := READY\<rparr>"
  define s1 where "s1 = updateOrderIf i O_ACTIVE PREPARING e ?h s"
  have u: "s1 = s\<lparr>s_orders := t_update (\<lambda>o'. o_id o' = i) ?h (s_orders s)\<rparr> \<and>
      books_of s1 = set_order i ?g (books_of s) \<and> t_find o_id i (s_orders s1) = Some (?h l)"
    unfolding s1_def by (rule updateOrderIf_books [OF d f st]) (simp_all add: order_view_def)
  then have bk: "books_of s1 = set_order i ?g (books_of s)" and row: "t_find o_id i (s_orders s1) = Some (?h l)"
    by blast+
  have s1: "s_refunds s1 = s_refunds s" "s_payments s1 = s_payments s" "s_ledger s1 = s_ledger s"
    by (simp_all add: s1_def updateOrderIf_def)
  let ?e = "insertOrderEvent i ''MERCHANT'' actor ''ORDER_READY'' (Some O_ACTIVE) O_ACTIVE now s1"
  have "applyMarkReady i actor e now s = (True, ?e)"
    using row st(1) unfolding applyMarkReady_def s1_def [symmetric] by (simp add: Let_def)
  moreover have "s_refunds ?e = s_refunds s" "s_payments ?e = s_payments s" "s_ledger ?e = s_ledger s"
    by (simp_all add: insertOrderEvent_def s1)
  moreover have "books_of ?e = log_event (event_row i ''MERCHANT'' actor ''ORDER_READY''
      (Some O_ACTIVE) O_ACTIVE now) (set_order i ?g (books_of s))" by (simp add: bk)
  ultimately show ?thesis by (metis event_row_of)
qed

text \<open>The merchant's rejection and the customer's cancellation write the same books.\<close>

definition cancelled_books :: "string \<Rightarrow> order_event \<Rightarrow> cancellation_row \<Rightarrow> order_books \<Rightarrow> order_books" where
  "cancelled_books i e c b = log_event e ((set_order i (\<lambda>o'. o'\<lparr>o_status := O_CANCELLED\<rparr>) b)
      \<lparr>ob_cancellations := ob_cancellations b @ [c],
       ob_payments := t_update (\<lambda>p. p_orderId p = i \<and> p_status p = PAY_PENDING)
         (\<lambda>p. p\<lparr>p_status := PAY_CANCELLED\<rparr>) (ob_payments b)\<rparr>)"

definition cancel_effect :: "string \<Rightarrow> shop \<Rightarrow> shop \<Rightarrow> bool" where
  "cancel_effect i s s' \<longleftrightarrow> (\<exists>ev c. event_of i (Some O_CREATED) O_CANCELLED ev \<and> ca_orderId c = i \<and>
     i \<notin> ca_orderId ` set (s_cancellations s) \<and>
     books_of s' = cancelled_books i ev c (books_of s) \<and>
     s_refunds s' = s_refunds s \<and> s_ledger s' = s_ledger s \<and>
     s_payments s' = s_payments (cancelPendingPayment i (ev_occurredAt ev) s))"

lemma cancel_effect_intro:
  assumes d: "distinct (map o_id (s_orders s))" and f: "t_find o_id i (s_orders s) = Some l"
    and st: "o_status l = O_CREATED" "o_fulfillmentStatus l = PENDING_ACCEPTANCE" "o_updatedAt l = e"
    and s1: "s1 = updateOrderIf i O_CREATED PENDING_ACCEPTANCE e
      (\<lambda>o'. o'\<lparr>o_status := O_CANCELLED, o_updatedAt := now\<rparr>) s"
    and c: "ca_orderId c = i" "insertCancellation c s1 = Inr s2"
    and s': "s' = insertOrderEvent i act actor t (Some O_CREATED) O_CANCELLED now (cancelPendingPayment i now s2)"
  shows "cancel_effect i s s'"
proof -
  let ?h = "\<lambda>o'::order_row. o'\<lparr>o_status := O_CANCELLED, o_updatedAt := now\<rparr>"
  let ?g = "\<lambda>o'::order_row. o'\<lparr>o_status := O_CANCELLED\<rparr>"
  have u: "s1 = s\<lparr>s_orders := t_update (\<lambda>o'. o_id o' = i) ?h (s_orders s)\<rparr> \<and>
      books_of s1 = set_order i ?g (books_of s) \<and> t_find o_id i (s_orders s1) = Some (?h l)"
    unfolding s1 by (rule updateOrderIf_books [OF d f st]) (simp_all add: order_view_def)
  then have bk: "books_of s1 = set_order i ?g (books_of s)" by blast
  have same: "s_refunds s1 = s_refunds s" "s_payments s1 = s_payments s" "s_ledger s1 = s_ledger s"
      "s_cancellations s1 = s_cancellations s"
    by (simp_all add: s1 updateOrderIf_def)
  have s2: "s2 = s1\<lparr>s_cancellations := s_cancellations s @ [c]\<rparr>" and new: "i \<notin> ca_orderId ` set (s_cancellations s)"
    using c by (simp_all add: insertCancellation_ok same)
  have pays: "map pay_view (t_update (\<lambda>p. p_orderId p = i \<and> p_status p = PAY_PENDING)
      (\<lambda>p. p\<lparr>p_status := PAY_CANCELLED, p_updatedAt := now\<rparr>) ps) =
    t_update (\<lambda>p. p_orderId p = i \<and> p_status p = PAY_PENDING) (\<lambda>p. p\<lparr>p_status := PAY_CANCELLED\<rparr>)
      (map pay_view ps)" for ps
    by (simp add: t_update_def pay_view_def)
  have "books_of (cancelPendingPayment i now s2) = (set_order i ?g (books_of s))
      \<lparr>ob_cancellations := s_cancellations s @ [c],
       ob_payments := t_update (\<lambda>p. p_orderId p = i \<and> p_status p = PAY_PENDING)
         (\<lambda>p. p\<lparr>p_status := PAY_CANCELLED\<rparr>) (map pay_view (s_payments s))\<rparr>"
    using bk by (simp add: cancelPendingPayment_def s2 books_of_def pays same set_order_def)
  then have "books_of s' = cancelled_books i (event_row i act actor t (Some O_CREATED) O_CANCELLED now) c (books_of s)"
    by (simp add: s' cancelled_books_def)
  moreover have "s_refunds s' = s_refunds s" "s_ledger s' = s_ledger s"
    "s_payments s' = s_payments (cancelPendingPayment i now s)"
    by (simp_all add: s' insertOrderEvent_def cancelPendingPayment_def s2 same)
  moreover have "ev_occurredAt (event_row i act actor t (Some O_CREATED) O_CANCELLED now) = now"
    by (simp add: event_row_def)
  ultimately show ?thesis using new c(1) unfolding cancel_effect_def by (metis event_row_of)
qed

lemma applyMerchantReject_books:
  assumes d: "distinct (map o_id (s_orders s))" and f: "t_find o_id i (s_orders s) = Some l"
    and st: "o_status l = O_CREATED" "o_fulfillmentStatus l = PENDING_ACCEPTANCE" "o_updatedAt l = e"
    and a: "applyMerchantReject i actor reason e now code s = Inr (True, s')"
  shows "cancel_effect i s s'"
proof -
  obtain s2 where "insertCancellation \<lparr>ca_orderId = i, ca_reason = reason,
                    ca_reasonCode = code, ca_cancelledByAccountId = actor,
                    ca_cancelledAt = now\<rparr> (updateOrderIf i O_CREATED PENDING_ACCEPTANCE e
                 (\<lambda>o'. o'\<lparr>o_status := O_CANCELLED, o_updatedAt := now\<rparr>) s) = Inr s2"
    "s' = insertOrderEvent i ''MERCHANT'' actor
                    ''MERCHANT_REJECTED'' (Some O_CREATED) O_CANCELLED now (cancelPendingPayment i now s2)"
    using a by (auto simp: applyMerchantReject_def Let_def ebind_Inr split: option.splits if_splits)
  then show ?thesis by (intro cancel_effect_intro [OF d f st refl]) simp_all
qed

lemma applyCustomerCancel_books:
  assumes d: "distinct (map o_id (s_orders s))" and f: "t_find o_id i (s_orders s) = Some l"
    and st: "o_status l = O_CREATED" "o_fulfillmentStatus l = PENDING_ACCEPTANCE" "o_updatedAt l = e"
    and a: "applyCustomerCancel i actor reason e now s = Inr (True, s')"
  shows "cancel_effect i s s'"
proof -
  obtain s2 where "insertCancellation \<lparr>ca_orderId = i, ca_reason = reason,
                    ca_reasonCode = None, ca_cancelledByAccountId = actor,
                    ca_cancelledAt = now\<rparr> (updateOrderIf i O_CREATED PENDING_ACCEPTANCE e
                 (\<lambda>o'. o'\<lparr>o_status := O_CANCELLED, o_updatedAt := now\<rparr>) s) = Inr s2"
    "s' = insertOrderEvent i ''CUSTOMER'' actor
                    ''CUSTOMER_CANCELLED'' (Some O_CREATED) O_CANCELLED now (cancelPendingPayment i now s2)"
    using a by (auto simp: applyCustomerCancel_def Let_def ebind_Inr split: option.splits if_splits)
  then show ?thesis by (intro cancel_effect_intro [OF d f st refl]) simp_all
qed

lemma same_money_books: "same_money s s' \<Longrightarrow> books_of s' = books_of s"
  unfolding same_money_def books_of_def
  by (metis (no_types, lifting) shop.select_convs(1,5,6,7) shop.surjective shop.update_convs(3))

lemma books_refunds [simp]: "books_of (s\<lparr>s_refunds := rs\<rparr>) = books_of s"
  by (simp add: books_of_def)

lemma books_ledger [simp]: "books_of (s\<lparr>s_ledger := rs\<rparr>) = books_of s"
  by (simp add: books_of_def)

lemma lockedContext_same: "lockedContext now i s = Inr (p, f, s') \<Longrightarrow> same_money s s'"
  by (auto simp: lockedContext_def ebind_Inr emap_Inr option_Inr lockRefundPayment_ok dest!: lockPayment_same
      split: option.splits)

lemma ensureRefundIntent_books:
  assumes "ensureRefundIntentInTx now newId i org reason n s = Inr (v, s')"
  shows "books_of s' = books_of s"
proof -
  obtain q f s1 key where lc: "lockedContext now i s = Inr (q, f, s1)"
    and body: "(case findByPaidTerminalIntentKey key s1 of
        Some existing \<Rightarrow> Inr (toIntentView existing False, s1)
      | None \<Rightarrow> new_intent now newId i org reason n q key s1) = Inr (v, s')"
    using assms unfolding ensureRefundIntentInTx_def by (auto simp: ebind_Inr split: if_splits)
  have b1: "books_of s1 = books_of s" by (rule same_money_books [OF lockedContext_same [OF lc]])
  have "s' = s1 \<or> (\<exists>r. insertRefund r s1 = Inr (r, s'))"
  proof (cases "findByPaidTerminalIntentKey key s1")
    case None
    with body have "new_intent now newId i org reason n q key s1 = Inr (v, s')" by simp
    from new_intent_ok [OF this None] show ?thesis by blast
  qed (use body in simp)
  with b1 show ?thesis by (auto simp: insertRefund_ok)
qed

lemma refundIfPaid_books: "refundIfPaid now newId i org reason s = Inr (v, s') \<Longrightarrow> books_of s' = books_of s"
  by (auto simp: refundIfPaid_def ebind_Inr split: option.splits if_splits dest!: ensureRefundIntent_books)

lemma estimateAdd_books:
  assumes d: "distinct (map o_id (s_orders s))" and f: "t_find o_id i (s_orders s) = Some l"
    and e: "o_updatedAt l = e"
    and a: "applyPreparationEstimateAdd i actor e v k reason now s = Inr (ER_OK, s')"
  shows "\<exists>t r. isEligibleFulfillmentForPrepEstimateUpdate (o_fulfillmentStatus l) (o_status l) \<and>
    o_estimatedReadyAt l = Some t \<and> o_preparationEstimateVersion l = v \<and> 1 \<le> v \<and>
    er_orderId r = i \<and> er_revisionNumber r = v + 1 \<and> er_previousEstimatedReadyAt r = Some t \<and>
    er_newEstimatedReadyAt r = t + k * 60000 \<and> er_addMinutes r = k \<and>
    books_of s' = (set_order i (\<lambda>o'. o'\<lparr>o_estimatedReadyAt := Some (t + k * 60000),
        o_preparationEstimateVersion := v + 1\<rparr>) (books_of s))\<lparr>ob_revisions := s_revisions s @ [r]\<rparr> \<and>
    s_refunds s' = s_refunds s \<and> s_payments s' = s_payments s \<and> s_ledger s' = s_ledger s"
proof -
  have l: "l \<in> set (s_orders s)" "o_id l = i" using t_find_Some [OF f] by blast+
  obtain t where st: "isEligibleFulfillmentForPrepEstimateUpdate (o_fulfillmentStatus l) (o_status l)"
    "o_estimatedReadyAt l = Some t" "o_preparationEstimateVersion l = v" "1 \<le> v"
    using a f by (auto simp: applyPreparationEstimateAdd_def
        isEligibleFulfillmentForPrepEstimateUpdate_def Let_def split: if_splits option.splits)
  let ?h = "\<lambda>o'::order_row. o'\<lparr>o_estimatedReadyAt := Some (t + k * 60000),
      o_preparationEstimateVersion := v + 1, o_updatedAt := now\<rparr>"
  let ?g = "\<lambda>o'::order_row. o'\<lparr>o_estimatedReadyAt := Some (t + k * 60000),
      o_preparationEstimateVersion := v + 1\<rparr>"
  have "q = l" if "q \<in> set (s_orders s)" "o_id q = i" for q
    using that l d by (auto simp: distinct_map inj_on_def)
  then have u: "t_update (\<lambda>o'. o_id o' = i \<and> o_updatedAt o' = e \<and> o_preparationEstimateVersion o' = v)
      ?h (s_orders s) = t_update (\<lambda>o'. o_id o' = i) ?h (s_orders s)"
    using st(3) e by (auto simp: t_update_def)
  define s1 where "s1 = s\<lparr>s_orders := t_update (\<lambda>o'. o_id o' = i) ?h (s_orders s)\<rparr>"
  have row: "t_find o_id i (t_update (\<lambda>o'. o_id o' = i) ?h (s_orders s)) = Some (?h l)"
    using f l(2) by (simp add: t_find_update)
  let ?r = "\<lparr>er_orderId = i, er_revisionNumber = v + 1, er_previousEstimatedReadyAt = Some t,
      er_newEstimatedReadyAt = t + k * 60000, er_addMinutes = k, er_reason = reason,
      er_actorAccountId = actor\<rparr>"
  have "insertRevision ?r s1 = Inr s'"
    using a f st row u by (auto simp: applyPreparationEstimateAdd_def Let_def ebind_Inr s1_def
        split: if_splits)
  then have s': "s' = s1\<lparr>s_revisions := s_revisions s @ [?r]\<rparr>" by (simp add: insertRevision_ok s1_def)
  have "map order_view (t_update (\<lambda>o'. o_id o' = i) ?h (s_orders s)) =
      t_update (\<lambda>o'. o_id o' = i) ?g (map order_view (s_orders s))"
    by (simp add: t_update_def order_view_def)
  then have "books_of s1 = set_order i ?g (books_of s)"
    by (simp add: s1_def books_of_def set_order_def)
  with st show ?thesis by (intro exI [of _ t] exI [of _ ?r]) (simp add: s' s1_def)
qed

lemma findPayment_view:
  "t_find p_orderId i (map pay_view ps) = map_option pay_view (t_find p_orderId i ps)"
  by (induction ps) (simp_all add: t_find_def)

lemma order_spec_cancel:
  assumes "cancel_effect i s s'" and "t_find o_id i (s_orders s) = Some l"
    and "o_status l = O_CREATED" "o_fulfillmentStatus l = PENDING_ACCEPTANCE"
  shows "order_spec (books_of s) (books_of s')"
proof -
  obtain ev c where "event_of i (Some O_CREATED) O_CANCELLED ev" "ca_orderId c = i"
    "i \<notin> ca_orderId ` set (s_cancellations s)" "books_of s' = cancelled_books i ev c (books_of s)"
    using assms(1) unfolding cancel_effect_def by blast
  with order_spec.cancel [of i "books_of s" "order_view l" ev c] assms(2-4) show ?thesis
    by (simp add: cancelled_books_def find_view)
qed

text \<open>What a merchant operation does after it locked the order.\<close>

lemma transition_ok:
  assumes "transition dir locked now newId acc m i action reason mins code s = Inr s'"
  obtains l s1 rr rc where "lockMerchantOrder dir locked m i s = Inr (l, s1)"
    "dir_canMutateOrders dir acc m"
    "inspectMerchantWorkflowTransition action (o_status l) (o_fulfillmentStatus l) = APPLY"
    "action = START_PREPARATION \<Longrightarrow> \<exists>p. findPaymentByOrderId i s1 = Some p \<and>
       merchantPreparationPaymentReady (p_method p) (p_status p)"
    "action = ACCEPT \<Longrightarrow> applyMerchantAccept i acc (o_updatedAt l) now mins s1 = Inr (True, s')"
    "action = REJECT \<Longrightarrow> \<exists>s2 v. applyMerchantReject i acc rr (o_updatedAt l) now rc s1 = Inr (True, s2) \<and>
       refundIfPaid now newId i MERCHANT_REJECTION PAID_TERMINAL_REASON_MERCHANT_REJECT s2 = Inr (v, s')"
    "action = START_PREPARATION \<Longrightarrow> applyStartPreparation i acc (o_updatedAt l) now s1 = (True, s')"
    "action = MARK_READY \<Longrightarrow> applyMarkReady i acc (o_updatedAt l) now s1 = (True, s')"
proof -
  obtain l s1 rr rc where a: "lockMerchantOrder dir locked m i s = Inr (l, s1)"
    "dir_canMutateOrders dir acc m"
    and body: "(case inspectMerchantWorkflowTransition action (o_status l) (o_fulfillmentStatus l) of
       ALREADY_ACCEPTED \<Rightarrow> Inl (OrderE MERCHANT_ORDER_ALREADY_ACCEPTED)
     | NOT_REJECTABLE \<Rightarrow> Inl (OrderE MERCHANT_ORDER_NOT_REJECTABLE)
     | INVALID \<Rightarrow> Inl (OrderE MERCHANT_ORDER_INVALID_TRANSITION)
     | APPLY \<Rightarrow>
         let payment = findPaymentByOrderId i s1
         in if action = START_PREPARATION \<and>
               (case payment of None \<Rightarrow> True
                  | Some p \<Rightarrow> \<not> merchantPreparationPaymentReady (p_method p) (p_status p))
            then Inl (OrderE MERCHANT_ORDER_PAYMENT_NOT_READY)
            else if action = REJECT \<and> payment = None
            then Inl (OrderE MERCHANT_ORDER_NOT_REJECTABLE)
            else ebind (case action of
                   ACCEPT \<Rightarrow> applyMerchantAccept i acc (o_updatedAt l) now mins s1
                 | REJECT \<Rightarrow> applyMerchantReject i acc rr (o_updatedAt l) now rc s1
                 | START_PREPARATION \<Rightarrow> Inr (applyStartPreparation i acc (o_updatedAt l) now s1)
                 | MARK_READY \<Rightarrow> Inr (applyMarkReady i acc (o_updatedAt l) now s1))
               (\<lambda>(applied, s2).
                 if \<not> applied then Inl (OrderE (if action = REJECT then MERCHANT_ORDER_NOT_REJECTABLE
                                             else MERCHANT_ORDER_INVALID_TRANSITION))
                 else if action = REJECT
                 then ebind (refundIfPaid now newId i MERCHANT_REJECTION
                               PAID_TERMINAL_REASON_MERCHANT_REJECT s2) (\<lambda>(_, s3). Inr s3)
                 else Inr s2)) = Inr s'"
    using assms unfolding transition_def
    by (auto simp: ebind_Inr requireOrderCapability_def simp del: Let_def split: if_splits)
  have ap: "inspectMerchantWorkflowTransition action (o_status l) (o_fulfillmentStatus l) = APPLY"
    using body by (cases "inspectMerchantWorkflowTransition action (o_status l) (o_fulfillmentStatus l)") auto
  have pay: "\<exists>p. findPaymentByOrderId i s1 = Some p \<and>
      merchantPreparationPaymentReady (p_method p) (p_status p)" if "action = START_PREPARATION"
    using body ap that by (auto simp: Let_def split: if_splits option.splits)
  show thesis
    using body ap
    by (intro that [OF a ap pay, of rr rc]) (auto simp: Let_def ebind_Inr prod_Inr split: if_splits)
qed

lemma books_revisions_eq: "books_of s = books_of s' \<Longrightarrow> s_revisions s = s_revisions s'"
  by (simp add: books_of_def)

lemma transition_spec:
  assumes b: "order_inv (books_of s)"
    and t: "transition dir locked now newId acc m i action reason mins code s = Inr s'"
    and mins: "action = ACCEPT \<Longrightarrow> case mins of None \<Rightarrow> True
       | Some k \<Rightarrow> PREPARATION_MINUTES_MIN \<le> k \<and> k \<le> PREPARATION_MINUTES_MAX"
  shows "order_spec (books_of s) (books_of s')"
proof -
  obtain l s1 rr rc where lk: "lockMerchantOrder dir locked m i s = Inr (l, s1)"
    and ap: "inspectMerchantWorkflowTransition action (o_status l) (o_fulfillmentStatus l) = APPLY"
    and pay: "action = START_PREPARATION \<Longrightarrow> \<exists>p. findPaymentByOrderId i s1 = Some p \<and>
       merchantPreparationPaymentReady (p_method p) (p_status p)"
    and acts: "action = ACCEPT \<Longrightarrow> applyMerchantAccept i acc (o_updatedAt l) now mins s1 = Inr (True, s')"
    "action = REJECT \<Longrightarrow> \<exists>s2 v. applyMerchantReject i acc rr (o_updatedAt l) now rc s1 = Inr (True, s2) \<and>
       refundIfPaid now newId i MERCHANT_REJECTION PAID_TERMINAL_REASON_MERCHANT_REJECT s2 = Inr (v, s')"
    "action = START_PREPARATION \<Longrightarrow> applyStartPreparation i acc (o_updatedAt l) now s1 = (True, s')"
    "action = MARK_READY \<Longrightarrow> applyMarkReady i acc (o_updatedAt l) now s1 = (True, s')"
    by (rule transition_ok [OF t]) blast
  from lockOrder_ok [of locked i s l s1] lockMerchantOrder_ok [OF lk]
  have eq: "books_of s1 = books_of s" and f: "t_find o_id i (s_orders s1) = Some l" by blast+
  have d: "distinct (map o_id (s_orders s1))" using books_order_distinct [of s1] b by (simp add: eq)
  have fv: "t_find o_id i (ob_orders (books_of s1)) = Some (order_view l)" by (simp add: find_view f)
  show ?thesis
  proof (cases action)
    case ACCEPT
    with ap have st: "o_status l = O_CREATED" "o_fulfillmentStatus l = PENDING_ACCEPTANCE"
      by (auto simp: inspectMerchantWorkflowTransition_def split: if_splits)
    from applyMerchantAccept_books [OF d f st refl acts(1) [OF ACCEPT]] obtain ev where
      "event_of i (Some O_CREATED) O_CONFIRMED ev"
      "books_of s' = log_event ev ((set_order i (accepted_row now mins) (books_of s1))
        \<lparr>ob_revisions := s_revisions s1 @ first_revision i acc now mins\<rparr>)" by blast
    with order_spec.accept [OF fv _ _ _ mins [OF ACCEPT], of ev acc now] st show ?thesis
      by (simp add: eq books_revisions_eq [OF eq])
  next
    case REJECT
    with ap have st: "o_status l = O_CREATED" "o_fulfillmentStatus l = PENDING_ACCEPTANCE"
      by (auto simp: inspectMerchantWorkflowTransition_def split: if_splits)
    from acts(2) [OF REJECT] obtain s2 v where
      a: "applyMerchantReject i acc rr (o_updatedAt l) now rc s1 = Inr (True, s2)"
      and r: "refundIfPaid now newId i MERCHANT_REJECTION PAID_TERMINAL_REASON_MERCHANT_REJECT s2 = Inr (v, s')"
      by blast
    from order_spec_cancel [OF applyMerchantReject_books [OF d f st refl a] f st] refundIfPaid_books [OF r]
    show ?thesis by (simp add: eq)
  next
    case START_PREPARATION
    with ap have st: "o_status l = O_CONFIRMED" "o_fulfillmentStatus l = ACCEPTED"
      by (auto simp: inspectMerchantWorkflowTransition_def split: if_splits)
    from applyStart_books [OF d f st refl, of acc now] acts(3) [OF START_PREPARATION] obtain ev where
      ev: "event_of i (Some O_CONFIRMED) O_ACTIVE ev"
      "books_of s' = log_event ev
        (set_order i (\<lambda>o'. o'\<lparr>o_status := O_ACTIVE, o_fulfillmentStatus := PREPARING\<rparr>) (books_of s1))"
      by auto
    have "payment_open (books_of s1) i"
      using pay [OF START_PREPARATION] by (auto simp: payment_open_def findPaymentByOrderId_def findPayment_view)
    from order_spec.start [OF fv _ _ this ev(1)] st show ?thesis by (simp add: ev(2) eq)
  next
    case MARK_READY
    with ap have st: "o_status l = O_ACTIVE" "o_fulfillmentStatus l = PREPARING"
      by (auto simp: inspectMerchantWorkflowTransition_def split: if_splits)
    from applyReady_books [OF d f st refl, of acc now] acts(4) [OF MARK_READY] obtain ev where
      ev: "event_of i (Some O_ACTIVE) O_ACTIVE ev"
      "books_of s' = log_event ev (set_order i (\<lambda>o'. o'\<lparr>o_fulfillmentStatus := READY\<rparr>) (books_of s1))"
      by auto
    from order_spec.ready [OF fv _ _ ev(1)] st show ?thesis by (simp add: ev(2) eq)
  qed
qed

lemma estimate_result_Inr:
  "(case r of ER_OK \<Rightarrow> Inr x | ER_CONFLICT \<Rightarrow> Inl a | ER_NOT_ALLOWED \<Rightarrow> Inl b | ER_NO_ESTIMATE \<Rightarrow> Inl c)
     = Inr z \<longleftrightarrow> r = ER_OK \<and> x = z"
  by (cases r) auto

lemma blocker_Inr:
  "(case r of None \<Rightarrow> x | Some BL_DELIVERY \<Rightarrow> Inl a | Some BL_COD \<Rightarrow> Inl b) = Inr z \<longleftrightarrow> r = None \<and> x = Inr z"
  by (auto split: option.splits cancellation_blocker.splits)

lemma updateEstimate_spec:
  assumes b: "order_inv (books_of s)"
    and t: "updatePreparationEstimate dir locked now acc m i add v reason s = Inr s'"
  shows "order_spec (books_of s) (books_of s')"
proof -
  obtain l s1 reason' where lk: "lockMerchantOrder dir locked m i s = Inr (l, s1)"
    and k: "isInteger add" "\<not> js_less add (JInt PREPARATION_ADD_MINUTES_MIN)"
      "\<not> js_less (JInt PREPARATION_ADD_MINUTES_MAX) add"
    and a: "applyPreparationEstimateAdd i acc (o_updatedAt l) (the_int v) (the_int add) reason' now s1 =
      Inr (ER_OK, s')"
    using t by (auto simp: updatePreparationEstimate_def Let_def ebind_Inr prod_Inr estimate_result_Inr
        split: if_splits)
  from lockOrder_ok [of locked i s l s1] lockMerchantOrder_ok [OF lk]
  have eq: "books_of s1 = books_of s" and f: "t_find o_id i (s_orders s1) = Some l" by blast+
  have d: "distinct (map o_id (s_orders s1))" using books_order_distinct [of s1] b by (simp add: eq)
  have fv: "t_find o_id i (ob_orders (books_of s1)) = Some (order_view l)" by (simp add: find_view f)
  have k': "PREPARATION_ADD_MINUTES_MIN \<le> the_int add" "the_int add \<le> PREPARATION_ADD_MINUTES_MAX"
    using k by (auto simp: isInteger_iff)
  from estimateAdd_books [OF d f refl a] obtain t r where
    "isEligibleFulfillmentForPrepEstimateUpdate (o_fulfillmentStatus l) (o_status l)"
    "o_estimatedReadyAt l = Some t" "o_preparationEstimateVersion l = the_int v" "1 \<le> the_int v"
    "er_orderId r = i" "er_revisionNumber r = the_int v + 1" "er_previousEstimatedReadyAt r = Some t"
    "er_newEstimatedReadyAt r = t + the_int add * 60000" "er_addMinutes r = the_int add"
    "books_of s' = (set_order i (\<lambda>o'. o'\<lparr>o_estimatedReadyAt := Some (t + the_int add * 60000),
        o_preparationEstimateVersion := the_int v + 1\<rparr>) (books_of s1))\<lparr>ob_revisions := s_revisions s1 @ [r]\<rparr>"
    by blast
  with order_spec.estimate [OF fv _ _ _ _ k', of t "the_int v" r] show ?thesis
    by (simp add: eq books_revisions_eq [OF eq])
qed

lemma cancelOrder_cases:
  assumes d: "distinct (map o_id (s_orders s))"
    and c: "cancelOrder dir locked now newId acc i reason s = Inr (v, s')"
  obtains l s1 s2 intent where "lockOrder locked i s = (Some l, s1)"
    "refundIfPaid now newId i CUSTOMER_CANCELLATION PAID_TERMINAL_REASON_CUSTOMER_CANCEL s2 = Inr (intent, s')"
    "cv_refund v = intent"
    "o_status l = O_CANCELLED \<and> s2 = s1 \<or>
     o_status l = O_CREATED \<and> o_fulfillmentStatus l = PENDING_ACCEPTANCE \<and> cancel_effect i s1 s2"
proof -
  obtain l s1 reason' where lk: "lockOrder locked i s = (Some l, s1)"
    and as: "assertCustomerCancellationAllowed (inspectCustomerCancellation (o_status l) (o_fulfillmentStatus l)) = Inr ()"
    and body: "(if inspectCustomerCancellation (o_status l) (o_fulfillmentStatus l) = IDEMPOTENT_CANCELLED then
                       ebind (refundIfPaid now newId i CUSTOMER_CANCELLATION
                                PAID_TERMINAL_REASON_CUSTOMER_CANCEL s1) (\<lambda>(intent, s2).
                         Inr (\<lparr>cv_orderStatus = o_status l,
                               cv_cancelledAt = map_option ca_cancelledAt
                                 (t_find ca_orderId i (s_cancellations s1)),
                               cv_refund = intent\<rparr>, s2))
                     else
                       ebind (applyCustomerCancel i acc reason' (o_updatedAt l) now s1)
                         (\<lambda>(applied, s2).
                       if \<not> applied then Inl (OrderE ORDER_CANCELLATION_CONFLICT)
                       else ebind (refundIfPaid now newId i CUSTOMER_CANCELLATION
                                PAID_TERMINAL_REASON_CUSTOMER_CANCEL s2) (\<lambda>(intent, s3).
                         Inr (\<lparr>cv_orderStatus = O_CANCELLED,
                               cv_cancelledAt = map_option ca_cancelledAt
                                 (t_find ca_orderId i (s_cancellations s3)),
                               cv_refund = intent\<rparr>, s3)))) = Inr (v, s')"
    using c unfolding cancelOrder_def
    by (auto simp: ebind_Inr emap_Inr Let_def blocker_Inr if_Inr
        option_Inr [where x = "dir_customerOfAccount d a" for d a]
        option_Inr [where x = "x1 :: order_row option" for x1] prod_Inr [where x = "lockOrder a b c" for a b c])
  from lockOrder_ok [OF lk] have eq: "books_of s1 = books_of s" and f: "t_find o_id i (s_orders s1) = Some l"
    by blast+
  have d1: "distinct (map o_id (s_orders s1))"
  proof -
    have "map o_id (ob_orders (books_of s1)) = map o_id (ob_orders (books_of s))" by (simp only: eq)
    with d show ?thesis by (simp add: comp_def)
  qed
  show thesis
  proof (cases "o_status l = O_CANCELLED")
    case True
    with body obtain intent where
      "refundIfPaid now newId i CUSTOMER_CANCELLATION PAID_TERMINAL_REASON_CUSTOMER_CANCEL s1 = Inr (intent, s')"
      "cv_refund v = intent"
      by (auto simp: inspectCustomerCancellation_def ebind_Inr)
    with True lk show thesis by (intro that [of l s1 s1 intent]) simp_all
  next
    case False
    with as have st: "o_status l = O_CREATED" "o_fulfillmentStatus l = PENDING_ACCEPTANCE"
      by (auto simp: assertCustomerCancellationAllowed_def inspectCustomerCancellation_def split: if_splits)
    with body obtain s2 intent where a: "applyCustomerCancel i acc reason' (o_updatedAt l) now s1 = Inr (True, s2)"
      and r: "refundIfPaid now newId i CUSTOMER_CANCELLATION PAID_TERMINAL_REASON_CUSTOMER_CANCEL s2 = Inr (intent, s')"
      "cv_refund v = intent"
      by (auto simp: inspectCustomerCancellation_def ebind_Inr split: if_splits)
    from applyCustomerCancel_books [OF d1 f st refl a] st lk r show thesis
      by (intro that [of l s1 s2 intent]) simp_all
  qed
qed

lemma cancelOrder_spec:
  assumes b: "order_inv (books_of s)"
    and c: "cancelOrder dir locked now newId acc i reason s = Inr (v, s')"
  shows "order_spec (books_of s) (books_of s')"
proof -
  obtain l s1 s2 intent where lk: "lockOrder locked i s = (Some l, s1)"
    and r: "refundIfPaid now newId i CUSTOMER_CANCELLATION PAID_TERMINAL_REASON_CUSTOMER_CANCEL s2 = Inr (intent, s')"
    and e: "o_status l = O_CANCELLED \<and> s2 = s1 \<or>
     o_status l = O_CREATED \<and> o_fulfillmentStatus l = PENDING_ACCEPTANCE \<and> cancel_effect i s1 s2"
    by (rule cancelOrder_cases [OF books_order_distinct [OF b] c])
  from lockOrder_ok [OF lk] have eq: "books_of s1 = books_of s" and f: "t_find o_id i (s_orders s1) = Some l"
    by blast+
  from e show ?thesis
  proof
    assume "o_status l = O_CANCELLED \<and> s2 = s1"
    with refundIfPaid_books [OF r] eq show ?thesis by (simp add: order_spec.stay)
  next
    assume "o_status l = O_CREATED \<and> o_fulfillmentStatus l = PENDING_ACCEPTANCE \<and> cancel_effect i s1 s2"
    with order_spec_cancel [of i s1 s2 l] f refundIfPaid_books [OF r] eq show ?thesis by simp
  qed
qed

section \<open>Histories\<close>

datatype order_call =
    AcceptOrder string string string "jsnum option"
  | RejectOrder string string string string string "string option"
  | StartPreparation string string string
  | MarkReady string string string
  | UpdateEstimate string string string jsnum jsnum "string option"
  | CancelOrder string string string "string option"

fun run_order :: "directory \<Rightarrow> instant \<Rightarrow> instant \<Rightarrow> order_call \<Rightarrow> shop \<Rightarrow> app_error + shop" where
  "run_order dir locked now (AcceptOrder acc m i mins) s = acceptOrder dir locked now acc m i mins s"
| "run_order dir locked now (RejectOrder newId acc m i reason code) s =
     rejectOrder dir locked now newId acc m i reason code s"
| "run_order dir locked now (StartPreparation acc m i) s = startPreparation dir locked now acc m i s"
| "run_order dir locked now (MarkReady acc m i) s = markReady dir locked now acc m i s"
| "run_order dir locked now (UpdateEstimate acc m i k v reason) s =
     updatePreparationEstimate dir locked now acc m i k v reason s"
| "run_order dir locked now (CancelOrder newId acc i reason) s =
     ebind (cancelOrder dir locked now newId acc i reason s) (\<lambda>(_, s'). Inr s')"

inductive order_history :: "directory \<Rightarrow> shop \<Rightarrow> bool" for dir where
  start: "s_orders s = [] \<Longrightarrow> s_payments s = [] \<Longrightarrow> s_events s = [] \<Longrightarrow> s_cancellations s = [] \<Longrightarrow>
    s_revisions s = [] \<Longrightarrow> order_history dir s"
| call: "order_history dir s \<Longrightarrow> run_order dir locked now c s = Inr s' \<Longrightarrow> order_history dir s'"
| other: "order_history dir s \<Longrightarrow> order_spec (books_of s) (books_of s') \<Longrightarrow> order_history dir s'"

lemma run_order_spec:
  assumes b: "order_inv (books_of s)" and r: "run_order dir locked now c s = Inr s'"
  shows "order_spec (books_of s) (books_of s')"
proof (cases c)
  case (AcceptOrder acc m i mins)
  with r have t: "transition dir locked now [] acc m i ACCEPT None (map_option the_int mins) None s = Inr s'"
    and ok: "(case mins of None \<Rightarrow> Inr () | Some m \<Rightarrow> requirePreparationMinutes m) = Inr ()"
    by (auto simp: acceptOrder_def ebind_Inr)
  from ok have "case map_option the_int mins of None \<Rightarrow> True
      | Some k \<Rightarrow> PREPARATION_MINUTES_MIN \<le> k \<and> k \<le> PREPARATION_MINUTES_MAX"
    by (auto simp: requirePreparationMinutes_def isInteger_iff split: option.splits if_splits)
  then show ?thesis by (rule transition_spec [OF b t])
next
  case (RejectOrder newId acc m i reason code)
  with r show ?thesis by (intro transition_spec [OF b]) (auto simp: rejectOrder_def)
next
  case (StartPreparation acc m i)
  with r show ?thesis by (intro transition_spec [OF b]) (auto simp: startPreparation_def)
next
  case (MarkReady acc m i)
  with r show ?thesis by (intro transition_spec [OF b]) (auto simp: markReady_def)
next
  case (UpdateEstimate acc m i k v reason)
  with r show ?thesis by (intro updateEstimate_spec [OF b]) simp
next
  case (CancelOrder newId acc i reason)
  with r show ?thesis by (auto simp: ebind_Inr intro: cancelOrder_spec [OF b])
qed

lemma order_history_inv: "order_history dir s \<Longrightarrow> order_inv (books_of s)"
proof (induction rule: order_history.induct)
  case (start s)
  then show ?case by (simp add: order_inv_def books_of_def)
next
  case (call s locked now c s')
  from order_spec_inv [OF run_order_spec [OF call.IH call.hyps(2)] call.IH] show ?case .
next
  case (other s s')
  from order_spec_inv [OF other.hyps(2) other.IH] show ?case .
qed

interpretation orders: refined_service "\<lambda>(locked, now, c) s. run_order dir locked now c s"
  books_of order_spec order_inv for dir
proof
  fix s c s'
  assume "order_inv (books_of s)" "(case c of (locked, now, c) \<Rightarrow> run_order dir locked now c) s = Inr s'"
  then show "order_spec (books_of s) (books_of s')" by (cases c) (auto intro: run_order_spec)
next
  fix b b' assume "order_spec b b'" "order_inv b"
  then show "order_inv b'" by (rule order_spec_inv)
qed

section \<open>What a paid order that ends unfulfilled leaves\<close>

text \<open>All its money is reserved by refunds, or an earlier automatic refund of the payment stands.\<close>

definition refund_settled :: "shop \<Rightarrow> string \<Rightarrow> payment_row \<Rightarrow> bool" where
  "refund_settled s i p \<longleftrightarrow> p_amountMinor p \<le> reserved s i \<or>
     (\<exists>k. paidTerminalIntentKeyForPayment (p_id p) = Inr k \<and> Some k \<in> r_paidTerminalIntentKey ` set (s_refunds s))"

lemma ensureRefundIntent_settles:
  assumes k: "refund_keys s" and p: "t_find p_orderId i (s_payments s) = Some p"
    and c: "ensureRefundIntentInTx now newId i org reason n s = Inr (v, s')"
  shows "refund_settled s' i p"
proof -
  have d: "distinct (map p_id (s_payments s))" by (rule refund_keysD(1) [OF k])
  obtain q f s1 key where lc: "lockedContext now i s = Inr (q, f, s1)"
    and key: "paidTerminalIntentKeyForPayment (p_id q) = Inr key"
    and body: "(case findByPaidTerminalIntentKey key s1 of
        Some existing \<Rightarrow> Inr (toIntentView existing False, s1)
      | None \<Rightarrow> new_intent now newId i org reason n q key s1) = Inr (v, s')"
    using c(1) unfolding ensureRefundIntentInTx_def by (auto simp: ebind_Inr split: if_splits)
  obtain nn: "0 \<le> p_amountMinor p" and q: "q = locked_payment now p" and s1: "s1 = touch now (p_id p) s"
    using lc p unfolding lockedContext_iff [OF d] by auto
  have qp: "p_id q = p_id p" "p_amountMinor q = p_amountMinor p" using q by simp_all
  have k1: "refund_keys s1" using k by (simp add: refund_keys_def touch_orders s1)
  show ?thesis
  proof (cases "findByPaidTerminalIntentKey key s1")
    case (Some r)
    then have "Some key \<in> r_paidTerminalIntentKey ` set (s_refunds s1)"
      by (force simp: findByPaidTerminalIntentKey_def dest: t_find_Some)
    with Some body key qp show ?thesis by (auto simp: refund_settled_def)
  next
    case None
    with body have ni: "new_intent now newId i org reason n q key s1 = Inr (v, s')" by simp
    from refundCapacity_some [OF k1, of q i] nn qp obtain cap where
      cap: "refundCapacity i q s1 = Inr cap" "rc_remainingRefundableMinor cap = max 0 (p_amountMinor p - reserved s1 i)"
      by auto
    from new_intent_ok [OF ni None] show ?thesis
    proof
      assume "s' = s1 \<and> in_created v = False"
      moreover have "rc_remainingRefundableMinor cap \<le> 0"
      proof (rule ccontr)
        assume "\<not> rc_remainingRefundableMinor cap \<le> 0"
        with ni cap None calculation show False
          by (auto simp: new_intent_def insertRefund_def toIntentView_def findByPaidTerminalIntentKey_def
              t_find_None split: option.splits if_splits)
      qed
      ultimately show ?thesis using cap(2) by (simp add: refund_settled_def)
    next
      assume "\<exists>cap r. refundCapacity i q s1 = Inr cap \<and>
      0 < rc_remainingRefundableMinor cap \<and> r_id r = newId \<and> r_orderId r = i \<and>
      r_amountMinor r = rc_remainingRefundableMinor cap \<and> r_status r = REQUESTED \<and>
      r_completedAt r = None \<and> r_paidTerminalIntentKey r = Some key \<and> r_requestOrigin r = org \<and>
      v = toIntentView r True \<and> insertRefund r s1 = Inr (r, s')"
      then obtain r where "s' = s1\<lparr>s_refunds := s_refunds s1 @ [r]\<rparr>" "r_paidTerminalIntentKey r = Some key"
        by (auto simp: insertRefund_ok)
      with key qp show ?thesis by (auto simp: refund_settled_def)
    qed
  qed
qed

lemma run_cancel_or_reject:
  assumes b: "order_inv (books_of s)" and k: "refund_keys s"
    and p: "t_find p_orderId i (s_payments s) = Some p" "p_status p = PAY_SUCCEEDED"
    and c: "c = CancelOrder newId acc i why \<or> c = RejectOrder newId acc m i reason code"
    and r: "run_order dir locked now c s = Inr s'"
  shows "(\<exists>ord \<in> set (s_orders s'). o_id ord = i \<and> o_status ord = O_CANCELLED) \<and> refund_settled s' i p"
proof -
  obtain l s1 s2 org res intent where lk: "lockOrder locked i s = (Some l, s1)"
    and e: "o_status l = O_CANCELLED \<and> s2 = s1 \<or>
     o_status l = O_CREATED \<and> o_fulfillmentStatus l = PENDING_ACCEPTANCE \<and> cancel_effect i s1 s2"
    and rp: "refundIfPaid now newId i org res s2 = Inr (intent, s')"
  proof (cases "c = CancelOrder newId acc i why")
    case True
    with r obtain v where "cancelOrder dir locked now newId acc i why s = Inr (v, s')" by (auto simp: ebind_Inr)
    from cancelOrder_cases [OF books_order_distinct [OF b] this] that show thesis by metis
  next
    case False
    with c r have t: "transition dir locked now newId acc m i REJECT (Some reason) None code s = Inr s'"
      by (auto simp: rejectOrder_def)
    obtain l s1 rr rc where lk: "lockMerchantOrder dir locked m i s = Inr (l, s1)"
      and ap: "inspectMerchantWorkflowTransition REJECT (o_status l) (o_fulfillmentStatus l) = APPLY"
      and a: "\<exists>s2 v. applyMerchantReject i acc rr (o_updatedAt l) now rc s1 = Inr (True, s2) \<and>
       refundIfPaid now newId i MERCHANT_REJECTION PAID_TERMINAL_REASON_MERCHANT_REJECT s2 = Inr (v, s')"
      by (rule transition_ok [OF t]) blast
    from a obtain s2 v where a: "applyMerchantReject i acc rr (o_updatedAt l) now rc s1 = Inr (True, s2)"
      and rp: "refundIfPaid now newId i MERCHANT_REJECTION PAID_TERMINAL_REASON_MERCHANT_REJECT s2 = Inr (v, s')"
      by blast
    from lockMerchantOrder_ok [OF lk] have lo: "lockOrder locked i s = (Some l, s1)" by blast
    from lockOrder_ok [OF lo] have eq: "books_of s1 = books_of s" and f: "t_find o_id i (s_orders s1) = Some l"
      by blast+
    have d: "distinct (map o_id (s_orders s1))" using books_order_distinct [of s1] b by (simp add: eq)
    from ap have st: "o_status l = O_CREATED" "o_fulfillmentStatus l = PENDING_ACCEPTANCE"
      by (auto simp: inspectMerchantWorkflowTransition_def split: if_splits)
    from that [OF lo _ rp] applyMerchantReject_books [OF d f st refl a] st show thesis by blast
  qed
  from lockOrder_ok [OF lk] have eq: "books_of s1 = books_of s" and f: "t_find o_id i (s_orders s1) = Some l"
    and s1: "s1 = s\<lparr>s_orders := s_orders s1\<rparr>" by blast+
  have k1: "refund_keys s1" and p1: "t_find p_orderId i (s_payments s1) = Some p"
    using k p(1) by (simp_all add: refund_keys_def s1 [THEN arg_cong [of _ _ s_payments], simplified]
        s1 [THEN arg_cong [of _ _ s_refunds], simplified])
  have k2o2: "(refund_keys s2 \<and> t_find p_orderId i (s_payments s2) = Some p) \<and>
    (\<exists>q \<in> set (ob_orders (books_of s2)). o_id q = i \<and> o_status q = O_CANCELLED)"
    using e
  proof (elim disjE conjE)
    assume "o_status l = O_CANCELLED" "s2 = s1"
    with k1 p1 t_find_Some [OF f] show "(refund_keys s2 \<and> t_find p_orderId i (s_payments s2) = Some p) \<and>
      (\<exists>q \<in> set (ob_orders (books_of s2)). o_id q = i \<and> o_status q = O_CANCELLED)" by force
  next
    assume "cancel_effect i s1 s2"
    then obtain ev cc where bs: "books_of s2 = cancelled_books i ev cc (books_of s1)"
      and rs: "s_refunds s2 = s_refunds s1" and ps: "s_payments s2 = s_payments (cancelPendingPayment i (ev_occurredAt ev) s1)"
      unfolding cancel_effect_def by blast
    have ids: "map p_id (s_payments s2) = map p_id (s_payments s1)"
      "map p_orderId (s_payments s2) = map p_orderId (s_payments s1)"
      by (simp_all add: ps cancelPendingPayment_def)
    have "t_find p_orderId i (s_payments s2) = Some p"
      using p1 p(2) by (simp add: ps cancelPendingPayment_def t_find_update)
    moreover have "l \<in> set (s_orders s1)" "o_id l = i" using t_find_Some [OF f] by auto
    then have inn: "(order_view l)\<lparr>o_status := O_CANCELLED\<rparr> \<in> set (ob_orders (books_of s2))"
      unfolding bs cancelled_books_def log_event_def set_order_def by (simp add: t_update_in) blast
    moreover have "\<exists>q \<in> set (ob_orders (books_of s2)). o_id q = i \<and> o_status q = O_CANCELLED"
      using t_find_Some [OF f] by (intro bexI [OF _ inn]) simp
    ultimately show "(refund_keys s2 \<and> t_find p_orderId i (s_payments s2) = Some p) \<and>
      (\<exists>q \<in> set (ob_orders (books_of s2)). o_id q = i \<and> o_status q = O_CANCELLED)"
      using k1 ids rs by (simp add: refund_keys_def)
  qed
  then have k2: "refund_keys s2 \<and> t_find p_orderId i (s_payments s2) = Some p"
    and o2: "\<exists>q \<in> set (ob_orders (books_of s2)). o_id q = i \<and> o_status q = O_CANCELLED" by blast+
  from rp k2 p(2) obtain v where en: "ensureRefundIntentInTx now newId i org res None s2 = Inr (v, s')"
    by (auto simp: refundIfPaid_def findPaymentByOrderId_def electronicPaymentRequiresRefundIntent_def ebind_Inr)
  from ensureRefundIntent_settles [OF _ _ en] k2 have "refund_settled s' i p" by blast
  moreover from o2 have "\<exists>ord \<in> set (s_orders s'). o_id ord = i \<and> o_status ord = O_CANCELLED"
    unfolding ensureRefundIntent_books [OF en, symmetric] by auto
  ultimately show ?thesis by blast
qed

lemma lockOrder_found:
  "t_find o_id i (s_orders s) = Some l0 \<Longrightarrow>
   lockOrder now i s = (Some (l0\<lparr>o_updatedAt := now\<rparr>),
     s\<lparr>s_orders := t_update (\<lambda>o'. o_id o' = i) (\<lambda>o'. o'\<lparr>o_updatedAt := now\<rparr>) (s_orders s)\<rparr>)"
  using t_find_Some [of o_id i "s_orders s" l0] by (auto simp: lockOrder_def Let_def t_find_update)

lemma startPreparation_iff:
  assumes d: "distinct (map o_id (s_orders s))"
  shows "(\<exists>s'. startPreparation dir locked now acc m i s = Inr s') \<longleftrightarrow>
    dir_canMutateOrders dir acc m \<and> dir_merchantApproved dir m \<and>
    (\<exists>ord p. t_find o_id i (s_orders s) = Some ord \<and>
       dir_merchantOfBranch dir (o_merchantBranchId ord) = Some m \<and>
       o_status ord = O_CONFIRMED \<and> o_fulfillmentStatus ord = ACCEPTED \<and>
       t_find p_orderId i (s_payments s) = Some p \<and>
       merchantPreparationPaymentReady (p_method p) (p_status p))" (is "?lhs \<longleftrightarrow> ?rhs")
proof
  assume ?lhs
  then obtain s' where t: "transition dir locked now [] acc m i START_PREPARATION None None None s = Inr s'"
    by (auto simp: startPreparation_def)
  obtain l s1 where lk: "lockMerchantOrder dir locked m i s = Inr (l, s1)" and cm: "dir_canMutateOrders dir acc m"
    and ap: "inspectMerchantWorkflowTransition START_PREPARATION (o_status l) (o_fulfillmentStatus l) = APPLY"
    and pay: "\<exists>p. findPaymentByOrderId i s1 = Some p \<and> merchantPreparationPaymentReady (p_method p) (p_status p)"
    by (rule transition_ok [OF t]) blast
  from lockMerchantOrder_ok [OF lk] have lo: "lockOrder locked i s = (Some l, s1)"
    and m: "dir_merchantApproved dir m" "dir_merchantOfBranch dir (o_merchantBranchId l) = Some m" by blast+
  from lockOrder_ok [OF lo] obtain l0 where l0: "t_find o_id i (s_orders s) = Some l0" "l = l0\<lparr>o_updatedAt := locked\<rparr>"
    and s1: "s1 = s\<lparr>s_orders := s_orders s1\<rparr>" by blast
  have "s_payments s1 = s_payments s" by (subst s1) simp
  with cm m l0 ap pay show ?rhs
    by (auto simp: inspectMerchantWorkflowTransition_def findPaymentByOrderId_def split: if_splits)
next
  assume ?rhs
  then obtain ord p where f: "t_find o_id i (s_orders s) = Some ord"
    and dirs: "dir_canMutateOrders dir acc m" "dir_merchantApproved dir m"
      "dir_merchantOfBranch dir (o_merchantBranchId ord) = Some m"
    and st: "o_status ord = O_CONFIRMED" "o_fulfillmentStatus ord = ACCEPTED"
    and p: "t_find p_orderId i (s_payments s) = Some p" "merchantPreparationPaymentReady (p_method p) (p_status p)"
    by blast
  define s1 where "s1 = s\<lparr>s_orders := t_update (\<lambda>o'. o_id o' = i) (\<lambda>o'. o'\<lparr>o_updatedAt := locked\<rparr>) (s_orders s)\<rparr>"
  let ?l = "ord\<lparr>o_updatedAt := locked\<rparr>"
  have lk: "lockMerchantOrder dir locked m i s = Inr (?l, s1)"
    using dirs f by (simp add: lockMerchantOrder_def lockOrder_found [OF f] s1_def)
  have f1: "t_find o_id i (s_orders s1) = Some ?l" using f t_find_Some [OF f] by (simp add: s1_def t_find_update)
  have d1: "distinct (map o_id (s_orders s1))" using d by (simp add: s1_def)
  from applyStart_books [OF d1 f1, of locked acc now] st obtain s' where
    "applyStartPreparation i acc locked now s1 = (True, s')" by auto
  moreover have "s_payments s1 = s_payments s" by (simp add: s1_def)
  ultimately show ?lhs
    using lk p dirs st
    by (simp add: startPreparation_def transition_def requireOrderCapability_def findPaymentByOrderId_def Let_def
        inspectMerchantWorkflowTransition_def isTerminalOrderStatus_def)
qed

section \<open>An example\<close>

definition placed_order :: order_row where
  "placed_order = example_order\<lparr>o_status := O_CREATED\<rparr>"

definition placed_event :: order_event where
  "placed_event = \<lparr>ev_orderId = ''order-1'', ev_eventType = ''ORDER_CREATED'', ev_actorType = ''CUSTOMER'',
     ev_actorId = ''acc'', ev_fromStatus = None, ev_toStatus = O_CREATED, ev_occurredAt = 0\<rparr>"

definition paid_shop :: shop where
  "paid_shop = example_shop\<lparr>s_orders := [placed_order], s_events := [placed_event]\<rparr>"

lemma paid_shop_order_history: "order_history dir paid_shop"
proof -
  let ?p = "example_payment\<lparr>p_status := PAY_PENDING\<rparr>"
  let ?s0 = "paid_shop\<lparr>s_orders := [], s_payments := [], s_events := []\<rparr>"
  let ?s1 = "paid_shop\<lparr>s_payments := [?p]\<rparr>"
  have ov: "order_view placed_order = placed_order"
    by (simp add: placed_order_def example_order_def order_view_def)
  have pv: "pay_view ?p = ?p" "pay_view example_payment = example_payment"
    by (simp_all add: example_payment_def pay_view_def)
  have "order_history dir ?s0" by (rule order_history.start) (simp_all add: paid_shop_def example_shop_def)
  moreover have "order_spec (books_of ?s0) (books_of ?s1)"
    using order_spec.place [of placed_order "books_of ?s0" ?p placed_event]
    by (simp add: books_of_def paid_shop_def example_shop_def log_event_def ov pv)
      (simp add: placed_order_def example_order_def example_payment_def placed_event_def event_of_def)
  ultimately have "order_history dir ?s1" by (rule order_history.other)
  moreover have "order_spec (books_of ?s1) (books_of paid_shop)"
    using order_spec.pay [of "books_of ?s1" "[example_payment]"]
    by (simp add: books_of_def paid_shop_def example_shop_def ov pv payment_advances_def)
      (simp add: example_payment_def merchantPreparationPaymentReady_def)
  ultimately show ?thesis by (rule order_history.other)
qed

lemma paid_shop_refund_history: "refund_history dir paid_shop"
  by (rule refund_history.start) (simp_all add: paid_shop_def example_shop_def)

text \<open>Accepted with 20 minutes, ten more minutes promised, then prepared.\<close>

definition prepare_calls :: "(instant \<times> instant \<times> order_call) list" where
  "prepare_calls = [(1000, 1000, AcceptOrder ''mo'' ''mer'' ''order-1'' (Some (JInt 20))),
     (2000, 2000, UpdateEstimate ''mo'' ''mer'' ''order-1'' (JInt 10) (JInt 1) None),
     (3000, 3000, StartPreparation ''mo'' ''mer'' ''order-1''),
     (4000, 4000, MarkReady ''mo'' ''mer'' ''order-1'')]"

definition run_orders :: "directory \<Rightarrow> (instant \<times> instant \<times> order_call) list \<Rightarrow> shop \<Rightarrow> app_error + shop" where
  "run_orders dir = run_calls (\<lambda>(locked, now, c) s. run_order dir locked now c s)"

lemma run_orders_history:
  "order_history dir s \<Longrightarrow> run_orders dir cs s = Inr s' \<Longrightarrow> order_history dir s'"
  by (induction cs arbitrary: s) (auto simp: run_orders_def ebind_Inr intro: order_history.call)

definition order_digest where
  "order_digest s = (map (\<lambda>ord. (o_id ord, o_status ord, o_fulfillmentStatus ord, o_estimatedReadyAt ord)) (s_orders s),
     map ev_toStatus (s_events s), map er_addMinutes (s_revisions s), map ca_orderId (s_cancellations s),
     map (\<lambda>p. (p_orderId p, p_method p, p_status p)) (s_payments s), map r_id (s_refunds s))"

lemma prepare_run:
  "map_sum id order_digest (run_orders example_directory prepare_calls paid_shop) =
   Inr ([(''order-1'', O_ACTIVE, READY, Some 1801000)], [O_CREATED, O_CONFIRMED, O_ACTIVE, O_ACTIVE],
     [20, 10], [], [(''order-1'', PAYMENT_METHOD_ELECTRONIC, PAY_SUCCEEDED)], [])"
  by code_simp

lemma prepare_run_ok:
  obtains s where "run_orders example_directory prepare_calls paid_shop = Inr s"
    "order_history example_directory s"
    "order_digest s = ([(''order-1'', O_ACTIVE, READY, Some 1801000)], [O_CREATED, O_CONFIRMED, O_ACTIVE, O_ACTIVE],
     [20, 10], [], [(''order-1'', PAYMENT_METHOD_ELECTRONIC, PAY_SUCCEEDED)], [])"
proof -
  obtain s where "run_orders example_directory prepare_calls paid_shop = Inr s"
    "order_digest s = ([(''order-1'', O_ACTIVE, READY, Some 1801000)], [O_CREATED, O_CONFIRMED, O_ACTIVE, O_ACTIVE],
     [20, 10], [], [(''order-1'', PAYMENT_METHOD_ELECTRONIC, PAY_SUCCEEDED)], [])"
    using prepare_run by (cases "run_orders example_directory prepare_calls paid_shop") auto
  with run_orders_history [OF paid_shop_order_history] that show thesis by blast
qed

section \<open>Properties\<close>

lemma history_order_ok:
  assumes "order_history dir s" "ord \<in> set (s_orders s)"
  shows "order_ok (books_of s) (order_view ord)"
  using order_invD(7) [OF order_history_inv [OF assms(1)]] assms(2) by simp

text \<open>
  C18. The life of an order. Along every history of merchant and customer operations, mixed with
  placements, payments and completions, the status and the fulfilment status of an order always
  go together as one of six pairs, and food is being prepared or ready only when the order's payment
  allows it.
\<close>

theorem order_lifecycle:
  assumes "order_history dir s" and "ord \<in> set (s_orders s)"
  shows "legal_status (o_status ord) (o_fulfillmentStatus ord) \<and>
    (\<exists>p \<in> set (s_payments s). p_orderId p = o_id ord \<and>
       (if o_fulfillmentStatus ord \<in> {PREPARING, READY}
        then merchantPreparationPaymentReady (p_method p) (p_status p) else True))"
proof -
  from history_order_ok [OF assms] have "legal_status (o_status ord) (o_fulfillmentStatus ord)"
    "payment_fits (books_of s) (order_view ord)"
    by (simp_all add: order_ok_def)
  moreover from this(2) obtain p where "t_find p_orderId (o_id ord) (s_payments s) = Some p"
    "o_fulfillmentStatus ord \<in> {PREPARING, READY} \<longrightarrow> merchantPreparationPaymentReady (p_method p) (p_status p)"
    by (auto simp: payment_fits_def findPayment_view)
  ultimately show ?thesis by (auto dest!: t_find_Some)
qed

theorem order_lifecycle_witness:
  "\<exists>s ord p. order_history example_directory s \<and> s_orders s = [ord] \<and> o_fulfillmentStatus ord = READY \<and>
     o_status ord = O_ACTIVE \<and> p \<in> set (s_payments s) \<and> merchantPreparationPaymentReady (p_method p) (p_status p)"
proof -
  obtain s where h: "order_history example_directory s"
    and d: "order_digest s = ([(''order-1'', O_ACTIVE, READY, Some 1801000)], [O_CREATED, O_CONFIRMED, O_ACTIVE, O_ACTIVE],
     [20, 10], [], [(''order-1'', PAYMENT_METHOD_ELECTRONIC, PAY_SUCCEEDED)], [])"
    by (rule prepare_run_ok)
  then obtain ord where o': "s_orders s = [ord]" "o_fulfillmentStatus ord = READY" "o_status ord = O_ACTIVE"
    by (auto simp: order_digest_def)
  with order_lifecycle [OF h, of ord] h show ?thesis by auto
qed

text \<open>
  C19. The event log explains every order: its events start with the placement, each one leaves
  the status the previous one reached, and replaying them gives the order's status. An order is
  cancelled exactly when one cancellation row names it.
\<close>

theorem order_trail_replays:
  assumes "order_history dir s" and "ord \<in> set (s_orders s)"
  shows "trail (filter (\<lambda>e. ev_orderId e = o_id ord) (s_events s)) (o_status ord) \<and>
    length (filter (\<lambda>c. ca_orderId c = o_id ord) (s_cancellations s)) =
      (if o_status ord = O_CANCELLED then 1 else 0)"
proof -
  from history_order_ok [OF assms] have t: "trail (trail_of (books_of s) (o_id ord)) (o_status ord)"
    and c: "o_status ord = O_CANCELLED \<longleftrightarrow> o_id ord \<in> ca_orderId ` set (s_cancellations s)"
    by (simp_all add: order_ok_def)
  have d: "distinct (map ca_orderId (s_cancellations s))"
    using order_invD(3) [OF order_history_inv [OF assms(1)]] by simp
  have "length (filter (\<lambda>c. ca_orderId c = i) cs) = (if i \<in> ca_orderId ` set cs then 1 else 0)"
    if "distinct (map ca_orderId cs)" for i and cs :: "cancellation_row list"
    using that by (induction cs) (auto simp: filter_empty_conv)
  with d c t show ?thesis by (simp add: trail_of_def)
qed

theorem order_trail_replays_witness:
  "\<exists>s. order_history example_directory s \<and> trail (s_events s) O_ACTIVE \<and> length (s_events s) = 4"
proof -
  obtain s where run: "run_orders example_directory prepare_calls paid_shop = Inr s"
    and h: "order_history example_directory s"
    and d: "order_digest s = ([(''order-1'', O_ACTIVE, READY, Some 1801000)], [O_CREATED, O_CONFIRMED, O_ACTIVE, O_ACTIVE],
     [20, 10], [], [(''order-1'', PAYMENT_METHOD_ELECTRONIC, PAY_SUCCEEDED)], [])"
    by (rule prepare_run_ok)
  from d obtain ord where o': "s_orders s = [ord]" "o_id ord = ''order-1''" "o_status ord = O_ACTIVE"
    by (auto simp: order_digest_def)
  have "ev_orderId ` set (s_events s) \<subseteq> {''order-1''}"
    using order_invD(4) [OF order_history_inv [OF h]] o' by simp
  then have "filter (\<lambda>e. ev_orderId e = ''order-1'') (s_events s) = s_events s" by (auto intro!: filter_True)
  moreover have "length (s_events s) = 4" using d by (auto simp: order_digest_def dest: map_eq_imp_length_eq)
  ultimately show ?thesis using order_trail_replays [OF h, of ord] o' h by auto
qed



text \<open>
  C21. Refinement: any sequence of merchant and customer calls that succeeds, at any times and by
  any accounts, is a path of the abstract order machine, from books that a history can reach to
  books that again satisfy its invariant.
\<close>

theorem order_calls_refine:
  assumes "order_history dir s" and "run_orders dir cs s = Inr s'"
  shows "order_spec\<^sup>*\<^sup>* (books_of s) (books_of s') \<and> order_inv (books_of s')"
  using orders.calls_path [OF assms(2) [unfolded run_orders_def] order_history_inv [OF assms(1)]] .

theorem order_calls_refine_witness:
  "\<exists>s. run_orders example_directory prepare_calls paid_shop = Inr s \<and>
     order_spec\<^sup>*\<^sup>* (books_of paid_shop) (books_of s) \<and> order_digest s \<noteq> order_digest paid_shop"
proof -
  obtain s where run: "run_orders example_directory prepare_calls paid_shop = Inr s"
    and d: "order_digest s = ([(''order-1'', O_ACTIVE, READY, Some 1801000)], [O_CREATED, O_CONFIRMED, O_ACTIVE, O_ACTIVE],
     [20, 10], [], [(''order-1'', PAYMENT_METHOD_ELECTRONIC, PAY_SUCCEEDED)], [])"
    by (rule prepare_run_ok)
  have "order_digest s \<noteq> order_digest paid_shop"
    unfolding d by (simp add: order_digest_def paid_shop_def placed_order_def example_order_def)
  with run order_calls_refine [OF paid_shop_order_history run] show ?thesis by blast
qed



text \<open>
  C23. A merchant can start preparing exactly when it may: the account holds the order capability,
  the merchant is approved and owns the branch of the order, the order is confirmed and accepted,
  and its payment is collected on delivery and alive, or electronic and succeeded.
\<close>

theorem startPreparation_exactly_when:
  assumes "order_history dir s"
  shows "(\<exists>s'. startPreparation dir locked now acc m i s = Inr s') \<longleftrightarrow>
    dir_canMutateOrders dir acc m \<and> dir_merchantApproved dir m \<and>
    (\<exists>ord p. t_find o_id i (s_orders s) = Some ord \<and>
       dir_merchantOfBranch dir (o_merchantBranchId ord) = Some m \<and>
       o_status ord = O_CONFIRMED \<and> o_fulfillmentStatus ord = ACCEPTED \<and>
       t_find p_orderId i (s_payments s) = Some p \<and>
       (p_method p = ''COD'' \<and> p_status p \<noteq> PAY_FAILED \<and> p_status p \<noteq> PAY_CANCELLED \<or>
        p_method p = ''ELECTRONIC'' \<and> p_status p = PAY_SUCCEEDED))"
proof -
  have "merchantPreparationPaymentReady me st \<longleftrightarrow>
      me = ''COD'' \<and> st \<noteq> PAY_FAILED \<and> st \<noteq> PAY_CANCELLED \<or> me = ''ELECTRONIC'' \<and> st = PAY_SUCCEEDED" for me st
    by (auto simp: merchantPreparationPaymentReady_def)
  with startPreparation_iff [OF books_order_distinct [OF order_history_inv [OF assms]]] show ?thesis by simp
qed

theorem startPreparation_exactly_when_witness:
  "(\<exists>s. run_orders example_directory (take 2 prepare_calls) paid_shop = Inr s \<and>
     (\<exists>s'. startPreparation example_directory 3000 3000 ''mo'' ''mer'' ''order-1'' s = Inr s')) \<and>
   \<not> (\<exists>s'. startPreparation example_directory 3000 3000 ''mo'' ''mer'' ''order-1'' paid_shop = Inr s')"
proof -
  let ?run = "run_orders example_directory (take 2 prepare_calls) paid_shop"
  have "map_sum id (\<lambda>s. (map (\<lambda>ord. (o_id ord, o_status ord, o_fulfillmentStatus ord)) (s_orders s),
      map (\<lambda>p. (p_orderId p, p_method p, p_status p)) (s_payments s))) ?run =
      Inr ([(''order-1'', O_CONFIRMED, ACCEPTED)], [(''order-1'', ''ELECTRONIC'', PAY_SUCCEEDED)])" by code_simp
  then obtain s ord p where s: "?run = Inr s" "s_orders s = [ord]" "o_id ord = ''order-1''"
    "o_status ord = O_CONFIRMED" "o_fulfillmentStatus ord = ACCEPTED"
    "s_payments s = [p]" "p_orderId p = ''order-1''" "p_method p = ''ELECTRONIC''" "p_status p = PAY_SUCCEEDED"
    by (cases ?run) auto
  have "order_history example_directory s" by (rule run_orders_history [OF paid_shop_order_history s(1)])
  from startPreparation_exactly_when [OF this] s have
    "\<exists>s'. startPreparation example_directory 3000 3000 ''mo'' ''mer'' ''order-1'' s = Inr s'"
    by (simp add: t_find_def example_directory_def)
  moreover have "\<not> (\<exists>s'. startPreparation example_directory 3000 3000 ''mo'' ''mer'' ''order-1'' paid_shop = Inr s')"
    unfolding startPreparation_exactly_when [OF paid_shop_order_history]
    by (simp add: paid_shop_def placed_order_def t_find_def)
  ultimately show ?thesis using s(1) by blast
qed

end
