(* ===== verification/Cod.thy ===== *)
theory Cod
  imports Shop "HOL-Library.AList"
begin

text \<open>
  Cash on delivery: \<open>modules/cod/application/cod-foundation.service.ts\<close> with the driver repository's
  lookup of an open assignment. A driver collects the exact amount of a cash order, owes it to the
  platform (custody), declares a remittance and has it confirmed; a confirmed remittance is allocated
  to the driver's collections, oldest first.
\<close>

section \<open>Numbers\<close>

definition pgBigInt :: "jsnum \<Rightarrow> app_error + int" where
  "pgBigInt v = (case v of JInt n \<Rightarrow> Inr n | _ \<Rightarrow> Inl InternalE)"

definition minorString :: "jsnum \<Rightarrow> app_error + string" where
  "minorString v = emap (\<lambda>_. InternalE) (moneyMinorToDecimalString (MNum v))"

fun js_neg :: "jsnum \<Rightarrow> jsnum" where
  "js_neg (JInt n) = JInt (- n)"
| "js_neg (JFrac q) = JFrac (- q)"
| "js_neg JInf = JNegInf"
| "js_neg JNegInf = JInf"
| "js_neg JNaN = JNaN"

definition js_sub :: "jsnum \<Rightarrow> jsnum \<Rightarrow> jsnum" where
  "js_sub x y = js_add x (js_neg y)"

definition js_max :: "jsnum \<Rightarrow> jsnum \<Rightarrow> jsnum" where
  "js_max x y = (if x = JNaN \<or> y = JNaN then JNaN else if js_less x y then y else x)"

section \<open>Collections\<close>

text \<open>\<open>findOpenAcceptedAssignment\<close> of the driver repository.\<close>

definition findOpenAcceptedAssignment :: "string \<Rightarrow> shop \<Rightarrow> assignment_row option" where
  "findOpenAcceptedAssignment driverId s =
     find (\<lambda>a. a_driverId a = driverId \<and> a_status a = A_ACCEPTED \<and> a_releasedAt a = None) (s_assignments s)"

definition touchOrderPayment :: "instant \<Rightarrow> string \<Rightarrow> shop \<Rightarrow> shop" where
  "touchOrderPayment now orderId s =
     s\<lparr>s_payments := t_update (\<lambda>p. p_orderId p = orderId) (\<lambda>p. p\<lparr>p_updatedAt := now\<rparr>) (s_payments s)\<rparr>"

record collection_view =
  cv_orderId :: string
  cv_codCollectionId :: string
  cv_expectedAmountMinor :: string
  cv_collectedAmountMinor :: string

text \<open>The order whose cash the driver stands in front of, and its payment under lock.\<close>

definition arrivedOrder :: "string \<Rightarrow> shop \<Rightarrow> app_error + order_row" where
  "arrivedOrder driverId s =
     (case findOpenAcceptedAssignment driverId s of
        None \<Rightarrow> Inl (CodE DRIVER_COD_COLLECTION_ASSIGNMENT_NOT_ACTIVE)
      | Some opn \<Rightarrow>
          if \<not> isAcceptedAssignment (a_status opn) None
          then Inl (CodE DRIVER_COD_COLLECTION_ASSIGNMENT_NOT_ACTIVE)
          else case t_find d_id (a_deliveryId opn) (s_deliveries s) of
                 None \<Rightarrow> Inl (CodE DRIVER_COD_COLLECTION_NOT_READY)
               | Some delivery \<Rightarrow>
                   if d_status delivery \<noteq> ARRIVED_CUSTOMER then Inl (CodE DRIVER_COD_COLLECTION_NOT_READY)
                   else case find (\<lambda>o'. o_id o' = d_orderId delivery \<and> o_status o' = O_ACTIVE) (s_orders s) of
                          None \<Rightarrow> Inl (CodE DRIVER_COD_COLLECTION_NOT_READY)
                        | Some order \<Rightarrow> Inr order)"

definition insertCollection :: "collection_row \<Rightarrow> shop \<Rightarrow> app_error + shop" where
  "insertCollection row s =
     (if co_collectionId row \<in> co_collectionId ` set (s_collections s)
         \<or> co_orderId row \<in> co_orderId ` set (s_collections s)
      then Inl UniqueViolationE else Inr (s\<lparr>s_collections := s_collections s @ [row]\<rparr>))"

definition collectionView :: "string \<Rightarrow> string \<Rightarrow> jsnum \<Rightarrow> jsnum \<Rightarrow> app_error + collection_view" where
  "collectionView orderId collectionId expected collected =
     ebind (minorString expected) (\<lambda>e. ebind (minorString collected) (\<lambda>c.
     Inr \<lparr>cv_orderId = orderId, cv_codCollectionId = collectionId, cv_expectedAmountMinor = e,
          cv_collectedAmountMinor = c\<rparr>))"

definition reuseExistingCollection ::
  "instant \<Rightarrow> string \<Rightarrow> collection_row \<Rightarrow> payment_row \<Rightarrow> string \<Rightarrow> jsnum \<Rightarrow> shop \<Rightarrow>
   app_error + collection_view \<times> shop" where
  "reuseExistingCollection now ledgerId existing payment driverId amount s =
     (let expected = parseMinorUnits (DbBig (co_expectedAmountMinor existing));
          collected = parseMinorUnits (DbBig (co_collectedAmountMinor existing));
          paymentAmount = parseMinorUnits (DbBig (p_amountMinor payment))
      in if co_driverId existing \<noteq> driverId then Inl (CodE DRIVER_COD_COLLECTION_ALREADY_EXISTS)
         else if co_status existing \<noteq> ''COLLECTED'' then Inl (CodE DRIVER_COD_COLLECTION_INCONSISTENT_STATE)
         else if js_neq collected amount \<or> js_neq collected expected \<or> js_neq collected paymentAmount
         then Inl (CodE DRIVER_COD_COLLECTION_ALREADY_EXISTS)
         else if p_currency payment \<noteq> ''DZD'' then Inl (CodE DRIVER_COD_COLLECTION_INCONSISTENT_STATE)
         else if p_status payment \<noteq> PAY_SUCCEEDED then Inl (CodE DRIVER_COD_COLLECTION_INCONSISTENT_STATE)
         else ebind (in_ledger (postCodCollection ledgerId now (co_collectionId existing)
                (co_orderId existing) (co_driverId existing) (NumMinor collected)) s) (\<lambda>s'.
              ebind (collectionView (co_orderId existing) (co_collectionId existing) expected collected)
                (\<lambda>v. Inr (v, s'))))"

text \<open>The first collection of an order: the row, the payment's success and the custody entry.\<close>

definition recordCollection ::
  "instant \<Rightarrow> string \<Rightarrow> string \<Rightarrow> order_row \<Rightarrow> payment_row \<Rightarrow> string \<Rightarrow> jsnum \<Rightarrow> shop \<Rightarrow>
   app_error + collection_view \<times> shop" where
  "recordCollection now newId ledgerId order payment driverId amount s =
     (case t_find sn_orderId (o_id order) (s_snapshots s) of
        None \<Rightarrow> Inl (CodE DRIVER_COD_COLLECTION_NOT_READY)
      | Some snapshot \<Rightarrow>
          if sn_currency snapshot \<noteq> ''DZD'' then Inl (CodE DRIVER_COD_COLLECTION_NOT_READY)
          else let paymentAmount = parseMinorUnits (DbBig (p_amountMinor payment));
                   payable = parseMinorUnits (DbBig (sn_customerPayableMinor snapshot))
               in if \<not> isExactCodAmount amount paymentAmount payable
                  then Inl (CodE DRIVER_COD_COLLECTION_AMOUNT_MISMATCH)
                  else ebind (pgBigInt paymentAmount) (\<lambda>e. ebind (pgBigInt amount) (\<lambda>c.
                    ebind (insertCollection \<lparr>co_collectionId = newId, co_orderId = o_id order,
                        co_driverId = driverId, co_expectedAmountMinor = e, co_collectedAmountMinor = c,
                        co_collectedAt = now, co_status = ''COLLECTED''\<rparr> s) (\<lambda>s1.
                    let s2 = s1\<lparr>s_payments := t_update (\<lambda>p. p_id p = p_id payment)
                          (\<lambda>p. p\<lparr>p_status := PAY_SUCCEEDED, p_updatedAt := now\<rparr>) (s_payments s1)\<rparr>
                    in ebind (in_ledger (postCodCollection ledgerId now newId (o_id order) driverId
                               (NumMinor amount)) s2) (\<lambda>s3.
                       ebind (collectionView (o_id order) newId paymentAmount amount)
                         (\<lambda>v. Inr (v, s3)))))))"

definition collectCodInTransaction ::
  "instant \<Rightarrow> string \<Rightarrow> string \<Rightarrow> string \<Rightarrow> jsnum \<Rightarrow> bool \<Rightarrow> shop \<Rightarrow>
   app_error + collection_view \<times> shop" where
  "collectCodInTransaction now newId ledgerId accountId amount afterUniqueRace s =
     (case driverOfAccount accountId s of
        None \<Rightarrow> Inl (CodE DRIVER_COD_COLLECTION_ASSIGNMENT_NOT_ACTIVE)
      | Some driverId \<Rightarrow>
          ebind (arrivedOrder driverId s) (\<lambda>order.
          let s1 = touchOrderPayment now (o_id order) s
          in case t_find p_orderId (o_id order) (s_payments s1) of
               None \<Rightarrow> Inl (CodE DRIVER_COD_COLLECTION_PAYMENT_NOT_ELIGIBLE)
             | Some payment \<Rightarrow>
                 if p_method payment \<noteq> PAYMENT_METHOD_COD then Inl (CodE DRIVER_COD_COLLECTION_METHOD_NOT_COD)
                 else if p_currency payment \<noteq> ''DZD'' then Inl (CodE DRIVER_COD_COLLECTION_PAYMENT_NOT_ELIGIBLE)
                 else case t_find co_orderId (o_id order) (s_collections s1) of
                        Some existing \<Rightarrow>
                          reuseExistingCollection now ledgerId existing payment driverId amount s1
                      | None \<Rightarrow>
                          if p_status payment = PAY_SUCCEEDED
                          then Inl (CodE DRIVER_COD_COLLECTION_INCONSISTENT_STATE)
                          else if p_status payment \<noteq> PAY_PENDING
                          then Inl (CodE DRIVER_COD_COLLECTION_PAYMENT_NOT_ELIGIBLE)
                          else if afterUniqueRace then Inl (CodE DRIVER_COD_COLLECTION_INCONSISTENT_STATE)
                          else recordCollection now newId ledgerId order payment driverId amount s1))"

definition collectCod ::
  "instant \<Rightarrow> string \<Rightarrow> string \<Rightarrow> string \<Rightarrow> jsnum \<Rightarrow> shop \<Rightarrow> app_error + collection_view \<times> shop" where
  "collectCod now newId ledgerId accountId amount s =
     (if \<not> isInteger amount \<or> \<not> isSafeInteger amount \<or> js_less amount (JInt 0)
      then Inl (CodE DRIVER_COD_COLLECTION_AMOUNT_MISMATCH)
      else case collectCodInTransaction now newId ledgerId accountId amount False s of
             Inr r \<Rightarrow> Inr r
           | Inl e \<Rightarrow> if e \<noteq> UniqueViolationE then Inl e
                      else collectCodInTransaction now newId ledgerId accountId amount True s)"

section \<open>Custody\<close>

definition driverCollections :: "string \<Rightarrow> shop \<Rightarrow> collection_row list" where
  "driverCollections driverId s =
     filter (\<lambda>c. co_driverId c = driverId \<and> co_status c = ''COLLECTED'') (s_collections s)"

definition driverRemittances :: "remittance_status \<Rightarrow> string \<Rightarrow> shop \<Rightarrow> remittance_row list" where
  "driverRemittances st driverId s =
     filter (\<lambda>r. rm_driverId r = driverId \<and> rm_status r = st) (s_remittances s)"

definition allocationsOf :: "string \<Rightarrow> shop \<Rightarrow> allocation_row list" where
  "allocationsOf remittanceId s = filter (\<lambda>a. al_remittanceId a = remittanceId) (s_allocations s)"

text \<open>A JavaScript \<open>Map\<close> keeps the order of first insertion, as the association list does.\<close>

definition addAllocation :: "allocation_row \<Rightarrow> (string \<times> jsnum) list \<Rightarrow> (string \<times> jsnum) list" where
  "addAllocation a m =
     AList.update (al_collectionId a)
       (js_add (js_default (map_of m (al_collectionId a)) (JInt 0))
          (parseMinorUnits (DbBig (al_allocatedAmountMinor a)))) m"

definition loadConfirmedAllocationsByCollection :: "string \<Rightarrow> shop \<Rightarrow> (string \<times> jsnum) list" where
  "loadConfirmedAllocationsByCollection driverId s =
     fold addAllocation
       (concat (map (\<lambda>r. allocationsOf (rm_id r) s) (driverRemittances CONFIRMED driverId s))) []"

record custody =
  cu_outstandingCustodyMinor :: jsnum
  cu_collectedAmountMinor :: jsnum
  cu_confirmedAllocatedMinor :: jsnum
  cu_openDeclaredCount :: nat

definition computeOutstandingCustody :: "string \<Rightarrow> shop \<Rightarrow> app_error + custody" where
  "computeOutstandingCustody driverId s =
     (let collected = js_sum (map (\<lambda>c. parseMinorUnits (DbBig (co_collectedAmountMinor c)))
                              (driverCollections driverId s));
          allocated = js_sum (map snd (loadConfirmedAllocationsByCollection driverId s));
          outstanding = js_sub collected allocated
      in if js_less outstanding (JInt 0) then Inl (CodE DRIVER_COD_REMITTANCE_INSUFFICIENT_CUSTODY)
         else Inr \<lparr>cu_outstandingCustodyMinor = outstanding, cu_collectedAmountMinor = collected,
                   cu_confirmedAllocatedMinor = allocated,
                   cu_openDeclaredCount = length (driverRemittances DECLARED driverId s)\<rparr>)"

record driver_summary_view =
  sv_outstandingCustodyMinor :: string
  sv_collectedAmountMinor :: string
  sv_confirmedAllocatedMinor :: string
  sv_openDeclaredCount :: nat

definition toDriverSummaryView :: "custody \<Rightarrow> app_error + driver_summary_view" where
  "toDriverSummaryView c =
     ebind (minorString (cu_outstandingCustodyMinor c)) (\<lambda>o'.
     ebind (minorString (cu_collectedAmountMinor c)) (\<lambda>l.
     ebind (minorString (cu_confirmedAllocatedMinor c)) (\<lambda>a.
     Inr \<lparr>sv_outstandingCustodyMinor = o', sv_collectedAmountMinor = l, sv_confirmedAllocatedMinor = a,
          sv_openDeclaredCount = cu_openDeclaredCount c\<rparr>)))"

definition getDriverCodSummary :: "string \<Rightarrow> shop \<Rightarrow> app_error + driver_summary_view" where
  "getDriverCodSummary accountId s =
     (case driverOfAccount accountId s of
        None \<Rightarrow> Inl (CodE DRIVER_COD_PROFILE_NOT_FOUND)
      | Some driverId \<Rightarrow> ebind (computeOutstandingCustody driverId s) toDriverSummaryView)"

section \<open>Remittances\<close>

definition newCodReference :: "string \<Rightarrow> string \<Rightarrow> string" where
  "newCodReference prefix uuid = take 64 (prefix @ ''_'' @ filter (\<lambda>c. c \<noteq> CHR ''-'') uuid)"

record remittance_view =
  rv_remittanceId :: string
  rv_reference :: string
  rv_submittedAmountMinor :: string
  rv_confirmedAmountMinor :: string
  rv_status :: remittance_status

definition insertRemittance :: "remittance_row \<Rightarrow> shop \<Rightarrow> app_error + shop" where
  "insertRemittance row s =
     (if rm_id row \<in> rm_id ` set (s_remittances s) \<or> rm_reference row \<in> rm_reference ` set (s_remittances s)
      then Inl UniqueViolationE else Inr (s\<lparr>s_remittances := s_remittances s @ [row]\<rparr>))"

definition submitCodRemittance ::
  "instant \<Rightarrow> string \<Rightarrow> string \<Rightarrow> string \<Rightarrow> jsnum \<Rightarrow> shop \<Rightarrow> app_error + remittance_view \<times> shop" where
  "submitCodRemittance now newId refUuid accountId submitted s =
     (if \<not> isPositiveMinor submitted then Inl (CodE DRIVER_COD_REMITTANCE_INVALID_AMOUNT)
      else case driverOfAccount accountId s of
        None \<Rightarrow> Inl (CodE DRIVER_COD_PROFILE_NOT_FOUND)
      | Some driverId \<Rightarrow>
          if driverRemittances DECLARED driverId s \<noteq> [] then Inl (CodE DRIVER_COD_REMITTANCE_OPEN_EXISTS)
          else ebind (computeOutstandingCustody driverId s) (\<lambda>custody.
            if js_less (cu_outstandingCustodyMinor custody) submitted
            then Inl (CodE DRIVER_COD_REMITTANCE_INSUFFICIENT_CUSTODY)
            else let reference = newCodReference ''codr'' refUuid
                 in ebind (pgBigInt submitted) (\<lambda>amount.
                    ebind (insertRemittance \<lparr>rm_id = newId, rm_driverId = driverId,
                      rm_submittedAmountMinor = amount, rm_confirmedAmountMinor = 0, rm_status = DECLARED,
                      rm_reference = reference, rm_submittedAt = now, rm_confirmedAt = None\<rparr> s) (\<lambda>s1.
                    ebind (minorString submitted) (\<lambda>v.
                    Inr (\<lparr>rv_remittanceId = newId, rv_reference = reference, rv_submittedAmountMinor = v,
                          rv_confirmedAmountMinor = ''0'', rv_status = DECLARED\<rparr>, s1))))))"

text \<open>First in, first out over the driver's collections: what each one still owes takes its share.\<close>

definition oldestFirst :: "collection_row list \<Rightarrow> collection_row list" where
  "oldestFirst cs = sort_key co_collectedAt (sort_key co_collectionId cs)"

fun planAllocations ::
  "(string \<times> jsnum) list \<Rightarrow> collection_row list \<Rightarrow> jsnum \<Rightarrow> (string \<times> jsnum) list \<times> jsnum" where
  "planAllocations m [] remaining = ([], remaining)"
| "planAllocations m (c # cs) remaining =
     (if remaining = JInt 0 then ([], remaining)
      else let already = js_default (map_of m (co_collectionId c)) (JInt 0);
               collected = parseMinorUnits (DbBig (co_collectedAmountMinor c));
               available = js_max (JInt 0) (js_sub collected already)
           in if js_le available (JInt 0) then planAllocations m cs remaining
              else let toAllocate = js_min available remaining;
                       rest = planAllocations m cs (js_sub remaining toAllocate)
                   in ((co_collectionId c, toAllocate) # fst rest, snd rest))"

fun allocationRows :: "string \<Rightarrow> (string \<times> jsnum) list \<Rightarrow> app_error + allocation_row list" where
  "allocationRows remittanceId [] = Inr []"
| "allocationRows remittanceId ((collectionId, amount) # ps) =
     ebind (pgBigInt amount) (\<lambda>n. ebind (allocationRows remittanceId ps) (\<lambda>rows.
     Inr (\<lparr>al_remittanceId = remittanceId, al_collectionId = collectionId,
           al_allocatedAmountMinor = n\<rparr> # rows)))"

text \<open>The row kept when the confirmed amount is not the declared one; one per remittance.\<close>

definition recordDiscrepancy :: "remittance_row \<Rightarrow> jsnum \<Rightarrow> shop \<Rightarrow> app_error + shop" where
  "recordDiscrepancy remittance confirmed s =
     (let submitted = parseMinorUnits (DbBig (rm_submittedAmountMinor remittance))
      in if \<not> js_neq confirmed submitted then Inr s
         else case t_find di_remittanceId (rm_id remittance) (s_discrepancies s) of
                Some _ \<Rightarrow> Inr s
              | None \<Rightarrow>
                  ebind (pgBigInt submitted) (\<lambda>e. ebind (pgBigInt confirmed) (\<lambda>c.
                  ebind (pgBigInt (js_sub confirmed submitted)) (\<lambda>d.
                  Inr (s\<lparr>s_discrepancies := s_discrepancies s @
                    [\<lparr>di_driverId = rm_driverId remittance, di_remittanceId = rm_id remittance,
                      di_expectedMinor = e, di_confirmedMinor = c, di_differenceMinor = d,
                      di_status = ''OPEN'', di_cause = ''DECLARED_VS_CONFIRMED''\<rparr>]\<rparr>)))))"

definition confirmCodRemittanceInTx ::
  "instant \<Rightarrow> string \<Rightarrow> string \<Rightarrow> jsnum \<Rightarrow> shop \<Rightarrow> app_error + remittance_view \<times> shop" where
  "confirmCodRemittanceInTx now ledgerId remittanceId confirmed s =
     (if \<not> isPositiveMinor confirmed then Inl (CodE DRIVER_COD_REMITTANCE_INVALID_AMOUNT)
      else case t_find rm_id remittanceId (s_remittances s) of
        None \<Rightarrow> Inl (CodE DRIVER_COD_REMITTANCE_NOT_FOUND)
      | Some remittance \<Rightarrow>
          if rm_status remittance = CONFIRMED
          then if js_neq (js_sum (map (\<lambda>a. parseMinorUnits (DbBig (al_allocatedAmountMinor a)))
                            (allocationsOf (rm_id remittance) s)))
                    (parseMinorUnits (DbBig (rm_confirmedAmountMinor remittance)))
               then Inl (CodE DRIVER_COD_REMITTANCE_INVALID_STATE)
               else Inl (CodE DRIVER_COD_REMITTANCE_ALREADY_CONFIRMED)
          else ebind (computeOutstandingCustody (rm_driverId remittance) s) (\<lambda>custody.
            if js_less (cu_outstandingCustodyMinor custody) confirmed
            then Inl (CodE DRIVER_COD_REMITTANCE_INSUFFICIENT_CUSTODY)
            else case planAllocations (loadConfirmedAllocationsByCollection (rm_driverId remittance) s)
                        (oldestFirst (driverCollections (rm_driverId remittance) s)) confirmed of
                   (planned, remaining) \<Rightarrow>
              if remaining \<noteq> JInt 0 then Inl (CodE DRIVER_COD_REMITTANCE_INSUFFICIENT_CUSTODY)
              else if js_neq (js_sum (map snd planned)) confirmed
              then Inl (CodE DRIVER_COD_REMITTANCE_INSUFFICIENT_CUSTODY)
              else
                ebind (allocationRows (rm_id remittance) planned) (\<lambda>rows.
                ebind (pgBigInt confirmed) (\<lambda>amount.
                let s1 = s\<lparr>s_allocations := s_allocations s @ rows,
                      s_remittances := t_update (\<lambda>r. rm_id r = rm_id remittance)
                        (\<lambda>r. r\<lparr>rm_status := CONFIRMED, rm_confirmedAmountMinor := amount,
                              rm_confirmedAt := Some now\<rparr>) (s_remittances s)\<rparr>
                in ebind (recordDiscrepancy remittance confirmed s1) (\<lambda>s2.
                   ebind (in_ledger (postCodRemittanceConfirmed ledgerId now (rm_id remittance)
                            (rm_driverId remittance) (NumMinor confirmed)) s2) (\<lambda>s3.
                   ebind (minorString (parseMinorUnits (DbBig (rm_submittedAmountMinor remittance)))) (\<lambda>v.
                   ebind (minorString confirmed) (\<lambda>w.
                   Inr (\<lparr>rv_remittanceId = rm_id remittance, rv_reference = rm_reference remittance,
                         rv_submittedAmountMinor = v, rv_confirmedAmountMinor = w, rv_status = CONFIRMED\<rparr>,
                        s3)))))))))"

end
