(* ===== verification/Payment.thy ===== *)
theory Payment
  imports Order_Books Cod
begin

text \<open>
  Electronic payments: \<open>modules/payments/application/payment.service.ts\<close> and
  \<open>infrastructure/payment.repository.ts\<close>. An initiation runs several transactions with calls to
  the payment provider between them, so it is a function that always returns a state: an error
  after the first transaction leaves what that transaction wrote. The provider is a parameter.
\<close>

section \<open>Requests of several transactions\<close>

type_synonym 'a effect = "shop \<Rightarrow> (app_error + 'a) \<times> shop"

definition atomically :: "(shop \<Rightarrow> app_error + 'a \<times> shop) \<Rightarrow> 'a effect" where
  "atomically t s = (case t s of Inl e \<Rightarrow> (Inl e, s) | Inr (a, s') \<Rightarrow> (Inr a, s'))"

definition and_then :: "'a effect \<Rightarrow> ('a \<Rightarrow> 'b effect) \<Rightarrow> 'b effect" where
  "and_then m k s = (case m s of (Inl e, s') \<Rightarrow> (Inl e, s') | (Inr a, s') \<Rightarrow> k a s')"

definition throw :: "app_error \<Rightarrow> 'a effect" where
  "throw e s = (Inl e, s)"

definition pure :: "app_error + 'a \<Rightarrow> 'a effect" where
  "pure r s = (r, s)"

text \<open>What one request takes from outside: the clock and the UUIDs of the rows it may create.\<close>

record request =
  rq_now :: instant
  rq_txId :: string
  rq_ledgerId :: string
  rq_refundId :: string

section \<open>Repository\<close>

record payment_record =
  pr_id :: string
  pr_orderId :: string
  pr_method :: string
  pr_status :: payment_status
  pr_amountMinor :: jsnum
  pr_currency :: string

record tx_record =
  tr_id :: string
  tr_paymentId :: string
  tr_provider :: string
  tr_providerReference :: "string option"
  tr_status :: tx_status
  tr_amountMinor :: jsnum
  tr_idempotencyKey :: string
  tr_processedAt :: "instant option"

definition toPayment :: "payment_row \<Rightarrow> payment_record" where
  "toPayment row = \<lparr>pr_id = p_id row, pr_orderId = p_orderId row, pr_method = p_method row,
     pr_status = p_status row, pr_amountMinor = parseMinorUnits (DbBig (p_amountMinor row)),
     pr_currency = p_currency row\<rparr>"

definition toTransaction :: "payment_tx_row \<Rightarrow> tx_record" where
  "toTransaction row = \<lparr>tr_id = t_id row, tr_paymentId = t_paymentId row, tr_provider = t_provider row,
     tr_providerReference = t_providerReference row, tr_status = t_status row,
     tr_amountMinor = parseMinorUnits (DbBig (t_amountMinor row)),
     tr_idempotencyKey = t_idempotencyKey row, tr_processedAt = t_processedAt row\<rparr>"

record owned_payment_context =
  oc_payment :: payment_record
  oc_orderStatus :: order_status
  oc_snapshotPayableMinor :: jsnum
  oc_snapshotCurrency :: string

definition findOwnedPaymentContext :: "string \<Rightarrow> string \<Rightarrow> shop \<Rightarrow> owned_payment_context option" where
  "findOwnedPaymentContext customerId orderId s =
     (case find (\<lambda>o'. o_id o' = orderId \<and> o_customerId o' = customerId) (s_orders s) of
        None \<Rightarrow> None
      | Some order \<Rightarrow>
          (case (t_find p_orderId orderId (s_payments s), t_find sn_orderId orderId (s_snapshots s)) of
             (Some payment, Some snapshot) \<Rightarrow>
               Some \<lparr>oc_payment = toPayment payment, oc_orderStatus = o_status order,
                 oc_snapshotPayableMinor = parseMinorUnits (DbBig (sn_customerPayableMinor snapshot)),
                 oc_snapshotCurrency = sn_currency snapshot\<rparr>
           | _ \<Rightarrow> None))"

definition lockPaymentRecord :: "instant \<Rightarrow> string \<Rightarrow> shop \<Rightarrow> payment_record option \<times> shop" where
  "lockPaymentRecord now paymentId s =
     (case lockPayment now paymentId s of (row, s') \<Rightarrow> (map_option toPayment row, s'))"

definition open_tx :: "payment_tx_row \<Rightarrow> bool" where
  "open_tx row \<longleftrightarrow> isOpenAttemptStatus (t_status row) \<and> t_processedAt row = None"

definition findOpenAttempt :: "string \<Rightarrow> shop \<Rightarrow> tx_record option" where
  "findOpenAttempt paymentId s =
     map_option toTransaction (find open_tx (filter (\<lambda>t. t_paymentId t = paymentId) (s_txs s)))"

definition findTransactionByIdempotencyKey :: "string \<Rightarrow> shop \<Rightarrow> tx_record option" where
  "findTransactionByIdempotencyKey k s = map_option toTransaction (t_find t_idempotencyKey k (s_txs s))"

definition findTransactionsByProviderReference :: "string \<Rightarrow> shop \<Rightarrow> tx_record list" where
  "findTransactionsByProviderReference reference s =
     map toTransaction (filter (\<lambda>t. t_providerReference t = Some reference) (s_txs s))"

text \<open>Insertion of a transaction row; its id and its idempotency key are unique.\<close>

definition insertTransaction :: "payment_tx_row \<Rightarrow> shop \<Rightarrow> app_error + shop" where
  "insertTransaction row s =
     (if t_idempotencyKey row \<in> t_idempotencyKey ` set (s_txs s) \<or> t_id row \<in> t_id ` set (s_txs s)
      then Inl UniqueViolationE else Inr (s\<lparr>s_txs := s_txs s @ [row]\<rparr>))"

definition insertCreatedAttempt ::
  "instant \<Rightarrow> string \<Rightarrow> string \<Rightarrow> string \<Rightarrow> jsnum \<Rightarrow> string \<Rightarrow> shop \<Rightarrow> app_error + tx_record \<times> shop" where
  "insertCreatedAttempt now newId paymentId provider amountMinor idempotencyKey s =
     ebind (pgBigInt amountMinor) (\<lambda>amount.
     let row = \<lparr>t_id = newId, t_paymentId = paymentId, t_provider = provider, t_providerReference = None,
           t_status = TX_CREATED, t_amountMinor = amount, t_idempotencyKey = idempotencyKey,
           t_processedAt = None, t_createdAt = now\<rparr>
     in ebind (insertTransaction row s) (\<lambda>s'. Inr (toTransaction row, s')))"

definition insertWebhookTransaction ::
  "instant \<Rightarrow> string \<Rightarrow> string \<Rightarrow> string \<Rightarrow> string \<Rightarrow> tx_status \<Rightarrow> jsnum \<Rightarrow> string \<Rightarrow> shop \<Rightarrow> app_error + shop" where
  "insertWebhookTransaction now newId paymentId provider reference status amountMinor idempotencyKey s =
     ebind (pgBigInt amountMinor) (\<lambda>amount.
     insertTransaction \<lparr>t_id = newId, t_paymentId = paymentId, t_provider = provider,
           t_providerReference = Some reference, t_status = status, t_amountMinor = amount,
           t_idempotencyKey = idempotencyKey, t_processedAt = Some now, t_createdAt = now\<rparr> s)"

definition setPaymentStatus :: "payment_status \<Rightarrow> instant \<Rightarrow> string \<Rightarrow> shop \<Rightarrow> shop" where
  "setPaymentStatus status now paymentId s =
     s\<lparr>s_payments := t_update (\<lambda>p. p_id p = paymentId)
         (\<lambda>p. p\<lparr>p_status := status, p_updatedAt := now\<rparr>) (s_payments s)\<rparr>"

definition markPaymentProcessing :: "instant \<Rightarrow> string \<Rightarrow> shop \<Rightarrow> shop" where
  "markPaymentProcessing = setPaymentStatus PAY_PROCESSING"

definition markPaymentPending :: "instant \<Rightarrow> string \<Rightarrow> shop \<Rightarrow> shop" where
  "markPaymentPending = setPaymentStatus PAY_PENDING"

definition markPaymentSucceeded :: "instant \<Rightarrow> string \<Rightarrow> shop \<Rightarrow> shop" where
  "markPaymentSucceeded = setPaymentStatus PAY_SUCCEEDED"

definition finalizeInitiated :: "string \<Rightarrow> string \<Rightarrow> shop \<Rightarrow> tx_record option \<times> shop" where
  "finalizeInitiated transactionId reference s =
     (let s' = s\<lparr>s_txs := t_update (\<lambda>t. t_id t = transactionId)
           (\<lambda>t. t\<lparr>t_providerReference := Some reference, t_status := TX_INITIATED\<rparr>) (s_txs s)\<rparr>
      in (map_option toTransaction (t_find t_id transactionId (s_txs s')), s'))"

definition closeAttempt :: "instant \<Rightarrow> string \<Rightarrow> tx_status \<Rightarrow> shop \<Rightarrow> shop" where
  "closeAttempt now transactionId status s =
     s\<lparr>s_txs := t_update (\<lambda>t. t_id t = transactionId)
         (\<lambda>t. t\<lparr>t_status := status, t_processedAt := Some now\<rparr>) (s_txs s)\<rparr>"

section \<open>The provider\<close>

datatype checkout_status = CK_PENDING | CK_PROCESSING | CK_PAID | CK_FAILED | CK_CANCELED

record provider_session =
  ps_providerReference :: string
  ps_checkoutUrl :: string

record checkout_snapshot =
  cs_providerReference :: string
  cs_checkoutUrl :: "string option"
  cs_providerStatus :: checkout_status
  cs_amountMinor :: jsnum
  cs_currency :: string

datatype webhook_status = WH_SUCCEEDED | WH_FAILED | WH_CANCELLED | WH_UNSUPPORTED

record webhook_event =
  we_eventId :: string
  we_providerReference :: string
  we_status :: webhook_status
  we_amountMinor :: jsnum
  we_currency :: string

text \<open>\<open>createPayment\<close> and \<open>queryPayment\<close> may throw; \<open>True\<close> is the configuration error.\<close>

record provider =
  pv_name :: string
  pv_verifyWebhook :: "string \<Rightarrow> string option \<Rightarrow> bool"
  pv_parseWebhook :: "string \<Rightarrow> app_error + webhook_event"
  pv_createPayment :: "tx_record \<Rightarrow> payment_record \<Rightarrow> bool + provider_session"
  pv_queryPayment :: "string \<Rightarrow> app_error + checkout_snapshot option"

section \<open>Views\<close>

record customer_payment_view =
  vw_paymentId :: string
  vw_method :: string
  vw_status :: payment_status
  vw_amountMinor :: string
  vw_provider :: "string option"

definition toCustomerView :: "payment_record \<Rightarrow> string \<Rightarrow> app_error + customer_payment_view" where
  "toCustomerView payment provider =
     ebind (case moneyMinorToDecimalString (MNum (pr_amountMinor payment)) of
              Inl _ \<Rightarrow> Inl InternalE | Inr a \<Rightarrow> Inr a) (\<lambda>amount.
     Inr \<lparr>vw_paymentId = pr_id payment, vw_method = pr_method payment, vw_status = pr_status payment,
       vw_amountMinor = amount,
       vw_provider = (if pr_method payment = ''ELECTRONIC'' then Some provider else None)\<rparr>)"

record initiate_view =
  iv_view :: customer_payment_view
  iv_attemptId :: string
  iv_checkoutUrl :: "string option"

definition toInitiateView :: "payment_record \<Rightarrow> tx_record \<Rightarrow> string option \<Rightarrow> app_error + initiate_view" where
  "toInitiateView payment attempt url =
     ebind (toCustomerView payment (tr_provider attempt)) (\<lambda>v.
     Inr \<lparr>iv_view = v, iv_attemptId = tr_id attempt, iv_checkoutUrl = url\<rparr>)"

section \<open>Service\<close>

definition isOpenish :: "tx_status \<Rightarrow> bool" where
  "isOpenish status \<longleftrightarrow> status = TX_CREATED \<or> status = TX_INITIATED"

definition uniquePaymentIds :: "tx_record list \<Rightarrow> string list" where
  "uniquePaymentIds rows = rev (remdups (rev (map tr_paymentId rows)))"

definition requireOwnedContext :: "directory \<Rightarrow> string \<Rightarrow> string \<Rightarrow> shop \<Rightarrow> app_error + owned_payment_context" where
  "requireOwnedContext dir accountId orderId s =
     (case dir_customerOfAccount dir accountId of
        None \<Rightarrow> Inl CustomerProfileNotFoundE
      | Some customerId \<Rightarrow>
          (case findOwnedPaymentContext customerId orderId s of
             None \<Rightarrow> Inl (PaymentE PAYMENT_NOT_FOUND)
           | Some context \<Rightarrow> Inr context))"

definition getCustomerPayment ::
  "provider \<Rightarrow> directory \<Rightarrow> string \<Rightarrow> string \<Rightarrow> shop \<Rightarrow> app_error + customer_payment_view" where
  "getCustomerPayment prov dir accountId orderId s =
     ebind (requireOwnedContext dir accountId orderId s) (\<lambda>context.
       toCustomerView (oc_payment context) (pv_name prov))"

definition assertInitiationEligibility :: "payment_record \<Rightarrow> owned_payment_context \<Rightarrow> payment_error + unit" where
  "assertInitiationEligibility payment owned =
     (if isPaymentExecutionTerminal (pr_status payment) then Inl PAYMENT_ALREADY_SUCCEEDED
      else if \<not> isElectronicMethod (pr_method payment) then Inl PAYMENT_METHOD_NOT_ELECTRONIC
      else if isPaymentCancelled (pr_status payment)
              \<or> \<not> isPaymentInitiableOrderStatus (oc_orderStatus owned) then Inl PAYMENT_NOT_INITIABLE
      else if pr_status payment \<noteq> PAY_PENDING \<and> pr_status payment \<noteq> PAY_PROCESSING
              \<and> pr_status payment \<noteq> PAY_FAILED then Inl PAYMENT_NOT_INITIABLE
      else if \<not> isFrozenCurrency (pr_currency payment) \<or> \<not> isFrozenCurrency (oc_snapshotCurrency owned)
      then Inl PAYMENT_CURRENCY_MISMATCH
      else if \<not> amountsMatch (pr_amountMinor payment) (oc_snapshotPayableMinor owned)
      then Inl PAYMENT_AMOUNT_MISMATCH
      else Inr ())"

datatype prepared_kind = REUSE | RECOVER | ATTEMPT_CREATED

text \<open>The open attempt that an initiation reuses or recovers, and the attempt it makes otherwise.\<close>

definition reusableAttempt :: "string \<Rightarrow> shop \<Rightarrow> (prepared_kind \<times> tx_record) option" where
  "reusableAttempt paymentId s =
     (case findOpenAttempt paymentId s of
        None \<Rightarrow> None
      | Some a \<Rightarrow>
          if tr_status a = TX_INITIATED \<and> tr_providerReference a \<noteq> None
             \<and> tr_providerReference a \<noteq> Some [] then Some (REUSE, a)
          else if tr_status a = TX_CREATED then Some (RECOVER, a) else None)"

definition newAttempt ::
  "provider \<Rightarrow> request \<Rightarrow> payment_record \<Rightarrow> shop \<Rightarrow>
   app_error + (prepared_kind \<times> payment_record \<times> tx_record) \<times> shop" where
  "newAttempt prov rq payment s =
     ebind (insertCreatedAttempt (rq_now rq) (rq_txId rq) (pr_id payment) (pv_name prov)
              (pr_amountMinor payment) (initiationIdempotencyKey (pr_id payment) (rq_txId rq)) s)
       (\<lambda>(t, s2). Inr ((ATTEMPT_CREATED, payment\<lparr>pr_status := PAY_PROCESSING\<rparr>, t),
          markPaymentProcessing (rq_now rq) (pr_id payment) s2))"

definition prepareInitiation ::
  "provider \<Rightarrow> directory \<Rightarrow> request \<Rightarrow> string \<Rightarrow> string \<Rightarrow> shop \<Rightarrow>
   app_error + (prepared_kind \<times> payment_record \<times> tx_record) \<times> shop" where
  "prepareInitiation prov dir rq accountId orderId s =
     ebind (requireOwnedContext dir accountId orderId s) (\<lambda>owned.
     case lockPaymentRecord (rq_now rq) (pr_id (oc_payment owned)) s of
       (None, _) \<Rightarrow> Inl (PaymentE PAYMENT_NOT_FOUND)
     | (Some payment, s1) \<Rightarrow>
         ebind (emap PaymentE (assertInitiationEligibility payment owned)) (\<lambda>_.
         case reusableAttempt (pr_id payment) s1 of
           Some (kind, a) \<Rightarrow> Inr ((kind, payment, a), s1)
         | None \<Rightarrow> newAttempt prov rq payment s1))"

definition closeAttemptFromProvider :: "request \<Rightarrow> tx_record \<Rightarrow> tx_status \<Rightarrow> shop \<Rightarrow> shop" where
  "closeAttemptFromProvider rq attempt status s =
     (let s1 = closeAttempt (rq_now rq) (tr_id attempt) status s
      in case lockPaymentRecord (rq_now rq) (tr_paymentId attempt) s1 of
           (None, s2) \<Rightarrow> s2
         | (Some locked, s2) \<Rightarrow>
             if \<not> isPaymentExecutionTerminal (pr_status locked) \<and> pr_status locked = PAY_PROCESSING
             then markPaymentPending (rq_now rq) (tr_paymentId attempt) s2 else s2)"

definition failOpenAttempt :: "request \<Rightarrow> tx_record \<Rightarrow> shop \<Rightarrow> shop" where
  "failOpenAttempt rq attempt = closeAttemptFromProvider rq attempt TX_FAILED"

definition createProviderSession ::
  "provider \<Rightarrow> request \<Rightarrow> tx_record \<Rightarrow> payment_record \<Rightarrow> provider_session effect" where
  "createProviderSession prov rq attempt payment s =
     (case pv_createPayment prov attempt payment of
        Inr session \<Rightarrow> (Inr session, s)
      | Inl isConfig \<Rightarrow>
          (Inl (PaymentE (if isConfig then PAYMENT_PROVIDER_CONFIGURATION_INVALID
                          else PAYMENT_PROVIDER_UNAVAILABLE)),
           failOpenAttempt rq attempt s))"

definition assertUniqueProviderReference ::
  "tx_record list \<Rightarrow> string \<Rightarrow> string \<Rightarrow> payment_error + unit" where
  "assertUniqueProviderReference rows paymentId attemptId =
     (if 0 < length (filter (\<lambda>t. tr_paymentId t \<noteq> paymentId) rows) then Inl PAYMENT_INVALID_STATE
      else if 1 < length (uniquePaymentIds rows) then Inl PAYMENT_INVALID_STATE
      else if find (\<lambda>t. tr_paymentId t = paymentId \<and> tr_id t \<noteq> attemptId \<and> tr_status t = TX_INITIATED) rows
              \<noteq> None then Inl PAYMENT_INVALID_STATE
      else Inr ())"

definition finalizeProviderSession ::
  "request \<Rightarrow> payment_record \<Rightarrow> tx_record \<Rightarrow> provider_session \<Rightarrow> (payment_record \<times> tx_record) effect" where
  "finalizeProviderSession rq payment attempt session s =
     (case atomically (\<lambda>s.
        ebind (emap PaymentE (assertUniqueProviderReference
                 (findTransactionsByProviderReference (ps_providerReference session) s)
                 (pr_id payment) (tr_id attempt))) (\<lambda>_.
        case finalizeInitiated (tr_id attempt) (ps_providerReference session) s of
          (None, _) \<Rightarrow> Inl (PaymentE PAYMENT_PROVIDER_UNAVAILABLE)
        | (Some finalized, s1) \<Rightarrow>
            (case lockPaymentRecord (rq_now rq) (pr_id payment) s1 of
               (current, s2) \<Rightarrow>
                 Inr ((case current of None \<Rightarrow> payment\<lparr>pr_status := PAY_PROCESSING\<rparr> | Some c \<Rightarrow> c,
                       finalized), s2)))) s of
        (Inl e, s1) \<Rightarrow>
          (Inl e, if e = PaymentE PAYMENT_INVALID_STATE then failOpenAttempt rq attempt s1 else s1)
      | (Inr r, s1) \<Rightarrow> (Inr r, s1))"

definition executeProviderCreate ::
  "provider \<Rightarrow> request \<Rightarrow> payment_record \<Rightarrow> tx_record \<Rightarrow> initiate_view effect" where
  "executeProviderCreate prov rq payment attempt =
     and_then (createProviderSession prov rq attempt payment) (\<lambda>session.
     and_then (finalizeProviderSession rq payment attempt session) (\<lambda>(p, t).
       pure (toInitiateView p t (Some (ps_checkoutUrl session)))))"

definition PAID_TERMINAL_REASON_LATE_SUCCESS :: string where
  "PAID_TERMINAL_REASON_LATE_SUCCESS =
     ''Late verified Payment success after Order terminal; refund workflow required''"

definition ensureLateSuccessRefundIntent :: "request \<Rightarrow> string \<Rightarrow> shop \<Rightarrow> app_error + shop" where
  "ensureLateSuccessRefundIntent rq orderId s =
     (let orderStatus = map_option o_status (t_find o_id orderId (s_orders s))
      in if orderStatus \<noteq> Some O_CANCELLED \<and> orderStatus \<noteq> Some O_FAILED then Inr s
         else ebind (ensureRefundIntentInTx (rq_now rq) (rq_refundId rq) orderId LATE_PAYMENT_SUCCESS
                PAID_TERMINAL_REASON_LATE_SUCCESS None s) (\<lambda>(_, s'). Inr s'))"

definition postPaymentSucceeded :: "request \<Rightarrow> payment_record \<Rightarrow> shop \<Rightarrow> app_error + shop" where
  "postPaymentSucceeded rq p =
     in_ledger (postElectronicPaymentSucceeded (rq_ledgerId rq) (rq_now rq) (pr_id p) (pr_orderId p)
       (NumMinor (pr_amountMinor p)) (pr_currency p))"

definition reconcilePaidSnapshot ::
  "request \<Rightarrow> payment_record \<Rightarrow> tx_record \<Rightarrow> checkout_snapshot \<Rightarrow> unit effect" where
  "reconcilePaidSnapshot rq payment attempt snapshot =
     (if js_neq (cs_amountMinor snapshot) (pr_amountMinor payment) \<or> \<not> isFrozenCurrency (cs_currency snapshot)
      then throw (PaymentE PAYMENT_AMOUNT_MISMATCH)
      else atomically (\<lambda>s.
        if 1 < length (uniquePaymentIds (findTransactionsByProviderReference (cs_providerReference snapshot) s))
        then Inl (PaymentE PAYMENT_INVALID_STATE)
        else case lockPaymentRecord (rq_now rq) (pr_id payment) s of
               (None, _) \<Rightarrow> Inl (PaymentE PAYMENT_INVALID_STATE)
             | (Some locked, s1) \<Rightarrow>
                 if \<not> isElectronicMethod (pr_method locked) then Inl (PaymentE PAYMENT_INVALID_STATE)
                 else let s2 = (if \<not> isPaymentExecutionTerminal (pr_status locked)
                                then markPaymentSucceeded (rq_now rq) (pr_id payment) s1 else s1);
                          s3 = (if isOpenish (tr_status attempt)
                                then closeAttempt (rq_now rq) (tr_id attempt) TX_SUCCEEDED s2 else s2)
                      in ebind (postPaymentSucceeded rq locked s3) (\<lambda>s4.
                         ebind (ensureLateSuccessRefundIntent rq (pr_orderId locked) s4) (\<lambda>s5.
                         Inr ((), s5)))))"

text \<open>
  \<open>continueInitiatedAttempt\<close> calls itself when the provider says the open attempt is over and
  another open attempt remains; \<open>None\<close> is the fuel running out.
\<close>

fun continueInitiatedAttempt ::
  "nat \<Rightarrow> provider \<Rightarrow> directory \<Rightarrow> request \<Rightarrow> string \<Rightarrow> string \<Rightarrow> payment_record \<Rightarrow> tx_record \<Rightarrow> shop \<Rightarrow>
   ((app_error + initiate_view) \<times> shop) option" where
  "continueInitiatedAttempt 0 prov dir rq accountId orderId payment attempt s = None"
| "continueInitiatedAttempt (Suc fuel) prov dir rq accountId orderId payment attempt s =
     (if tr_providerReference attempt = None \<or> tr_providerReference attempt = Some []
      then Some (executeProviderCreate prov rq payment attempt s)
      else case pv_queryPayment prov (the (tr_providerReference attempt)) of
        Inl e \<Rightarrow> Some (Inl e, s)
      | Inr None \<Rightarrow> Some (Inl (PaymentE PAYMENT_PROVIDER_UNAVAILABLE), s)
      | Inr (Some queried) \<Rightarrow>
          if cs_providerStatus queried = CK_PENDING \<or> cs_providerStatus queried = CK_PROCESSING
          then Some (toInitiateView payment attempt (cs_checkoutUrl queried), s)
          else if cs_providerStatus queried = CK_PAID
          then Some (and_then (reconcilePaidSnapshot rq payment attempt queried)
                 (\<lambda>_. pure (toInitiateView (payment\<lparr>pr_status := PAY_SUCCEEDED\<rparr>) attempt None)) s)
          else let s1 = closeAttemptFromProvider rq attempt
                     (if cs_providerStatus queried = CK_CANCELED then TX_CANCELLED else TX_FAILED) s
          in case atomically (prepareInitiation prov dir rq accountId orderId) s1 of
               (Inl e, s2) \<Rightarrow> Some (Inl e, s2)
             | (Inr (kind, p, t), s2) \<Rightarrow>
                 if kind = REUSE then continueInitiatedAttempt fuel prov dir rq accountId orderId p t s2
                 else Some (executeProviderCreate prov rq p t s2))"

definition initiateCustomerPayment ::
  "nat \<Rightarrow> provider \<Rightarrow> directory \<Rightarrow> request \<Rightarrow> string \<Rightarrow> string \<Rightarrow> shop \<Rightarrow>
   ((app_error + initiate_view) \<times> shop) option" where
  "initiateCustomerPayment fuel prov dir rq accountId orderId s =
     (case atomically (prepareInitiation prov dir rq accountId orderId) s of
        (Inl e, s1) \<Rightarrow> Some (Inl e, s1)
      | (Inr (kind, p, t), s1) \<Rightarrow>
          if kind = REUSE then continueInitiatedAttempt fuel prov dir rq accountId orderId p t s1
          else Some (executeProviderCreate prov rq p t s1))"

section \<open>Webhooks\<close>

text \<open>What a webhook does to its payment, by the status it reports and the payment's own.\<close>

definition applyWebhookStatus ::
  "request \<Rightarrow> webhook_event \<Rightarrow> payment_record \<Rightarrow> tx_record option \<Rightarrow> shop \<Rightarrow> app_error + tx_status \<times> shop" where
  "applyWebhookStatus rq event payment correlating s =
     (let close_open = (\<lambda>st s. case correlating of
            None \<Rightarrow> s
          | Some a \<Rightarrow> if isOpenish (tr_status a) then closeAttempt (rq_now rq) (tr_id a) st s else s);
          back = (\<lambda>s. if pr_status payment = PAY_PROCESSING
                      then markPaymentPending (rq_now rq) (pr_id payment) s else s);
          amountOk = \<not> js_neq (we_amountMinor event) (pr_amountMinor payment) \<and> isInteger (we_amountMinor event);
          currencyOk = isFrozenCurrency (we_currency event)
      in if we_status event = WH_UNSUPPORTED then Inr (TX_IGNORED, s)
         else if \<not> amountOk \<or> \<not> currencyOk \<or> \<not> isElectronicMethod (pr_method payment)
         then Inr (TX_IGNORED, s)
         else if we_status event = WH_SUCCEEDED then
           let s1 = (if \<not> isPaymentExecutionTerminal (pr_status payment)
                     then markPaymentSucceeded (rq_now rq) (pr_id payment) s else s);
               s2 = (case correlating of
                       None \<Rightarrow> s1
                     | Some a \<Rightarrow> if tr_status a \<noteq> TX_SUCCEEDED
                                then closeAttempt (rq_now rq) (tr_id a) TX_SUCCEEDED s1 else s1)
           in ebind (postPaymentSucceeded rq payment s2) (\<lambda>s3.
              ebind (ensureLateSuccessRefundIntent rq (pr_orderId payment) s3) (\<lambda>s4.
              Inr (TX_SUCCEEDED, s4)))
         else if isPaymentExecutionTerminal (pr_status payment) then Inr (TX_IGNORED, s)
         else if we_status event = WH_CANCELLED then Inr (TX_CANCELLED, back (close_open TX_CANCELLED s))
         else Inr (TX_FAILED, back (close_open TX_FAILED s)))"

definition webhook_transaction ::
  "provider \<Rightarrow> request \<Rightarrow> webhook_event \<Rightarrow> shop \<Rightarrow> app_error + unit \<times> shop" where
  "webhook_transaction prov rq event s =
     (let key = webhookIdempotencyKey (pv_name prov) (we_eventId event)
      in case findTransactionByIdempotencyKey key s of
           Some _ \<Rightarrow> Inr ((), s)
         | None \<Rightarrow>
             let rows = findTransactionsByProviderReference (we_providerReference event) s
             in if rows = [] then Inl (PaymentE PAYMENT_WEBHOOK_UNKNOWN_REFERENCE)
                else if length (uniquePaymentIds rows) \<noteq> 1 then Inl (PaymentE PAYMENT_INVALID_STATE)
                else case lockPaymentRecord (rq_now rq) (hd (uniquePaymentIds rows)) s of
                  (None, _) \<Rightarrow> Inl (PaymentE PAYMENT_WEBHOOK_UNKNOWN_REFERENCE)
                | (Some payment, s1) \<Rightarrow>
                    let correlating = find (\<lambda>t. take 3 (tr_idempotencyKey t) \<noteq> ''wh:''
                          \<and> tr_providerReference t = Some (we_providerReference event)) rows
                    in ebind (applyWebhookStatus rq event payment correlating s1) (\<lambda>(recorded, s2).
                       ebind (insertWebhookTransaction (rq_now rq) (rq_txId rq) (pr_id payment)
                                (pv_name prov) (we_providerReference event) recorded
                                (pr_amountMinor payment) key s2) (\<lambda>s3. Inr ((), s3))))"

definition applyVerifiedWebhook :: "provider \<Rightarrow> request \<Rightarrow> webhook_event \<Rightarrow> unit effect" where
  "applyVerifiedWebhook prov rq event s =
     (case atomically (webhook_transaction prov rq event) s of
        (Inl e, s1) \<Rightarrow> if e = UniqueViolationE then (Inr (), s1) else (Inl e, s1)
      | (Inr u, s1) \<Rightarrow> (Inr u, s1))"

definition handleProviderWebhook ::
  "provider \<Rightarrow> request \<Rightarrow> string \<Rightarrow> string option \<Rightarrow> string option \<Rightarrow> unit effect" where
  "handleProviderWebhook prov rq providerName rawBody signature =
     (if providerName \<noteq> pv_name prov then throw (PaymentE PAYMENT_WEBHOOK_UNKNOWN_REFERENCE)
      else case rawBody of
        None \<Rightarrow> throw (PaymentE PAYMENT_WEBHOOK_INVALID_SIGNATURE)
      | Some body \<Rightarrow>
          if \<not> pv_verifyWebhook prov body signature
          then throw (PaymentE PAYMENT_WEBHOOK_INVALID_SIGNATURE)
          else case pv_parseWebhook prov body of
                 Inl e \<Rightarrow> throw e
               | Inr event \<Rightarrow> applyVerifiedWebhook prov rq event)"

end
