(* ===== verification/Payment_Books.thy ===== *)
theory Payment_Books
  imports Payment
begin

text \<open>
  What the payment service promises: the abstract machine \<open>pay_spec\<close> (wait, succeed with a ledger
  entry, refund a late success), its invariant \<open>payment_books\<close> (a succeeded electronic payment has
  exactly one ledger entry of its amount, any other payment none), the proof that initiations and
  webhooks are paths of it, and the termination of an initiation.
\<close>

section \<open>The payment machine\<close>

definition payment_reference :: "string \<Rightarrow> string" where
  "payment_reference i = source_name SRC_PAYMENT @ '':'' @ i"

definition payment_entries :: "shop \<Rightarrow> string \<Rightarrow> ledger_entry list" where
  "payment_entries s i = filter (\<lambda>e. le_reference e = payment_reference i) (s_ledger s)"

definition is_payment_entry :: "ledger_entry \<Rightarrow> bool" where
  "is_payment_entry e \<longleftrightarrow> take 8 (le_reference e) = ''PAYMENT:''"

definition tx_keys :: "shop \<Rightarrow> bool" where
  "tx_keys s \<longleftrightarrow> distinct (map t_id (s_txs s)) \<and> distinct (map t_idempotencyKey (s_txs s))"

text \<open>Only transaction rows and update stamps of payments differ.\<close>

definition quiet :: "shop \<Rightarrow> shop \<Rightarrow> bool" where
  "quiet s s' \<longleftrightarrow> s' = s\<lparr>s_payments := s_payments s', s_txs := s_txs s'\<rparr> \<and>
     map pay_view (s_payments s') = map pay_view (s_payments s) \<and> (tx_keys s \<longrightarrow> tx_keys s')"

lemma quiet_simps:
  assumes "quiet s s'"
  shows "s_ledger s' = s_ledger s" "s_orders s' = s_orders s" "s_refunds s' = s_refunds s"
    "s_events s' = s_events s" "s_cancellations s' = s_cancellations s" "s_revisions s' = s_revisions s"
proof -
  have e: "s' = s\<lparr>s_payments := s_payments s', s_txs := s_txs s'\<rparr>" using assms by (simp add: quiet_def)
  show "s_ledger s' = s_ledger s" "s_orders s' = s_orders s" "s_refunds s' = s_refunds s"
    "s_events s' = s_events s" "s_cancellations s' = s_cancellations s" "s_revisions s' = s_revisions s"
    by (subst e, simp)+
qed

lemma quiet_view: "quiet s s' \<Longrightarrow> map pay_view (s_payments s') = map pay_view (s_payments s)"
  and quiet_keys: "quiet s s' \<Longrightarrow> tx_keys s \<Longrightarrow> tx_keys s'"
  unfolding quiet_def by blast+

lemma same_money_view: "same_money s s' \<Longrightarrow> map pay_view (s_payments s') = map pay_view (s_payments s)"
  unfolding same_money_def by blast

lemma same_money_txs: "same_money s s' \<Longrightarrow> s_txs s' = s_txs s"
proof -
  assume "same_money s s'"
  then have e: "s' = s\<lparr>s_payments := s_payments s'\<rparr>" by (simp add: same_money_def)
  show "s_txs s' = s_txs s" by (subst e) simp
qed

definition book_payment ::
  "string \<Rightarrow> instant \<Rightarrow> payment_row \<Rightarrow> ledger_entry list \<Rightarrow> ledger_error + ledger_entry \<times> ledger_entry list" where
  "book_payment newId now p = postElectronicPaymentSucceeded newId now (p_id p) (p_orderId p)
     (BigMinor (p_amountMinor p)) (p_currency p)"

inductive pay_spec :: "shop \<Rightarrow> shop \<Rightarrow> bool" where
  quiet: "quiet s s' \<Longrightarrow> pay_spec s s'"
| waiting: "p \<in> set (s_payments s) \<Longrightarrow> p_status p \<noteq> PAY_SUCCEEDED \<Longrightarrow> st \<in> {PAY_PENDING, PAY_PROCESSING} \<Longrightarrow>
    (p_method p = PAYMENT_METHOD_COD \<longrightarrow> p_status p = PAY_PROCESSING) \<Longrightarrow>
    pay_spec s (setPaymentStatus st now (p_id p) s)"
| succeed: "p \<in> set (s_payments s) \<Longrightarrow> p_method p = PAYMENT_METHOD_ELECTRONIC \<Longrightarrow>
    book_payment newId now p (s_ledger s) = Inr (e, es) \<Longrightarrow>
    pay_spec s ((setPaymentStatus PAY_SUCCEEDED now (p_id p) s)\<lparr>s_ledger := es\<rparr>)"
| refund: "t_find o_id i (s_orders s) = Some ord \<Longrightarrow> o_status ord \<in> {O_CANCELLED, O_FAILED} \<Longrightarrow>
    newId \<notin> r_id ` set (s_refunds s) \<Longrightarrow>
    ensureRefundIntentInTx now newId i LATE_PAYMENT_SUCCESS reason n s = Inr (v, s') \<Longrightarrow> pay_spec s s'"

lemma ensureRefundIntent_shape:
  assumes "ensureRefundIntentInTx now newId i org reason n s = Inr (v, s')"
  shows "\<exists>s1. same_money s s1 \<and> s' = s1\<lparr>s_refunds := s_refunds s'\<rparr>"
proof -
  obtain q f s1 key where lc: "lockedContext now i s = Inr (q, f, s1)"
    and body: "(case findByPaidTerminalIntentKey key s1 of
        Some existing \<Rightarrow> Inr (toIntentView existing False, s1)
      | None \<Rightarrow> new_intent now newId i org reason n q key s1) = Inr (v, s')"
    using assms unfolding ensureRefundIntentInTx_def by (auto simp: ebind_Inr split: if_splits)
  have "s' = s1 \<or> (\<exists>r. insertRefund r s1 = Inr (r, s'))"
  proof (cases "findByPaidTerminalIntentKey key s1")
    case None
    with body have "new_intent now newId i org reason n q key s1 = Inr (v, s')" by simp
    from new_intent_ok [OF this None] show ?thesis by blast
  qed (use body in simp)
  with lockedContext_same [OF lc] show ?thesis by (auto simp: insertRefund_ok intro!: exI [of _ s1])
qed

section \<open>Payment books\<close>

definition payment_booked :: "shop \<Rightarrow> payment_row \<Rightarrow> bool" where
  "payment_booked s p \<longleftrightarrow>
     (if p_method p = PAYMENT_METHOD_ELECTRONIC \<and> p_status p = PAY_SUCCEEDED
      then \<exists>e. payment_entries s (p_id p) = [e] \<and> le_type e = LEDGER_TYPE_CUSTOMER_PAYMENT \<and>
        le_direction e = DEBIT \<and> le_amountMinor e = p_amountMinor p \<and> le_orderId e = Some (p_orderId p)
      else payment_entries s (p_id p) = [])"

definition payment_books :: "shop \<Rightarrow> bool" where
  "payment_books s \<longleftrightarrow> distinct (map p_id (s_payments s)) \<and> distinct (map p_orderId (s_payments s)) \<and>
     tx_keys s \<and> (\<forall>p \<in> set (s_payments s). payment_booked s p) \<and>
     (\<forall>e \<in> set (s_ledger s). is_payment_entry e \<longrightarrow> le_reference e \<in> (payment_reference \<circ> p_id) ` set (s_payments s))"

lemma payment_booksD:
  assumes "payment_books s"
  shows "distinct (map p_id (s_payments s))" "distinct (map p_orderId (s_payments s))" "tx_keys s"
    "p \<in> set (s_payments s) \<Longrightarrow> payment_booked s p"
    "e \<in> set (s_ledger s) \<Longrightarrow> is_payment_entry e \<Longrightarrow> le_reference e \<in> (payment_reference \<circ> p_id) ` set (s_payments s)"
  using assms by (auto simp: payment_books_def)

lemma payment_reference_inj [simp]: "payment_reference i = payment_reference j \<longleftrightarrow> i = j"
  by (simp add: payment_reference_def)

lemma payment_reference_entry: "le_reference e = payment_reference i \<Longrightarrow> is_payment_entry e"
  by (simp add: is_payment_entry_def payment_reference_def)

lemma payment_entries_filter:
  "payment_entries s i = filter (\<lambda>e. le_reference e = payment_reference i) (filter is_payment_entry (s_ledger s))"
proof -
  have "(\<lambda>e. le_reference e = payment_reference i) = (\<lambda>e. is_payment_entry e \<and> le_reference e = payment_reference i)"
    using payment_reference_entry by blast
  then show ?thesis by (simp add: payment_entries_def)
qed

lemma payment_booked_view:
  "payment_booked s p \<Longrightarrow> pay_view p' = pay_view p \<Longrightarrow>
   filter is_payment_entry (s_ledger s') = filter is_payment_entry (s_ledger s) \<Longrightarrow> payment_booked s' p'"
proof -
  assume a: "payment_booked s p" "pay_view p' = pay_view p"
    "filter is_payment_entry (s_ledger s') = filter is_payment_entry (s_ledger s)"
  from a(2) have "p_id p' = p_id p" "p_orderId p' = p_orderId p" "p_method p' = p_method p"
    "p_status p' = p_status p" "p_amountMinor p' = p_amountMinor p"
    by (metis pay_view_simps)+
  moreover have "payment_entries s' i = payment_entries s i" for i by (simp only: payment_entries_filter a(3))
  ultimately show ?thesis using a(1) by (simp add: payment_booked_def)
qed

text \<open>A step that keeps what the payments say and the payment entries of the ledger.\<close>

lemma payment_books_cong:
  assumes b: "payment_books s" and v: "map pay_view (s_payments s') = map pay_view (s_payments s)"
    and l: "filter is_payment_entry (s_ledger s') = filter is_payment_entry (s_ledger s)"
    and t: "tx_keys s'"
  shows "payment_books s'"
proof -
  have ids: "map p_id (s_payments s') = map p_id (s_payments s)" "map p_orderId (s_payments s') = map p_orderId (s_payments s)"
    using arg_cong [OF v, of "map p_id"] arg_cong [OF v, of "map p_orderId"] by (simp_all add: comp_def)
  have "payment_booked s' p'" if "p' \<in> set (s_payments s')" for p'
  proof -
    from that v obtain p where "p \<in> set (s_payments s)" "pay_view p' = pay_view p"
      by (metis (no_types, lifting) image_iff list.set_map)
    with payment_booked_view [OF payment_booksD(4) [OF b] _ l] show ?thesis by blast
  qed
  moreover have "le_reference e \<in> (payment_reference \<circ> p_id) ` set (s_payments s')"
    if "e \<in> set (s_ledger s')" "is_payment_entry e" for e
  proof -
    have "e \<in> set (filter is_payment_entry (s_ledger s'))" using that by simp
    then have "e \<in> set (s_ledger s)" unfolding l by simp
    from payment_booksD(5) [OF b this that(2)] show ?thesis
      using ids(1) by (metis (no_types, lifting) image_comp list.set_map)
  qed
  ultimately show ?thesis using payment_booksD(1,2) [OF b] ids t by (auto simp: payment_books_def)
qed

lemma book_payment_entry:
  assumes "book_payment newId now p es = Inr (e, es')"
  shows "(e \<in> set es \<and> es' = es \<or> payment_reference (p_id p) \<notin> le_reference ` set es \<and> es' = es @ [e] \<and>
     le_type e = LEDGER_TYPE_CUSTOMER_PAYMENT \<and> le_direction e = DEBIT \<and>
     le_amountMinor e = p_amountMinor p \<and> le_orderId e = Some (p_orderId p)) \<and>
    le_reference e = payment_reference (p_id p) \<and> 0 < p_amountMinor p \<and> p_currency p = ''DZD''"
proof -
  let ?i = "\<lparr>pi_orderId = Some (p_orderId p), pi_merchantId = None, pi_driverId = None,
         pi_posting = \<lparr>po_type = LEDGER_TYPE_CUSTOMER_PAYMENT, po_direction = DEBIT, po_amountMinor = p_amountMinor p\<rparr>,
         pi_currency = ''DZD'', pi_reference = payment_reference (p_id p), pi_newId = newId, pi_now = now\<rparr>"
  from assms have a: "0 < p_amountMinor p" "p_currency p = ''DZD''" and post: "postIdempotent ?i es = Inr (e, es')"
    by (auto simp: book_payment_def postElectronicPaymentSucceeded_def electronicPaymentPosting_def ebind_Inr
        requireDzd_def post_event_def buildLedgerReference_def payment_reference_def Let_def split: if_splits)
  from ledger.ins_ok [OF post] have k: "le_reference e = payment_reference (p_id p)" by simp
  show ?thesis
  proof (cases "payment_reference (p_id p) \<in> set (keys_of le_key es)")
    case True
    with ledger.ins_ok [OF post] a k show ?thesis by auto
  next
    case False
    then have n: "payment_reference (p_id p) \<notin> le_reference ` set es" by (auto simp: set_keys_of)
    have "es' = es @ [e]" using ledger.ins_ok [OF post] False by simp
    moreover have "e = createEntry ?i"
      using post \<open>es' = es @ [e]\<close> by (auto simp: postIdempotent_def ebind_Inr split: option.splits)
    ultimately show ?thesis using a k n by (simp add: createEntry_def)
  qed
qed

lemma setPaymentStatus_simps [simp]:
  "s_ledger (setPaymentStatus st now i s) = s_ledger s" "s_txs (setPaymentStatus st now i s) = s_txs s"
  "s_refunds (setPaymentStatus st now i s) = s_refunds s" "s_orders (setPaymentStatus st now i s) = s_orders s"
  "map p_id (s_payments (setPaymentStatus st now i s)) = map p_id (s_payments s)"
  "map p_orderId (s_payments (setPaymentStatus st now i s)) = map p_orderId (s_payments s)"
  "p_id ` set (s_payments (setPaymentStatus st now i s)) = p_id ` set (s_payments s)"
  by (simp_all add: setPaymentStatus_def)

lemma setPaymentStatus_in:
  "q' \<in> set (s_payments (setPaymentStatus st now i s)) \<longleftrightarrow>
   (\<exists>q \<in> set (s_payments s). q' = (if p_id q = i then q\<lparr>p_status := st, p_updatedAt := now\<rparr> else q))"
  by (simp add: setPaymentStatus_def t_update_in)

lemma pay_spec_books:
  assumes "pay_spec s s'" and b: "payment_books s"
  shows "payment_books s'"
  using assms(1)
proof cases
  case quiet
  show ?thesis
    by (rule payment_books_cong [OF b quiet_view [OF quiet] _ quiet_keys [OF quiet payment_booksD(3) [OF b]]])
      (simp add: quiet_simps [OF quiet])
next
  case (waiting p st now)
  have "payment_booked s' q'" if q': "q' \<in> set (s_payments s')" for q'
  proof -
    obtain q where q: "q \<in> set (s_payments s)" "q' = (if p_id q = p_id p then q\<lparr>p_status := st, p_updatedAt := now\<rparr> else q)"
      using q' by (auto simp: waiting(1) setPaymentStatus_in split: if_splits)
    have e: "payment_entries s' i = payment_entries s i" for i by (simp add: payment_entries_def waiting(1))
    have pb: "payment_booked s q" by (rule payment_booksD(4) [OF b q(1)])
    show ?thesis
    proof (cases "p_id q = p_id p")
      case True
      then have "q = p" using payment_booksD(1) [OF b] q(1) waiting(2) by (simp add: distinct_map inj_on_def)
      moreover have "st \<noteq> PAY_SUCCEEDED" using waiting(4) by auto
      ultimately show ?thesis using pb waiting(3) q(2) by (simp add: payment_booked_def e)
    next
      case False
      with pb q(2) show ?thesis by (simp add: payment_booked_def e)
    qed
  qed
  moreover have "(payment_reference \<circ> p_id) ` set (s_payments s') = (payment_reference \<circ> p_id) ` set (s_payments s)"
    unfolding image_comp [symmetric] by (simp add: waiting(1))
  moreover have "s_ledger s' = s_ledger s" "tx_keys s'" using payment_booksD(3) [OF b]
    by (simp_all add: waiting(1) tx_keys_def)
  moreover have "distinct (map p_id (s_payments s'))" "distinct (map p_orderId (s_payments s'))"
    using payment_booksD(1,2) [OF b] by (simp_all add: waiting(1))
  ultimately show ?thesis unfolding payment_books_def using payment_booksD(5) [OF b] by simp
next
  case (succeed p newId now e es)
  from book_payment_entry [OF succeed(4)] have e: "le_reference e = payment_reference (p_id p)" "0 < p_amountMinor p"
    and es: "e \<in> set (s_ledger s) \<and> es = s_ledger s \<or> payment_reference (p_id p) \<notin> le_reference ` set (s_ledger s) \<and>
      es = s_ledger s @ [e] \<and> le_type e = LEDGER_TYPE_CUSTOMER_PAYMENT \<and> le_direction e = DEBIT \<and>
      le_amountMinor e = p_amountMinor p \<and> le_orderId e = Some (p_orderId p)" by blast+
  have l: "s_ledger s' = es" by (simp add: succeed(1))
  have other: "i \<noteq> p_id p \<Longrightarrow> payment_entries s' i = payment_entries s i" for i
    using es e(1) by (auto simp: payment_entries_def l)
  have pb: "payment_booked s p" by (rule payment_booksD(4) [OF b succeed(2)])
  have mine: "\<exists>e. payment_entries s' (p_id p) = [e] \<and> le_type e = LEDGER_TYPE_CUSTOMER_PAYMENT \<and>
        le_direction e = DEBIT \<and> le_amountMinor e = p_amountMinor p \<and> le_orderId e = Some (p_orderId p)"
    using es
  proof
    assume old: "e \<in> set (s_ledger s) \<and> es = s_ledger s"
    then have "payment_entries s (p_id p) \<noteq> []" using e(1) by (auto simp: payment_entries_def filter_empty_conv)
    with pb old show ?thesis by (auto simp: payment_booked_def payment_entries_def l split: if_splits)
  next
    assume new: "payment_reference (p_id p) \<notin> le_reference ` set (s_ledger s) \<and>
      es = s_ledger s @ [e] \<and> le_type e = LEDGER_TYPE_CUSTOMER_PAYMENT \<and> le_direction e = DEBIT \<and>
      le_amountMinor e = p_amountMinor p \<and> le_orderId e = Some (p_orderId p)"
    then have "payment_entries s (p_id p) = []" by (force simp: payment_entries_def filter_empty_conv)
    with new e(1) show ?thesis by (simp add: payment_entries_def l)
  qed
  have "payment_booked s' q'" if q': "q' \<in> set (s_payments s')" for q'
  proof -
    obtain q where q: "q \<in> set (s_payments s)"
      "q' = (if p_id q = p_id p then q\<lparr>p_status := PAY_SUCCEEDED, p_updatedAt := now\<rparr> else q)"
      using q' by (auto simp: succeed(1) setPaymentStatus_in split: if_splits)
    show ?thesis
    proof (cases "p_id q = p_id p")
      case True
      then have "q = p" using payment_booksD(1) [OF b] q(1) succeed(2) by (simp add: distinct_map inj_on_def)
      with succeed(3) mine q(2) show ?thesis by (simp add: payment_booked_def)
    next
      case False
      with payment_booksD(4) [OF b q(1)] q(2) other [OF False] show ?thesis by (simp add: payment_booked_def)
    qed
  qed
  moreover have "(payment_reference \<circ> p_id) ` set (s_payments s') = (payment_reference \<circ> p_id) ` set (s_payments s)"
    unfolding image_comp [symmetric] by (simp add: succeed(1))
  moreover have "le_reference x \<in> (payment_reference \<circ> p_id) ` set (s_payments s)" if "x \<in> set es" "is_payment_entry x" for x
    using that es e(1) payment_booksD(5) [OF b] succeed(2) by auto
  moreover have "tx_keys s'" using payment_booksD(3) [OF b] by (simp add: succeed(1) tx_keys_def)
  moreover have "distinct (map p_id (s_payments s'))" "distinct (map p_orderId (s_payments s'))"
    using payment_booksD(1,2) [OF b] by (simp_all add: succeed(1))
  ultimately show ?thesis unfolding payment_books_def by (simp add: l)
next
  case (refund i ord now newId reason n v)
  have m: "\<exists>s1. same_money s s1 \<and> s' = s1\<lparr>s_refunds := s_refunds s'\<rparr>"
    using ensureRefundIntent_shape [OF refund(4)] by blast
  then obtain s1 where s1: "same_money s s1" "s' = s1\<lparr>s_refunds := s_refunds s'\<rparr>" by blast
  have p: "s_payments s' = s_payments s1" "s_ledger s' = s_ledger s1" "s_txs s' = s_txs s1"
    by (subst s1(2), simp)+
  show ?thesis
    using payment_booksD(3) [OF b] same_money_view [OF s1(1)]
    by (intro payment_books_cong [OF b]) (simp_all add: p same_money_simps [OF s1(1)] same_money_txs [OF s1(1)] tx_keys_def)
qed

section \<open>The operations are steps of the machine\<close>

lemma lockPaymentRecord_eq:
  "lockPaymentRecord now i s = (map_option toPayment (t_find p_id i (s_payments s)), touch now i s)"
proof -
  have e: "(\<lambda>p. p\<lparr>p_updatedAt := now\<rparr>) = locked_payment now" by (rule ext) (simp add: locked_payment_def)
  have "toPayment (if p_id p = i then locked_payment now p else p) = toPayment p" for p
    by (simp add: toPayment_def locked_payment_def)
  then show ?thesis
    by (simp add: lockPaymentRecord_def lockPayment_def Let_def touch_def e t_find_update option.map_comp comp_def)
qed

lemma touch_row_simps [simp]:
  "s_ledger (touch now i s) = s_ledger s" "s_txs (touch now i s) = s_txs s"
  "s_refunds (touch now i s) = s_refunds s" "s_orders (touch now i s) = s_orders s"
  by (simp_all add: touch_def)

lemma quietI:
  "s' = s\<lparr>s_payments := ps, s_txs := ts\<rparr> \<Longrightarrow> map pay_view ps = map pay_view (s_payments s) \<Longrightarrow>
   (tx_keys s \<Longrightarrow> distinct (map t_id ts) \<and> distinct (map t_idempotencyKey ts)) \<Longrightarrow> quiet s s'"
  by (simp add: quiet_def tx_keys_def)

lemma quiet_refl [simp]: "quiet s s"
  by (rule quietI [where ps = "s_payments s" and ts = "s_txs s"]) (simp_all add: tx_keys_def)

lemma quiet_touch [simp]: "quiet s (touch now i s)"
  by (rule quietI [where ps = "t_update (\<lambda>p. p_id p = i) (locked_payment now) (s_payments s)" and ts = "s_txs s"])
    (simp_all add: touch_def tx_keys_def t_update_def locked_payment_def pay_view_def)

lemma quiet_closeAttempt [simp]: "quiet s (closeAttempt now i st s)"
  by (rule quietI [where ps = "s_payments s" and ts = "t_update (\<lambda>t. t_id t = i)
         (\<lambda>t. t\<lparr>t_status := st, t_processedAt := Some now\<rparr>) (s_txs s)"])
    (simp_all add: closeAttempt_def tx_keys_def)

lemma quiet_finalize: "finalizeInitiated i r s = (t, s') \<Longrightarrow> quiet s s'"
  by (rule quietI [where ps = "s_payments s" and ts = "t_update (\<lambda>t. t_id t = i)
         (\<lambda>t. t\<lparr>t_providerReference := Some r, t_status := TX_INITIATED\<rparr>) (s_txs s)"])
    (auto simp: finalizeInitiated_def tx_keys_def Let_def)

lemma quiet_insert: "insertTransaction row s = Inr s' \<Longrightarrow> quiet s s'"
  by (rule quietI [where ps = "s_payments s" and ts = "s_txs s @ [row]"])
    (auto simp: insertTransaction_def tx_keys_def split: if_splits)

lemma quiet_step: "quiet s s' \<Longrightarrow> pay_spec\<^sup>*\<^sup>* s s'"
  by (rule r_into_rtranclp) (rule pay_spec.quiet)

lemma touch_row: "t_find p_id i (s_payments s) = Some p \<Longrightarrow> locked_payment now p \<in> set (s_payments (touch now i s)) \<and> p_id p = i"
  by (auto simp: touch_def t_update_in dest!: t_find_Some)

text \<open>A refund-free piece: what it leaves of the refunds and the orders.\<close>

definition pays :: "shop \<Rightarrow> shop \<Rightarrow> bool" where
  "pays s s' \<longleftrightarrow> pay_spec\<^sup>*\<^sup>* s s' \<and> s_refunds s' = s_refunds s \<and> s_orders s' = s_orders s"

lemma pays_refl [simp]: "pays s s"
  by (simp add: pays_def)

lemma pays_trans: "pays s s1 \<Longrightarrow> pays s1 s2 \<Longrightarrow> pays s s2"
  by (auto simp: pays_def)

lemma pays_quiet: "quiet s s' \<Longrightarrow> pays s s'"
  by (simp add: pays_def quiet_step quiet_simps)

lemma pays_waiting:
  assumes "t_find p_id i (s_payments s) = Some p" "p_status p \<noteq> PAY_SUCCEEDED" "st \<in> {PAY_PENDING, PAY_PROCESSING}"
    "p_method p = PAYMENT_METHOD_COD \<longrightarrow> p_status p = PAY_PROCESSING"
  shows "pays s (setPaymentStatus st now i (touch now i s))"
proof -
  have "pay_spec (touch now i s) (setPaymentStatus st now (p_id (locked_payment now p)) (touch now i s))"
    by (rule pay_spec.waiting) (use touch_row [OF assms(1)] assms(2-4) in auto)
  then have "pays (touch now i s) (setPaymentStatus st now i (touch now i s))"
    using touch_row [OF assms(1)] by (simp add: pays_def r_into_rtranclp)
  then show ?thesis by (rule pays_trans [OF pays_quiet [OF quiet_touch]])
qed

lemma pays_atomically: "(\<And>a s'. t s = Inr (a, s') \<Longrightarrow> pays s s') \<Longrightarrow> pays s (snd (atomically t s))"
  by (auto simp: atomically_def split: sum.splits)

lemma setStatus_quiet_comm:
  "insertTransaction row s = Inr s' \<Longrightarrow>
   insertTransaction row (setPaymentStatus st now i s) = Inr (setPaymentStatus st now i s')"
  by (auto simp: insertTransaction_def setPaymentStatus_def split: if_splits)

lemma eligible: "assertInitiationEligibility p c = Inr u \<Longrightarrow>
   pr_status p \<noteq> PAY_SUCCEEDED \<and> pr_method p = PAYMENT_METHOD_ELECTRONIC \<and>
   amountsMatch (pr_amountMinor p) (oc_snapshotPayableMinor c)"
  by (auto simp: assertInitiationEligibility_def isPaymentExecutionTerminal_def isElectronicMethod_def split: if_splits)

lemma insertCreated_ok:
  assumes "insertCreatedAttempt now newId pid pn amount key s = Inr (t, s')"
  shows "quiet s s' \<and> s_payments s' = s_payments s"
proof -
  obtain row where "insertTransaction row s = Inr s'"
    using assms by (auto simp: insertCreatedAttempt_def Let_def ebind_Inr)
  with quiet_insert show ?thesis by (auto simp: insertTransaction_def split: if_splits)
qed

lemma prepareInitiation_ok:
  assumes "prepareInitiation prov dir rq acc i s = Inr ((k, p, t), s')"
  shows "pays s s' \<and> (k = REUSE \<longrightarrow> s_txs s' = s_txs s \<and> tr_id t \<in> t_id ` set (filter open_tx (s_txs s)))"
proof -
  obtain owned payment s1 where lk: "lockPaymentRecord (rq_now rq) (pr_id (oc_payment owned)) s = (Some payment, s1)"
    and el: "assertInitiationEligibility payment owned = Inr ()"
    and body: "(case reusableAttempt (pr_id payment) s1 of
           Some (kind, a) \<Rightarrow> Inr ((kind, payment, a), s1)
         | None \<Rightarrow> newAttempt prov rq payment s1) = Inr ((k, p, t), s')"
    using assms unfolding prepareInitiation_def
    by (auto simp: ebind_Inr emap_Inr prod_Inr [where x = "lockPaymentRecord a b c" for a b c]
        option_Inr [where x = "x1 :: payment_record option" for x1])
  from lk obtain row where row: "t_find p_id (pr_id (oc_payment owned)) (s_payments s) = Some row"
    "payment = toPayment row" and s1: "s1 = touch (rq_now rq) (pr_id (oc_payment owned)) s"
    by (auto simp: lockPaymentRecord_eq)
  have pid: "pr_id (oc_payment owned) = p_id row" "pr_id payment = p_id row"
    using t_find_Some [OF row(1)] row(2) by (simp_all add: toPayment_def)
  have st: "p_status row \<noteq> PAY_SUCCEEDED" "p_method row = PAYMENT_METHOD_ELECTRONIC"
    using eligible [OF el] row(2) by (simp_all add: toPayment_def)
  have q: "pays s s1" by (simp add: s1 pays_quiet)
  have created: "pays s (markPaymentProcessing (rq_now rq) (pr_id payment) s2)"
    if ins: "insertCreatedAttempt (rq_now rq) x (pr_id payment) y z w s1 = Inr (t', s2)" for x y z w t' s2
  proof -
    obtain tr where tr: "insertTransaction tr s1 = Inr s2"
      using ins by (auto simp: insertCreatedAttempt_def Let_def ebind_Inr)
    have "pays s (setPaymentStatus PAY_PROCESSING (rq_now rq) (p_id row) s1)"
      using pays_waiting [of "p_id row" s row] row(1) st by (simp add: s1 pid)
    moreover have "quiet (setPaymentStatus PAY_PROCESSING (rq_now rq) (p_id row) s1)
        (setPaymentStatus PAY_PROCESSING (rq_now rq) (p_id row) s2)"
      by (rule quiet_insert [OF setStatus_quiet_comm [OF tr]])
    ultimately show ?thesis unfolding markPaymentProcessing_def pid(2) by (rule pays_trans [OF _ pays_quiet])
  qed
  have reuse: "tr_id a \<in> t_id ` set (filter open_tx (s_txs s))" if "findOpenAttempt (pr_id payment) s1 = Some a" for a
    using that by (auto simp: findOpenAttempt_def s1 find_Some_iff toTransaction_def dest!: nth_mem)
  show ?thesis
  proof (cases "reusableAttempt (pr_id payment) s1")
    case None
    with body created show ?thesis by (auto simp: newAttempt_def ebind_Inr)
  next
    case (Some ka)
    then obtain a where "findOpenAttempt (pr_id payment) s1 = Some a" "snd ka = a"
      by (auto simp: reusableAttempt_def split: option.splits if_splits)
    with Some body q reuse [of a] show ?thesis by (cases ka) (auto simp: s1)
  qed
qed

lemma closeFromProvider_pays: "pays s (closeAttemptFromProvider rq a st s)"
proof -
  let ?s1 = "closeAttempt (rq_now rq) (tr_id a) st s"
  have q: "pays s ?s1" by (simp add: pays_quiet)
  show ?thesis
  proof (cases "t_find p_id (tr_paymentId a) (s_payments ?s1)")
    case None
    with pays_trans [OF q pays_quiet [OF quiet_touch]] show ?thesis
      by (simp add: closeAttemptFromProvider_def Let_def lockPaymentRecord_eq)
  next
    case (Some p)
    show ?thesis
    proof (cases "p_status p = PAY_PROCESSING")
      case True
      then have "pays ?s1 (setPaymentStatus PAY_PENDING (rq_now rq) (tr_paymentId a) (touch (rq_now rq) (tr_paymentId a) ?s1))"
        by (intro pays_waiting [OF Some]) simp_all
      with pays_trans [OF q] Some True show ?thesis
        by (simp add: closeAttemptFromProvider_def Let_def lockPaymentRecord_eq toPayment_def
            isPaymentExecutionTerminal_def markPaymentPending_def)
    next
      case False
      with Some pays_trans [OF q pays_quiet [OF quiet_touch]] show ?thesis
        by (simp add: closeAttemptFromProvider_def Let_def lockPaymentRecord_eq toPayment_def)
    qed
  qed
qed

lemma closeFromProvider_txs: "s_txs (closeAttemptFromProvider rq a st s) = s_txs (closeAttempt (rq_now rq) (tr_id a) st s)"
  by (auto simp: closeAttemptFromProvider_def Let_def lockPaymentRecord_eq markPaymentPending_def split: option.splits)

lemma createSession_pays: "createProviderSession prov rq a p s = (r, s') \<Longrightarrow> pays s s'"
  using closeFromProvider_pays by (auto simp: createProviderSession_def failOpenAttempt_def split: sum.splits)

lemma finalize_pays: "finalizeProviderSession rq p a session s = (r, s') \<Longrightarrow> pays s s'"
proof -
  assume a: "finalizeProviderSession rq p a session s = (r, s')"
  define t where "t = (\<lambda>s.
        ebind (emap PaymentE (assertUniqueProviderReference
                 (findTransactionsByProviderReference (ps_providerReference session) s)
                 (pr_id p) (tr_id a))) (\<lambda>_.
        case finalizeInitiated (tr_id a) (ps_providerReference session) s of
          (None, _) \<Rightarrow> Inl (PaymentE PAYMENT_PROVIDER_UNAVAILABLE)
        | (Some finalized, s1) \<Rightarrow>
            (case lockPaymentRecord (rq_now rq) (pr_id p) s1 of
               (current, s2) \<Rightarrow>
                 Inr ((case current of None \<Rightarrow> p\<lparr>pr_status := PAY_PROCESSING\<rparr> | Some c \<Rightarrow> c,
                       finalized), s2))))"
  have "pays s s1" if "t s = Inr (x, s1)" for x s1
    using that unfolding t_def
    by (auto simp: ebind_Inr lockPaymentRecord_eq prod_Inr [where x = "finalizeInitiated a b c" for a b c]
        option_Inr [where x = "x1 :: tx_record option" for x1]
        intro!: pays_trans [OF pays_quiet [OF quiet_finalize] pays_quiet [OF quiet_touch]])
  moreover have "finalizeProviderSession rq p a session s = (case atomically t s of
        (Inl e, s1) \<Rightarrow>
          (Inl e, if e = PaymentE PAYMENT_INVALID_STATE then failOpenAttempt rq a s1 else s1)
      | (Inr r, s1) \<Rightarrow> (Inr r, s1))"
    by (simp add: finalizeProviderSession_def t_def)
  ultimately show ?thesis
    using a closeFromProvider_pays
    by (auto simp: atomically_def failOpenAttempt_def split: sum.splits if_splits)
qed

lemma execute_pays: "executeProviderCreate prov rq p a s = (r, s') \<Longrightarrow> pays s s'"
  by (auto simp: executeProviderCreate_def and_then_def pure_def split: prod.splits sum.splits
      dest!: createSession_pays finalize_pays intro: pays_trans)

text \<open>Money arrives: the status, the ledger entry and perhaps the refund of a late success.\<close>

lemma postPaymentSucceeded_ok:
  "postPaymentSucceeded rq (toPayment p) s = Inr s' \<Longrightarrow>
   \<exists>e es. book_payment (rq_ledgerId rq) (rq_now rq) p (s_ledger s) = Inr (e, es) \<and> s' = s\<lparr>s_ledger := es\<rparr>"
proof -
  assume a: "postPaymentSucceeded rq (toPayment p) s = Inr s'"
  then obtain n where n: "parseMinorUnits (DbBig (p_amountMinor p)) = JInt n"
    by (auto simp: postPaymentSucceeded_def in_ledger_ok postElectronicPaymentSucceeded_def ebind_Inr
        electronicPaymentPosting_def toPayment_def isInteger_iff simp del: parseMinorUnits.simps split: if_splits)
  then have "n = p_amountMinor p" by (simp add: parseMinorUnits_int del: parseMinorUnits.simps)
  with a n show ?thesis
    by (auto simp: postPaymentSucceeded_def in_ledger_ok book_payment_def toPayment_def
        postElectronicPaymentSucceeded_def electronicPaymentPosting_def ebind_Inr not_le
        simp del: parseMinorUnits.simps split: if_splits)
qed

lemma late_refund_step:
  assumes "ensureLateSuccessRefundIntent rq i s = Inr s'" "rq_refundId rq \<notin> r_id ` set (s_refunds s)"
  shows "pay_spec\<^sup>*\<^sup>* s s'"
proof -
  have "s' = s \<or> (\<exists>v ord. t_find o_id i (s_orders s) = Some ord \<and> o_status ord \<in> {O_CANCELLED, O_FAILED} \<and>
      ensureRefundIntentInTx (rq_now rq) (rq_refundId rq) i LATE_PAYMENT_SUCCESS PAID_TERMINAL_REASON_LATE_SUCCESS None s
      = Inr (v, s'))"
    using assms(1) by (auto simp: ensureLateSuccessRefundIntent_def Let_def ebind_Inr split: if_splits)
  with assms(2) show ?thesis by (auto intro: pay_spec.refund)
qed

lemma money_arrives:
  assumes p: "t_find p_id i (s_payments s) = Some p" "p_method p = PAYMENT_METHOD_ELECTRONIC"
    and s2: "s2 = (if p_status p = PAY_SUCCEEDED then touch (rq_now rq) i s
                   else setPaymentStatus PAY_SUCCEEDED (rq_now rq) i (touch (rq_now rq) i s))"
    and s3: "s3 = s2 \<or> s3 = closeAttempt (rq_now rq) t st s2"
    and s4: "postPaymentSucceeded rq (toPayment p) s3 = Inr s4"
    and s5: "ensureLateSuccessRefundIntent rq ord s4 = Inr s5"
    and fresh: "rq_refundId rq \<notin> r_id ` set (s_refunds s)"
    and d: "distinct (map p_id (s_payments s))"
  shows "pay_spec\<^sup>*\<^sup>* s s5"
proof -
  let ?now = "rq_now rq" let ?s1 = "touch ?now i s" let ?q = "locked_payment ?now p"
  let ?m = "setPaymentStatus PAY_SUCCEEDED ?now i ?s1"
  have q: "?q \<in> set (s_payments ?s1)" "p_id p = i" using touch_row [OF p(1)] by blast+
  have s2m: "s2 = ?m"
  proof (cases "p_status p = PAY_SUCCEEDED")
    case True
    have "x\<lparr>p_status := PAY_SUCCEEDED, p_updatedAt := ?now\<rparr> = x"
      if x: "x \<in> set (s_payments ?s1)" "p_id x = i" for x
    proof -
      have "map p_id (s_payments ?s1) = map p_id (s_payments s)" by (simp add: touch_def)
      with d x q have "x = ?q" by (metis (no_types) distinct_map inj_onD locked_payment_simps(1))
      with True show ?thesis by (simp add: locked_payment_def)
    qed
    then have "?m = ?s1" by (simp add: setPaymentStatus_def t_update_id)
    with True s2 show ?thesis by simp
  next
    case False
    with s2 show ?thesis by simp
  qed
  obtain e es where e: "book_payment (rq_ledgerId rq) ?now p (s_ledger s3) = Inr (e, es)"
    and s4e: "s4 = s3\<lparr>s_ledger := es\<rparr>" using postPaymentSucceeded_ok [OF s4] by blast
  have l: "s_ledger s3 = s_ledger ?s1" using s3 by (auto simp: s2m closeAttempt_def)
  have "book_payment (rq_ledgerId rq) ?now ?q (s_ledger ?s1) = Inr (e, es)"
    using e l by (simp add: book_payment_def locked_payment_def)
  from pay_spec.succeed [OF q(1) _ this] p(2) q(2)
  have "pay_spec ?s1 (?m\<lparr>s_ledger := es\<rparr>)" by simp
  moreover have "quiet (?m\<lparr>s_ledger := es\<rparr>) s4"
    using s3
  proof
    assume "s3 = s2" then show ?thesis by (simp add: s4e s2m)
  next
    assume "s3 = closeAttempt ?now t st s2"
    then have "s4 = closeAttempt ?now t st (?m\<lparr>s_ledger := es\<rparr>)" by (simp add: s4e s2m closeAttempt_def)
    then show ?thesis by simp
  qed
  ultimately have "pay_spec\<^sup>*\<^sup>* s s4"
    by (meson pay_spec.quiet quiet_touch rtranclp.rtrancl_into_rtrancl rtranclp.rtrancl_refl)
  moreover have "s_refunds s4 = s_refunds s" using s3 by (auto simp: s4e s2m closeAttempt_def)
  then have "pay_spec\<^sup>*\<^sup>* s4 s5" using late_refund_step [OF s5] fresh by simp
  ultimately show ?thesis by simp
qed

lemma pay_books_path: "pay_spec\<^sup>*\<^sup>* s s' \<Longrightarrow> payment_books s \<Longrightarrow> payment_books s'"
  by (induction rule: rtranclp_induct) (auto intro: pay_spec_books)

lemma reconcile_path:
  assumes "reconcilePaidSnapshot rq p a snap s = (r, s')"
    and fresh: "rq_refundId rq \<notin> r_id ` set (s_refunds s)" and d: "distinct (map p_id (s_payments s))"
  shows "pay_spec\<^sup>*\<^sup>* s s'"
proof (cases "s' = s")
  case False
  then obtain locked s1 s4 where lk: "lockPaymentRecord (rq_now rq) (pr_id p) s = (Some locked, s1)"
    and el: "isElectronicMethod (pr_method locked)"
    and s4: "postPaymentSucceeded rq locked
      (if isOpenish (tr_status a)
       then closeAttempt (rq_now rq) (tr_id a) TX_SUCCEEDED
         (if \<not> isPaymentExecutionTerminal (pr_status locked)
          then markPaymentSucceeded (rq_now rq) (pr_id p) s1 else s1)
       else if \<not> isPaymentExecutionTerminal (pr_status locked)
          then markPaymentSucceeded (rq_now rq) (pr_id p) s1 else s1) = Inr s4"
    and s5: "ensureLateSuccessRefundIntent rq (pr_orderId locked) s4 = Inr s'"
    using assms(1)
    by (auto simp: reconcilePaidSnapshot_def throw_def atomically_def Let_def ebind_Inr
        prod_Inr [where x = "lockPaymentRecord a b c" for a b c]
        option_Inr [where x = "x1 :: payment_record option" for x1] split: if_splits sum.splits)
  from lk obtain row where row: "t_find p_id (pr_id p) (s_payments s) = Some row" "locked = toPayment row"
    and s1: "s1 = touch (rq_now rq) (pr_id p) s" by (auto simp: lockPaymentRecord_eq)
  show ?thesis
    by (rule money_arrives [OF row(1) _ refl _ s4 [unfolded row(2)] s5 fresh d,
          where t = "tr_id a" and st = TX_SUCCEEDED])
      (use el in \<open>auto simp: row(2) toPayment_def isElectronicMethod_def s1 markPaymentSucceeded_def
        isPaymentExecutionTerminal_def\<close>)
qed simp

lemma continue_path:
  assumes "continueInitiatedAttempt fuel prov dir rq acc i p a s = Some (r, s')"
    and "rq_refundId rq \<notin> r_id ` set (s_refunds s)" and "payment_books s"
  shows "pay_spec\<^sup>*\<^sup>* s s'"
  using assms
proof (induction fuel arbitrary: p a s)
  case (Suc fuel)
  note fresh = Suc.prems(2) and pb = Suc.prems(3)
  have d: "distinct (map p_id (s_payments s))" by (rule payment_booksD(1) [OF pb])
  show ?case
  proof (cases "tr_providerReference a = None \<or> tr_providerReference a = Some []")
    case True
    with Suc.prems(1) execute_pays show ?thesis by (auto simp: pays_def)
  next
    case False
    show ?thesis
    proof (cases "\<exists>q. pv_queryPayment prov (the (tr_providerReference a)) = Inr (Some q)")
      case False': False
      with False Suc.prems(1) show ?thesis by (auto split: sum.splits option.splits if_splits)
    next
      case True
      then obtain q where q: "pv_queryPayment prov (the (tr_providerReference a)) = Inr (Some q)" by blast
      let ?over = "cs_providerStatus q = CK_FAILED \<or> cs_providerStatus q = CK_CANCELED"
      show ?thesis
      proof (cases ?over)
        case False': False
        show ?thesis
        proof (cases "cs_providerStatus q = CK_PAID")
          case True
          with Suc.prems(1) False q obtain r0 s0 where "reconcilePaidSnapshot rq p a q s = (r0, s0)" "s' = s0"
            by (cases "reconcilePaidSnapshot rq p a q s") (auto simp: and_then_def pure_def split: sum.splits if_splits)
          with reconcile_path fresh d show ?thesis by blast
        next
          case unpaid: False
          with False' have "cs_providerStatus q = CK_PENDING \<or> cs_providerStatus q = CK_PROCESSING"
            by (cases "cs_providerStatus q") auto
          with Suc.prems(1) False q have "s' = s" by (auto split: if_splits)
          then show ?thesis by simp
        qed
      next
        case True
        define s1 where "s1 = closeAttemptFromProvider rq a
            (if cs_providerStatus q = CK_CANCELED then TX_CANCELLED else TX_FAILED) s"
        have p1: "pays s s1" unfolding s1_def by (rule closeFromProvider_pays)
        have rec: "(case atomically (prepareInitiation prov dir rq acc i) s1 of
               (Inl e, s2) \<Rightarrow> Some (Inl e, s2)
             | (Inr (kind, p, t), s2) \<Rightarrow>
                 if kind = REUSE then continueInitiatedAttempt fuel prov dir rq acc i p t s2
                 else Some (executeProviderCreate prov rq p t s2)) = Some (r, s')"
          using Suc.prems(1) False q True by (auto simp: s1_def Let_def split: if_splits)
        show ?thesis
        proof (cases "prepareInitiation prov dir rq acc i s1")
          case (Inl e)
          with rec p1 show ?thesis by (simp add: atomically_def pays_def)
        next
          case (Inr x)
          obtain k p2 t2 s2 where x: "x = ((k, p2, t2), s2)" by (metis prod.collapse)
          from prepareInitiation_ok [OF Inr [unfolded x]] have p2: "pays s s2" using pays_trans [OF p1] by blast
          then have r2: "rq_refundId rq \<notin> r_id ` set (s_refunds s2)" and b2: "payment_books s2"
            using fresh pay_books_path [OF _ pb] by (simp_all add: pays_def)
          have "pay_spec\<^sup>*\<^sup>* s2 s'"
          proof (cases "k = REUSE")
            case True
            with rec Inr x have "continueInitiatedAttempt fuel prov dir rq acc i p2 t2 s2 = Some (r, s')"
              by (simp add: atomically_def)
            from Suc.IH [OF this r2 b2] show ?thesis .
          next
            case False
            with rec Inr x have "executeProviderCreate prov rq p2 t2 s2 = (r, s')" by (simp add: atomically_def)
            from execute_pays [OF this] show ?thesis by (simp add: pays_def)
          qed
          with p2 show ?thesis by (auto simp: pays_def)
        qed
      qed
    qed
  qed
qed simp

lemma initiate_path:
  assumes "initiateCustomerPayment fuel prov dir rq acc i s = Some (r, s')"
    and fresh: "rq_refundId rq \<notin> r_id ` set (s_refunds s)" and pb: "payment_books s"
  shows "pay_spec\<^sup>*\<^sup>* s s'"
proof (cases "prepareInitiation prov dir rq acc i s")
  case (Inl e)
  with assms(1) show ?thesis by (simp add: initiateCustomerPayment_def atomically_def)
next
  case (Inr x)
  obtain k p2 t2 s2 where x: "x = ((k, p2, t2), s2)" by (metis prod.collapse)
  from prepareInitiation_ok [OF Inr [unfolded x]] have p2: "pays s s2" by blast
  then have r2: "rq_refundId rq \<notin> r_id ` set (s_refunds s2)" and b2: "payment_books s2"
    using fresh pay_books_path [OF _ pb] by (simp_all add: pays_def)
  have "pay_spec\<^sup>*\<^sup>* s2 s'"
  proof (cases "k = REUSE")
    case True
    with assms(1) Inr x have "continueInitiatedAttempt fuel prov dir rq acc i p2 t2 s2 = Some (r, s')"
      by (simp add: atomically_def initiateCustomerPayment_def)
    from continue_path [OF this r2 b2] show ?thesis .
  next
    case False
    with assms(1) Inr x have "executeProviderCreate prov rq p2 t2 s2 = (r, s')"
      by (simp add: atomically_def initiateCustomerPayment_def)
    from execute_pays [OF this] show ?thesis by (simp add: pays_def)
  qed
  with p2 show ?thesis by (auto simp: pays_def)
qed

section \<open>Termination of an initiation\<close>

definition open_attempts :: "shop \<Rightarrow> nat" where
  "open_attempts s = length (filter open_tx (s_txs s))"

lemma close_open_attempt:
  assumes "i \<in> t_id ` set (filter open_tx (s_txs s))" "st = TX_CANCELLED \<or> st = TX_FAILED"
  shows "open_attempts (closeAttempt now i st s) < open_attempts s"
proof -
  have "i \<in> t_id ` set (filter open_tx ts) \<Longrightarrow>
      length (filter open_tx (t_update (\<lambda>t. t_id t = i) (\<lambda>t. t\<lparr>t_status := st, t_processedAt := Some now\<rparr>) ts))
      < length (filter open_tx ts)" for ts
  proof (induction ts)
    case (Cons t ts)
    have no: "\<not> open_tx (t\<lparr>t_status := st, t_processedAt := Some now\<rparr>)" by (simp add: open_tx_def)
    have le: "length (filter open_tx (t_update (\<lambda>t. t_id t = i) (\<lambda>t. t\<lparr>t_status := st, t_processedAt := Some now\<rparr>) ts))
      \<le> length (filter open_tx ts)"
      by (induction ts) (auto simp: t_update_def open_tx_def)
    show ?case
    proof (cases "t_id t = i \<and> open_tx t")
      case True
      with le no show ?thesis by (simp add: t_update_def)
    next
      case False
      with Cons have "length (filter open_tx (t_update (\<lambda>t. t_id t = i) (\<lambda>t. t\<lparr>t_status := st, t_processedAt := Some now\<rparr>) ts))
      < length (filter open_tx ts)" by (auto split: if_splits)
      with False no show ?thesis by (auto simp: t_update_def)
    qed
  qed simp
  with assms(1) show ?thesis by (simp add: open_attempts_def closeAttempt_def)
qed

lemma continue_terminates:
  "tr_id a \<in> t_id ` set (filter open_tx (s_txs s)) \<Longrightarrow> open_attempts s \<le> fuel \<Longrightarrow>
   continueInitiatedAttempt fuel prov dir rq acc i p a s \<noteq> None"
proof (induction fuel arbitrary: p a s)
  case 0
  then have "filter open_tx (s_txs s) = []" by (simp add: open_attempts_def)
  with 0 show ?case by simp
next
  case (Suc fuel)
  show ?case
  proof (cases "\<exists>q. pv_queryPayment prov (the (tr_providerReference a)) = Inr (Some q)")
    case False
    then show ?thesis by (auto split: sum.splits option.splits)
  next
    case True
    then obtain q where q: "pv_queryPayment prov (the (tr_providerReference a)) = Inr (Some q)" by blast
    let ?st = "if cs_providerStatus q = CK_CANCELED then TX_CANCELLED else TX_FAILED"
    define s1 where "s1 = closeAttemptFromProvider rq a ?st s"
    have less: "open_attempts s1 < open_attempts s"
      using close_open_attempt [OF Suc.prems(1), of ?st "rq_now rq"]
      by (simp add: s1_def open_attempts_def closeFromProvider_txs)
    have "continueInitiatedAttempt fuel prov dir rq acc i p2 t2 s2 \<noteq> None"
      if "prepareInitiation prov dir rq acc i s1 = Inr ((REUSE, p2, t2), s2)" for p2 t2 s2
    proof (rule Suc.IH)
      from prepareInitiation_ok [OF that] have e: "s_txs s2 = s_txs s1"
        and t: "tr_id t2 \<in> t_id ` set (filter open_tx (s_txs s1))" by simp_all
      show "tr_id t2 \<in> t_id ` set (filter open_tx (s_txs s2))" using t by (simp add: e)
      show "open_attempts s2 \<le> fuel" using less Suc.prems(2) by (simp add: open_attempts_def e)
    qed
    then have "(case atomically (prepareInitiation prov dir rq acc i) s1 of
               (Inl e, s2) \<Rightarrow> Some (Inl e, s2)
             | (Inr (kind, p, t), s2) \<Rightarrow>
                 if kind = REUSE then continueInitiatedAttempt fuel prov dir rq acc i p t s2
                 else Some (executeProviderCreate prov rq p t s2)) \<noteq> None"
      by (auto simp: atomically_def split: sum.splits prod.splits)
    then show ?thesis by (simp add: q s1_def Let_def)
  qed
qed

lemma initiate_terminates:
  "open_attempts s \<le> fuel \<Longrightarrow> initiateCustomerPayment fuel prov dir rq acc i s \<noteq> None"
proof -
  assume f: "open_attempts s \<le> fuel"
  have "continueInitiatedAttempt fuel prov dir rq acc i p2 t2 s2 \<noteq> None"
    if "prepareInitiation prov dir rq acc i s = Inr ((REUSE, p2, t2), s2)" for p2 t2 s2
  proof (rule continue_terminates)
    from prepareInitiation_ok [OF that] have e: "s_txs s2 = s_txs s"
      and t: "tr_id t2 \<in> t_id ` set (filter open_tx (s_txs s))" by simp_all
    show "tr_id t2 \<in> t_id ` set (filter open_tx (s_txs s2))" using t by (simp add: e)
    show "open_attempts s2 \<le> fuel" using f by (simp add: open_attempts_def e)
  qed
  then show ?thesis by (auto simp: initiateCustomerPayment_def atomically_def split: sum.splits prod.splits)
qed

section \<open>Webhooks\<close>

lemma webhook_path:
  assumes "webhook_transaction prov rq event s = Inr (u, s')"
    and fresh: "rq_refundId rq \<notin> r_id ` set (s_refunds s)" and d: "distinct (map p_id (s_payments s))"
  shows "pay_spec\<^sup>*\<^sup>* s s'"
proof (cases "s' = s")
  case False
  then obtain i payment s1 corr rec s2 where lk: "lockPaymentRecord (rq_now rq) i s = (Some payment, s1)"
    and ap: "applyWebhookStatus rq event payment corr s1 = Inr (rec, s2)"
    and ins: "\<exists>row. insertTransaction row s2 = Inr s'"
    using assms(1)
    by (auto simp: webhook_transaction_def Let_def ebind_Inr insertWebhookTransaction_def
        prod_Inr [where x = "lockPaymentRecord a b c" for a b c]
        option_Inr [where x = "x1 :: payment_record option" for x1] split: if_splits option.splits) blast
  from lk obtain row where row: "t_find p_id i (s_payments s) = Some row" "payment = toPayment row"
    and s1: "s1 = touch (rq_now rq) i s" by (auto simp: lockPaymentRecord_eq)
  have pid: "pr_id payment = i" "p_id row = i" using t_find_Some [OF row(1)] by (simp_all add: row(2) toPayment_def)
  have base: "pays s s1" by (simp add: s1 pays_quiet)
  let ?close = "\<lambda>st. case corr of None \<Rightarrow> s1
          | Some a \<Rightarrow> if isOpenish (tr_status a) then closeAttempt (rq_now rq) (tr_id a) st s1 else s1"
  let ?revert = "\<lambda>s. if pr_status payment = PAY_PROCESSING
                      then markPaymentPending (rq_now rq) (pr_id payment) s else s"
  have reverted: "pays s (?revert (?close st))" for st
  proof (cases "p_status row = PAY_PROCESSING")
    case True
    have "pays s (setPaymentStatus PAY_PENDING (rq_now rq) i s1)"
      unfolding s1 by (rule pays_waiting [OF row(1)]) (simp_all add: True)
    moreover have "quiet (setPaymentStatus PAY_PENDING (rq_now rq) i s1) (setPaymentStatus PAY_PENDING (rq_now rq) i (?close st))"
    proof -
      have "setPaymentStatus PAY_PENDING (rq_now rq) i (closeAttempt (rq_now rq) j st s1) =
          closeAttempt (rq_now rq) j st (setPaymentStatus PAY_PENDING (rq_now rq) i s1)" for j
        by (simp add: setPaymentStatus_def closeAttempt_def)
      then show ?thesis by (simp split: option.split)
    qed
    ultimately show ?thesis
      using True pid by (simp add: row(2) toPayment_def markPaymentPending_def pays_trans [OF _ pays_quiet])
  next
    case False
    have "quiet s1 (?close st)" by (simp split: option.split)
    with False pays_trans [OF base pays_quiet] show ?thesis by (simp add: row(2) toPayment_def)
  qed
  have "pay_spec\<^sup>*\<^sup>* s s2"
  proof (cases "we_status event = WH_SUCCEEDED \<and> s2 \<noteq> s1")
    case True
    then obtain s4 where el: "isElectronicMethod (pr_method payment)"
      and s4: "postPaymentSucceeded rq payment (case corr of
           None \<Rightarrow> (if \<not> isPaymentExecutionTerminal (pr_status payment)
                     then markPaymentSucceeded (rq_now rq) (pr_id payment) s1 else s1)
         | Some a \<Rightarrow> if tr_status a \<noteq> TX_SUCCEEDED
             then closeAttempt (rq_now rq) (tr_id a) TX_SUCCEEDED (if \<not> isPaymentExecutionTerminal (pr_status payment)
                     then markPaymentSucceeded (rq_now rq) (pr_id payment) s1 else s1)
             else (if \<not> isPaymentExecutionTerminal (pr_status payment)
                     then markPaymentSucceeded (rq_now rq) (pr_id payment) s1 else s1)) = Inr s4"
      and s5: "ensureLateSuccessRefundIntent rq (pr_orderId payment) s4 = Inr s2"
      using ap by (auto simp: applyWebhookStatus_def Let_def ebind_Inr split: if_splits)
    show ?thesis
      by (rule money_arrives [OF row(1) _ refl _ s4 [unfolded row(2)] s5 fresh d,
          where t = "tr_id (the corr)" and st = TX_SUCCEEDED])
        (use el pid in \<open>auto simp: row(2) toPayment_def isElectronicMethod_def s1 markPaymentSucceeded_def
        isPaymentExecutionTerminal_def split: option.split\<close>)
  next
    case False
    then have "s2 = s1 \<or> (\<exists>st. s2 = ?revert (?close st))"
      using ap by (auto simp: applyWebhookStatus_def Let_def split: if_splits)
    with base reverted show ?thesis by (auto simp: pays_def)
  qed
  moreover from ins have "quiet s2 s'" using quiet_insert by blast
  ultimately show ?thesis by (meson pay_spec.quiet rtranclp.rtrancl_into_rtrancl)
qed simp

lemma handle_path:
  assumes "handleProviderWebhook prov rq name body sig s = (r, s')"
    and "rq_refundId rq \<notin> r_id ` set (s_refunds s)" and "payment_books s"
  shows "pay_spec\<^sup>*\<^sup>* s s'"
proof -
  have "s' = s \<or> (\<exists>event u. webhook_transaction prov rq event s = Inr (u, s'))"
    using assms(1) by (auto simp: handleProviderWebhook_def throw_def applyVerifiedWebhook_def atomically_def
        split: if_splits option.splits sum.splits)
  with webhook_path assms(2) payment_booksD(1) [OF assms(3)] show ?thesis by blast
qed

section \<open>Amounts out of range\<close>

lemma parseMinorUnits_large: "CATALOG_PRICE_MINOR_MAX < n \<Longrightarrow> parseMinorUnits (DbBig n) = JNaN"
  by simp

lemma large_owned:
  assumes p: "t_find p_orderId i (s_payments s) = Some p" and l: "CATALOG_PRICE_MINOR_MAX < p_amountMinor p"
    and o': "requireOwnedContext dir acc i s = Inr c"
  shows "oc_payment c = toPayment p \<and> pr_amountMinor (toPayment p) = JNaN"
  using o' p l by (auto simp: requireOwnedContext_def findOwnedPaymentContext_def toPayment_def split: option.splits)

lemma sum_Inl: "(\<And>x. r \<noteq> Inr x) \<Longrightarrow> \<exists>e. r = Inl e"
  by (cases r) auto

section \<open>Properties\<close>

text \<open>
  C24. An initiation always returns: with as much fuel as there are transaction rows,
  \<open>initiateCustomerPayment\<close> ends with a result or an error, whatever the provider answers, because
  every attempt the provider calls over is closed before the next one is looked for.
\<close>

theorem payment_initiation_terminates:
  "\<exists>r s'. initiateCustomerPayment (length (s_txs s)) prov dir rq acc i s = Some (r, s')"
proof -
  have "open_attempts s \<le> length (s_txs s)" by (simp add: open_attempts_def)
  from initiate_terminates [OF this, of prov dir rq acc i] show ?thesis by auto
qed

text \<open>
  C25. A payment above the catalogue's price cap cannot be read back as a number: its owner can
  neither see nor start it, whatever the provider, although a placed order can cost that much.
\<close>

theorem large_payment_stuck:
  assumes "distinct (map p_id (s_payments s))" and "t_find p_orderId i (s_payments s) = Some p"
    and "CATALOG_PRICE_MINOR_MAX < p_amountMinor p"
  shows "(\<exists>e. getCustomerPayment prov dir acc i s = Inl e) \<and>
    (\<exists>e. prepareInitiation prov dir rq acc i s = Inl e) \<and>
    (\<exists>input f. buildOrderFinancialSnapshot input = Inr f \<and>
       CATALOG_PRICE_MINOR_MAX < the_int (fa_customerPayableMinor f))"
proof (intro conjI)
  note own = large_owned [OF assms(2,3)]
  show "\<exists>e. getCustomerPayment prov dir acc i s = Inl e"
  proof (rule sum_Inl)
    fix x show "getCustomerPayment prov dir acc i s \<noteq> Inr x"
    proof
      assume "getCustomerPayment prov dir acc i s = Inr x"
      then obtain c where c: "requireOwnedContext dir acc i s = Inr c" "toCustomerView (oc_payment c) (pv_name prov) = Inr x"
        by (auto simp: getCustomerPayment_def ebind_Inr)
      from own [OF c(1)] have "pr_amountMinor (oc_payment c) = JNaN" by simp
      with c(2) show False by (simp add: toCustomerView_def)
    qed
  qed
  have "p \<in> set (s_payments s)" using t_find_Some [OF assms(2)] by blast
  from t_find_distinct [OF assms(1) this] have lk: "t_find p_id (p_id p) (s_payments s) = Some p" .
  show "\<exists>e. prepareInitiation prov dir rq acc i s = Inl e"
  proof (rule sum_Inl)
    fix x show "prepareInitiation prov dir rq acc i s \<noteq> Inr x"
    proof
      assume "prepareInitiation prov dir rq acc i s = Inr x"
      then obtain c q s1 where c: "requireOwnedContext dir acc i s = Inr c"
        "lockPaymentRecord (rq_now rq) (pr_id (oc_payment c)) s = (Some q, s1)"
        "assertInitiationEligibility q c = Inr ()"
        unfolding prepareInitiation_def
        by (auto simp: ebind_Inr emap_Inr prod_Inr [where x = "lockPaymentRecord a b c" for a b c]
            option_Inr [where x = "x1 :: payment_record option" for x1])
      from own [OF c(1)] have "oc_payment c = toPayment p" "pr_amountMinor (toPayment p) = JNaN" by blast+
      moreover from this(1) c(2) lk have "q = toPayment p" by (simp add: lockPaymentRecord_eq toPayment_def)
      ultimately show False using eligible [OF c(3)] by (simp add: amountsMatch_iff)
    qed
  qed
  show "\<exists>input f. buildOrderFinancialSnapshot input = Inr f \<and>
       CATALOG_PRICE_MINOR_MAX < the_int (fa_customerPayableMinor f)"
  proof (intro exI conjI)
    let ?i = "\<lparr>si_grossMerchandiseSubtotalMinor = JInt 10000000000, si_customerDeliveryFeeMinor = JInt 0,
      si_driverRemunerationMinor = JInt 0, si_merchantCommissionRateBps = JInt 0,
      si_commissionRuleId = ''c'', si_pricingRuleId = ''r'', si_merchantDiscountMinor = None,
      si_platformDiscountMinor = None\<rparr>"
    show "buildOrderFinancialSnapshot ?i = Inr (exact_snapshot ?i 10000000000 0 0 0 0 0)"
      by (rule snapshot_complete)
        (simp_all add: snapshot_args_def snapshot_bounds_def ORDER_EXPECTED_MINOR_MAX_def
          CATALOG_PRICE_MINOR_MAX_def CART_QUANTITY_MAX_def MAX_SAFE_INTEGER_def)
    show "CATALOG_PRICE_MINOR_MAX < the_int (fa_customerPayableMinor (exact_snapshot ?i 10000000000 0 0 0 0 0))"
      by (simp add: exact_snapshot_def CATALOG_PRICE_MINOR_MAX_def)
  qed
qed

definition example_provider :: provider where
  "example_provider = \<lparr>pv_name = ''test'', pv_verifyWebhook = (\<lambda>_ sig. sig = Some ''ok''),
     pv_parseWebhook = (\<lambda>body. Inr \<lparr>we_eventId = body, we_providerReference = ''ref-1'',
        we_status = WH_SUCCEEDED, we_amountMinor = JInt 900, we_currency = ''DZD''\<rparr>),
     pv_createPayment = (\<lambda>_ _. Inr \<lparr>ps_providerReference = ''ref-1'', ps_checkoutUrl = ''https://pay''\<rparr>),
     pv_queryPayment = (\<lambda>_. Inr None)\<rparr>"

definition example_request :: "instant \<Rightarrow> string \<Rightarrow> request" where
  "example_request now i = \<lparr>rq_now = now, rq_txId = i, rq_ledgerId = i, rq_refundId = i\<rparr>"

theorem large_payment_stuck_witness:
  "\<exists>e. getCustomerPayment example_provider example_directory ''acc'' ''order-1''
     (example_shop\<lparr>s_payments := [example_payment\<lparr>p_amountMinor := 20000000000\<rparr>]\<rparr>) = Inl e"
proof -
  let ?s = "example_shop\<lparr>s_payments := [example_payment\<lparr>p_amountMinor := 20000000000\<rparr>]\<rparr>"
  have "distinct (map p_id (s_payments ?s))" by simp
  moreover have "t_find p_orderId ''order-1'' (s_payments ?s) = Some (example_payment\<lparr>p_amountMinor := 20000000000\<rparr>)"
    by (simp add: t_find_def example_payment_def)
  ultimately show ?thesis
    using large_payment_stuck [of ?s "''order-1''"] by (simp add: CATALOG_PRICE_MINOR_MAX_def)
qed

end
