(* ===== verification/Settlement.thy ===== *)
theory Settlement
  imports Shop
begin

text \<open>
  Merchant settlements: \<open>modules/merchant-settlements/application/merchant-settlement.service.ts\<close> and
  \<open>infrastructure/merchant-settlement.repository.ts\<close>. An administrator opens a draft for a period,
  fills it with a SALE line per completed order and with adjustments for refunds the merchant has to
  bear, and finalizes it, which books what the merchant is owed. The advisory lock per merchant makes
  the transactions on one merchant run one after the other; fresh ids are arguments.
\<close>

section \<open>Repository\<close>

definition toSettlement :: "settlement_row \<Rightarrow> app_error + settlement_row" where
  "toSettlement row =
     ebind (readMinor False (ms_grossSalesMinor row)) (\<lambda>gross.
     ebind (readMinor False (ms_commissionMinor row)) (\<lambda>commission.
     ebind (readMinor True (ms_refundAdjustmentsMinor row)) (\<lambda>refunds.
     ebind (readMinor True (ms_manualAdjustmentsMinor row)) (\<lambda>manual.
     ebind (readMinor True (ms_netPayableMinor row)) (\<lambda>net.
     Inr (row\<lparr>ms_grossSalesMinor := gross, ms_commissionMinor := commission,
       ms_refundAdjustmentsMinor := refunds, ms_manualAdjustmentsMinor := manual,
       ms_netPayableMinor := net\<rparr>))))))"

definition toLine :: "settlement_line \<Rightarrow> app_error + settlement_line" where
  "toLine row =
     ebind (readMinor False (ml_grossMerchandiseMinor row)) (\<lambda>gross.
     ebind (readMinor False (ml_commissionMinor row)) (\<lambda>commission.
     ebind (readMinor False (ml_merchantNetMinor row)) (\<lambda>net.
     ebind (readMinor True (ml_adjustmentMinor row)) (\<lambda>adjustment.
     Inr (row\<lparr>ml_grossMerchandiseMinor := gross, ml_commissionMinor := commission,
       ml_merchantNetMinor := net, ml_adjustmentMinor := adjustment\<rparr>)))))"

text \<open>\<open>rows.map(f)\<close> where \<open>f\<close> may throw, and the first row of a query.\<close>

fun map_rows :: "('r \<Rightarrow> 'e + 'a) \<Rightarrow> 'r list \<Rightarrow> 'e + 'a list" where
  "map_rows f [] = Inr []"
| "map_rows f (r # rs) = ebind (f r) (\<lambda>x. ebind (map_rows f rs) (\<lambda>xs. Inr (x # xs)))"

definition first_row :: "('r \<Rightarrow> 'e + 'a) \<Rightarrow> 'r list \<Rightarrow> 'e + 'a option" where
  "first_row f rows = (case rows of [] \<Rightarrow> Inr None | r # _ \<Rightarrow> ebind (f r) (\<lambda>x. Inr (Some x)))"

definition findSettlementById :: "string \<Rightarrow> shop \<Rightarrow> app_error + settlement_row option" where
  "findSettlementById settlementId s =
     first_row toSettlement (filter (\<lambda>m. ms_id m = settlementId) (s_settlements s))"

definition findOpenDraft :: "string \<Rightarrow> shop \<Rightarrow> app_error + settlement_row option" where
  "findOpenDraft merchantId s =
     first_row toSettlement
       (filter (\<lambda>m. ms_merchantId m = merchantId \<and> ms_status m = SETTLEMENT_DRAFT) (s_settlements s))"

definition listByMerchant :: "string \<Rightarrow> shop \<Rightarrow> app_error + settlement_row list" where
  "listByMerchant merchantId s =
     ebind (map_rows toSettlement (filter (\<lambda>m. ms_merchantId m = merchantId) (s_settlements s)))
       (\<lambda>rows. Inr (sort_key (\<lambda>m. - ms_periodStart m) rows))"

definition createDraft ::
  "instant \<Rightarrow> string \<Rightarrow> string \<Rightarrow> instant \<Rightarrow> instant \<Rightarrow> shop \<Rightarrow> app_error + settlement_row \<times> shop" where
  "createDraft now newId merchantId periodStart periodEnd s =
     (if newId \<in> ms_id ` set (s_settlements s) then Inl UniqueViolationE
      else let row = \<lparr>ms_id = newId, ms_merchantId = merchantId, ms_periodStart = periodStart,
               ms_periodEnd = periodEnd, ms_grossSalesMinor = 0, ms_commissionMinor = 0,
               ms_refundAdjustmentsMinor = 0, ms_manualAdjustmentsMinor = 0, ms_netPayableMinor = 0,
               ms_status = SETTLEMENT_DRAFT, ms_paidAt = None, ms_createdAt = now\<rparr>
           in ebind (toSettlement row) (\<lambda>r. Inr (r, s\<lparr>s_settlements := s_settlements s @ [row]\<rparr>)))"

definition with_totals :: "settlement_totals \<Rightarrow> settlement_row \<Rightarrow> settlement_row" where
  "with_totals t m = m\<lparr>ms_grossSalesMinor := st_grossSalesMinor t, ms_commissionMinor := st_commissionMinor t,
     ms_refundAdjustmentsMinor := st_refundAdjustmentsMinor t,
     ms_manualAdjustmentsMinor := st_manualAdjustmentsMinor t, ms_netPayableMinor := st_netPayableMinor t\<rparr>"

definition updateDraftTotals :: "string \<Rightarrow> settlement_totals \<Rightarrow> shop \<Rightarrow> shop" where
  "updateDraftTotals settlementId totals s =
     s\<lparr>s_settlements := t_update (\<lambda>m. ms_id m = settlementId \<and> ms_status m = SETTLEMENT_DRAFT)
         (with_totals totals) (s_settlements s)\<rparr>"

definition finalizeRow ::
  "string \<Rightarrow> settlement_totals \<Rightarrow> shop \<Rightarrow> app_error + settlement_row option \<times> shop" where
  "finalizeRow settlementId totals s =
     (let s' = s\<lparr>s_settlements := t_update (\<lambda>m. ms_id m = settlementId \<and> ms_status m = SETTLEMENT_DRAFT)
                (\<lambda>m. (with_totals totals m)\<lparr>ms_status := SETTLEMENT_FINALIZED\<rparr>) (s_settlements s)\<rparr>
      in ebind (findSettlementById settlementId s') (\<lambda>row. Inr (row, s')))"

definition listLines :: "string \<Rightarrow> shop \<Rightarrow> app_error + settlement_line list" where
  "listLines settlementId s =
     ebind (map_rows toLine (filter (\<lambda>l. ml_settlementId l = settlementId) (s_settlementLines s)))
       (\<lambda>rows. Inr (sort_key ml_createdAt rows))"

definition findSaleLineByOrderId :: "string \<Rightarrow> shop \<Rightarrow> app_error + settlement_line option" where
  "findSaleLineByOrderId orderId s =
     first_row toLine (filter (\<lambda>l. ml_orderId l = Some orderId \<and> ml_type l = SALE) (s_settlementLines s))"

definition findRefundAdjustmentByRefundId :: "string \<Rightarrow> shop \<Rightarrow> app_error + settlement_line option" where
  "findRefundAdjustmentByRefundId refundId s =
     first_row toLine
       (filter (\<lambda>l. ml_type l = REFUND_ADJUSTMENT \<and> ml_reference l = Some refundId) (s_settlementLines s))"

text \<open>The table refuses a repeated id, a negative gross amount and a negative commission.\<close>

definition createLine ::
  "instant \<Rightarrow> string \<Rightarrow> string \<Rightarrow> string \<Rightarrow> settlement_line_type \<Rightarrow> line_amounts \<Rightarrow> string option \<Rightarrow> shop \<Rightarrow>
   app_error + settlement_line \<times> shop" where
  "createLine now newId settlementId orderId ty amounts reference s =
     (if newId \<in> ml_id ` set (s_settlementLines s) then Inl UniqueViolationE
      else if la_grossMerchandiseMinor amounts < 0 \<or> la_commissionMinor amounts < 0 then Inl InternalE
      else let row = \<lparr>ml_id = newId, ml_settlementId = settlementId, ml_orderId = Some orderId, ml_type = ty,
               ml_grossMerchandiseMinor = la_grossMerchandiseMinor amounts,
               ml_commissionMinor = la_commissionMinor amounts,
               ml_merchantNetMinor = la_merchantNetMinor amounts,
               ml_adjustmentMinor = la_adjustmentMinor amounts, ml_reference = reference,
               ml_createdAt = now\<rparr>
           in ebind (toLine row) (\<lambda>l. Inr (l, s\<lparr>s_settlementLines := s_settlementLines s @ [row]\<rparr>)))"

record sale_order =
  so_orderId :: string
  so_completedAt :: "instant option"
  so_grossMerchandiseSubtotalMinor :: int
  so_merchantCommissionAmountMinor :: int
  so_merchantNetAmountMinor :: int
  so_paymentStatus :: payment_status
  so_orderStatus :: order_status

text \<open>The SQL join of the completed, paid orders of a merchant that no SALE line settles yet.\<close>

definition completed_in :: "instant \<Rightarrow> instant \<Rightarrow> order_row \<Rightarrow> bool" where
  "completed_in periodStart periodEnd o' \<longleftrightarrow> o_status o' = O_COMPLETED \<and>
     (case o_completedAt o' of None \<Rightarrow> False | Some t \<Rightarrow> periodStart \<le> t \<and> t < periodEnd)"

definition joinedSales :: "directory \<Rightarrow> string \<Rightarrow> instant \<Rightarrow> instant \<Rightarrow> shop \<Rightarrow>
    (order_row \<times> payment_row \<times> snapshot_row) list" where
  "joinedSales dir merchantId periodStart periodEnd s =
     [(o', p, sn). o' \<leftarrow> sort_key (\<lambda>o'. case o_completedAt o' of None \<Rightarrow> 0 | Some t \<Rightarrow> t) (s_orders s),
        dir_merchantOfBranch dir (o_merchantBranchId o') = Some merchantId,
        completed_in periodStart periodEnd o',
        \<not> list_ex (\<lambda>l. ml_orderId l = Some (o_id o') \<and> ml_type l = SALE) (s_settlementLines s),
        p \<leftarrow> s_payments s, p_orderId p = o_id o', p_status p = PAY_SUCCEEDED,
        sn \<leftarrow> s_snapshots s, sn_orderId sn = o_id o']"

definition saleOrder :: "order_row \<Rightarrow> payment_row \<Rightarrow> snapshot_row \<Rightarrow> app_error + sale_order" where
  "saleOrder o' p sn =
     ebind (readMinor False (sn_grossMerchandiseSubtotalMinor sn)) (\<lambda>gross.
     ebind (readMinor False (sn_merchantCommissionAmountMinor sn)) (\<lambda>commission.
     ebind (readMinor False (sn_merchantNetAmountMinor sn)) (\<lambda>net.
     Inr \<lparr>so_orderId = o_id o', so_completedAt = o_completedAt o',
          so_grossMerchandiseSubtotalMinor = gross, so_merchantCommissionAmountMinor = commission,
          so_merchantNetAmountMinor = net, so_paymentStatus = p_status p, so_orderStatus = o_status o'\<rparr>)))"

definition findEligibleSaleOrders ::
  "directory \<Rightarrow> string \<Rightarrow> instant \<Rightarrow> instant \<Rightarrow> shop \<Rightarrow> app_error + sale_order list" where
  "findEligibleSaleOrders dir merchantId periodStart periodEnd s =
     map_rows (\<lambda>(o', p, sn). saleOrder o' p sn) (joinedSales dir merchantId periodStart periodEnd s)"

definition findOrderSettlementContext ::
  "directory \<Rightarrow> string \<Rightarrow> shop \<Rightarrow> app_error + (string \<times> sale_order) option" where
  "findOrderSettlementContext dir orderId s =
     (case t_find o_id orderId (s_orders s) of
        None \<Rightarrow> Inr None
      | Some order \<Rightarrow>
          (case dir_merchantOfBranch dir (o_merchantBranchId order) of
             None \<Rightarrow> Inr None
           | Some merchantId \<Rightarrow>
               (case (t_find p_orderId orderId (s_payments s), t_find sn_orderId orderId (s_snapshots s)) of
                  (Some payment, Some snapshot) \<Rightarrow>
                    ebind (saleOrder order payment snapshot) (\<lambda>c. Inr (Some (merchantId, c)))
                | _ \<Rightarrow> Inr None)))"

record refund_settlement_context =
  rs_refundId :: string
  rs_orderId :: string
  rs_status :: refund_status
  rs_amountMinor :: int
  rs_completedAt :: "instant option"
  rs_merchantId :: string

definition findRefundSettlementContext ::
  "directory \<Rightarrow> string \<Rightarrow> shop \<Rightarrow> app_error + refund_settlement_context option" where
  "findRefundSettlementContext dir refundId s =
     (case t_find r_id refundId (s_refunds s) of
        None \<Rightarrow> Inr None
      | Some refund \<Rightarrow>
          ebind (findOrderSettlementContext dir (r_orderId refund) s) (\<lambda>ctx.
            case ctx of
              None \<Rightarrow> Inr None
            | Some (merchantId, _) \<Rightarrow>
                ebind (readMinor False (r_amountMinor refund)) (\<lambda>amount.
                Inr (Some \<lparr>rs_refundId = r_id refund, rs_orderId = r_orderId refund,
                  rs_status = r_status refund, rs_amountMinor = amount,
                  rs_completedAt = r_completedAt refund, rs_merchantId = merchantId\<rparr>))))"

section \<open>Service\<close>

definition requireSettlementAdmin :: "directory \<Rightarrow> string \<Rightarrow> app_error + unit" where
  "requireSettlementAdmin dir adminId =
     (if \<not> dir_isAdmin dir adminId then Inl (SettlementE MERCHANT_SETTLEMENT_ADMIN_REQUIRED) else Inr ())"

definition openDraftInTx ::
  "directory \<Rightarrow> instant \<Rightarrow> string \<Rightarrow> string \<Rightarrow> stamp \<Rightarrow> stamp \<Rightarrow> string \<Rightarrow> shop \<Rightarrow>
   app_error + settlement_row \<times> shop" where
  "openDraftInTx dir now newId merchantId periodStart periodEnd adminId s =
     ebind (requireSettlementAdmin dir adminId) (\<lambda>_.
     ebind (emap SettlementE (requireValidSettlementPeriod periodStart periodEnd)) (\<lambda>(a, b).
     if \<not> dir_merchantExists dir merchantId then Inl (SettlementE MERCHANT_SETTLEMENT_NOT_FOUND)
     else ebind (findOpenDraft merchantId s) (\<lambda>existing.
       if existing \<noteq> None then Inl (SettlementE MERCHANT_SETTLEMENT_DRAFT_EXISTS)
       else createDraft now newId merchantId a b s)))"

text \<open>A draft by its id; only a draft may be changed.\<close>

definition requireDraft :: "string \<Rightarrow> shop \<Rightarrow> app_error + settlement_row" where
  "requireDraft settlementId s =
     ebind (findSettlementById settlementId s) (\<lambda>found.
       case found of
         None \<Rightarrow> Inl (SettlementE MERCHANT_SETTLEMENT_NOT_FOUND)
       | Some settlement \<Rightarrow>
           ebind (emap SettlementE (requireDraftStatus (ms_status settlement))) (\<lambda>_. Inr settlement))"

definition refreshDraftTotals :: "string \<Rightarrow> shop \<Rightarrow> app_error + shop" where
  "refreshDraftTotals settlementId s =
     ebind (listLines settlementId s) (\<lambda>ls.
     Inr (updateDraftTotals settlementId (deriveSettlementTotals ls) s))"

definition saleEligible :: "sale_order \<Rightarrow> bool" where
  "saleEligible c = isSaleEligibleOrder (so_orderStatus c) (so_paymentStatus c) (so_completedAt c)"

definition createSaleLine ::
  "instant \<Rightarrow> string \<Rightarrow> string \<Rightarrow> string \<Rightarrow> sale_order \<Rightarrow> shop \<Rightarrow> app_error + settlement_line \<times> shop" where
  "createSaleLine now newId settlementId orderId c s =
     ebind (emap SettlementE (buildSaleLineAmounts (so_grossMerchandiseSubtotalMinor c)
              (so_merchantCommissionAmountMinor c) (so_merchantNetAmountMinor c))) (\<lambda>amounts.
     createLine now newId settlementId orderId SALE amounts None s)"

definition addSaleLine ::
  "instant \<Rightarrow> (string \<Rightarrow> string) \<Rightarrow> string \<Rightarrow> int \<times> shop \<Rightarrow> sale_order \<Rightarrow> app_error + int \<times> shop" where
  "addSaleLine now newIds settlementId acc c =
     (case acc of (added, s) \<Rightarrow>
        if \<not> saleEligible c then Inr (added, s)
        else ebind (findSaleLineByOrderId (so_orderId c) s) (\<lambda>existing.
          if existing \<noteq> None then Inr (added, s)
          else ebind (createSaleLine now (newIds (so_orderId c)) settlementId (so_orderId c) c s)
                 (\<lambda>(_, s'). Inr (added + 1, s'))))"

definition buildSaleLinesInTx ::
  "directory \<Rightarrow> instant \<Rightarrow> (string \<Rightarrow> string) \<Rightarrow> string \<Rightarrow> string \<Rightarrow> shop \<Rightarrow> app_error + int \<times> shop" where
  "buildSaleLinesInTx dir now newIds settlementId adminId s =
     ebind (requireSettlementAdmin dir adminId) (\<lambda>_.
     ebind (requireDraft settlementId s) (\<lambda>settlement.
     ebind (findEligibleSaleOrders dir (ms_merchantId settlement) (ms_periodStart settlement)
              (ms_periodEnd settlement) s) (\<lambda>eligible.
     ebind (efold (addSaleLine now newIds (ms_id settlement)) (0, s) eligible) (\<lambda>(added, s1).
     if 0 < added then ebind (refreshDraftTotals (ms_id settlement) s1) (\<lambda>s2. Inr (added, s2))
     else Inr (added, s1)))))"

text \<open>The SALE line an adjustment refers to; a missing one is added to the same draft.\<close>

definition ensureSaleLine ::
  "directory \<Rightarrow> instant \<Rightarrow> string \<Rightarrow> settlement_row \<Rightarrow> string \<Rightarrow> shop \<Rightarrow> app_error + shop" where
  "ensureSaleLine dir now newId settlement orderId s =
     ebind (findSaleLineByOrderId orderId s) (\<lambda>sale.
       if sale \<noteq> None then Inr s
       else ebind (findOrderSettlementContext dir orderId s) (\<lambda>ctx.
         case ctx of
           None \<Rightarrow> Inl (SettlementE MERCHANT_SETTLEMENT_SALE_REQUIRED)
         | Some (merchantId, c) \<Rightarrow>
             if \<not> saleEligible c then Inl (SettlementE MERCHANT_SETTLEMENT_SALE_REQUIRED)
             else if merchantId \<noteq> ms_merchantId settlement
             then Inl (SettlementE MERCHANT_SETTLEMENT_MERCHANT_MISMATCH)
             else ebind (createSaleLine now newId (ms_id settlement) orderId c s) (\<lambda>(_, s'). Inr s')))"

definition refundInPeriod :: "settlement_row \<Rightarrow> refund_settlement_context \<Rightarrow> bool" where
  "refundInPeriod settlement refund =
     (case rs_completedAt refund of
        None \<Rightarrow> False
      | Some t \<Rightarrow> isInstantInSettlementPeriod t (ms_periodStart settlement) (ms_periodEnd settlement))"

definition attachRefundAdjustmentInTx ::
  "directory \<Rightarrow> instant \<Rightarrow> string \<Rightarrow> string \<Rightarrow> string \<Rightarrow> string \<Rightarrow> jsnum \<Rightarrow> string \<Rightarrow> shop \<Rightarrow>
   app_error + settlement_line option \<times> shop" where
  "attachRefundAdjustmentInTx dir now saleId newId settlementId refundId merchantLiability adminId s =
     ebind (requireSettlementAdmin dir adminId) (\<lambda>_.
     ebind (requireDraft settlementId s) (\<lambda>settlement.
     ebind (findRefundSettlementContext dir refundId s) (\<lambda>found.
     case found of
       None \<Rightarrow> Inl (SettlementE MERCHANT_SETTLEMENT_REFUND_NOT_ELIGIBLE)
     | Some refund \<Rightarrow>
         if rs_merchantId refund \<noteq> ms_merchantId settlement
         then Inl (SettlementE MERCHANT_SETTLEMENT_MERCHANT_MISMATCH)
         else if \<not> isRefundEligibleForAdjustment (rs_status refund) (rs_completedAt refund)
         then Inl (SettlementE MERCHANT_SETTLEMENT_REFUND_NOT_ELIGIBLE)
         else if \<not> refundInPeriod settlement refund
         then Inl (SettlementE MERCHANT_SETTLEMENT_REFUND_NOT_ELIGIBLE)
         else ebind (emap SettlementE (requireMerchantLiabilityMinor merchantLiability (rs_amountMinor refund)))
           (\<lambda>liability.
           if liability = 0 then Inr (None, s)
           else ebind (findRefundAdjustmentByRefundId (rs_refundId refund) s) (\<lambda>existing.
             if existing \<noteq> None then Inl (SettlementE MERCHANT_SETTLEMENT_REFUND_ADJUSTMENT_EXISTS)
             else ebind (ensureSaleLine dir now saleId settlement (rs_orderId refund) s) (\<lambda>s1.
               ebind (createLine now newId (ms_id settlement) (rs_orderId refund) REFUND_ADJUSTMENT
                        (buildRefundAdjustmentAmounts liability) (Some (rs_refundId refund)) s1) (\<lambda>(line, s2).
               ebind (refreshDraftTotals (ms_id settlement) s2) (\<lambda>s3. Inr (Some line, s3)))))))))"

definition postFinalized :: "instant \<Rightarrow> string \<Rightarrow> settlement_row \<Rightarrow> shop \<Rightarrow> app_error + settlement_row \<times> shop" where
  "postFinalized now ledgerId row s =
     ebind (in_ledger (postMerchantSettlementFinalized ledgerId now (ms_id row) (ms_merchantId row)
              (BigMinor (ms_netPayableMinor row))) s) (\<lambda>s'. Inr (row, s'))"

text \<open>The draft under the merchant's lock: derive, write and book what it is worth.\<close>

definition finalizeDraft :: "instant \<Rightarrow> string \<Rightarrow> string \<Rightarrow> shop \<Rightarrow> app_error + settlement_row \<times> shop" where
  "finalizeDraft now ledgerId settlementId s =
     ebind (listLines settlementId s) (\<lambda>ls.
     let totals = deriveSettlementTotals ls
     in if st_grossSalesMinor totals < 0 \<or> st_commissionMinor totals < 0
        then Inl (SettlementE MERCHANT_SETTLEMENT_FINANCIAL_STATE_INVALID)
        else ebind (finalizeRow settlementId totals s) (\<lambda>(finalized, s1).
          case finalized of
            None \<Rightarrow> Inl (SettlementE MERCHANT_SETTLEMENT_INVALID_STATE)
          | Some row \<Rightarrow>
              if ms_status row \<noteq> SETTLEMENT_FINALIZED
              then Inl (SettlementE MERCHANT_SETTLEMENT_INVALID_STATE)
              else postFinalized now ledgerId row s1))"

definition finalizeInTx ::
  "directory \<Rightarrow> instant \<Rightarrow> string \<Rightarrow> string \<Rightarrow> string \<Rightarrow> shop \<Rightarrow> app_error + settlement_row \<times> shop" where
  "finalizeInTx dir now ledgerId settlementId adminId s =
     ebind (requireSettlementAdmin dir adminId) (\<lambda>_.
     ebind (findSettlementById settlementId s) (\<lambda>found.
     case found of
       None \<Rightarrow> Inl (SettlementE MERCHANT_SETTLEMENT_NOT_FOUND)
     | Some current \<Rightarrow>
         if ms_status current = SETTLEMENT_FINALIZED then postFinalized now ledgerId current s
         else ebind (emap SettlementE (requireDraftStatus (ms_status current))) (\<lambda>_.
              ebind (findSettlementById settlementId s) (\<lambda>again.
              case again of
                None \<Rightarrow> Inl (SettlementE MERCHANT_SETTLEMENT_NOT_FOUND)
              | Some fresh \<Rightarrow>
                  if ms_status fresh = SETTLEMENT_FINALIZED then postFinalized now ledgerId fresh s
                  else ebind (emap SettlementE (requireDraftStatus (ms_status fresh))) (\<lambda>_.
                       finalizeDraft now ledgerId settlementId s)))))"

section \<open>The merchant's view\<close>

record settlement_view =
  sw_settlementId :: string
  sw_status :: settlement_status
  sw_grossSalesMinor :: string
  sw_commissionMinor :: string
  sw_refundAdjustmentTotalMinor :: string
  sw_netPayableMinor :: string

definition bigMinorString :: "int \<Rightarrow> app_error + string" where
  "bigMinorString n = emap (\<lambda>_. InternalE) (moneyMinorToDecimalString (MBig n))"

definition toSummaryView :: "settlement_row \<Rightarrow> app_error + settlement_view" where
  "toSummaryView row =
     ebind (bigMinorString (ms_grossSalesMinor row)) (\<lambda>gross.
     ebind (bigMinorString (ms_commissionMinor row)) (\<lambda>commission.
     ebind (bigMinorString (ms_refundAdjustmentsMinor row)) (\<lambda>refunds.
     ebind (bigMinorString (ms_netPayableMinor row)) (\<lambda>net.
     Inr \<lparr>sw_settlementId = ms_id row, sw_status = ms_status row, sw_grossSalesMinor = gross,
          sw_commissionMinor = commission, sw_refundAdjustmentTotalMinor = refunds,
          sw_netPayableMinor = net\<rparr>))))"

record line_view =
  lw_lineId :: string
  lw_type :: settlement_line_type
  lw_orderId :: "string option"
  lw_refundId :: "string option"
  lw_grossMerchandiseMinor :: string
  lw_commissionMinor :: string
  lw_merchantNetMinor :: string
  lw_adjustmentMinor :: string

definition toLineView :: "settlement_line \<Rightarrow> app_error + line_view" where
  "toLineView row =
     ebind (bigMinorString (ml_grossMerchandiseMinor row)) (\<lambda>gross.
     ebind (bigMinorString (ml_commissionMinor row)) (\<lambda>commission.
     ebind (bigMinorString (ml_merchantNetMinor row)) (\<lambda>net.
     ebind (bigMinorString (ml_adjustmentMinor row)) (\<lambda>adjustment.
     Inr \<lparr>lw_lineId = ml_id row, lw_type = ml_type row, lw_orderId = ml_orderId row,
          lw_refundId = (if ml_type row = REFUND_ADJUSTMENT then ml_reference row else None),
          lw_grossMerchandiseMinor = gross, lw_commissionMinor = commission,
          lw_merchantNetMinor = net, lw_adjustmentMinor = adjustment\<rparr>))))"

definition requireSettlementRead :: "directory \<Rightarrow> string \<Rightarrow> string \<Rightarrow> app_error + unit" where
  "requireSettlementRead dir accountId merchantId =
     (if dir_canReadSettlements dir accountId merchantId then Inr () else Inl MerchantAccessE)"

definition listMerchantSettlements ::
  "directory \<Rightarrow> string \<Rightarrow> string \<Rightarrow> shop \<Rightarrow> app_error + settlement_view list" where
  "listMerchantSettlements dir accountId merchantId s =
     ebind (requireSettlementRead dir accountId merchantId) (\<lambda>_.
     ebind (listByMerchant merchantId s) (map_rows toSummaryView))"

definition getMerchantSettlement ::
  "directory \<Rightarrow> string \<Rightarrow> string \<Rightarrow> string \<Rightarrow> shop \<Rightarrow> app_error + settlement_view \<times> line_view list" where
  "getMerchantSettlement dir accountId merchantId settlementId s =
     ebind (requireSettlementRead dir accountId merchantId) (\<lambda>_.
     ebind (findSettlementById settlementId s) (\<lambda>found.
     case found of
       None \<Rightarrow> Inl (SettlementE MERCHANT_SETTLEMENT_NOT_FOUND)
     | Some settlement \<Rightarrow>
         if ms_merchantId settlement \<noteq> merchantId then Inl (SettlementE MERCHANT_SETTLEMENT_NOT_FOUND)
         else ebind (listLines settlementId s) (\<lambda>ls.
           ebind (toSummaryView settlement) (\<lambda>v.
           ebind (map_rows toLineView ls) (\<lambda>vs. Inr (v, vs))))))"

end
