(* ===== verification/Bookkeeping.thy ===== *)
theory Bookkeeping
  imports Shop "HOL-Library.Multiset"
begin

text \<open>
  What the ledger is for: \<open>shop_events\<close> reads off the tables every business event the platform must
  have booked, and \<open>balanced\<close> says that the ledger holds exactly one entry for each of them and no
  other entry. The lemmas say how one posting moves a balanced shop.
\<close>

section \<open>The events the tables stand for\<close>

definition payment_events :: "shop \<Rightarrow> ledger_event list" where
  "payment_events s = map (\<lambda>p. EvPayment (p_id p) (p_orderId p) (p_amountMinor p))
     (filter (\<lambda>p. p_method p = PAYMENT_METHOD_ELECTRONIC \<and> p_status p = PAY_SUCCEEDED) (s_payments s))"

definition collection_events :: "shop \<Rightarrow> ledger_event list" where
  "collection_events s = map (\<lambda>c. EvCollection (co_collectionId c) (co_orderId c) (co_driverId c)
     (co_collectedAmountMinor c)) (s_collections s)"

definition remittance_events :: "shop \<Rightarrow> ledger_event list" where
  "remittance_events s = map (\<lambda>r. EvRemittance (rm_id r) (rm_driverId r) (rm_confirmedAmountMinor r))
     (filter (\<lambda>r. rm_status r = CONFIRMED) (s_remittances s))"

definition order_of_delivery :: "shop \<Rightarrow> string \<Rightarrow> string" where
  "order_of_delivery s i = (case t_find d_id i (s_deliveries s) of None \<Rightarrow> [] | Some d \<Rightarrow> d_orderId d)"

definition earning_events :: "shop \<Rightarrow> ledger_event list" where
  "earning_events s = map (\<lambda>e. EvEarning (e_id e) (order_of_delivery s (e_deliveryId e)) (e_driverId e)
     (e_netEarningMinor e)) (s_earnings s)"

definition settlement_events :: "shop \<Rightarrow> ledger_event list" where
  "settlement_events s = map (\<lambda>m. EvSettlement (ms_id m) (ms_merchantId m) (ms_netPayableMinor m))
     (filter (\<lambda>m. ms_status m = SETTLEMENT_FINALIZED) (s_settlements s))"

definition refund_events :: "shop \<Rightarrow> ledger_event list" where
  "refund_events s = map (\<lambda>r. EvRefund (r_id r) (r_orderId r) (r_amountMinor r))
     (filter (\<lambda>r. r_status r = REFUNDED) (s_refunds s))"

definition shop_events :: "shop \<Rightarrow> ledger_event multiset" where
  "shop_events s = mset (payment_events s) + mset (collection_events s) + mset (remittance_events s)
     + mset (earning_events s) + mset (settlement_events s) + mset (refund_events s)"

lemmas shop_event_defs = payment_events_def collection_events_def remittance_events_def
  earning_events_def settlement_events_def refund_events_def

definition balanced :: "shop \<Rightarrow> bool" where
  "balanced s \<longleftrightarrow> (\<exists>evs. ledger_inv evs (s_ledger s) \<and> mset evs = shop_events s)"

section \<open>Postings\<close>

lemma books_reference: "books ev e \<Longrightarrow> le_reference e = event_reference ev"
  by (simp add: books_def)

lemma balanced_reference:
  assumes "ledger_inv evs es"
  shows "r \<in> set (map le_reference es) \<longleftrightarrow> r \<in> event_reference ` set evs"
  using event_reference_source [OF assms] by (metis list.set_map)

lemma balanced_same:
  assumes "balanced s" "s_ledger s' = s_ledger s" "shop_events s' = shop_events s"
  shows "balanced s'"
  using assms by (simp add: balanced_def)

lemma balanced_new:
  assumes b: "balanced s" and p: "post_ledger_event newId now ev (s_ledger s) = Inr (e, s_ledger s')"
    and e: "shop_events s' = add_mset ev (shop_events s)"
    and new: "event_reference ev \<notin> event_reference ` set_mset (shop_events s)"
  shows "balanced s'"
proof -
  obtain evs where evs: "ledger_inv evs (s_ledger s)" "mset evs = shop_events s" using b by (auto simp: balanced_def)
  from evs(2) have "set evs = set_mset (shop_events s)" by (metis set_mset_mset)
  with new balanced_reference [OF evs(1)] have "event_reference ev \<notin> set (map le_reference (s_ledger s))" by simp
  with post_ledger_event_cases [OF p] have "s_ledger s' = s_ledger s @ [e]" "books ev e"
    "le_reference e \<notin> set (map le_reference (s_ledger s))" by auto
  moreover from this evs(1) have "list_all2 books (evs @ [ev]) (s_ledger s @ [e])"
    unfolding ledger_inv_def by (intro list_all2_appendI) simp_all
  ultimately have "ledger_inv (evs @ [ev]) (s_ledger s')" using evs(1) by (simp add: ledger_inv_def)
  moreover have "mset (evs @ [ev]) = shop_events s'" using evs(2) e by simp
  ultimately show ?thesis unfolding balanced_def by blast
qed

text \<open>Posting again an event that is already booked changes nothing.\<close>

lemma posting_known:
  assumes b: "balanced s" and p: "post_ledger_event newId now ev (s_ledger s) = Inr (e, es)"
    and old: "event_reference ev \<in> event_reference ` set_mset (shop_events s)"
  shows "es = s_ledger s"
proof -
  obtain evs where evs: "ledger_inv evs (s_ledger s)" "mset evs = shop_events s" using b by (auto simp: balanced_def)
  from evs(2) have "set evs = set_mset (shop_events s)" by (metis set_mset_mset)
  with old balanced_reference [OF evs(1)] have "event_reference ev \<in> set (map le_reference (s_ledger s))" by simp
  with post_ledger_event_cases [OF p] show ?thesis by auto
qed

section \<open>References\<close>

lemma event_reference_inj: "event_reference x = event_reference y \<longleftrightarrow> event_source x = event_source y"
proof
  assume e: "event_reference x = event_reference y"
  let ?f = "takeWhile (\<lambda>c. c \<noteq> CHR '':'')"
  have f: "?f (event_reference z) = source_name (fst (event_source z))" for z
    by (simp add: event_reference_def takeWhile_before source_name_no_colon)
  have "source_name (fst (event_source x)) = source_name (fst (event_source y))" using f e by metis
  then have "fst (event_source x) = fst (event_source y)" using find_source by (metis option.inject)
  with e show "event_source x = event_source y" by (simp add: event_reference_def prod_eq_iff)
qed (simp add: event_reference_def)

lemma events_source:
  "event_source ` set_mset (shop_events s) =
     (\<lambda>p. (SRC_PAYMENT, p_id p)) ` {p \<in> set (s_payments s). p_method p = PAYMENT_METHOD_ELECTRONIC \<and> p_status p = PAY_SUCCEEDED} \<union>
     (\<lambda>c. (SRC_COD_COLLECTION, co_collectionId c)) ` set (s_collections s) \<union>
     (\<lambda>r. (SRC_COD_REMITTANCE, rm_id r)) ` {r \<in> set (s_remittances s). rm_status r = CONFIRMED} \<union>
     (\<lambda>e. (SRC_DRIVER_EARNING, e_id e)) ` set (s_earnings s) \<union>
     (\<lambda>m. (SRC_MERCHANT_SETTLEMENT, ms_id m)) ` {m \<in> set (s_settlements s). ms_status m = SETTLEMENT_FINALIZED} \<union>
     (\<lambda>r. (SRC_REFUND, r_id r)) ` {r \<in> set (s_refunds s). r_status r = REFUNDED}"
  by (simp add: shop_events_def shop_event_defs image_Un image_image)

lemma fresh_reference:
  "event_source ev \<notin> event_source ` set_mset (shop_events s) \<Longrightarrow>
   event_reference ev \<notin> event_reference ` set_mset (shop_events s)"
  by (auto simp: event_reference_inj)

lemma known_reference:
  "event_source ev \<in> event_source ` S \<Longrightarrow> event_reference ev \<in> event_reference ` S"
  by (auto simp: image_iff event_reference_inj)

section \<open>What a balanced shop reports\<close>

lemma sum_events:
  assumes "balanced s"
  shows "sum_list (map (entry_custody d) (s_ledger s)) = (\<Sum>ev\<in>#shop_events s. event_custody d ev)"
    "sum_list (map (entry_owes_driver d) (s_ledger s)) = (\<Sum>ev\<in>#shop_events s. event_owes_driver d ev)"
    "sum_list (map (entry_owes_merchant m) (s_ledger s)) = (\<Sum>ev\<in>#shop_events s. event_owes_merchant m ev)"
proof -
  obtain evs where evs: "ledger_inv evs (s_ledger s)" "mset evs = shop_events s" using assms by (auto simp: balanced_def)
  have "(\<Sum>ev\<in>#shop_events s. f ev) = sum_list (map f evs)" for f :: "ledger_event \<Rightarrow> int"
    by (simp add: evs(2) [symmetric] sum_mset_sum_list [symmetric])
  with books_sums [of evs "s_ledger s"] evs(1) show
    "sum_list (map (entry_custody d) (s_ledger s)) = (\<Sum>ev\<in>#shop_events s. event_custody d ev)"
    "sum_list (map (entry_owes_driver d) (s_ledger s)) = (\<Sum>ev\<in>#shop_events s. event_owes_driver d ev)"
    "sum_list (map (entry_owes_merchant m) (s_ledger s)) = (\<Sum>ev\<in>#shop_events s. event_owes_merchant m ev)"
    by (auto simp: ledger_inv_def)
qed

definition collected_by :: "string \<Rightarrow> shop \<Rightarrow> int" where
  "collected_by d s = sum_list (map co_collectedAmountMinor (filter (\<lambda>c. co_driverId c = d) (s_collections s)))"

definition remitted_by :: "string \<Rightarrow> shop \<Rightarrow> int" where
  "remitted_by d s = sum_list (map rm_confirmedAmountMinor
     (filter (\<lambda>r. rm_status r = CONFIRMED \<and> rm_driverId r = d) (s_remittances s)))"

definition earned_by :: "string \<Rightarrow> shop \<Rightarrow> int" where
  "earned_by d s = sum_list (map e_netEarningMinor (filter (\<lambda>e. e_driverId e = d) (s_earnings s)))"

definition settled_for :: "string \<Rightarrow> shop \<Rightarrow> int" where
  "settled_for m s = sum_list (map ms_netPayableMinor
     (filter (\<lambda>x. ms_status x = SETTLEMENT_FINALIZED \<and> ms_merchantId x = m) (s_settlements s)))"

lemma sum_list_if: "sum_list (map (\<lambda>x. if P x then f x else 0) xs) = sum_list (map f (filter P xs))"
  for f :: "'a \<Rightarrow> int"
  by (induction xs) simp_all

lemma sum_list_neg: "(\<Sum>x\<leftarrow>xs. - f x) = - sum_list (map f xs)" for f :: "'a \<Rightarrow> int"
  by (induction xs) simp_all

lemma mset_sums [simp]: "(\<Sum>x\<in>#mset xs. f x) = sum_list (map f xs)" for f :: "'a \<Rightarrow> int"
  by (metis mset_map sum_mset_sum_list)

lemmas event_sums = shop_events_def shop_event_defs comp_def sum_list_if sum_list_neg

lemma custody_events: "(\<Sum>ev\<in>#shop_events s. event_custody d ev) = collected_by d s - remitted_by d s"
  by (simp add: event_sums collected_by_def remitted_by_def del: mset_map mset_filter)

lemma payable_events: "(\<Sum>ev\<in>#shop_events s. event_owes_driver d ev) = earned_by d s"
  by (simp add: event_sums earned_by_def del: mset_map mset_filter)

lemma settled_events: "(\<Sum>ev\<in>#shop_events s. event_owes_merchant m ev) = settled_for m s"
  by (simp add: event_sums settled_for_def del: mset_map mset_filter)

lemma balanced_positions:
  assumes "balanced s"
  shows "dp_codCustodyMinor (getDriverPositions d (s_ledger s)) = show_int (collected_by d s - remitted_by d s)"
    "dp_driverPayableMinor (getDriverPositions d (s_ledger s)) = show_int (earned_by d s)"
    "mp_netPayableMinor (getMerchantPosition m (s_ledger s)) = show_int (settled_for m s)"
  by (simp_all add: driver_positions_entries merchant_position_entries sum_events [OF assms]
      custody_events payable_events settled_events)

end
