(* ===== verification/Cod_Fifo.thy ===== *)
theory Cod_Fifo
  imports Cod Bookkeeping
begin

text \<open>
  Cash on delivery in numbers: the custody arithmetic of \<open>cod-foundation.service.ts\<close> in JavaScript
  numbers is exact, and the allocation loop of a remittance is the reference allocation \<open>fifo\<close>.
\<close>

section \<open>Numbers\<close>

lemma pgBigInt_ok [guards]: "pgBigInt v = Inr n \<longleftrightarrow> v = JInt n"
  by (cases v) (auto simp: pgBigInt_def)

lemma js_sub_exact: "\<bar>a - b\<bar> \<le> MAX_SAFE_INTEGER \<Longrightarrow> js_sub (JInt a) (JInt b) = JInt (a - b)"
  by (simp add: js_sub_def double_of_int_exact)

lemma js_max_ints [simp]: "js_max (JInt a) (JInt b) = JInt (max a b)"
  by (auto simp: js_max_def)

lemma js_min_ints [simp]: "js_min (JInt a) (JInt b) = JInt (min a b)"
  by (auto simp: js_min_def)

lemma js_le_ints [simp]: "js_le (JInt a) (JInt b) \<longleftrightarrow> a \<le> b"
  by (auto simp: js_le_def)

lemma cap_safe: "CATALOG_PRICE_MINOR_MAX \<le> MAX_SAFE_INTEGER"
  by (simp add: CATALOG_PRICE_MINOR_MAX_def MAX_SAFE_INTEGER_def)

lemma posting_number [simp]:
  "postCodCollection i now c ord d (NumMinor (JInt n)) = postCodCollection i now c ord d (BigMinor n)"
  "postCodRemittanceConfirmed i now c d (NumMinor (JInt n)) = postCodRemittanceConfirmed i now c d (BigMinor n)"
  by (rule ext, simp add: postCodCollection_def codCollectionPosting_def not_less
      postCodRemittanceConfirmed_def codRemittancePosting_def)+

section \<open>The map of allocations\<close>

definition numbers :: "(string \<times> int) list \<Rightarrow> (string \<times> jsnum) list" where
  "numbers m = map (\<lambda>(k, n). (k, JInt n)) m"

lemma numbers_simps [simp]:
  "numbers [] = []" "numbers ((k, n) # m) = (k, JInt n) # numbers m"
  "map snd (numbers m) = map JInt (map snd m)" "map fst (numbers m) = map fst m"
  by (auto simp: numbers_def)

definition add_int :: "allocation_row \<Rightarrow> (string \<times> int) list \<Rightarrow> (string \<times> int) list" where
  "add_int a m = AList.update (al_collectionId a)
     (js_default (map_of m (al_collectionId a)) 0 + al_allocatedAmountMinor a) m"

lemma update_numbers: "AList.update k (JInt v) (numbers m) = numbers (AList.update k v m)"
  by (induction m) (auto simp: numbers_def)

lemma map_of_numbers: "map_of (numbers m) k = map_option JInt (map_of m k)"
  by (induction m) (auto simp: numbers_def)

lemma default_numbers: "js_default (map_of (numbers m) k) (JInt 0) = JInt (js_default (map_of m k) 0)"
  by (cases "map_of m k") (simp_all add: map_of_numbers)

lemma sum_update:
  "distinct (map fst m) \<Longrightarrow>
   sum_list (map snd (AList.update k v m)) = sum_list (map snd m) + v - js_default (map_of m k) (0::int)"
proof (induction m)
  case (Cons x m)
  obtain a b where x: "x = (a, b)" by (cases x)
  have "map_of m a = None" using Cons.prems by (simp add: x map_of_eq_None_iff)
  with Cons show ?case by (auto simp: x)
qed simp

definition allocated_in :: "allocation_row list \<Rightarrow> string \<Rightarrow> int" where
  "allocated_in als k = sum_list (map al_allocatedAmountMinor (filter (\<lambda>a. al_collectionId a = k) als))"

lemma allocated_in_append [simp]: "allocated_in (xs @ ys) k = allocated_in xs k + allocated_in ys k"
  by (simp add: allocated_in_def)

lemma fold_add_int:
  "distinct (map fst m) \<Longrightarrow>
   distinct (map fst (fold add_int als m)) \<and>
   js_default (map_of (fold add_int als m) k) 0 = js_default (map_of m k) 0 + allocated_in als k \<and>
   sum_list (map snd (fold add_int als m)) = sum_list (map snd m) + sum_list (map al_allocatedAmountMinor als)"
proof (induction als arbitrary: m)
  case (Cons a als)
  have d: "distinct (map fst (add_int a m))" using Cons.prems by (simp add: add_int_def distinct_update)
  have "js_default (map_of (add_int a m) k) 0 = js_default (map_of m k) 0 + allocated_in [a] k"
    by (simp add: add_int_def update_conv' allocated_in_def)
  moreover have "sum_list (map snd (add_int a m)) = sum_list (map snd m) + al_allocatedAmountMinor a"
    by (simp add: add_int_def sum_update [OF Cons.prems])
  ultimately show ?case using Cons.IH [OF d] by (simp add: allocated_in_def)
qed (simp add: allocated_in_def)

lemma fold_addAllocation:
  assumes "\<forall>a \<in> set als. 0 \<le> al_allocatedAmountMinor a \<and> al_allocatedAmountMinor a \<le> CATALOG_PRICE_MINOR_MAX"
    and "\<forall>k. 0 \<le> js_default (map_of m k) 0 \<and> js_default (map_of m k) 0 + allocated_in als k \<le> MAX_SAFE_INTEGER"
  shows "fold addAllocation als (numbers m) = numbers (fold add_int als m)"
  using assms
proof (induction als arbitrary: m)
  case (Cons a als)
  let ?n = "al_allocatedAmountMinor a" and ?k = "al_collectionId a"
  have n: "0 \<le> ?n" "?n \<le> CATALOG_PRICE_MINOR_MAX" using Cons.prems(1) by simp_all
  have rest: "0 \<le> allocated_in als k" for k
    unfolding allocated_in_def using Cons.prems(1) by (intro sum_list_nonneg) auto
  have "0 \<le> js_default (map_of m ?k) 0" "js_default (map_of m ?k) 0 + ?n \<le> MAX_SAFE_INTEGER"
    using Cons.prems(2) rest [of ?k] by (auto simp: allocated_in_def dest: spec [of _ ?k])
  then have "js_add (JInt (js_default (map_of m ?k) 0)) (JInt ?n) = JInt (js_default (map_of m ?k) 0 + ?n)"
    using n by (intro js_add_exact) simp_all
  then have "js_add (js_default (map_of (numbers m) ?k) (JInt 0)) (JInt ?n) = JInt (js_default (map_of m ?k) 0 + ?n)"
    by (simp only: default_numbers)
  moreover have "parseMinorUnits (DbBig ?n) = JInt ?n" using n by (rule parseMinorUnits_range)
  ultimately have step: "addAllocation a (numbers m) = numbers (add_int a m)"
    by (simp only: addAllocation_def update_numbers add_int_def)
  have "0 \<le> js_default (map_of (add_int a m) k) 0 \<and>
      js_default (map_of (add_int a m) k) 0 + allocated_in als k \<le> MAX_SAFE_INTEGER" for k
    using Cons.prems(2) [THEN spec, of k] n by (auto simp: add_int_def update_conv' allocated_in_def)
  with Cons.IH [of "add_int a m"] Cons.prems(1) show ?case by (simp add: step)
qed simp

section \<open>First in, first out\<close>

text \<open>The reference allocation: what is left of an amount goes to the next collection that owes anything.\<close>

fun fifo :: "int list \<Rightarrow> int \<Rightarrow> int list" where
  "fifo [] r = []"
| "fifo (a # as) r = min a r # fifo as (r - min a r)"

lemma fifo_length [simp]: "length (fifo as r) = length as"
  by (induction as arbitrary: r) simp_all

lemma fifo_zero: "\<forall>a \<in> set as. 0 \<le> a \<Longrightarrow> fifo as 0 = replicate (length as) 0"
  by (induction as) simp_all

lemma fifo_nonneg: "\<forall>a \<in> set as. 0 \<le> a \<Longrightarrow> 0 \<le> r \<Longrightarrow> x \<in> set (fifo as r) \<Longrightarrow> 0 \<le> x"
proof (induction as arbitrary: r)
  case (Cons a as)
  from Cons.prems(3) consider "x = min a r" | "x \<in> set (fifo as (r - min a r))" by auto
  then show ?case using Cons.prems(1,2) by cases (auto intro!: Cons.IH [of "r - min a r"])
qed simp

lemma fifo_prefix:
  "\<forall>a \<in> set as. 0 \<le> a \<Longrightarrow> 0 \<le> r \<Longrightarrow> sum_list (take k (fifo as r)) = min r (sum_list (take k as))"
proof (induction as arbitrary: r k)
  case (Cons a as)
  have s: "0 \<le> sum_list (take j as)" for j using Cons.prems by (intro sum_list_nonneg) (auto dest: in_set_takeD)
  show ?case
  proof (cases k)
    case (Suc j)
    have "sum_list (take j (fifo as (r - min a r))) = min (r - min a r) (sum_list (take j as))"
      using Cons.prems by (intro Cons.IH) auto
    with s [of j] Suc show ?thesis by (simp add: min_def)
  qed (use Cons.prems in simp)
qed simp

definition positive_shares :: "collection_row list \<Rightarrow> int list \<Rightarrow> (string \<times> int) list" where
  "positive_shares cs xs = filter (\<lambda>(_, x). 0 < x) (zip (map co_collectionId cs) xs)"

lemma positive_shares_zero: "positive_shares cs (replicate n 0) = []"
  by (auto simp: positive_shares_def filter_empty_conv dest: set_zip_rightD)

lemma planAllocations_fifo:
  assumes "\<forall>c \<in> set cs. 0 \<le> co_collectedAmountMinor c \<and> co_collectedAmountMinor c \<le> CATALOG_PRICE_MINOR_MAX"
    and "\<forall>c \<in> set cs. 0 \<le> js_default (map_of m (co_collectionId c)) 0 \<and>
      js_default (map_of m (co_collectionId c)) 0 \<le> co_collectedAmountMinor c"
    and "0 \<le> r" "r \<le> MAX_SAFE_INTEGER"
    and av: "av = map (\<lambda>c. co_collectedAmountMinor c - js_default (map_of m (co_collectionId c)) 0) cs"
  shows "planAllocations (numbers m) cs (JInt r) =
    (numbers (positive_shares cs (fifo av r)), JInt (r - sum_list (fifo av r)))"
  using assms
proof (induction cs arbitrary: r av)
  case Nil
  then show ?case by (simp add: positive_shares_def)
next
  case (Cons c cs)
  let ?a = "js_default (map_of m (co_collectionId c)) 0" and ?n = "co_collectedAmountMinor c"
  let ?av = "map (\<lambda>c. co_collectedAmountMinor c - js_default (map_of m (co_collectionId c)) 0) cs"
  have av: "av = (?n - ?a) # ?av" using Cons.prems(5) by simp
  have nn: "\<forall>a \<in> set av. 0 \<le> a" using Cons.prems(2,5) by auto
  show ?case
  proof (cases "r = 0")
    case True
    then show ?thesis using nn by (simp add: fifo_zero positive_shares_zero sum_list_replicate)
  next
    case False
    have p: "parseMinorUnits (DbBig ?n) = JInt ?n"
      by (rule parseMinorUnits_range) (use Cons.prems(1) in simp_all)
    have "js_sub (JInt ?n) (JInt ?a) = JInt (?n - ?a)"
      using Cons.prems(1,2) cap_safe by (intro js_sub_exact) auto
    then have avail: "js_max (JInt 0) (js_sub (parseMinorUnits (DbBig ?n))
        (js_default (map_of (numbers m) (co_collectionId c)) (JInt 0))) = JInt (?n - ?a)"
      unfolding p default_numbers using Cons.prems(2) by simp
    have rest: "js_sub (JInt r) (JInt (min (?n - ?a) r)) = JInt (r - min (?n - ?a) r)"
      using Cons.prems(2,3,4) by (intro js_sub_exact) auto
    have ih: "planAllocations (numbers m) cs (JInt r') =
        (numbers (positive_shares cs (fifo ?av r')), JInt (r' - sum_list (fifo ?av r')))"
      if "0 \<le> r'" "r' \<le> r" for r'
      using Cons.prems that by (intro Cons.IH) auto
    have step: "planAllocations (numbers m) (c # cs) (JInt r) =
        (if JInt r = JInt 0 then ([], JInt r)
         else if js_le (JInt (?n - ?a)) (JInt 0) then planAllocations (numbers m) cs (JInt r)
         else ((co_collectionId c, js_min (JInt (?n - ?a)) (JInt r)) #
                 fst (planAllocations (numbers m) cs (js_sub (JInt r) (js_min (JInt (?n - ?a)) (JInt r)))),
               snd (planAllocations (numbers m) cs (js_sub (JInt r) (js_min (JInt (?n - ?a)) (JInt r))))))"
      by (simp only: planAllocations.simps Let_def avail)
    show ?thesis
    proof (cases "?n - ?a \<le> 0")
      case True
      then have "?n - ?a = 0" using Cons.prems(2) by simp
      with \<open>r \<noteq> 0\<close> ih [of r] Cons.prems(3) show ?thesis
        unfolding step by (simp add: av positive_shares_def)
    next
      case False
      then have pos: "0 < min (?n - ?a) r" using \<open>r \<noteq> 0\<close> Cons.prems(3) by simp
      with False \<open>r \<noteq> 0\<close> ih [of "r - min (?n - ?a) r"] show ?thesis
        unfolding step js_min_ints rest by (simp add: av positive_shares_def algebra_simps)
    qed
  qed
qed

end
