(* ===== verification/Cod_Books.thy ===== *)
theory Cod_Books
  imports Cod_Fifo Refund_Books
begin

text \<open>
  What cash on delivery promises: the abstract machine \<open>cod_spec\<close> (collect, declare a remittance,
  confirm it), the books it keeps (\<open>cod_books\<close>: allocations never exceed a collection, a confirmed
  remittance is allocated exactly, a discrepancy row exactly where the confirmed amount is not the
  declared one), and the proof that every call of the service is a step of it that keeps the ledger
  balanced.
\<close>

section \<open>The machine\<close>

definition allocated_to :: "string \<Rightarrow> allocation_row list \<Rightarrow> int" where
  "allocated_to i als = sum_list (map al_allocatedAmountMinor (filter (\<lambda>a. al_remittanceId a = i) als))"

definition collection_ok :: "collection_row \<Rightarrow> bool" where
  "collection_ok c \<longleftrightarrow> co_status c = ''COLLECTED'' \<and> 0 < co_collectedAmountMinor c \<and>
     co_collectedAmountMinor c \<le> CATALOG_PRICE_MINOR_MAX \<and> co_expectedAmountMinor c = co_collectedAmountMinor c"

definition remittance_ok :: "shop \<Rightarrow> remittance_row \<Rightarrow> bool" where
  "remittance_ok s r \<longleftrightarrow> 0 < rm_submittedAmountMinor r \<and>
     (if rm_status r = CONFIRMED
      then 0 < rm_confirmedAmountMinor r \<and> allocated_to (rm_id r) (s_allocations s) = rm_confirmedAmountMinor r
      else rm_confirmedAmountMinor r = 0 \<and> allocationsOf (rm_id r) s = [])"

definition allocation_ok :: "shop \<Rightarrow> allocation_row \<Rightarrow> bool" where
  "allocation_ok s a \<longleftrightarrow> 0 < al_allocatedAmountMinor a \<and>
     (\<exists>r \<in> set (s_remittances s). rm_id r = al_remittanceId a \<and>
        (\<exists>c \<in> set (s_collections s). co_collectionId c = al_collectionId a \<and> co_driverId c = rm_driverId r))"

definition discrepancy_row_of :: "remittance_row \<Rightarrow> discrepancy_row" where
  "discrepancy_row_of r = \<lparr>di_driverId = rm_driverId r, di_remittanceId = rm_id r,
     di_expectedMinor = rm_submittedAmountMinor r, di_confirmedMinor = rm_confirmedAmountMinor r,
     di_differenceMinor = rm_confirmedAmountMinor r - rm_submittedAmountMinor r,
     di_status = ''OPEN'', di_cause = ''DECLARED_VS_CONFIRMED''\<rparr>"

text \<open>The books of cash on delivery: what each collection, remittance and allocation has to add up to.\<close>

definition cod_books :: "shop \<Rightarrow> bool" where
  "cod_books s \<longleftrightarrow> distinct (map co_collectionId (s_collections s)) \<and> distinct (map co_orderId (s_collections s)) \<and>
     distinct (map rm_id (s_remittances s)) \<and>
     (\<forall>c \<in> set (s_collections s). collection_ok c \<and>
        allocated_in (s_allocations s) (co_collectionId c) \<le> co_collectedAmountMinor c) \<and>
     (\<forall>r \<in> set (s_remittances s). remittance_ok s r) \<and>
     (\<forall>a \<in> set (s_allocations s). allocation_ok s a) \<and>
     (\<forall>d. length (driverRemittances DECLARED d s) \<le> 1) \<and>
     (\<forall>r \<in> set (s_remittances s). filter (\<lambda>d. di_remittanceId d = rm_id r) (s_discrepancies s) =
        (if rm_status r = CONFIRMED \<and> rm_confirmedAmountMinor r \<noteq> rm_submittedAmountMinor r
         then [discrepancy_row_of r] else [])) \<and>
     (\<forall>d \<in> set (s_discrepancies s). di_remittanceId d \<in> rm_id ` set (s_remittances s))"

lemma cod_booksI:
  assumes "distinct (map co_collectionId (s_collections s))" "distinct (map co_orderId (s_collections s))"
    "distinct (map rm_id (s_remittances s))"
    "\<And>c. c \<in> set (s_collections s) \<Longrightarrow> collection_ok c"
    "\<And>c. c \<in> set (s_collections s) \<Longrightarrow> allocated_in (s_allocations s) (co_collectionId c) \<le> co_collectedAmountMinor c"
    "\<And>r. r \<in> set (s_remittances s) \<Longrightarrow> remittance_ok s r"
    "\<And>a. a \<in> set (s_allocations s) \<Longrightarrow> allocation_ok s a"
    "\<And>d. length (driverRemittances DECLARED d s) \<le> 1"
    "\<And>r. r \<in> set (s_remittances s) \<Longrightarrow> filter (\<lambda>d. di_remittanceId d = rm_id r) (s_discrepancies s) =
        (if rm_status r = CONFIRMED \<and> rm_confirmedAmountMinor r \<noteq> rm_submittedAmountMinor r
         then [discrepancy_row_of r] else [])"
    "\<And>d. d \<in> set (s_discrepancies s) \<Longrightarrow> di_remittanceId d \<in> rm_id ` set (s_remittances s)"
  shows "cod_books s"
  using assms unfolding cod_books_def by blast

lemma cod_booksD:
  assumes "cod_books s"
  shows "distinct (map co_collectionId (s_collections s))" "distinct (map co_orderId (s_collections s))"
    "distinct (map rm_id (s_remittances s))"
    "c \<in> set (s_collections s) \<Longrightarrow> collection_ok c"
    "c \<in> set (s_collections s) \<Longrightarrow> allocated_in (s_allocations s) (co_collectionId c) \<le> co_collectedAmountMinor c"
    "r \<in> set (s_remittances s) \<Longrightarrow> remittance_ok s r"
    "a \<in> set (s_allocations s) \<Longrightarrow> allocation_ok s a"
    "length (driverRemittances DECLARED d s) \<le> 1"
    "r \<in> set (s_remittances s) \<Longrightarrow> filter (\<lambda>d. di_remittanceId d = rm_id r) (s_discrepancies s) =
        (if rm_status r = CONFIRMED \<and> rm_confirmedAmountMinor r \<noteq> rm_submittedAmountMinor r
         then [discrepancy_row_of r] else [])"
    "d' \<in> set (s_discrepancies s) \<Longrightarrow> di_remittanceId d' \<in> rm_id ` set (s_remittances s)"
  using assms unfolding cod_books_def by blast+

definition paid_view :: "string \<Rightarrow> payment_row list \<Rightarrow> payment_row list \<Rightarrow> bool" where
  "paid_view i ps ps' \<longleftrightarrow>
     map pay_view ps' = map (\<lambda>q. if p_id q = i then q\<lparr>p_status := PAY_SUCCEEDED\<rparr> else q) (map pay_view ps)"

definition collection_event :: "collection_row \<Rightarrow> ledger_event" where
  "collection_event c = EvCollection (co_collectionId c) (co_orderId c) (co_driverId c) (co_collectedAmountMinor c)"

definition confirmed_row :: "instant \<Rightarrow> int \<Rightarrow> remittance_row \<Rightarrow> remittance_row" where
  "confirmed_row now n r = r\<lparr>rm_status := CONFIRMED, rm_confirmedAmountMinor := n, rm_confirmedAt := Some now\<rparr>"

inductive cod_spec :: "shop \<Rightarrow> shop \<Rightarrow> bool" where
  touch: "same_money s s' \<Longrightarrow> cod_spec s s'"
| collect: "p \<in> set (s_payments s) \<Longrightarrow> p_method p = PAYMENT_METHOD_COD \<Longrightarrow> p_status p = PAY_PENDING \<Longrightarrow>
    co_orderId c = p_orderId p \<Longrightarrow> co_collectedAmountMinor c = p_amountMinor p \<Longrightarrow> collection_ok c \<Longrightarrow>
    co_collectionId c \<notin> co_collectionId ` set (s_collections s) \<Longrightarrow>
    co_orderId c \<notin> co_orderId ` set (s_collections s) \<Longrightarrow> paid_view (p_id p) (s_payments s) ps \<Longrightarrow>
    post_ledger_event i now (collection_event c) (s_ledger s) = Inr (e, es) \<Longrightarrow>
    cod_spec s (s\<lparr>s_payments := ps, s_collections := s_collections s @ [c], s_ledger := es\<rparr>)"
| declared: "rm_id r \<notin> rm_id ` set (s_remittances s) \<Longrightarrow> rm_status r = DECLARED \<Longrightarrow> rm_confirmedAmountMinor r = 0 \<Longrightarrow>
    0 < rm_submittedAmountMinor r \<Longrightarrow> driverRemittances DECLARED (rm_driverId r) s = [] \<Longrightarrow>
    cod_spec s (s\<lparr>s_remittances := s_remittances s @ [r]\<rparr>)"
| confirm: "r \<in> set (s_remittances s) \<Longrightarrow> rm_status r = DECLARED \<Longrightarrow>
    (\<forall>a \<in> set rows. al_remittanceId a = rm_id r \<and> 0 < al_allocatedAmountMinor a \<and>
       (\<exists>c \<in> set (s_collections s). co_collectionId c = al_collectionId a \<and> co_driverId c = rm_driverId r)) \<Longrightarrow>
    (\<forall>c \<in> set (s_collections s). allocated_in (s_allocations s @ rows) (co_collectionId c) \<le> co_collectedAmountMinor c) \<Longrightarrow>
    sum_list (map al_allocatedAmountMinor rows) = n \<Longrightarrow> 0 < n \<Longrightarrow>
    ds = (if n = rm_submittedAmountMinor r then [] else [discrepancy_row_of (confirmed_row now n r)]) \<Longrightarrow>
    post_ledger_event i now (EvRemittance (rm_id r) (rm_driverId r) n) (s_ledger s) = Inr (e, es) \<Longrightarrow>
    cod_spec s (s\<lparr>s_remittances := t_update (\<lambda>x. rm_id x = rm_id r) (confirmed_row now n) (s_remittances s),
       s_allocations := s_allocations s @ rows, s_discrepancies := s_discrepancies s @ ds, s_ledger := es\<rparr>)"

lemma confirmed_row_simps [simp]:
  "rm_id (confirmed_row now n r) = rm_id r" "rm_driverId (confirmed_row now n r) = rm_driverId r"
  "rm_status (confirmed_row now n r) = CONFIRMED" "rm_confirmedAmountMinor (confirmed_row now n r) = n"
  "rm_submittedAmountMinor (confirmed_row now n r) = rm_submittedAmountMinor r"
  "rm_reference (confirmed_row now n r) = rm_reference r"
  by (simp_all add: confirmed_row_def)

lemma allocated_to_append [simp]: "allocated_to i (xs @ ys) = allocated_to i xs + allocated_to i ys"
  by (simp add: allocated_to_def)

lemma same_money_cod:
  assumes "same_money s s'"
  shows "s_collections s' = s_collections s" "s_remittances s' = s_remittances s"
    "s_allocations s' = s_allocations s" "s_discrepancies s' = s_discrepancies s"
    "s_earnings s' = s_earnings s" "s_settlements s' = s_settlements s" "s_deliveries s' = s_deliveries s"
proof -
  have e: "s' = s\<lparr>s_payments := s_payments s'\<rparr>" using assms by (simp add: same_money_def)
  show "s_collections s' = s_collections s" "s_remittances s' = s_remittances s"
    "s_allocations s' = s_allocations s" "s_discrepancies s' = s_discrepancies s"
    "s_earnings s' = s_earnings s" "s_settlements s' = s_settlements s" "s_deliveries s' = s_deliveries s"
    by (subst e, simp)+
qed

lemma cod_books_cong:
  assumes "cod_books s" and e: "s_collections s' = s_collections s" "s_remittances s' = s_remittances s"
    "s_allocations s' = s_allocations s" "s_discrepancies s' = s_discrepancies s"
  shows "cod_books s'"
proof -
  have "remittance_ok s' = remittance_ok s" "allocation_ok s' = allocation_ok s"
    "driverRemittances DECLARED d s' = driverRemittances DECLARED d s" for d
    by (simp_all add: fun_eq_iff remittance_ok_def allocation_ok_def driverRemittances_def allocationsOf_def e)
  with assms show ?thesis by (simp add: cod_books_def)
qed

lemma length_filter_mono: "\<forall>x \<in> set xs. P x \<longrightarrow> Q x \<Longrightarrow> length (filter P xs) \<le> length (filter Q xs)"
  by (induction xs) auto

lemma allocated_none: "\<forall>a \<in> set als. al_collectionId a \<noteq> i \<Longrightarrow> allocated_in als i = 0"
  by (simp add: allocated_in_def filter_False)

lemma confirm_remittance_ok:
  assumes b: "cod_books s" and r: "r \<in> set (s_remittances s)" "rm_status r = DECLARED"
    and rows: "\<forall>a \<in> set rows. al_remittanceId a = rm_id r" and n: "sum_list (map al_allocatedAmountMinor rows) = n" "0 < n"
    and x: "x \<in> set (s_remittances s)" and als: "s_allocations s' = s_allocations s @ rows"
  shows "remittance_ok s' (if rm_id x = rm_id r then confirmed_row now n x else x)"
proof (cases "rm_id x = rm_id r")
  case True
  have "x = r" using True cod_booksD(3) [OF b] x r(1) by (simp add: distinct_map inj_on_def)
  moreover have "filter (\<lambda>a. al_remittanceId a = rm_id r) rows = rows" using rows by simp
  moreover have "filter (\<lambda>a. al_remittanceId a = rm_id r) (s_allocations s) = []"
    using cod_booksD(6) [OF b r(1)] r(2) by (simp add: remittance_ok_def allocationsOf_def)
  moreover have "0 < rm_submittedAmountMinor r" using cod_booksD(6) [OF b r(1)] by (simp add: remittance_ok_def)
  ultimately show ?thesis using n by (simp add: remittance_ok_def als allocated_to_def)
next
  case False
  then have "filter (\<lambda>a. al_remittanceId a = rm_id x) rows = []" using rows by (auto simp: filter_empty_conv)
  with False cod_booksD(6) [OF b x] show ?thesis
    by (auto simp: remittance_ok_def als allocated_to_def allocationsOf_def split: if_splits)
qed

lemma cod_spec_books:
  assumes "cod_spec s s'" and b: "cod_books s"
  shows "cod_books s'"
  using assms(1)
proof cases
  case touch
  from same_money_cod [OF this] b show ?thesis by (blast intro: cod_books_cong)
next
  case (collect p c ps i now e es)
  have "al_collectionId a \<noteq> co_collectionId c" if "a \<in> set (s_allocations s)" for a
    using cod_booksD(7) [OF b that] collect(8) by (auto simp: allocation_ok_def) (metis image_eqI)
  then have none: "allocated_in (s_allocations s) (co_collectionId c) = 0" by (simp add: allocated_none)
  have "allocation_ok s' a" if "a \<in> set (s_allocations s')" for a
    using cod_booksD(7) [OF b, of a] that by (auto simp: collect(1) allocation_ok_def)
  moreover have "remittance_ok s' r" if "r \<in> set (s_remittances s')" for r
    using cod_booksD(6) [OF b, of r] that
    by (auto simp: collect(1) remittance_ok_def allocationsOf_def split: if_splits)
  ultimately show ?thesis
    using b none collect(7-9) unfolding cod_books_def
    by (auto simp: collect(1) driverRemittances_def collection_ok_def)
next
  case (declared r)
  have "al_remittanceId a \<noteq> rm_id r" if "a \<in> set (s_allocations s)" for a
    using cod_booksD(7) [OF b that] declared(2) by (auto simp: allocation_ok_def) (metis image_eqI)
  then have "allocationsOf (rm_id r) s = []" by (simp add: allocationsOf_def filter_False)
  then have "remittance_ok s' x" if "x \<in> set (s_remittances s')" for x
    using cod_booksD(6) [OF b, of x] that declared(3-5)
    by (auto simp: declared(1) remittance_ok_def allocationsOf_def)
  moreover have "allocation_ok s' a" if "a \<in> set (s_allocations s')" for a
    using cod_booksD(7) [OF b, of a] that by (auto simp: declared(1) allocation_ok_def)
  moreover have "length (driverRemittances DECLARED d s') \<le> 1" for d
    using cod_booksD(8) [OF b, of d] declared(6) by (cases "d = rm_driverId r") (auto simp: driverRemittances_def declared(1))
  moreover have "filter (\<lambda>d. di_remittanceId d = rm_id r) (s_discrepancies s) = []"
    using cod_booksD(10) [OF b] declared(2) by (metis (mono_tags, lifting) filter_False)
  ultimately show ?thesis
    using b declared(2,3) unfolding cod_books_def by (auto simp: declared(1))
next
  case (confirm r rows n ds now i e es)
  have ids: "rm_id ` set (s_remittances s') = rm_id ` set (s_remittances s)"
    "map rm_id (s_remittances s') = map rm_id (s_remittances s)" by (simp_all add: confirm(1))
  have old: "x \<in> set (s_remittances s') \<Longrightarrow>
      \<exists>y \<in> set (s_remittances s). x = (if rm_id y = rm_id r then confirmed_row now n y else y)" for x
    by (simp add: confirm(1) t_update_in)
  have rows: "\<forall>a \<in> set rows. al_remittanceId a = rm_id r" using confirm(4) by blast
  have uniq: "y = r" if "y \<in> set (s_remittances s)" "rm_id y = rm_id r" for y
    using that confirm(2) cod_booksD(3) [OF b] by (simp add: distinct_map inj_on_def)
  have R: "remittance_ok s' x" if "x \<in> set (s_remittances s')" for x
    using confirm_remittance_ok [OF b confirm(2,3) rows confirm(6,7)] old [OF that]
    by (auto simp: confirm(1))
  have A: "allocation_ok s' a" if "a \<in> set (s_allocations s')" for a
  proof -
    have "\<exists>y \<in> set (s_remittances s). rm_id y = al_remittanceId a \<and>
        (\<exists>c \<in> set (s_collections s). co_collectionId c = al_collectionId a \<and> co_driverId c = rm_driverId y) \<and>
        0 < al_allocatedAmountMinor a"
      using that cod_booksD(7) [OF b, of a] confirm(2,4) by (auto simp: confirm(1) allocation_ok_def)
    then obtain y where y: "y \<in> set (s_remittances s)" "rm_id y = al_remittanceId a"
      "\<exists>c \<in> set (s_collections s). co_collectionId c = al_collectionId a \<and> co_driverId c = rm_driverId y"
      "0 < al_allocatedAmountMinor a" by blast
    let ?y = "if rm_id y = rm_id r then confirmed_row now n y else y"
    have "?y \<in> set (s_remittances s')" using y(1) by (auto simp: confirm(1) t_update_in)
    moreover have "rm_id ?y = rm_id y" "rm_driverId ?y = rm_driverId y" by simp_all
    moreover have "s_collections s' = s_collections s" by (simp add: confirm(1))
    ultimately show ?thesis using y(2-4) unfolding allocation_ok_def by metis
  qed
  have L: "length (driverRemittances DECLARED d s') \<le> 1" for d
  proof -
    have "length (driverRemittances DECLARED d s') \<le> length (driverRemittances DECLARED d s)"
      unfolding driverRemittances_def by (simp add: confirm(1) t_update_def filter_map) (rule length_filter_mono, simp)
    with cod_booksD(8) [OF b, of d] show ?thesis by simp
  qed
  have D: "filter (\<lambda>d. di_remittanceId d = rm_id x) (s_discrepancies s') =
        (if rm_status x = CONFIRMED \<and> rm_confirmedAmountMinor x \<noteq> rm_submittedAmountMinor x
         then [discrepancy_row_of x] else [])" if x: "x \<in> set (s_remittances s')" for x
  proof -
    from old [OF x] obtain y where y: "y \<in> set (s_remittances s)"
      "x = (if rm_id y = rm_id r then confirmed_row now n y else y)" by blast
    show ?thesis
    proof (cases "rm_id y = rm_id r")
      case True
      then have "y = r" by (rule uniq [OF y(1)])
      then have x': "x = confirmed_row now n r" using y(2) by simp
      have "filter (\<lambda>d. di_remittanceId d = rm_id r) (s_discrepancies s) = []"
        using cod_booksD(9) [OF b confirm(2)] confirm(3) by simp
      moreover have "s_discrepancies s' = s_discrepancies s @ ds" by (simp add: confirm(1))
      ultimately show ?thesis unfolding x' confirm(8) by (simp add: discrepancy_row_of_def)
    next
      case False
      then have "x = y" using y(2) by simp
      moreover have "filter (\<lambda>d. di_remittanceId d = rm_id y) ds = []"
        using False confirm(8) by (simp add: discrepancy_row_of_def)
      moreover have "s_discrepancies s' = s_discrepancies s @ ds" by (simp add: confirm(1))
      ultimately show ?thesis using cod_booksD(9) [OF b y(1)] by simp
    qed
  qed
  have DD: "di_remittanceId d \<in> rm_id ` set (s_remittances s')" if "d \<in> set (s_discrepancies s')" for d
    using that cod_booksD(10) [OF b, of d] confirm(2)
    unfolding ids by (auto simp: confirm(1,8) discrepancy_row_of_def split: if_splits)
  have c: "s_collections s' = s_collections s" "s_allocations s' = s_allocations s @ rows"
    by (simp_all add: confirm(1))
  show ?thesis
  proof (rule cod_booksI [OF _ _ _ _ _ R A L D DD])
    show "allocated_in (s_allocations s') (co_collectionId c) \<le> co_collectedAmountMinor c"
      if "c \<in> set (s_collections s')" for c
      using that confirm(5) by (simp add: c)
    show "collection_ok c" if "c \<in> set (s_collections s')" for c
      using that cod_booksD(4) [OF b] by (simp add: c)
  qed (use cod_booksD(1-3) [OF b] in \<open>simp_all add: c ids\<close>)
qed

section \<open>The ledger follows\<close>

lemma payment_events_view: "payment_events s = map (\<lambda>p. EvPayment (p_id p) (p_orderId p) (p_amountMinor p))
     (filter (\<lambda>p. p_method p = PAYMENT_METHOD_ELECTRONIC \<and> p_status p = PAY_SUCCEEDED) (map pay_view (s_payments s)))"
  by (simp add: payment_events_def filter_map comp_def)

lemma payment_events_cong:
  "map pay_view (s_payments s') = map pay_view (s_payments s) \<Longrightarrow> payment_events s' = payment_events s"
  by (simp only: payment_events_view)

lemma same_money_events:
  assumes "same_money s s'"
  shows "shop_events s' = shop_events s"
proof -
  have e: "s' = s\<lparr>s_payments := s_payments s'\<rparr>" and v: "map pay_view (s_payments s') = map pay_view (s_payments s)"
    using assms unfolding same_money_def by blast+
  have d: "order_of_delivery s' i = order_of_delivery s i" for i
    by (simp add: order_of_delivery_def same_money_cod [OF assms])
  show ?thesis unfolding shop_events_def payment_events_cong [OF v]
    by (simp add: collection_events_def remittance_events_def earning_events_def settlement_events_def
        refund_events_def same_money_cod [OF assms] same_money_simps [OF assms] d)
qed

lemma payment_events_paid:
  assumes "paid_view i (s_payments s) ps'" "s_payments s' = ps'"
    and "\<forall>p \<in> set (s_payments s). p_id p = i \<longrightarrow> p_method p \<noteq> PAYMENT_METHOD_ELECTRONIC"
  shows "payment_events s' = payment_events s"
proof -
  have "filter (\<lambda>p. p_method p = PAYMENT_METHOD_ELECTRONIC \<and> p_status p = PAY_SUCCEEDED)
      (map (\<lambda>q. if p_id q = i then q\<lparr>p_status := PAY_SUCCEEDED\<rparr> else q) (map pay_view xs)) =
     filter (\<lambda>p. p_method p = PAYMENT_METHOD_ELECTRONIC \<and> p_status p = PAY_SUCCEEDED) (map pay_view xs)"
    if "\<forall>p \<in> set xs. p_id p = i \<longrightarrow> p_method p \<noteq> PAYMENT_METHOD_ELECTRONIC" for xs
    using that by (induction xs) auto
  from this [OF assms(3)] show ?thesis
    using assms(1) unfolding payment_events_view assms(2) paid_view_def by simp
qed

lemma cod_spec_balanced:
  assumes "cod_spec s s'" and b: "cod_books s" and bal: "balanced s" and d: "distinct (map p_id (s_payments s))"
  shows "balanced s'"
  using assms(1)
proof cases
  case touch
  show ?thesis by (rule balanced_same [OF bal]) (simp_all add: same_money_events touch same_money_simps [OF touch])
next
  case (collect p c ps i now e es)
  have pe: "payment_events s' = payment_events s"
  proof (rule payment_events_paid)
    show "paid_view (p_id p) (s_payments s) ps" by (rule collect(10))
    show "\<forall>q \<in> set (s_payments s). p_id q = p_id p \<longrightarrow> p_method q \<noteq> PAYMENT_METHOD_ELECTRONIC"
      using d collect(2,3) by (auto simp: distinct_map inj_on_def)
  qed (simp add: collect(1))
  show ?thesis
  proof (rule balanced_new [OF bal])
    show "post_ledger_event i now (collection_event c) (s_ledger s) = Inr (e, s_ledger s')"
      using collect(11) by (simp add: collect(1))
    show "shop_events s' = add_mset (collection_event c) (shop_events s)"
      unfolding shop_events_def pe
      by (simp add: collect(1) collection_events_def remittance_events_def earning_events_def
          settlement_events_def refund_events_def order_of_delivery_def collection_event_def)
    show "event_reference (collection_event c) \<notin> event_reference ` set_mset (shop_events s)"
      by (rule fresh_reference) (use collect(8) in \<open>auto simp: events_source collection_event_def\<close>)
  qed
next
  case (declared r)
  show ?thesis
    by (rule balanced_same [OF bal]) (simp_all add: declared(1) shop_events_def shop_event_defs
        order_of_delivery_def declared(3))
next
  case (confirm r rows n ds now i e es)
  let ?ev = "EvRemittance (rm_id r) (rm_driverId r) n"
  have uniq: "y = r" if "y \<in> set (s_remittances s)" "rm_id y = rm_id r" for y
    using that confirm(2) cod_booksD(3) [OF b] by (simp add: distinct_map inj_on_def)
  obtain xs ys where xs: "s_remittances s = xs @ r # ys" using confirm(2) by (meson split_list)
  with cod_booksD(3) [OF b] have "\<forall>x \<in> set xs \<union> set ys. rm_id x \<noteq> rm_id r" by (auto simp: image_iff)
  then have up: "s_remittances s' = xs @ confirmed_row now n r # ys"
    using t_update_split [of xs ys "\<lambda>x. rm_id x = rm_id r" r "confirmed_row now n"] by (simp add: confirm(1) xs)
  show ?thesis
  proof (rule balanced_new [OF bal])
    show "post_ledger_event i now ?ev (s_ledger s) = Inr (e, s_ledger s')" using confirm(9) by (simp add: confirm(1))
    have "mset (remittance_events s') = add_mset ?ev (mset (remittance_events s))"
      by (simp add: remittance_events_def up xs confirm(3))
    moreover have "payment_events s' = payment_events s" "collection_events s' = collection_events s"
      "earning_events s' = earning_events s" "settlement_events s' = settlement_events s"
      "refund_events s' = refund_events s"
      by (simp_all add: confirm(1) shop_event_defs order_of_delivery_def)
    ultimately show "shop_events s' = add_mset ?ev (shop_events s)" by (simp add: shop_events_def)
    show "event_reference ?ev \<notin> event_reference ` set_mset (shop_events s)"
      by (rule fresh_reference) (use confirm(3) uniq in \<open>auto simp: events_source\<close>)
  qed
qed

section \<open>The operations are steps of the machine\<close>

lemma mset_eq_sum_list: "mset xs = mset ys \<Longrightarrow> sum_list xs = sum_list ys" for xs :: "int list"
  using mset_sums [of "\<lambda>x. x" xs] mset_sums [of "\<lambda>x. x" ys] by simp

lemma mset_parts:
  "distinct (map f rs) \<Longrightarrow>
   mset (concat (map (\<lambda>r. filter (\<lambda>a. g a = f r) als) rs)) = mset (filter (\<lambda>a. g a \<in> f ` set rs) als)"
proof (induction rs)
  case (Cons r rs)
  have "mset (filter (\<lambda>a. g a = f r) xs) + mset (filter (\<lambda>a. g a \<in> f ` set rs) xs) =
      mset (filter (\<lambda>a. g a \<in> f ` set (r # rs)) xs)" for xs
    using Cons.prems by (induction xs) auto
  with Cons show ?case by (simp del: mset_filter)
qed simp

lemma allocated_in_mset: "mset xs = mset ys \<Longrightarrow> allocated_in xs k = allocated_in ys k"
proof -
  assume "mset xs = mset ys"
  then have "mset (map al_allocatedAmountMinor (filter (\<lambda>a. al_collectionId a = k) xs)) =
      mset (map al_allocatedAmountMinor (filter (\<lambda>a. al_collectionId a = k) ys))" by simp
  then show ?thesis unfolding allocated_in_def by (rule mset_eq_sum_list)
qed

definition driver_allocations :: "string \<Rightarrow> shop \<Rightarrow> allocation_row list" where
  "driver_allocations d s = concat (map (\<lambda>r. allocationsOf (rm_id r) s) (driverRemittances CONFIRMED d s))"

lemma distinct_driver_remittances:
  "cod_books s \<Longrightarrow> distinct (map rm_id (driverRemittances st d s))"
  using cod_booksD(3) [of s] by (simp add: driverRemittances_def distinct_map_filter)

lemma driver_allocations_mset:
  assumes "cod_books s"
  shows "mset (driver_allocations d s) =
    mset (filter (\<lambda>a. al_remittanceId a \<in> rm_id ` set (driverRemittances CONFIRMED d s)) (s_allocations s))"
  unfolding driver_allocations_def allocationsOf_def
  by (rule mset_parts) (rule distinct_driver_remittances [OF assms])

lemma allocation_remittance:
  assumes b: "cod_books s" and a: "a \<in> set (s_allocations s)" "al_collectionId a = co_collectionId c"
    and c: "c \<in> set (s_collections s)"
  shows "al_remittanceId a \<in> rm_id ` set (driverRemittances CONFIRMED d s) \<longleftrightarrow> co_driverId c = d"
proof -
  from cod_booksD(7) [OF b a(1)] obtain r c' where r: "r \<in> set (s_remittances s)" "rm_id r = al_remittanceId a"
    and c': "c' \<in> set (s_collections s)" "co_collectionId c' = al_collectionId a" "co_driverId c' = rm_driverId r"
    by (auto simp: allocation_ok_def)
  have "c' = c" using c c' a(2) cod_booksD(1) [OF b] by (simp add: distinct_map inj_on_def)
  moreover have "rm_status r = CONFIRMED"
    using cod_booksD(6) [OF b r(1)] a(1) r(2) by (auto simp: remittance_ok_def allocationsOf_def filter_empty_conv split: if_splits)
  moreover have "x = r" if "x \<in> set (s_remittances s)" "rm_id x = rm_id r" for x
    using that r(1) cod_booksD(3) [OF b] by (simp add: distinct_map inj_on_def)
  ultimately have "al_remittanceId a \<in> rm_id ` set (driverRemittances CONFIRMED d s) \<longleftrightarrow> rm_driverId r = d"
    unfolding driverRemittances_def r(2) [symmetric] using r(1) by auto
  with \<open>c' = c\<close> c'(3) show ?thesis by simp
qed

lemma driver_allocated:
  assumes b: "cod_books s" and c: "c \<in> set (s_collections s)"
  shows "allocated_in (driver_allocations d s) (co_collectionId c) =
    (if co_driverId c = d then allocated_in (s_allocations s) (co_collectionId c) else 0)"
proof -
  let ?in = "\<lambda>a. al_remittanceId a \<in> rm_id ` set (driverRemittances CONFIRMED d s)"
  have "filter (\<lambda>a. al_collectionId a = co_collectionId c) (filter ?in (s_allocations s)) =
      (if co_driverId c = d then filter (\<lambda>a. al_collectionId a = co_collectionId c) (s_allocations s) else [])"
    using allocation_remittance [OF b _ _ c] by (auto simp: filter_empty_conv intro!: filter_cong)
  then show ?thesis
    unfolding allocated_in_mset [OF driver_allocations_mset [OF b]] by (simp add: allocated_in_def)
qed

lemma allocated_bounds:
  assumes b: "cod_books s"
  shows "0 \<le> allocated_in (driver_allocations d s) k \<and> allocated_in (driver_allocations d s) k \<le> CATALOG_PRICE_MINOR_MAX"
proof (cases "\<exists>c \<in> set (s_collections s). co_collectionId c = k")
  case True
  then obtain c where c: "c \<in> set (s_collections s)" "co_collectionId c = k" by blast
  have "0 \<le> allocated_in (s_allocations s) k" unfolding allocated_in_def
    using cod_booksD(7) [OF b] by (intro sum_list_nonneg) (force simp: allocation_ok_def)
  moreover have "0 \<le> CATALOG_PRICE_MINOR_MAX" by (simp add: CATALOG_PRICE_MINOR_MAX_def)
  ultimately show ?thesis
    using driver_allocated [OF b c(1), of d] cod_booksD(4,5) [OF b c(1)] c(2) by (auto simp: collection_ok_def)
next
  case False
  have "al_collectionId a \<noteq> k" if "a \<in> set (s_allocations s)" for a
    using cod_booksD(7) [OF b that] False by (auto simp: allocation_ok_def)
  then have "allocated_in (driver_allocations d s) k = 0"
    unfolding allocated_in_mset [OF driver_allocations_mset [OF b]] by (simp add: allocated_none)
  then show ?thesis by (simp add: CATALOG_PRICE_MINOR_MAX_def)
qed

lemma set_driver_allocations: "set (driver_allocations d s) \<subseteq> set (s_allocations s)"
  by (auto simp: driver_allocations_def allocationsOf_def)

lemma member_le_allocated:
  "a \<in> set als \<Longrightarrow> \<forall>x \<in> set als. 0 \<le> al_allocatedAmountMinor x \<Longrightarrow>
   al_allocatedAmountMinor a \<le> allocated_in als (al_collectionId a)"
  unfolding allocated_in_def by (rule member_le_sum_list) auto

lemma loaded_numbers:
  assumes b: "cod_books s"
  shows "loadConfirmedAllocationsByCollection d s = numbers (fold add_int (driver_allocations d s) [])"
proof -
  have nn: "0 \<le> al_allocatedAmountMinor a" if "a \<in> set (driver_allocations d s)" for a
    using cod_booksD(7) [OF b, of a] that set_driver_allocations by (force simp: allocation_ok_def)
  have "fold addAllocation (driver_allocations d s) (numbers []) = numbers (fold add_int (driver_allocations d s) [])"
  proof (rule fold_addAllocation)
    show "\<forall>a \<in> set (driver_allocations d s). 0 \<le> al_allocatedAmountMinor a \<and> al_allocatedAmountMinor a \<le> CATALOG_PRICE_MINOR_MAX"
      using nn member_le_allocated [of _ "driver_allocations d s"] allocated_bounds [OF b] by (meson order_trans)
    show "\<forall>k. 0 \<le> js_default (map_of [] k) (0::int) \<and> js_default (map_of [] k) 0 + allocated_in (driver_allocations d s) k \<le> MAX_SAFE_INTEGER"
      using allocated_bounds [OF b] cap_safe by (auto intro: order_trans)
  qed
  then show ?thesis
    by (simp add: loadConfirmedAllocationsByCollection_def driver_allocations_def)
qed

lemma loaded_default:
  "js_default (map_of (fold add_int als []) k) 0 = allocated_in als k"
  using fold_add_int [of "[]" als k] by simp

text \<open>The shares of a remittance, as allocation rows.\<close>

definition share_rows :: "string \<Rightarrow> (string \<times> int) list \<Rightarrow> allocation_row list" where
  "share_rows i ps = map (\<lambda>(k, n). \<lparr>al_remittanceId = i, al_collectionId = k, al_allocatedAmountMinor = n\<rparr>) ps"

lemma allocationRows_numbers: "allocationRows i (numbers ps) = Inr (share_rows i ps)"
  by (induction ps) (auto simp: share_rows_def pgBigInt_def)

lemma positive_shares_sum:
  "length xs = length cs \<Longrightarrow> \<forall>x \<in> set xs. 0 \<le> x \<Longrightarrow>
   sum_list (map al_allocatedAmountMinor (share_rows i (positive_shares cs xs))) = sum_list xs \<and>
   sum_list (map snd (positive_shares cs xs)) = sum_list xs"
  by (induction cs xs rule: list_induct2') (auto simp: positive_shares_def share_rows_def)

lemma share_rows_in:
  "a \<in> set (share_rows i (positive_shares cs xs)) \<Longrightarrow>
   al_remittanceId a = i \<and> 0 < al_allocatedAmountMinor a \<and> al_collectionId a \<in> co_collectionId ` set cs"
  by (auto simp: share_rows_def positive_shares_def dest: set_zip_leftD)

lemma shares_bound:
  assumes "distinct (map co_collectionId cs)" "\<forall>c \<in> set cs. 0 \<le> f c" "0 \<le> r" "c \<in> set cs"
  shows "allocated_in (share_rows i (positive_shares cs (fifo (map f cs) r))) (co_collectionId c) \<le> f c"
  using assms
proof (induction cs arbitrary: r)
  case (Cons d cs)
  let ?m = "min (f d) r" and ?rest = "positive_shares cs (fifo (map f cs) (r - min (f d) r))"
  have e: "allocated_in (share_rows i (positive_shares (d # cs) (fifo (map f (d # cs)) r))) k =
      (if k = co_collectionId d \<and> 0 < ?m then ?m else 0) + allocated_in (share_rows i ?rest) k" for k
    by (simp add: positive_shares_def share_rows_def allocated_in_def)
  show ?case
  proof (cases "c = d")
    case True
    have "al_collectionId a \<noteq> co_collectionId d" if "a \<in> set (share_rows i ?rest)" for a
      using share_rows_in [OF that] Cons.prems(1) by auto
    then have "allocated_in (share_rows i ?rest) (co_collectionId d) = 0" by (simp add: allocated_none)
    with True Cons.prems(2) show ?thesis unfolding e by simp
  next
    case False
    with Cons.prems have "c \<in> set cs" by simp
    moreover from this Cons.prems(1) have "co_collectionId c \<noteq> co_collectionId d" by (metis distinct.simps(2) image_eqI list.map(2) set_map)
    ultimately show ?thesis using Cons.IH [of "r - ?m"] Cons.prems unfolding e by simp
  qed
qed simp

definition owed :: "shop \<Rightarrow> collection_row \<Rightarrow> int" where
  "owed s c = co_collectedAmountMinor c - allocated_in (s_allocations s) (co_collectionId c)"

definition remittance_shares :: "string \<Rightarrow> int \<Rightarrow> shop \<Rightarrow> (string \<times> int) list" where
  "remittance_shares d n s =
     (let cs = oldestFirst (driverCollections d s) in positive_shares cs (fifo (map (owed s) cs) n))"

lemma set_oldestFirst [simp]: "set (oldestFirst cs) = set cs"
  by (simp add: oldestFirst_def)

lemma distinct_oldestFirst: "distinct (map co_collectionId cs) \<Longrightarrow> distinct (map co_collectionId (oldestFirst cs))"
  by (simp add: oldestFirst_def distinct_map)

lemma driver_collections:
  assumes "cod_books s"
  shows "distinct (map co_collectionId (oldestFirst (driverCollections d s)))"
    "set (driverCollections d s) = {c \<in> set (s_collections s). co_driverId c = d}"
    "c \<in> set (s_collections s) \<Longrightarrow> 0 \<le> owed s c"
proof -
  show "distinct (map co_collectionId (oldestFirst (driverCollections d s)))"
    using cod_booksD(1) [OF assms] by (intro distinct_oldestFirst) (simp add: driverCollections_def distinct_map_filter)
  show "set (driverCollections d s) = {c \<in> set (s_collections s). co_driverId c = d}"
    using cod_booksD(4) [OF assms] by (auto simp: driverCollections_def collection_ok_def)
  show "c \<in> set (s_collections s) \<Longrightarrow> 0 \<le> owed s c" using cod_booksD(5) [OF assms] by (simp add: owed_def)
qed

lemma plan_remittance:
  assumes b: "cod_books s" and n: "0 \<le> n" "n \<le> MAX_SAFE_INTEGER"
  shows "planAllocations (loadConfirmedAllocationsByCollection d s) (oldestFirst (driverCollections d s)) (JInt n) =
    (numbers (remittance_shares d n s),
     JInt (n - sum_list (fifo (map (owed s) (oldestFirst (driverCollections d s))) n)))"
proof -
  let ?cs = "oldestFirst (driverCollections d s)" and ?m = "fold add_int (driver_allocations d s) []"
  have al: "js_default (map_of ?m (co_collectionId c)) 0 = allocated_in (s_allocations s) (co_collectionId c)"
    if "c \<in> set ?cs" for c
    using that driver_allocated [OF b, of c d] driver_collections(2) [OF b, of d] by (simp add: loaded_default)
  have "map (owed s) ?cs = map (\<lambda>c. co_collectedAmountMinor c - js_default (map_of ?m (co_collectionId c)) 0) ?cs"
    by (rule map_cong) (simp_all add: owed_def al)
  moreover have "0 \<le> allocated_in (s_allocations s) k" for k
    unfolding allocated_in_def using cod_booksD(7) [OF b] by (intro sum_list_nonneg) (force simp: allocation_ok_def)
  ultimately show ?thesis
    unfolding loaded_numbers [OF b] remittance_shares_def Let_def
    using driver_collections(2,3) [OF b] cod_booksD(4) [OF b]
    by (intro planAllocations_fifo n) (force simp: al collection_ok_def owed_def)+
qed

lemma parse_column: "parseMinorUnits (DbBig n) = JInt n \<or> parseMinorUnits (DbBig n) = JNaN"
  using parseMinorUnits_range [of n] by (cases "0 \<le> n \<and> n \<le> CATALOG_PRICE_MINOR_MAX") auto

lemma recordDiscrepancy_ok:
  assumes r: "recordDiscrepancy r (JInt n) s = Inr s'"
    and none: "filter (\<lambda>d. di_remittanceId d = rm_id r) (s_discrepancies s) = []"
    and n: "0 < n" "n \<le> MAX_SAFE_INTEGER"
  shows "s' = s\<lparr>s_discrepancies := s_discrepancies s @
      (if n = rm_submittedAmountMinor r then [] else [discrepancy_row_of (confirmed_row now n r)])\<rparr>"
proof -
  let ?m = "rm_submittedAmountMinor r"
  have "t_find di_remittanceId (rm_id r) (s_discrepancies s) = None"
    using none by (auto simp: t_find_None filter_empty_conv)
  then have e: "recordDiscrepancy r (JInt n) s =
     (if \<not> js_neq (JInt n) (parseMinorUnits (DbBig ?m)) then Inr s
      else ebind (pgBigInt (parseMinorUnits (DbBig ?m))) (\<lambda>e. ebind (pgBigInt (JInt n)) (\<lambda>c.
           ebind (pgBigInt (js_sub (JInt n) (parseMinorUnits (DbBig ?m)))) (\<lambda>d.
           Inr (s\<lparr>s_discrepancies := s_discrepancies s @
              [\<lparr>di_driverId = rm_driverId r, di_remittanceId = rm_id r, di_expectedMinor = e,
                di_confirmedMinor = c, di_differenceMinor = d, di_status = ''OPEN'',
                di_cause = ''DECLARED_VS_CONFIRMED''\<rparr>]\<rparr>)))))"
    by (simp only: recordDiscrepancy_def Let_def option.case)
  show ?thesis
  proof (cases "parseMinorUnits (DbBig ?m) = JNaN")
    case True
    with r show ?thesis unfolding e True by (simp add: js_neq_def pgBigInt_def)
  next
    case False
    then have p: "parseMinorUnits (DbBig ?m) = JInt ?m" using parse_column by blast
    with parseMinorUnits_int have "0 \<le> ?m" "?m \<le> MAX_SAFE_INTEGER" using cap_safe by force+
    then have sub: "js_sub (JInt n) (JInt ?m) = JInt (n - ?m)" using n by (intro js_sub_exact) simp
    show ?thesis
      using r unfolding e p sub by (auto simp: js_neq_def pgBigInt_def discrepancy_row_of_def split: if_splits)
  qed
qed

lemma remittance_share_in:
  "a \<in> set (share_rows i (remittance_shares d n s)) \<Longrightarrow> al_remittanceId a = i \<and> 0 < al_allocatedAmountMinor a \<and>
   (\<exists>c \<in> set (driverCollections d s). co_collectionId c = al_collectionId a)"
  using share_rows_in [of a i "oldestFirst (driverCollections d s)"]
  by (simp add: remittance_shares_def Let_def image_iff) metis

lemma confirm_spec:
  assumes b: "cod_books s" and ok: "confirmCodRemittanceInTx now ledgerId i confirmed s = Inr (v, s')"
  shows "\<exists>r n. t_find rm_id i (s_remittances s) = Some r \<and> confirmed = JInt n \<and>
    s_allocations s' = s_allocations s @ share_rows i (remittance_shares (rm_driverId r) n s) \<and>
    cod_spec s s'"
proof -
  obtain r n custody where n: "confirmed = JInt n" "0 < n" "n \<le> MAX_SAFE_INTEGER"
    and r: "t_find rm_id i (s_remittances s) = Some r" "rm_status r \<noteq> CONFIRMED"
    using ok by (auto simp: confirmCodRemittanceInTx_def isPositiveMinor_iff split: if_splits option.splits)
  let ?cs = "oldestFirst (driverCollections (rm_driverId r) s)" and ?ps = "remittance_shares (rm_driverId r) n s"
  note plan = plan_remittance [OF b less_imp_le [OF n(2)] n(3), of "rm_driverId r"]
  have ri: "r \<in> set (s_remittances s)" "rm_id r = i" "rm_status r = DECLARED"
    using t_find_Some [OF r(1)] r(2) remittance_status.exhaust by auto
  let ?rows = "share_rows i ?ps"
  let ?s1 = "s\<lparr>s_allocations := s_allocations s @ ?rows,
                      s_remittances := t_update (\<lambda>x. rm_id x = rm_id r) (confirmed_row now n) (s_remittances s)\<rparr>"
  have up: "(\<lambda>r. r\<lparr>rm_status := CONFIRMED, rm_confirmedAmountMinor := n, rm_confirmedAt := Some now\<rparr>) = confirmed_row now n"
    by (rule ext) (simp add: confirmed_row_def)
  obtain s2 where left: "n - sum_list (fifo (map (owed s) ?cs) n) = 0"
    and s2: "recordDiscrepancy r (JInt n) ?s1 = Inr s2"
    and s3: "in_ledger (postCodRemittanceConfirmed ledgerId now i (rm_driverId r) (BigMinor n)) s2 = Inr s'"
    using ok r ri(2)
    by (auto simp: confirmCodRemittanceInTx_def n plan Let_def ebind_Inr allocationRows_numbers pgBigInt_ok up
        simp del: parseMinorUnits.simps split: if_splits)
  have fifo_nn: "\<forall>a \<in> set (map (owed s) ?cs). 0 \<le> a"
    using driver_collections(2,3) [OF b] by auto
  have sum: "sum_list (map al_allocatedAmountMinor ?rows) = n"
    using left positive_shares_sum [of "fifo (map (owed s) ?cs) n" ?cs i] fifo_nonneg [OF fifo_nn, of n] n(2)
    by (simp add: remittance_shares_def Let_def)
  obtain e es where es: "post_ledger_event ledgerId now (EvRemittance i (rm_driverId r) n) (s_ledger s2) = Inr (e, es)"
    "s' = s2\<lparr>s_ledger := es\<rparr>" using s3 by (auto simp: in_ledger_ok)
  have "filter (\<lambda>d. di_remittanceId d = rm_id r) (s_discrepancies ?s1) = []"
    using cod_booksD(9) [OF b ri(1)] ri(3) by simp
  note s2' = recordDiscrepancy_ok [OF s2 this n(2,3), of now]
  let ?ds = "if n = rm_submittedAmountMinor r then [] else [discrepancy_row_of (confirmed_row now n r)]"
  have s': "s' = s\<lparr>s_remittances := t_update (\<lambda>x. rm_id x = rm_id r) (confirmed_row now n) (s_remittances s),
       s_allocations := s_allocations s @ ?rows, s_discrepancies := s_discrepancies s @ ?ds, s_ledger := es\<rparr>"
    unfolding es(2) s2' by simp
  have "cod_spec s s'"
    unfolding s'
  proof (rule cod_spec.confirm [OF ri(1,3)])
    show "\<forall>a \<in> set ?rows. al_remittanceId a = rm_id r \<and> 0 < al_allocatedAmountMinor a \<and>
       (\<exists>c \<in> set (s_collections s). co_collectionId c = al_collectionId a \<and> co_driverId c = rm_driverId r)"
      using remittance_share_in [of _ i "rm_driverId r" n s] driver_collections(2) [OF b] ri(2) by fastforce
    show "\<forall>c \<in> set (s_collections s). allocated_in (s_allocations s @ ?rows) (co_collectionId c) \<le> co_collectedAmountMinor c"
    proof
      fix c assume c: "c \<in> set (s_collections s)"
      show "allocated_in (s_allocations s @ ?rows) (co_collectionId c) \<le> co_collectedAmountMinor c"
      proof (cases "co_driverId c = rm_driverId r")
        case True
        with c have "c \<in> set ?cs" using driver_collections(2) [OF b] by simp
        with driver_collections(1) [OF b] fifo_nn n(2) have "allocated_in ?rows (co_collectionId c) \<le> owed s c"
          unfolding remittance_shares_def Let_def by (intro shares_bound) auto
        then show ?thesis by (simp add: owed_def)
      next
        case False
        have "al_collectionId a \<noteq> co_collectionId c" if "a \<in> set ?rows" for a
        proof
          assume "al_collectionId a = co_collectionId c"
          with remittance_share_in [OF that] obtain x where "x \<in> set ?cs" "co_collectionId x = co_collectionId c"
            by auto
          with c cod_booksD(1) [OF b] driver_collections(2) [OF b] False show False
            by (auto simp: distinct_map inj_on_def)
        qed
        then have "allocated_in ?rows (co_collectionId c) = 0" by (simp add: allocated_none)
        with cod_booksD(5) [OF b c] show ?thesis by simp
      qed
    qed
    show "post_ledger_event ledgerId now (EvRemittance (rm_id r) (rm_driverId r) n) (s_ledger s) = Inr (e, es)"
      using es(1) by (simp add: s2' ri(2))
  qed (use sum n(2) in simp_all)
  moreover have "s_allocations s' = s_allocations s @ ?rows" by (simp add: s')
  ultimately show ?thesis using r(1) n(1) by blast
qed

lemma submit_spec:
  assumes "submitCodRemittance now newId refUuid acc submitted s = Inr (v, s')"
  shows "cod_spec s s'"
proof -
  obtain n d ref where n: "0 < n" and none: "driverRemittances DECLARED d s = []"
    and ins: "insertRemittance \<lparr>rm_id = newId, rm_driverId = d, rm_submittedAmountMinor = n,
       rm_confirmedAmountMinor = 0, rm_status = DECLARED, rm_reference = ref, rm_submittedAt = now,
       rm_confirmedAt = None\<rparr> s = Inr s'"
    using assms by (auto simp: submitCodRemittance_def isPositiveMinor_iff ebind_Inr pgBigInt_ok Let_def
        split: if_splits option.splits)
  from ins show ?thesis
    by (auto simp: insertRemittance_def split: if_splits intro!: cod_spec.declared) (use none n in simp_all)
qed

lemma touchOrderPayment_same: "same_money s (touchOrderPayment now i s)"
  by (simp add: same_money_def touchOrderPayment_def t_update_def pay_view_def)

lemma reuse_spec:
  assumes b: "cod_books s" and bal: "balanced s" and m: "same_money s s1"
    and ok: "reuseExistingCollection now ledgerId c p d amount s1 = Inr (v, s')"
    and c: "c \<in> set (s_collections s)"
  shows "same_money s s'"
proof -
  note col = cod_booksD(4) [OF b c, unfolded collection_ok_def]
  have parse: "parseMinorUnits (DbBig (co_collectedAmountMinor c)) = JInt (co_collectedAmountMinor c)"
    using col by (intro parseMinorUnits_range) auto
  have "\<exists>s2 v2. in_ledger (postCodCollection ledgerId now (co_collectionId c) (co_orderId c) (co_driverId c)
      (NumMinor (JInt (co_collectedAmountMinor c)))) s1 = Inr s2 \<and> Inr (v2, s2) = (Inr (v, s') :: app_error + collection_view \<times> shop)"
    using ok unfolding reuseExistingCollection_def Let_def parse if_Inr ebind_Inr by blast
  then obtain e es where es: "post_ledger_event ledgerId now (collection_event c) (s_ledger s1) = Inr (e, es)"
    and s': "s' = s1\<lparr>s_ledger := es\<rparr>"
    by (auto simp: in_ledger_ok collection_event_def)
  have l: "s_ledger s1 = s_ledger s" by (rule same_money_simps [OF m])
  have "event_source (collection_event c) \<in> event_source ` set_mset (shop_events s)"
    using c by (auto simp: events_source collection_event_def)
  then have "event_reference (collection_event c) \<in> event_reference ` set_mset (shop_events s)"
    by (rule known_reference)
  from posting_known [OF bal es [unfolded l] this] have "s' = s1" by (simp add: s' l [symmetric])
  with m show ?thesis by simp
qed

lemma record_spec:
  assumes ok: "recordCollection now newId ledgerId order p' d amount (touchOrderPayment now (o_id order) s) = Inr (v, s')"
    and p': "t_find p_orderId (o_id order) (s_payments (touchOrderPayment now (o_id order) s)) = Some p'"
    and st: "p_method p' = PAYMENT_METHOD_COD" "p_status p' = PAY_PENDING"
    and none: "o_id order \<notin> co_orderId ` set (s_collections s)"
  shows "cod_spec s s'"
proof -
  let ?s1 = "touchOrderPayment now (o_id order) s"
  from p' obtain p where p0: "t_find p_orderId (o_id order) (s_payments s) = Some p"
    "p' = (if p_orderId p = o_id order then p\<lparr>p_updatedAt := now\<rparr> else p)"
    by (auto simp: touchOrderPayment_def t_find_update)
  then have p: "t_find p_orderId (o_id order) (s_payments s) = Some p" "pay_view p' = pay_view p"
    by (simp_all add: pay_view_def)
  have pp: "p \<in> set (s_payments s)" "p_orderId p = o_id order" using t_find_Some [OF p(1)] by simp_all
  have view: "p_id p' = p_id p" "p_method p' = p_method p" "p_status p' = p_status p" "p_amountMinor p' = p_amountMinor p"
    using arg_cong [OF p(2), of p_id] arg_cong [OF p(2), of p_method] arg_cong [OF p(2), of p_status]
      arg_cong [OF p(2), of p_amountMinor] by simp_all
  obtain sn where sn: "t_find sn_orderId (o_id order) (s_snapshots ?s1) = Some sn"
    using ok by (cases "t_find sn_orderId (o_id order) (s_snapshots ?s1)") (simp_all add: recordCollection_def)
  have ok': "isExactCodAmount amount (parseMinorUnits (DbBig (p_amountMinor p))) (parseMinorUnits (DbBig (sn_customerPayableMinor sn)))"
    "recordCollection now newId ledgerId order p' d amount ?s1 = Inr (v, s')"
    using ok by (auto simp: recordCollection_def sn Let_def view simp del: parseMinorUnits.simps split: if_splits)
  then obtain n where n: "0 \<le> n" "amount = JInt n" "parseMinorUnits (DbBig (p_amountMinor p)) = JInt n"
    "parseMinorUnits (DbBig (sn_customerPayableMinor sn)) = JInt n"
    unfolding isExactCodAmount_iff by blast
  define c where "c = \<lparr>co_collectionId = newId, co_orderId = o_id order, co_driverId = d, co_expectedAmountMinor = n,
        co_collectedAmountMinor = n, co_collectedAt = now, co_status = ''COLLECTED''\<rparr>"
  note c = c_def
  have rest: "\<exists>s2. insertCollection c ?s1 = Inr s2 \<and> in_ledger (postCodCollection ledgerId now newId (o_id order) d (BigMinor n))
        (s2\<lparr>s_payments := t_update (\<lambda>q. p_id q = p_id p)
             (\<lambda>q. q\<lparr>p_status := PAY_SUCCEEDED, p_updatedAt := now\<rparr>) (s_payments s2)\<rparr>) = Inr s'"
    using ok'(2) unfolding recordCollection_def sn option.case Let_def view n(2-4) if_Inr ebind_Inr pgBigInt_ok jsnum.inject posting_number c
    by blast
  let ?ps = "t_update (\<lambda>q. p_id q = p_id p) (\<lambda>q. q\<lparr>p_status := PAY_SUCCEEDED, p_updatedAt := now\<rparr>) (s_payments ?s1)"
  obtain e es where es: "post_ledger_event ledgerId now (collection_event c) (s_ledger s) = Inr (e, es)"
    and s': "s' = s\<lparr>s_payments := ?ps, s_collections := s_collections s @ [c], s_ledger := es\<rparr>"
    and fresh: "newId \<notin> co_collectionId ` set (s_collections s)"
    using rest by (auto simp: in_ledger_ok insertCollection_def touchOrderPayment_def collection_event_def c split: if_splits)
  from n(3) have am: "p_amountMinor p = n" "n \<le> CATALOG_PRICE_MINOR_MAX"
    unfolding parseMinorUnits_int by simp_all
  have pos: "0 < n" using es by (auto simp: collection_event_def c postCodCollection_def codCollectionPosting_def ebind_Inr split: if_splits)
  show ?thesis
    unfolding s'
  proof (rule cod_spec.collect [OF pp(1)])
    show "paid_view (p_id p) (s_payments s) ?ps"
      by (simp add: paid_view_def touchOrderPayment_def t_update_def pay_view_def)
    show "collection_ok c" using pos am by (simp add: collection_ok_def c)
  qed (use st view pp am none fresh es in \<open>simp_all add: c\<close>)
qed

lemma collect_in_spec:
  assumes b: "cod_books s" and bal: "balanced s"
    and ok: "collectCodInTransaction now newId ledgerId acc amount race s = Inr (v, s')"
  shows "cod_spec s s'"
proof -
  obtain d order where d: "driverOfAccount acc s = Some d" and o': "arrivedOrder d s = Inr order"
    using ok by (auto simp: collectCodInTransaction_def ebind_Inr split: option.splits)
  let ?s1 = "touchOrderPayment now (o_id order) s"
  have col: "s_collections ?s1 = s_collections s" by (simp add: touchOrderPayment_def)
  obtain p where p: "t_find p_orderId (o_id order) (s_payments ?s1) = Some p" "p_method p = PAYMENT_METHOD_COD"
    and body: "(case t_find co_orderId (o_id order) (s_collections s) of
          Some existing \<Rightarrow> reuseExistingCollection now ledgerId existing p d amount ?s1 = Inr (v, s')
        | None \<Rightarrow> p_status p = PAY_PENDING \<and> recordCollection now newId ledgerId order p d amount ?s1 = Inr (v, s'))"
    using ok d o' by (auto simp: collectCodInTransaction_def Let_def col split: option.splits if_splits)
  show ?thesis
  proof (cases "t_find co_orderId (o_id order) (s_collections s)")
    case None
    with body have "p_status p = PAY_PENDING" "o_id order \<notin> co_orderId ` set (s_collections s)"
      and rc: "recordCollection now newId ledgerId order p d amount ?s1 = Inr (v, s')" by (simp_all add: t_find_None)
    from record_spec [OF rc p this(1,2)] show ?thesis .
  next
    case (Some c)
    with body reuse_spec [OF b bal touchOrderPayment_same _ ] t_find_Some [OF Some] show ?thesis
      by (auto intro: cod_spec.touch)
  qed
qed

section \<open>The service\<close>

datatype cod_call =
    CollectCod instant string string string jsnum
  | SubmitRemittance instant string string string jsnum
  | ConfirmRemittance instant string string jsnum

fun run_cod :: "cod_call \<Rightarrow> shop \<Rightarrow> app_error + shop" where
  "run_cod (CollectCod now newId ledgerId acc amount) s = map_sum id snd (collectCod now newId ledgerId acc amount s)"
| "run_cod (SubmitRemittance now newId refUuid acc amount) s =
     map_sum id snd (submitCodRemittance now newId refUuid acc amount s)"
| "run_cod (ConfirmRemittance now ledgerId i amount) s =
     map_sum id snd (confirmCodRemittanceInTx now ledgerId i amount s)"

definition cod_inv :: "shop \<Rightarrow> bool" where
  "cod_inv s \<longleftrightarrow> cod_books s \<and> balanced s \<and> distinct (map p_id (s_payments s))"

lemma run_cod_spec:
  assumes "cod_inv s" and "run_cod c s = Inr s'"
  shows "cod_spec s s'"
proof -
  from assms(1) have b: "cod_books s" "balanced s" by (simp_all add: cod_inv_def)
  show ?thesis
  proof (cases c)
    case (CollectCod now newId ledgerId acc amount)
    with assms(2) obtain v where "collectCod now newId ledgerId acc amount s = Inr (v, s')"
      by (auto dest!: map_sum_InrD)
    then obtain race where "collectCodInTransaction now newId ledgerId acc amount race s = Inr (v, s')"
      by (auto simp: collectCod_def split: if_splits sum.splits)
    with collect_in_spec [OF b] show ?thesis by blast
  next
    case (SubmitRemittance now newId refUuid acc amount)
    with assms(2) submit_spec show ?thesis by (auto dest!: map_sum_InrD)
  next
    case (ConfirmRemittance now ledgerId i amount)
    with assms(2) obtain v where "confirmCodRemittanceInTx now ledgerId i amount s = Inr (v, s')"
      by (auto dest!: map_sum_InrD)
    from confirm_spec [OF b(1) this] show ?thesis by blast
  qed
qed

lemma cod_spec_payment_ids:
  assumes "cod_spec s s'"
  shows "map p_id (s_payments s') = map p_id (s_payments s)"
  using assms
proof cases
  case touch
  then show ?thesis by (rule same_money_distinct)
next
  case (collect p c ps i now e es)
  have "map p_id ps = map p_id (map pay_view ps)" by simp
  also have "\<dots> = map p_id (s_payments s)" using collect(10) unfolding paid_view_def by simp
  finally show ?thesis by (simp add: collect(1))
qed simp_all

lemma cod_spec_inv: "cod_spec s s' \<Longrightarrow> cod_inv s \<Longrightarrow> cod_inv s'"
  unfolding cod_inv_def using cod_spec_books cod_spec_balanced cod_spec_payment_ids by metis

interpretation cod: refined_service "run_cod" "\<lambda>s. s" cod_spec cod_inv
  by unfold_locales (rule run_cod_spec, assumption+, rule cod_spec_inv)

section \<open>Custody\<close>

text \<open>What a driver still owes, collection by collection.\<close>

definition driver_owes :: "string \<Rightarrow> shop \<Rightarrow> int" where
  "driver_owes d s = sum_list (map (owed s) (filter (\<lambda>c. co_driverId c = d) (s_collections s)))"

lemma sum_concat: "sum_list (map h (concat xss)) = sum_list (map (\<lambda>xs. sum_list (map h xs)) xss)"
  for h :: "'a \<Rightarrow> int"
  by (induction xss) simp_all

lemma sum_parts:
  fixes h :: "'a \<Rightarrow> int"
  assumes "distinct (map f rs)" "\<forall>a \<in> set als. g a \<in> f ` set rs"
  shows "sum_list (map (\<lambda>r. sum_list (map h (filter (\<lambda>a. g a = f r) als))) rs) = sum_list (map h als)"
proof -
  have "mset (map h (concat (map (\<lambda>r. filter (\<lambda>a. g a = f r) als) rs))) = mset (map h als)"
    using mset_parts [OF assms(1), of g als] assms(2) by (simp add: filter_True)
  from mset_eq_sum_list [OF this] show ?thesis by (simp add: sum_concat comp_def)
qed

lemma driver_owes_eq:
  assumes b: "cod_books s"
  shows "driver_owes d s = collected_by d s - remitted_by d s"
    "sum_list (map al_allocatedAmountMinor (driver_allocations d s)) = remitted_by d s"
proof -
  let ?rs = "driverRemittances CONFIRMED d s" and ?cs = "filter (\<lambda>c. co_driverId c = d) (s_collections s)"
  let ?als = "driver_allocations d s"
  have "sum_list (map al_allocatedAmountMinor ?als) =
      sum_list (map (\<lambda>r. allocated_to (rm_id r) (s_allocations s)) ?rs)"
    unfolding driver_allocations_def allocationsOf_def allocated_to_def
    by (simp add: sum_concat comp_def)
  also have "\<dots> = sum_list (map rm_confirmedAmountMinor ?rs)"
    using cod_booksD(6) [OF b]
    by (intro arg_cong [where f = sum_list] map_cong) (auto simp: driverRemittances_def remittance_ok_def)
  also have "\<dots> = remitted_by d s" by (simp add: remitted_by_def driverRemittances_def conj_commute)
  finally show r: "sum_list (map al_allocatedAmountMinor ?als) = remitted_by d s" .
  have "al_collectionId a \<in> co_collectionId ` set ?cs" if a: "a \<in> set ?als" for a
  proof -
    have "a \<in> set (s_allocations s)" using a set_driver_allocations by blast
    from cod_booksD(7) [OF b this] obtain c where c: "c \<in> set (s_collections s)" "co_collectionId c = al_collectionId a"
      by (auto simp: allocation_ok_def)
    moreover have "al_remittanceId a \<in> rm_id ` set ?rs"
      using a by (auto simp: driver_allocations_def allocationsOf_def)
    ultimately show ?thesis
      using allocation_remittance [OF b \<open>a \<in> set (s_allocations s)\<close>, of c d] c
      by (intro image_eqI [of _ _ c]) auto
  qed
  moreover have "distinct (map co_collectionId ?cs)" using cod_booksD(1) [OF b] by (simp add: distinct_map_filter)
  ultimately have "sum_list (map (\<lambda>c. allocated_in ?als (co_collectionId c)) ?cs) = sum_list (map al_allocatedAmountMinor ?als)"
    unfolding allocated_in_def by (intro sum_parts) auto
  moreover have "map (\<lambda>c. allocated_in ?als (co_collectionId c)) ?cs = map (\<lambda>c. allocated_in (s_allocations s) (co_collectionId c)) ?cs"
    using driver_allocated [OF b] by (intro map_cong) simp_all
  ultimately show "driver_owes d s = collected_by d s - remitted_by d s"
    unfolding driver_owes_def owed_def collected_by_def sum_list_subtractf by (simp add: r)
qed

lemma driver_owes_nonneg: "cod_books s \<Longrightarrow> 0 \<le> driver_owes d s"
  unfolding driver_owes_def using driver_collections(3) by (intro sum_list_nonneg) auto

lemma minorString_int: "\<bar>n\<bar> \<le> MAX_SAFE_INTEGER \<Longrightarrow> minorString (JInt n) = Inr (show_int n)"
  by (auto simp: minorString_def abs_le_iff)

lemma custody_exact:
  assumes b: "cod_books s" and c: "collected_by d s \<le> MAX_SAFE_INTEGER"
  shows "computeOutstandingCustody d s = Inr \<lparr>cu_outstandingCustodyMinor = JInt (driver_owes d s),
     cu_collectedAmountMinor = JInt (collected_by d s), cu_confirmedAllocatedMinor = JInt (remitted_by d s),
     cu_openDeclaredCount = length (driverRemittances DECLARED d s)\<rparr>"
proof -
  let ?cs = "driverCollections d s" and ?m = "fold add_int (driver_allocations d s) []"
  have cs: "?cs = filter (\<lambda>c. co_driverId c = d) (s_collections s)"
    using cod_booksD(4) [OF b] by (auto simp: driverCollections_def collection_ok_def intro!: filter_cong)
  have col: "\<forall>c \<in> set ?cs. 0 < co_collectedAmountMinor c \<and> co_collectedAmountMinor c \<le> CATALOG_PRICE_MINOR_MAX"
    using cod_booksD(4) [OF b] by (simp add: cs collection_ok_def)
  have "map (\<lambda>c. parseMinorUnits (DbBig (co_collectedAmountMinor c))) ?cs = map JInt (map co_collectedAmountMinor ?cs)"
    unfolding map_map comp_def using col by (intro map_cong refl parseMinorUnits_range) auto
  moreover have sum: "sum_list (map co_collectedAmountMinor ?cs) = collected_by d s" by (simp add: cs collected_by_def)
  moreover have "\<forall>n \<in> set (map co_collectedAmountMinor ?cs). 0 \<le> n" using col by auto
  ultimately have l: "js_sum (map (\<lambda>c. parseMinorUnits (DbBig (co_collectedAmountMinor c))) ?cs) = JInt (collected_by d s)"
    using js_sum_ints [of "map co_collectedAmountMinor ?cs"] c by (simp only: sum)
  have r: "remitted_by d s \<le> collected_by d s"
    using driver_owes_nonneg [OF b, of d] driver_owes_eq(1) [OF b, of d] by simp
  have fold: "distinct (map fst ?m)" "sum_list (map snd ?m) = remitted_by d s"
    "js_default (map_of ?m k) 0 = allocated_in (driver_allocations d s) k" for k
    using fold_add_int [of "[]" "driver_allocations d s" k] driver_owes_eq(2) [OF b, of d] by simp_all
  have "\<forall>n \<in> set (map snd ?m). 0 \<le> n"
  proof
    fix n assume "n \<in> set (map snd ?m)"
    then obtain k where "(k, n) \<in> set ?m" by auto
    with fold(1) have "map_of ?m k = Some n" by simp
    with fold(3) [of k] allocated_bounds [OF b, of d k] show "0 \<le> n" by simp
  qed
  then have a: "js_sum (map snd (numbers ?m)) = JInt (remitted_by d s)"
    using js_sum_ints [of "map snd ?m"] r c by (simp add: fold(2))
  have "0 \<le> sum_list (map snd ?m)"
    by (rule sum_list_nonneg) (use \<open>\<forall>n \<in> set (map snd ?m). 0 \<le> n\<close> in blast)
  then have nn: "0 \<le> driver_owes d s" "0 \<le> remitted_by d s"
    using driver_owes_nonneg [OF b] by (simp_all add: fold(2))
  then have "js_sub (JInt (collected_by d s)) (JInt (remitted_by d s)) = JInt (driver_owes d s)"
    unfolding driver_owes_eq(1) [OF b] using r c by (intro js_sub_exact) simp
  with l a nn show ?thesis by (simp add: computeOutstandingCustody_def Let_def loaded_numbers [OF b])
qed

lemma run_calls_append: "run_calls run (xs @ ys) s = ebind (run_calls run xs s) (run_calls run ys)"
proof (induction xs arbitrary: s)
  case (Cons x xs)
  then show ?case by (cases "run x s") simp_all
qed simp

end
