(* ===== verification/Settlement_Books.thy ===== *)
theory Settlement_Books
  imports Settlement Cod_Books
begin

text \<open>
  What merchant settlements promise: the abstract machine \<open>settle_spec\<close> (open a draft, add lines to it,
  finalize it), the books it keeps (\<open>settlement_books\<close>: every order is sold once, every refund is
  charged once and never for more than it paid back, the totals of a settlement are the sums of its
  lines) and the proof that every call of the service is a step of it that keeps the ledger balanced.
\<close>

section \<open>Reading rows\<close>

lemma toSettlement_ok [guards]:
  "toSettlement r = Inr r' \<longleftrightarrow> r' = r \<and> 0 \<le> ms_grossSalesMinor r \<and> 0 \<le> ms_commissionMinor r"
  by (auto simp: toSettlement_def guards)

lemma toLine_ok [guards]:
  "toLine r = Inr r' \<longleftrightarrow> r' = r \<and> 0 \<le> ml_grossMerchandiseMinor r \<and> 0 \<le> ml_commissionMinor r \<and> 0 \<le> ml_merchantNetMinor r"
  by (auto simp: toLine_def guards)

lemma map_rows_ok: "map_rows f rs = Inr xs \<longleftrightarrow> list_all2 (\<lambda>r x. f r = Inr x) rs xs"
  by (induction rs arbitrary: xs) (auto simp: ebind_Inr list_all2_Cons1)

lemma map_rows_id:
  assumes "map_rows f rs = Inr xs" and "\<And>r x. f r = Inr x \<Longrightarrow> x = r"
  shows "xs = rs \<and> (\<forall>r \<in> set rs. f r = Inr r)"
proof -
  have "list_all2 (\<lambda>r x. f r = Inr x) rs xs" using assms(1) by (simp add: map_rows_ok)
  then show ?thesis by (induction rule: list_all2_induct) (use assms(2) in auto)
qed

lemma first_row_ok [guards]:
  "first_row f rows = Inr None \<longleftrightarrow> rows = []"
  "first_row f rows = Inr (Some x) \<longleftrightarrow> (\<exists>r rs. rows = r # rs \<and> f r = Inr x)"
  by (auto simp: first_row_def ebind_Inr split: list.splits)

lemma filter_first: "filter P xs = y # ys \<Longrightarrow> y \<in> set xs \<and> P y"
  by (metis (no_types, lifting) filter_eq_ConsD in_set_conv_decomp)

lemma findSettlementById_ok:
  "findSettlementById i s = Inr (Some m) \<Longrightarrow> m \<in> set (s_settlements s) \<and> ms_id m = i"
  by (auto simp: findSettlementById_def guards dest: filter_first)

lemma requireDraft_ok:
  "requireDraft i s = Inr m \<Longrightarrow> m \<in> set (s_settlements s) \<and> ms_id m = i \<and> ms_status m = SETTLEMENT_DRAFT"
  by (auto simp: requireDraft_def guards dest: findSettlementById_ok)

lemma listLines_ok:
  assumes "listLines i s = Inr ls"
  shows "ls = sort_key ml_createdAt (filter (\<lambda>l. ml_settlementId l = i) (s_settlementLines s))"
proof -
  from assms obtain xs where xs: "map_rows toLine (filter (\<lambda>l. ml_settlementId l = i) (s_settlementLines s)) = Inr xs"
    "ls = sort_key ml_createdAt xs" by (auto simp: listLines_def ebind_Inr)
  from map_rows_id [OF xs(1)] xs(2) show ?thesis by (simp add: guards)
qed

lemma sum_lines_mset:
  assumes "mset ls = mset ls'"
  shows "sum_lines ty f ls = sum_lines ty f ls'"
proof -
  have "mset (map f (filter (\<lambda>l. ml_type l = ty) ls)) = mset (map f (filter (\<lambda>l. ml_type l = ty) ls'))"
    using assms by simp
  then show ?thesis unfolding sum_lines_def by (metis sum_mset_sum_list)
qed

lemma derive_mset:
  assumes "mset ls = mset ls'"
  shows "deriveSettlementTotals ls = deriveSettlementTotals ls'"
  by (simp only: deriveSettlementTotals_sums sum_line_due sum_lines_mset [OF assms])

section \<open>The machine\<close>

definition sale_orders :: "settlement_line list \<Rightarrow> string option list" where
  "sale_orders ls = map ml_orderId (filter (\<lambda>l. ml_type l = SALE) ls)"

definition adjusted_refunds :: "settlement_line list \<Rightarrow> string option list" where
  "adjusted_refunds ls = map ml_reference (filter (\<lambda>l. ml_type l = REFUND_ADJUSTMENT) ls)"

definition lines_of :: "string \<Rightarrow> settlement_line list \<Rightarrow> settlement_line list" where
  "lines_of i ls = filter (\<lambda>l. ml_settlementId l = i) ls"

lemma line_lists_simps [simp]:
  "sale_orders (xs @ ys) = sale_orders xs @ sale_orders ys"
  "adjusted_refunds (xs @ ys) = adjusted_refunds xs @ adjusted_refunds ys"
  "lines_of i (xs @ ys) = lines_of i xs @ lines_of i ys"
  by (simp_all add: sale_orders_def adjusted_refunds_def lines_of_def)

lemma in_sale_orders: "k \<in> set (sale_orders ls) \<longleftrightarrow> (\<exists>l \<in> set ls. ml_type l = SALE \<and> ml_orderId l = k)"
  by (auto simp: sale_orders_def image_iff)

lemma in_adjusted_refunds:
  "k \<in> set (adjusted_refunds ls) \<longleftrightarrow> (\<exists>l \<in> set ls. ml_type l = REFUND_ADJUSTMENT \<and> ml_reference l = k)"
  by (auto simp: adjusted_refunds_def image_iff)

definition sale_line_ok :: "directory \<Rightarrow> shop \<Rightarrow> settlement_row \<Rightarrow> settlement_line \<Rightarrow> bool" where
  "sale_line_ok dir s m l \<longleftrightarrow> (\<exists>o' \<in> set (s_orders s). \<exists>p \<in> set (s_payments s). \<exists>sn \<in> set (s_snapshots s).
     ml_orderId l = Some (o_id o') \<and> o_status o' = O_COMPLETED \<and>
     dir_merchantOfBranch dir (o_merchantBranchId o') = Some (ms_merchantId m) \<and>
     p_orderId p = o_id o' \<and> p_status p = PAY_SUCCEEDED \<and> sn_orderId sn = o_id o' \<and>
     ml_grossMerchandiseMinor l = sn_grossMerchandiseSubtotalMinor sn \<and>
     ml_commissionMinor l = sn_merchantCommissionAmountMinor sn \<and>
     ml_merchantNetMinor l = sn_merchantNetAmountMinor sn \<and> 0 \<le> ml_merchantNetMinor l)"

definition adjustment_ok :: "directory \<Rightarrow> shop \<Rightarrow> settlement_row \<Rightarrow> settlement_line \<Rightarrow> bool" where
  "adjustment_ok dir s m l \<longleftrightarrow> (\<exists>r \<in> set (s_refunds s). \<exists>o' \<in> set (s_orders s).
     ml_reference l = Some (r_id r) \<and> ml_orderId l = Some (r_orderId r) \<and> r_status r = REFUNDED \<and>
     o_id o' = r_orderId r \<and> dir_merchantOfBranch dir (o_merchantBranchId o') = Some (ms_merchantId m) \<and>
     ml_adjustmentMinor l < 0 \<and> - ml_adjustmentMinor l \<le> r_amountMinor r)"

definition line_entitled :: "directory \<Rightarrow> shop \<Rightarrow> settlement_row \<Rightarrow> settlement_line \<Rightarrow> bool" where
  "line_entitled dir s m l \<longleftrightarrow> ml_settlementId l = ms_id m \<and>
     (case ml_type l of SALE \<Rightarrow> sale_line_ok dir s m l | REFUND_ADJUSTMENT \<Rightarrow> adjustment_ok dir s m l)"

definition sold_before :: "settlement_line list \<Rightarrow> bool" where
  "sold_before ls \<longleftrightarrow> (\<forall>l \<in> set ls. ml_type l = REFUND_ADJUSTMENT \<longrightarrow> ml_orderId l \<in> set (sale_orders ls))"

definition totals_current :: "settlement_line list \<Rightarrow> settlement_row \<Rightarrow> bool" where
  "totals_current ls m \<longleftrightarrow> with_totals (deriveSettlementTotals (lines_of (ms_id m) ls)) m = m"

definition open_drafts :: "string \<Rightarrow> settlement_row list \<Rightarrow> settlement_row list" where
  "open_drafts m ms = filter (\<lambda>x. ms_merchantId x = m \<and> ms_status x = SETTLEMENT_DRAFT) ms"

definition settlement_books :: "directory \<Rightarrow> shop \<Rightarrow> bool" where
  "settlement_books dir s \<longleftrightarrow>
     distinct (map ms_id (s_settlements s)) \<and> distinct (map ml_id (s_settlementLines s)) \<and>
     distinct (sale_orders (s_settlementLines s)) \<and> distinct (adjusted_refunds (s_settlementLines s)) \<and>
     sold_before (s_settlementLines s) \<and>
     (\<forall>l \<in> set (s_settlementLines s). \<exists>m \<in> set (s_settlements s). line_entitled dir s m l) \<and>
     (\<forall>m \<in> set (s_settlements s). totals_current (s_settlementLines s) m) \<and>
     (\<forall>m. length (open_drafts m (s_settlements s)) \<le> 1)"

lemma settlement_booksD:
  assumes "settlement_books dir s"
  shows "distinct (map ms_id (s_settlements s))" "distinct (map ml_id (s_settlementLines s))"
    "distinct (sale_orders (s_settlementLines s))" "distinct (adjusted_refunds (s_settlementLines s))"
    "sold_before (s_settlementLines s)"
    "l \<in> set (s_settlementLines s) \<Longrightarrow> \<exists>m \<in> set (s_settlements s). line_entitled dir s m l"
    "m \<in> set (s_settlements s) \<Longrightarrow> totals_current (s_settlementLines s) m"
    "length (open_drafts i (s_settlements s)) \<le> 1"
  using assms unfolding settlement_books_def by blast+

lemma settlement_booksI:
  assumes "distinct (map ms_id (s_settlements s))" "distinct (map ml_id (s_settlementLines s))"
    "distinct (sale_orders (s_settlementLines s))" "distinct (adjusted_refunds (s_settlementLines s))"
    "sold_before (s_settlementLines s)"
    "\<And>l. l \<in> set (s_settlementLines s) \<Longrightarrow> \<exists>m \<in> set (s_settlements s). line_entitled dir s m l"
    "\<And>m. m \<in> set (s_settlements s) \<Longrightarrow> totals_current (s_settlementLines s) m"
    "\<And>m. length (open_drafts m (s_settlements s)) \<le> 1"
  shows "settlement_books dir s"
  using assms unfolding settlement_books_def by blast

text \<open>What makes a batch of new lines admissible beside the lines the table already holds.\<close>

definition fits :: "directory \<Rightarrow> shop \<Rightarrow> settlement_row \<Rightarrow> settlement_line list \<Rightarrow> bool" where
  "fits dir s m ls \<longleftrightarrow> (\<forall>l \<in> set ls. line_entitled dir s m l) \<and>
     distinct (map ml_id (s_settlementLines s @ ls)) \<and> distinct (sale_orders (s_settlementLines s @ ls)) \<and>
     distinct (adjusted_refunds (s_settlementLines s @ ls)) \<and> sold_before (s_settlementLines s @ ls)"

definition fill :: "string \<Rightarrow> settlement_line list \<Rightarrow> shop \<Rightarrow> shop" where
  "fill i ls s = s\<lparr>s_settlementLines := s_settlementLines s @ ls,
     s_settlements := t_update (\<lambda>x. ms_id x = i)
       (with_totals (deriveSettlementTotals (lines_of i (s_settlementLines s @ ls)))) (s_settlements s)\<rparr>"

inductive settle_spec :: "directory \<Rightarrow> shop \<Rightarrow> shop \<Rightarrow> bool" for dir :: directory where
  same: "settle_spec dir s s"
| opened: "ms_id m \<notin> ms_id ` set (s_settlements s) \<Longrightarrow> ms_status m = SETTLEMENT_DRAFT \<Longrightarrow>
    open_drafts (ms_merchantId m) (s_settlements s) = [] \<Longrightarrow> with_totals (deriveSettlementTotals []) m = m \<Longrightarrow>
    settle_spec dir s (s\<lparr>s_settlements := s_settlements s @ [m]\<rparr>)"
| filled: "m \<in> set (s_settlements s) \<Longrightarrow> ms_status m = SETTLEMENT_DRAFT \<Longrightarrow> fits dir s m ls \<Longrightarrow>
    settle_spec dir s (fill (ms_id m) ls s)"
| finalized: "m \<in> set (s_settlements s) \<Longrightarrow> ms_status m = SETTLEMENT_DRAFT \<Longrightarrow>
    post_ledger_event i now (EvSettlement (ms_id m) (ms_merchantId m) (ms_netPayableMinor m)) (s_ledger s) = Inr (e, es) \<Longrightarrow>
    settle_spec dir s (s\<lparr>s_settlements := t_update (\<lambda>x. ms_id x = ms_id m)
       (\<lambda>x. x\<lparr>ms_status := SETTLEMENT_FINALIZED\<rparr>) (s_settlements s), s_ledger := es\<rparr>)"

lemma with_totals_simps [simp]:
  "ms_id (with_totals t m) = ms_id m" "ms_merchantId (with_totals t m) = ms_merchantId m"
  "ms_status (with_totals t m) = ms_status m" "ms_periodStart (with_totals t m) = ms_periodStart m"
  "ms_netPayableMinor (with_totals t m) = st_netPayableMinor t"
  "with_totals t (with_totals u m) = with_totals t m"
  "with_totals t (m\<lparr>ms_status := x\<rparr>) = (with_totals t m)\<lparr>ms_status := x\<rparr>"
  by (simp_all add: with_totals_def)

lemma open_drafts_update [simp]:
  assumes "\<And>x. ms_merchantId (f x) = ms_merchantId x" "\<And>x. ms_status (f x) = ms_status x"
  shows "length (open_drafts m (t_update P f xs)) = length (open_drafts m xs)"
  by (induction xs) (simp_all add: open_drafts_def t_update_def assms)

lemma line_entitled_cong:
  assumes "line_entitled dir s m l" "ms_id m' = ms_id m" "ms_merchantId m' = ms_merchantId m"
    and "s_orders s' = s_orders s" "s_payments s' = s_payments s" "s_snapshots s' = s_snapshots s" "s_refunds s' = s_refunds s"
  shows "line_entitled dir s' m' l"
  using assms unfolding line_entitled_def sale_line_ok_def adjustment_ok_def
  by (cases "ml_type l") simp_all

lemma totals_current_status: "totals_current ls m \<Longrightarrow> totals_current ls (m\<lparr>ms_status := x\<rparr>)"
  by (simp add: totals_current_def)

lemma settle_spec_books:
  assumes "settle_spec dir s s'" and b: "settlement_books dir s"
  shows "settlement_books dir s'"
  using assms(1)
proof cases
  case same
  with b show ?thesis by simp
next
  case (opened m)
  show ?thesis
  proof (rule settlement_booksI)
    fix l assume "l \<in> set (s_settlementLines s')"
    then have "l \<in> set (s_settlementLines s)" by (simp add: opened(1))
    with settlement_booksD(6) [OF b] obtain x where x: "x \<in> set (s_settlements s)" "line_entitled dir s x l" by blast
    have "line_entitled dir s' x l" by (rule line_entitled_cong [OF x(2)]) (simp_all add: opened(1))
    with x(1) show "\<exists>m \<in> set (s_settlements s'). line_entitled dir s' m l" by (auto simp: opened(1))
  next
    have "ml_settlementId l \<noteq> ms_id m" if l: "l \<in> set (s_settlementLines s)" for l
    proof -
      obtain x where "x \<in> set (s_settlements s)" "ml_settlementId l = ms_id x"
        using settlement_booksD(6) [OF b l] by (auto simp: line_entitled_def)
      with opened(2) show ?thesis by (metis image_eqI)
    qed
    then have "lines_of (ms_id m) (s_settlementLines s) = []" by (simp add: lines_of_def filter_False)
    then show "totals_current (s_settlementLines s') x" if "x \<in> set (s_settlements s')" for x
      using that settlement_booksD(7) [OF b, of x] opened(5) by (auto simp: opened(1) totals_current_def)
  next
    show "length (open_drafts i (s_settlements s')) \<le> 1" for i
      using settlement_booksD(8) [OF b, of i] opened(3,4) by (auto simp: opened(1) open_drafts_def)
  qed (use settlement_booksD(1-5) [OF b] opened(2) in \<open>auto simp: opened(1)\<close>)
next
  case (filled m ls)
  note fit = filled(4) [unfolded fits_def]
  have tot: "totals_current (s_settlementLines s @ ls) x" if "x \<in> set (s_settlements s)" "ms_id x \<noteq> ms_id m" for x
  proof -
    have "lines_of (ms_id x) ls = []" using fit that(2) by (auto simp: lines_of_def filter_empty_conv line_entitled_def)
    with settlement_booksD(7) [OF b that(1)] show ?thesis by (simp add: totals_current_def)
  qed
  show ?thesis
  proof (rule settlement_booksI)
    fix l assume "l \<in> set (s_settlementLines s')"
    then obtain x where x: "x \<in> set (s_settlements s)" "line_entitled dir s x l"
      using settlement_booksD(6) [OF b, of l] fit filled(2) by (auto simp: filled(1) fill_def)
    let ?x = "if ms_id x = ms_id m then with_totals (deriveSettlementTotals (lines_of (ms_id m) (s_settlementLines s @ ls))) x else x"
    have "?x \<in> set (s_settlements s')" using x(1) by (auto simp: filled(1) fill_def t_update_in)
    moreover have "line_entitled dir s' ?x l" by (rule line_entitled_cong [OF x(2)]) (simp_all add: filled(1) fill_def)
    ultimately show "\<exists>m \<in> set (s_settlements s'). line_entitled dir s' m l" by blast
  next
    fix x assume "x \<in> set (s_settlements s')"
    then obtain y where y: "y \<in> set (s_settlements s)"
      "x = (if ms_id y = ms_id m then with_totals (deriveSettlementTotals (lines_of (ms_id m) (s_settlementLines s @ ls))) y else y)"
      by (auto simp: filled(1) fill_def t_update_in)
    show "totals_current (s_settlementLines s') x"
    proof (cases "ms_id y = ms_id m")
      case True
      with y(2) show ?thesis by (simp add: filled(1) fill_def totals_current_def)
    next
      case False
      with tot [OF y(1)] y(2) show ?thesis by (simp add: filled(1) fill_def)
    qed
  next
    show "length (open_drafts i (s_settlements s')) \<le> 1" for i
      using settlement_booksD(8) [OF b, of i] by (simp add: filled(1) fill_def)
  qed (use settlement_booksD(1) [OF b] fit in \<open>simp_all add: filled(1) fill_def\<close>)
next
  case (finalized m i now e es)
  have fin: "x \<in> set (s_settlements s') \<Longrightarrow>
      \<exists>y \<in> set (s_settlements s). x = (if ms_id y = ms_id m then y\<lparr>ms_status := SETTLEMENT_FINALIZED\<rparr> else y)" for x
    by (simp add: finalized(1) t_update_in)
  show ?thesis
  proof (rule settlement_booksI)
    fix l assume "l \<in> set (s_settlementLines s')"
    then obtain x where x: "x \<in> set (s_settlements s)" "line_entitled dir s x l"
      using settlement_booksD(6) [OF b, of l] by (auto simp: finalized(1))
    let ?x = "if ms_id x = ms_id m then x\<lparr>ms_status := SETTLEMENT_FINALIZED\<rparr> else x"
    have "?x \<in> set (s_settlements s')" using x(1) by (auto simp: finalized(1) t_update_in)
    moreover have "line_entitled dir s' ?x l" by (rule line_entitled_cong [OF x(2)]) (simp_all add: finalized(1))
    ultimately show "\<exists>m \<in> set (s_settlements s'). line_entitled dir s' m l" by blast
  next
    fix x assume "x \<in> set (s_settlements s')"
    from fin [OF this] settlement_booksD(7) [OF b] show "totals_current (s_settlementLines s') x"
      by (auto simp: finalized(1) totals_current_status)
  next
    fix i
    have "length (open_drafts i (t_update P (\<lambda>x. x\<lparr>ms_status := SETTLEMENT_FINALIZED\<rparr>) xs)) \<le> length (open_drafts i xs)" for P xs
      by (induction xs) (auto simp: open_drafts_def t_update_def)
    with settlement_booksD(8) [OF b, of i] show "length (open_drafts i (s_settlements s')) \<le> 1"
      unfolding finalized(1) by simp (meson order_trans)
  qed (use settlement_booksD(1-5) [OF b] in \<open>simp_all add: finalized(1)\<close>)
qed

section \<open>The calls\<close>

text \<open>What an order that the repository offers for settlement brings to its SALE line.\<close>

definition sale_source :: "directory \<Rightarrow> shop \<Rightarrow> settlement_row \<Rightarrow> sale_order \<Rightarrow> bool" where
  "sale_source dir s m c \<longleftrightarrow> (\<exists>o' \<in> set (s_orders s). \<exists>p \<in> set (s_payments s). \<exists>sn \<in> set (s_snapshots s).
     dir_merchantOfBranch dir (o_merchantBranchId o') = Some (ms_merchantId m) \<and> p_orderId p = o_id o' \<and>
     sn_orderId sn = o_id o' \<and> saleOrder o' p sn = Inr c)"

lemma saleOrder_ok [guards]:
  "saleOrder o' p sn = Inr c \<longleftrightarrow> 0 \<le> sn_grossMerchandiseSubtotalMinor sn \<and> 0 \<le> sn_merchantCommissionAmountMinor sn \<and>
     0 \<le> sn_merchantNetAmountMinor sn \<and>
     c = \<lparr>so_orderId = o_id o', so_completedAt = o_completedAt o',
          so_grossMerchandiseSubtotalMinor = sn_grossMerchandiseSubtotalMinor sn,
          so_merchantCommissionAmountMinor = sn_merchantCommissionAmountMinor sn,
          so_merchantNetAmountMinor = sn_merchantNetAmountMinor sn, so_paymentStatus = p_status p,
          so_orderStatus = o_status o'\<rparr>"
  by (auto simp: saleOrder_def guards)

lemma eligible_source:
  assumes "findEligibleSaleOrders dir (ms_merchantId m) a b s = Inr cs" and "c \<in> set cs"
  shows "sale_source dir s m c"
proof -
  have "list_all2 (\<lambda>(o', p, sn) x. saleOrder o' p sn = Inr x) (joinedSales dir (ms_merchantId m) a b s) cs"
    using assms(1) by (simp add: findEligibleSaleOrders_def map_rows_ok case_prod_unfold)
  with assms(2) obtain o' p sn where "(o', p, sn) \<in> set (joinedSales dir (ms_merchantId m) a b s)" "saleOrder o' p sn = Inr c"
    by (auto simp: list_all2_conv_all_nth in_set_conv_nth case_prod_unfold) (metis nth_mem prod.collapse)
  then show ?thesis unfolding joinedSales_def sale_source_def by (auto split: if_splits)
qed

lemma orderContext_source:
  assumes "findOrderSettlementContext dir orderId s = Inr (Some (ms_merchantId m, c))"
  shows "sale_source dir s m c \<and> so_orderId c = orderId"
proof -
  from assms obtain o' p sn where f: "t_find o_id orderId (s_orders s) = Some o'"
    "t_find p_orderId orderId (s_payments s) = Some p" "t_find sn_orderId orderId (s_snapshots s) = Some sn"
    "dir_merchantOfBranch dir (o_merchantBranchId o') = Some (ms_merchantId m)" "saleOrder o' p sn = Inr c"
    by (auto simp: findOrderSettlementContext_def ebind_Inr split: option.splits)
  with t_find_Some [OF f(1)] t_find_Some [OF f(2)] t_find_Some [OF f(3)] show ?thesis
    unfolding sale_source_def by (auto simp: saleOrder_ok)
qed

lemma createLine_ok:
  assumes "createLine now newId i orderId ty a ref s = Inr (l, s')"
  shows "newId \<notin> ml_id ` set (s_settlementLines s) \<and> s' = s\<lparr>s_settlementLines := s_settlementLines s @ [l]\<rparr> \<and>
    l = \<lparr>ml_id = newId, ml_settlementId = i, ml_orderId = Some orderId, ml_type = ty,
         ml_grossMerchandiseMinor = la_grossMerchandiseMinor a, ml_commissionMinor = la_commissionMinor a,
         ml_merchantNetMinor = la_merchantNetMinor a, ml_adjustmentMinor = la_adjustmentMinor a,
         ml_reference = ref, ml_createdAt = now\<rparr>"
  using assms by (auto simp: createLine_def Let_def guards)

lemma no_sale_line:
  "findSaleLineByOrderId orderId s = Inr None \<longleftrightarrow> Some orderId \<notin> set (sale_orders (s_settlementLines s))"
  by (auto simp: findSaleLineByOrderId_def guards filter_empty_conv in_sale_orders)

lemma has_sale_line:
  "findSaleLineByOrderId orderId s = Inr (Some l) \<Longrightarrow> Some orderId \<in> set (sale_orders (s_settlementLines s))"
  by (auto simp: findSaleLineByOrderId_def guards in_sale_orders dest!: filter_first)

lemma no_adjustment:
  "findRefundAdjustmentByRefundId i s = Inr None \<longleftrightarrow> Some i \<notin> set (adjusted_refunds (s_settlementLines s))"
  by (auto simp: findRefundAdjustmentByRefundId_def guards filter_empty_conv in_adjusted_refunds)

text \<open>A state that differs in its settlement lines only offers the same sales.\<close>

lemma entitled_lines [simp]:
  "line_entitled dir (s\<lparr>s_settlementLines := ls\<rparr>) = line_entitled dir s"
  "sale_source dir (s\<lparr>s_settlementLines := ls\<rparr>) = sale_source dir s"
  by (simp_all add: fun_eq_iff line_entitled_def sale_line_ok_def adjustment_ok_def sale_source_def
      split: settlement_line_type.split)

lemma createSaleLine_ok:
  assumes "createSaleLine now newId (ms_id m) (so_orderId c) c s = Inr (l, s')"
    and "sale_source dir s m c" "saleEligible c" "Some (so_orderId c) \<notin> set (sale_orders (s_settlementLines s))"
    and "fits dir s m []"
  shows "s' = s\<lparr>s_settlementLines := s_settlementLines s @ [l]\<rparr> \<and> fits dir s m [l] \<and>
    Some (so_orderId c) \<in> set (sale_orders [l])"
proof -
  from assms(1) obtain a where a: "buildSaleLineAmounts (so_grossMerchandiseSubtotalMinor c)
      (so_merchantCommissionAmountMinor c) (so_merchantNetAmountMinor c) = Inr a"
    "createLine now newId (ms_id m) (so_orderId c) SALE a None s = Inr (l, s')"
    by (auto simp: createSaleLine_def guards)
  from a(1) have a': "a = \<lparr>la_grossMerchandiseMinor = so_grossMerchandiseSubtotalMinor c,
      la_commissionMinor = so_merchantCommissionAmountMinor c, la_merchantNetMinor = so_merchantNetAmountMinor c,
      la_adjustmentMinor = 0\<rparr>" by (simp add: buildSaleLineAmounts_ok)
  from createLine_ok [OF a(2)] have l: "newId \<notin> ml_id ` set (s_settlementLines s)"
    "s' = s\<lparr>s_settlementLines := s_settlementLines s @ [l]\<rparr>" "ml_id l = newId" "ml_settlementId l = ms_id m"
    "ml_type l = SALE" "ml_orderId l = Some (so_orderId c)"
    "ml_grossMerchandiseMinor l = so_grossMerchandiseSubtotalMinor c"
    "ml_commissionMinor l = so_merchantCommissionAmountMinor c" "ml_merchantNetMinor l = so_merchantNetAmountMinor c"
    by (simp_all add: a')
  have "sale_line_ok dir s m l"
    using assms(2,3) l(6-9) unfolding sale_source_def sale_line_ok_def
    by (auto simp: saleOrder_ok saleEligible_def isSaleEligibleOrder_def) blast
  with l(4,5) have "line_entitled dir s m l" by (simp add: line_entitled_def)
  with assms(4,5) l show ?thesis
    by (auto simp: fits_def sale_orders_def adjusted_refunds_def sold_before_def)
qed

text \<open>Filling a draft in two goes is filling it once.\<close>

lemma fits_append:
  assumes "fits dir s m xs" "fits dir (s\<lparr>s_settlementLines := s_settlementLines s @ xs\<rparr>) m ys"
  shows "fits dir s m (xs @ ys)"
  using assms by (auto simp: fits_def)

lemma addSaleLines_ok:
  assumes "efold (addSaleLine now newIds (ms_id m)) (n, s) cs = Inr (n', s')"
    and "\<forall>c \<in> set cs. sale_source dir s m c" and "fits dir s m []"
  shows "\<exists>ls. s' = s\<lparr>s_settlementLines := s_settlementLines s @ ls\<rparr> \<and> n' = n + int (length ls) \<and> fits dir s m ls"
  using assms
proof (induction cs arbitrary: n s)
  case Nil
  then show ?case by (intro exI [of _ "[]"]) simp
next
  case (Cons c cs)
  from Cons.prems(1) obtain k s1 where st: "addSaleLine now newIds (ms_id m) (n, s) c = Inr (k, s1)"
    and rest: "efold (addSaleLine now newIds (ms_id m)) (k, s1) cs = Inr (n', s')" by (auto simp: ebind_Inr)
  have "(k = n \<and> s1 = s) \<or> (\<exists>l. k = n + 1 \<and> s1 = s\<lparr>s_settlementLines := s_settlementLines s @ [l]\<rparr> \<and> fits dir s m [l])"
  proof (cases "k = n \<and> s1 = s")
    case False
    with st obtain l where l: "createSaleLine now (newIds (so_orderId c)) (ms_id m) (so_orderId c) c s = Inr (l, s1)"
      "k = n + 1" "saleEligible c" "findSaleLineByOrderId (so_orderId c) s = Inr None"
      by (auto simp: addSaleLine_def ebind_Inr split: if_splits)
    from createSaleLine_ok [OF l(1) _ l(3) _ Cons.prems(3)] Cons.prems(2) l(2,4) show ?thesis
      by (auto simp: no_sale_line)
  qed simp
  then show ?case
  proof (elim disjE exE conjE)
    assume "k = n" "s1 = s"
    with Cons.IH [OF _ _ Cons.prems(3)] rest Cons.prems(2) show ?case by simp
  next
    fix l assume l: "k = n + 1" "s1 = s\<lparr>s_settlementLines := s_settlementLines s @ [l]\<rparr>" "fits dir s m [l]"
    have "fits dir s1 m []" using l(3) by (simp add: l(2) fits_def)
    from Cons.IH [OF rest _ this] Cons.prems(2) obtain ls where ls:
      "s' = s1\<lparr>s_settlementLines := s_settlementLines s1 @ ls\<rparr>" "n' = k + int (length ls)" "fits dir s1 m ls"
      by (auto simp: l(2))
    with fits_append [OF l(3)] l show ?case by (intro exI [of _ "l # ls"]) simp
  qed
qed

lemma refresh_fill:
  assumes "refreshDraftTotals (ms_id m) (s\<lparr>s_settlementLines := s_settlementLines s @ ls\<rparr>) = Inr s'"
    and m: "m \<in> set (s_settlements s)" "ms_status m = SETTLEMENT_DRAFT" "distinct (map ms_id (s_settlements s))"
  shows "s' = fill (ms_id m) ls s"
proof -
  let ?s = "s\<lparr>s_settlementLines := s_settlementLines s @ ls\<rparr>"
  from assms(1) obtain xs where xs: "listLines (ms_id m) ?s = Inr xs"
    "s' = updateDraftTotals (ms_id m) (deriveSettlementTotals xs) ?s" by (auto simp: refreshDraftTotals_def ebind_Inr)
  from listLines_ok [OF xs(1)] have "deriveSettlementTotals xs = deriveSettlementTotals (lines_of (ms_id m) (s_settlementLines s @ ls))"
    by (intro derive_mset) (simp add: lines_of_def)
  moreover have "(ms_id x = ms_id m \<and> ms_status x = SETTLEMENT_DRAFT) = (ms_id x = ms_id m)"
    if "x \<in> set (s_settlements s)" for x
    using that m by (auto simp: distinct_map inj_on_def)
  then have "t_update (\<lambda>x. ms_id x = ms_id m \<and> ms_status x = SETTLEMENT_DRAFT) f (s_settlements s) =
      t_update (\<lambda>x. ms_id x = ms_id m) f (s_settlements s)" for f
    by (simp add: t_update_def)
  ultimately show ?thesis by (simp add: xs(2) updateDraftTotals_def fill_def)
qed

lemma fits_nothing: "settlement_books dir s \<Longrightarrow> fits dir s m []"
  using settlement_booksD(2-5) [of dir s] by (simp add: fits_def)

lemma buildSaleLines_spec:
  assumes b: "settlement_books dir s" and "buildSaleLinesInTx dir now newIds i adminId s = Inr (added, s')"
  shows "settle_spec dir s s'"
proof -
  from assms(2) obtain m cs s1 where m: "requireDraft i s = Inr m"
    and cs: "findEligibleSaleOrders dir (ms_merchantId m) (ms_periodStart m) (ms_periodEnd m) s = Inr cs"
    and f: "efold (addSaleLine now newIds (ms_id m)) (0, s) cs = Inr (added, s1)"
    and r: "if 0 < added then refreshDraftTotals (ms_id m) s1 = Inr s' else s' = s1"
    by (auto simp: buildSaleLinesInTx_def ebind_Inr split: if_splits)
  note m' = requireDraft_ok [OF m]
  from addSaleLines_ok [OF f _ fits_nothing [OF b]] eligible_source [OF cs] obtain ls where
    ls: "s1 = s\<lparr>s_settlementLines := s_settlementLines s @ ls\<rparr>" "added = int (length ls)" "fits dir s m ls" by auto
  show ?thesis
  proof (cases "ls = []")
    case True
    with r ls(1,2) show ?thesis by (simp add: settle_spec.same)
  next
    case False
    with r ls(1,2) have "refreshDraftTotals (ms_id m) (s\<lparr>s_settlementLines := s_settlementLines s @ ls\<rparr>) = Inr s'" by simp
    from refresh_fill [OF this] m' settlement_booksD(1) [OF b] have "s' = fill (ms_id m) ls s" by simp
    with settle_spec.filled [OF _ _ ls(3)] m' show ?thesis by simp
  qed
qed

lemma refundContext_ok:
  assumes "findRefundSettlementContext dir i s = Inr (Some c)"
  shows "\<exists>r \<in> set (s_refunds s). \<exists>o' \<in> set (s_orders s). r_id r = i \<and> o_id o' = r_orderId r \<and>
    dir_merchantOfBranch dir (o_merchantBranchId o') = Some (rs_merchantId c) \<and>
    c = \<lparr>rs_refundId = i, rs_orderId = r_orderId r, rs_status = r_status r, rs_amountMinor = r_amountMinor r,
         rs_completedAt = r_completedAt r, rs_merchantId = rs_merchantId c\<rparr>"
proof -
  from assms obtain r where r: "t_find r_id i (s_refunds s) = Some r" unfolding findRefundSettlementContext_def
    by (cases "t_find r_id i (s_refunds s)") auto
  with assms obtain mer x where o': "findOrderSettlementContext dir (r_orderId r) s = Inr (Some (mer, x))"
    and c: "c = \<lparr>rs_refundId = r_id r, rs_orderId = r_orderId r, rs_status = r_status r, rs_amountMinor = r_amountMinor r,
         rs_completedAt = r_completedAt r, rs_merchantId = mer\<rparr>"
    by (auto simp: findRefundSettlementContext_def guards split: option.splits)
  from o' obtain q where q: "t_find o_id (r_orderId r) (s_orders s) = Some q"
    "dir_merchantOfBranch dir (o_merchantBranchId q) = Some mer"
    by (auto simp: findOrderSettlementContext_def ebind_Inr split: option.splits)
  from t_find_Some [OF r] t_find_Some [OF q(1)] q(2) c show ?thesis by auto
qed

lemma ensureSaleLine_ok:
  assumes "ensureSaleLine dir now newId m orderId s = Inr s'" and "fits dir s m []"
  shows "\<exists>ls. s' = s\<lparr>s_settlementLines := s_settlementLines s @ ls\<rparr> \<and> fits dir s m ls \<and>
    adjusted_refunds ls = [] \<and> Some orderId \<in> set (sale_orders (s_settlementLines s @ ls))"
proof -
  from assms(1) obtain sale where sale: "findSaleLineByOrderId orderId s = Inr sale" by (auto simp: ensureSaleLine_def ebind_Inr)
  show ?thesis
  proof (cases sale)
    case (Some l)
    with sale assms(1) have "s' = s" by (simp add: ensureSaleLine_def)
    with assms(2) has_sale_line sale Some show ?thesis by (intro exI [of _ "[]"]) (simp add: adjusted_refunds_def)
  next
    case None
    with assms(1) sale obtain mer c l where c: "findOrderSettlementContext dir orderId s = Inr (Some (ms_merchantId m, c))"
      "saleEligible c" "createSaleLine now newId (ms_id m) orderId c s = Inr (l, s')"
      by (auto simp: ensureSaleLine_def guards split: option.splits if_splits)
    from orderContext_source [OF c(1)] have src: "sale_source dir s m c" "so_orderId c = orderId" by simp_all
    have "s' = s\<lparr>s_settlementLines := s_settlementLines s @ [l]\<rparr> \<and> fits dir s m [l] \<and> Some (so_orderId c) \<in> set (sale_orders [l])"
      by (rule createSaleLine_ok [OF _ src(1) c(2) _ assms(2)]) (use c(3) sale None in \<open>simp_all add: src no_sale_line\<close>)
    moreover from this have "adjusted_refunds [l] = []" by (auto simp: sale_orders_def adjusted_refunds_def split: if_splits)
    ultimately show ?thesis by (intro exI [of _ "[l]"]) (simp add: src)
  qed
qed

lemma attachAdjustment_spec:
  assumes b: "settlement_books dir s"
    and "attachRefundAdjustmentInTx dir now saleId newId i refundId liability adminId s = Inr (v, s')"
  shows "settle_spec dir s s'"
proof (cases v)
  case None
  with assms(2) have "s' = s" by (auto simp: attachRefundAdjustmentInTx_def guards split: option.splits if_splits)
  then show ?thesis by (simp add: settle_spec.same)
next
  case (Some l)
  from assms(2) obtain m c n s1 s2 where m: "requireDraft i s = Inr m"
    and c: "findRefundSettlementContext dir refundId s = Inr (Some c)" "rs_merchantId c = ms_merchantId m"
      "isRefundEligibleForAdjustment (rs_status c) (rs_completedAt c)"
    and n: "requireMerchantLiabilityMinor liability (rs_amountMinor c) = Inr n" "n \<noteq> 0"
    and none: "findRefundAdjustmentByRefundId (rs_refundId c) s = Inr None"
    and s1: "ensureSaleLine dir now saleId m (rs_orderId c) s = Inr s1"
    and s2: "createLine now newId (ms_id m) (rs_orderId c) REFUND_ADJUSTMENT (buildRefundAdjustmentAmounts n)
      (Some (rs_refundId c)) s1 = Inr (l, s2)" and r: "refreshDraftTotals (ms_id m) s2 = Inr s'"
    unfolding attachRefundAdjustmentInTx_def by (auto simp: Some ebind_Inr emap_Inr split: option.splits if_splits)
  note m' = requireDraft_ok [OF m]
  from refundContext_ok [OF c(1)] obtain q o' where q: "q \<in> set (s_refunds s)" "o' \<in> set (s_orders s)"
    "r_id q = refundId" "o_id o' = r_orderId q" "dir_merchantOfBranch dir (o_merchantBranchId o') = Some (rs_merchantId c)"
    "rs_refundId c = refundId" "rs_orderId c = r_orderId q" "rs_status c = r_status q" "rs_amountMinor c = r_amountMinor q"
    by (metis refund_settlement_context.select_convs(1-4))
  from ensureSaleLine_ok [OF s1 fits_nothing [OF b]] obtain ls where ls:
    "s1 = s\<lparr>s_settlementLines := s_settlementLines s @ ls\<rparr>" "fits dir s m ls" "adjusted_refunds ls = []"
    "Some (rs_orderId c) \<in> set (sale_orders (s_settlementLines s @ ls))" by auto
  from createLine_ok [OF s2] have l: "newId \<notin> ml_id ` set (s_settlementLines s1)"
    "s2 = s1\<lparr>s_settlementLines := s_settlementLines s1 @ [l]\<rparr>" "ml_id l = newId" "ml_settlementId l = ms_id m"
    "ml_type l = REFUND_ADJUSTMENT" "ml_orderId l = Some (r_orderId q)" "ml_reference l = Some (r_id q)"
    "ml_adjustmentMinor l = - n"
    by (simp_all add: q buildRefundAdjustmentAmounts_def)
  from n have "0 < n" "n \<le> r_amountMinor q" by (auto simp: requireMerchantLiability_ok q)
  with q c(2,3) l(6-8) have "adjustment_ok dir s m l"
    unfolding adjustment_ok_def isRefundEligibleForAdjustment_def by (metis neg_less_0_iff_less verit_minus_simplify(4))
  with l(4,5) have e: "line_entitled dir s m l" by (simp add: line_entitled_def)
  have lists: "sale_orders [l] = []" "adjusted_refunds [l] = [Some refundId]"
    using l(5,7) q(3) by (simp_all add: sale_orders_def adjusted_refunds_def)
  have "Some refundId \<notin> set (adjusted_refunds (s_settlementLines s))" using none by (simp add: q no_adjustment)
  then have "fits dir s1 m [l]"
    using ls l e lists unfolding fits_def sold_before_def ls(1) by (auto simp: q)
  with ls(1) have f: "fits dir s m (ls @ [l])" by (intro fits_append [OF ls(2)]) simp
  from r have "refreshDraftTotals (ms_id m) (s\<lparr>s_settlementLines := s_settlementLines s @ ls @ [l]\<rparr>) = Inr s'"
    by (simp add: l(2) ls(1))
  from refresh_fill [OF this] m' settlement_booksD(1) [OF b] have "s' = fill (ms_id m) (ls @ [l]) s" by simp
  with settle_spec.filled [OF _ _ f] m' show ?thesis by simp
qed

lemma openDraft_spec:
  assumes "openDraftInTx dir now newId mer a b adminId s = Inr (m, s')"
  shows "settle_spec dir s s'"
proof -
  from assms obtain x y where x: "findOpenDraft mer s = Inr None" "createDraft now newId mer x y s = Inr (m, s')"
    by (auto simp: openDraftInTx_def ebind_Inr emap_Inr split: prod.splits if_splits)
  from x(2) have m: "s' = s\<lparr>s_settlements := s_settlements s @ [m]\<rparr>" "ms_id m = newId" "ms_merchantId m = mer"
    "newId \<notin> ms_id ` set (s_settlements s)" "ms_status m = SETTLEMENT_DRAFT"
    "with_totals (deriveSettlementTotals []) m = m"
    by (auto simp: createDraft_def Let_def guards with_totals_def deriveSettlementTotals_def split: if_splits)
  from x(1) have "open_drafts mer (s_settlements s) = []" by (simp add: findOpenDraft_def guards open_drafts_def)
  with m show ?thesis by (auto intro: settle_spec.opened)
qed

section \<open>Finalization and the ledger\<close>

lemma postFinalized_again:
  assumes bal: "balanced s" and "postFinalized now ledgerId m s = Inr (v, s')"
    and m: "m \<in> set (s_settlements s)" "ms_status m = SETTLEMENT_FINALIZED"
  shows "s' = s"
proof -
  from assms(2) obtain e es where es: "s' = s\<lparr>s_ledger := es\<rparr>"
    "post_ledger_event ledgerId now (EvSettlement (ms_id m) (ms_merchantId m) (ms_netPayableMinor m)) (s_ledger s) = Inr (e, es)"
    by (auto simp: postFinalized_def guards)
  have "es = s_ledger s"
    by (rule posting_known [OF bal es(2) known_reference]) (use m in \<open>auto simp: events_source\<close>)
  with es(1) show ?thesis by simp
qed

lemma finalizeDraft_spec:
  assumes b: "settlement_books dir s" and f: "findSettlementById i s = Inr (Some m)" "ms_status m = SETTLEMENT_DRAFT"
    and "finalizeDraft now ledgerId i s = Inr (v, s')"
  shows "settle_spec dir s s'"
proof -
  let ?up = "\<lambda>t. t_update (\<lambda>x. ms_id x = i \<and> ms_status x = SETTLEMENT_DRAFT)
      (\<lambda>x. (with_totals t x)\<lparr>ms_status := SETTLEMENT_FINALIZED\<rparr>) (s_settlements s)"
  note m = findSettlementById_ok [OF f(1)]
  from assms(4) obtain ls row where ls: "listLines i s = Inr ls"
    and row: "findSettlementById i (s\<lparr>s_settlements := ?up (deriveSettlementTotals ls)\<rparr>) = Inr (Some row)"
    and post: "postFinalized now ledgerId row (s\<lparr>s_settlements := ?up (deriveSettlementTotals ls)\<rparr>) = Inr (v, s')"
    by (auto simp: finalizeDraft_def finalizeRow_def Let_def ebind_Inr split: option.splits if_splits)
  have "deriveSettlementTotals ls = deriveSettlementTotals (lines_of i (s_settlementLines s))"
    using listLines_ok [OF ls] by (intro derive_mset) (simp add: lines_of_def)
  with settlement_booksD(7) [OF b, of m] m have t: "with_totals (deriveSettlementTotals ls) m = m" by (simp add: totals_current_def)
  have uniq: "x = m" if "x \<in> set (s_settlements s)" "ms_id x = i" for x
    using that m settlement_booksD(1) [OF b] by (auto simp: distinct_map inj_on_def)
  have up: "?up (deriveSettlementTotals ls) = t_update (\<lambda>x. ms_id x = ms_id m) (\<lambda>x. x\<lparr>ms_status := SETTLEMENT_FINALIZED\<rparr>) (s_settlements s)"
    unfolding t_update_def
  proof (rule map_cong [OF refl])
    fix x assume x: "x \<in> set (s_settlements s)"
    show "(if ms_id x = i \<and> ms_status x = SETTLEMENT_DRAFT
        then (with_totals (deriveSettlementTotals ls) x)\<lparr>ms_status := SETTLEMENT_FINALIZED\<rparr> else x) =
      (if ms_id x = ms_id m then x\<lparr>ms_status := SETTLEMENT_FINALIZED\<rparr> else x)"
    proof (cases "x = m")
      case True
      with m f(2) t show ?thesis by simp
    next
      case False
      then have "ms_id x \<noteq> i" using uniq [OF x] by blast
      with m show ?thesis by simp
    qed
  qed
  have "row = m\<lparr>ms_status := SETTLEMENT_FINALIZED\<rparr>"
  proof -
    from findSettlementById_ok [OF row] obtain y where y: "y \<in> set (s_settlements s)" "ms_id row = i"
      "row = (if ms_id y = ms_id m then y\<lparr>ms_status := SETTLEMENT_FINALIZED\<rparr> else y)"
      unfolding up by (auto simp: t_update_in)
    then have "ms_id y = i" by (simp split: if_splits)
    with uniq [OF y(1)] y(3) show ?thesis by simp
  qed
  with post obtain e es where es: "post_ledger_event ledgerId now (EvSettlement (ms_id m) (ms_merchantId m) (ms_netPayableMinor m)) (s_ledger s) = Inr (e, es)"
    "s' = s\<lparr>s_settlements := ?up (deriveSettlementTotals ls), s_ledger := es\<rparr>"
    by (auto simp: postFinalized_def guards)
  from m f(2) have "m \<in> set (s_settlements s)" "ms_status m = SETTLEMENT_DRAFT" by simp_all
  from settle_spec.finalized [OF this es(1)] show ?thesis unfolding es(2) up .
qed

lemma finalize_spec:
  assumes "settlement_books dir s" "balanced s" and "finalizeInTx dir now ledgerId i adminId s = Inr (v, s')"
  shows "settle_spec dir s s'"
proof -
  from assms(3) obtain m where m: "findSettlementById i s = Inr (Some m)"
    and d: "if ms_status m = SETTLEMENT_FINALIZED then postFinalized now ledgerId m s = Inr (v, s')
      else finalizeDraft now ledgerId i s = Inr (v, s')"
    by (auto simp: finalizeInTx_def ebind_Inr split: option.splits if_splits)
  show ?thesis
  proof (cases "ms_status m")
    case SETTLEMENT_FINALIZED
    with d postFinalized_again [OF assms(2) _ _ SETTLEMENT_FINALIZED] findSettlementById_ok [OF m]
    have "s' = s" by simp
    then show ?thesis by (simp add: settle_spec.same)
  next
    case SETTLEMENT_DRAFT
    with d finalizeDraft_spec [OF assms(1) m SETTLEMENT_DRAFT] show ?thesis by simp
  qed
qed

lemma same_events_settle:
  assumes "s_payments s' = s_payments s" "s_collections s' = s_collections s" "s_remittances s' = s_remittances s"
    "s_earnings s' = s_earnings s" "s_deliveries s' = s_deliveries s" "s_refunds s' = s_refunds s"
    and "mset (settlement_events s') = mset (settlement_events s) + x"
  shows "shop_events s' = shop_events s + x"
  using assms by (simp add: shop_events_def payment_events_def collection_events_def remittance_events_def
      earning_events_def refund_events_def order_of_delivery_def)

lemma settlement_events_update:
  assumes "\<And>x. ms_id (f x) = ms_id x" "\<And>x. ms_merchantId (f x) = ms_merchantId x" "\<And>x. ms_status (f x) = ms_status x"
    and "\<forall>x \<in> set (s_settlements s). P x \<longrightarrow> ms_status x = SETTLEMENT_DRAFT"
    and "s_settlements s' = t_update P f (s_settlements s)"
  shows "settlement_events s' = settlement_events s"
proof -
  have "map (\<lambda>m. EvSettlement (ms_id m) (ms_merchantId m) (ms_netPayableMinor m)) (filter (\<lambda>m. ms_status m = SETTLEMENT_FINALIZED) (t_update P f xs)) =
      map (\<lambda>m. EvSettlement (ms_id m) (ms_merchantId m) (ms_netPayableMinor m)) (filter (\<lambda>m. ms_status m = SETTLEMENT_FINALIZED) xs)"
    if "\<forall>x \<in> set xs. P x \<longrightarrow> ms_status x = SETTLEMENT_DRAFT" for xs
    using that by (induction xs) (auto simp: t_update_def assms(1-3))
  with assms(4,5) show ?thesis by (simp add: settlement_events_def)
qed

lemma settle_spec_balanced:
  assumes "settle_spec dir s s'" and b: "settlement_books dir s" and bal: "balanced s"
  shows "balanced s'"
  using assms(1)
proof cases
  case same
  with bal show ?thesis by simp
next
  case (opened m)
  have "settlement_events s' = settlement_events s" using opened(3) by (simp add: opened(1) settlement_events_def)
  then show ?thesis using same_events_settle [of s' s "{#}"] by (intro balanced_same [OF bal]) (simp_all add: opened(1))
next
  case (filled m ls)
  have "\<forall>x \<in> set (s_settlements s). ms_id x = ms_id m \<longrightarrow> ms_status x = SETTLEMENT_DRAFT"
    using filled(2,3) settlement_booksD(1) [OF b] by (auto simp: distinct_map inj_on_def)
  from settlement_events_update [OF _ _ _ this, of _ s'] have "settlement_events s' = settlement_events s"
    by (simp add: filled(1) fill_def)
  then show ?thesis using same_events_settle [of s' s "{#}"] by (intro balanced_same [OF bal]) (simp_all add: filled(1) fill_def)
next
  case (finalized m i now e es)
  let ?ev = "EvSettlement (ms_id m) (ms_merchantId m) (ms_netPayableMinor m)"
  have uniq: "x = m" if "x \<in> set (s_settlements s)" "ms_id x = ms_id m" for x
    using that finalized(2) settlement_booksD(1) [OF b] by (auto simp: distinct_map inj_on_def)
  obtain xs ys where xs: "s_settlements s = xs @ m # ys" using finalized(2) by (meson split_list)
  with settlement_booksD(1) [OF b] have "\<forall>x \<in> set xs \<union> set ys. ms_id x \<noteq> ms_id m" by (auto simp: image_iff)
  then have up: "s_settlements s' = xs @ m\<lparr>ms_status := SETTLEMENT_FINALIZED\<rparr> # ys"
    using t_update_split [of xs ys "\<lambda>x. ms_id x = ms_id m" m] by (simp add: finalized(1) xs)
  show ?thesis
  proof (rule balanced_new [OF bal])
    show "post_ledger_event i now ?ev (s_ledger s) = Inr (e, s_ledger s')" using finalized(4) by (simp add: finalized(1))
    have "mset (settlement_events s') = mset (settlement_events s) + {#?ev#}"
      by (simp add: settlement_events_def up xs finalized(3))
    then have "shop_events s' = shop_events s + {#?ev#}" by (intro same_events_settle) (simp_all add: finalized(1))
    then show "shop_events s' = add_mset ?ev (shop_events s)" by simp
    show "event_reference ?ev \<notin> event_reference ` set_mset (shop_events s)"
      by (rule fresh_reference) (use finalized(3) uniq in \<open>auto simp: events_source\<close>)
  qed
qed

section \<open>The service\<close>

datatype settlement_call =
    OpenDraft instant string string stamp stamp string
  | BuildSaleLines instant "string \<Rightarrow> string" string string
  | AttachAdjustment instant string string string string jsnum string
  | FinalizeSettlement instant string string string

fun run_settlement :: "directory \<Rightarrow> settlement_call \<Rightarrow> shop \<Rightarrow> app_error + shop" where
  "run_settlement dir (OpenDraft now newId mer a b adminId) s = map_sum id snd (openDraftInTx dir now newId mer a b adminId s)"
| "run_settlement dir (BuildSaleLines now newIds i adminId) s = map_sum id snd (buildSaleLinesInTx dir now newIds i adminId s)"
| "run_settlement dir (AttachAdjustment now saleId newId i refundId liability adminId) s =
     map_sum id snd (attachRefundAdjustmentInTx dir now saleId newId i refundId liability adminId s)"
| "run_settlement dir (FinalizeSettlement now ledgerId i adminId) s = map_sum id snd (finalizeInTx dir now ledgerId i adminId s)"

definition settlement_inv :: "directory \<Rightarrow> shop \<Rightarrow> bool" where
  "settlement_inv dir s \<longleftrightarrow> settlement_books dir s \<and> balanced s"

lemma run_settlement_spec:
  assumes "settlement_inv dir s" and "run_settlement dir c s = Inr s'"
  shows "settle_spec dir s s'"
proof -
  from assms(1) have b: "settlement_books dir s" "balanced s" by (simp_all add: settlement_inv_def)
  show ?thesis
    using assms(2) openDraft_spec buildSaleLines_spec [OF b(1)] attachAdjustment_spec [OF b(1)] finalize_spec [OF b]
    by (cases c) (auto dest!: map_sum_InrD)
qed

lemma settle_spec_inv: "settle_spec dir s s' \<Longrightarrow> settlement_inv dir s \<Longrightarrow> settlement_inv dir s'"
  using settle_spec_books settle_spec_balanced by (simp add: settlement_inv_def)

interpretation settlement: refined_service "run_settlement dir" "\<lambda>s. s" "settle_spec dir" "settlement_inv dir" for dir
  by unfold_locales (rule run_settlement_spec, assumption+, rule settle_spec_inv)

text \<open>What a finalized settlement says never changes again.\<close>

lemma settle_spec_final:
  assumes "settle_spec dir s s'" and d: "distinct (map ms_id (s_settlements s))"
    and m: "m \<in> set (s_settlements s)" "ms_status m = SETTLEMENT_FINALIZED"
  shows "m \<in> set (s_settlements s') \<and> lines_of (ms_id m) (s_settlementLines s') = lines_of (ms_id m) (s_settlementLines s)"
  using assms(1)
proof cases
  case (filled x ls)
  have ne: "ms_id m \<noteq> ms_id x" using filled(2,3) m d by (auto simp: distinct_map inj_on_def)
  then have "lines_of (ms_id m) ls = []" using filled(4) by (auto simp: fits_def lines_of_def line_entitled_def filter_empty_conv)
  with ne m(1) show ?thesis by (auto simp: filled(1) fill_def t_update_in intro: bexI [of _ m])
next
  case (finalized x i now e es)
  have ne: "ms_id m \<noteq> ms_id x" using finalized(2,3) m d by (auto simp: distinct_map inj_on_def)
  with m(1) show ?thesis by (auto simp: finalized(1) t_update_in intro: bexI [of _ m])
qed (use m in auto)

end
