(* ===== verification/Cod_Laws.thy ===== *)
theory Cod_Laws
  imports Cod_Books
begin

text \<open>
  Cash on delivery: an order whose cash is collected, remitted and confirmed, and the properties of
  the service, with their instances on it.
\<close>

section \<open>An example\<close>

definition example_delivery :: delivery_row where
  "example_delivery = \<lparr>d_id = ''dlv-1'', d_orderId = ''order-1'', d_status = ARRIVED_CUSTOMER,
     d_driverSearchStartedAt = 0, d_pickedUpAt = Some 1, d_arrivedCustomerAt = Some 2,
     d_deliveredAt = None, d_updatedAt = 2\<rparr>"

definition example_assignment :: assignment_row where
  "example_assignment = \<lparr>a_id = ''asg-1'', a_deliveryId = ''dlv-1'', a_driverId = ''drv'', a_status = A_ACCEPTED,
     a_version = 1, a_assignedAt = 0, a_acceptedAt = Some 0, a_releasedAt = None\<rparr>"

text \<open>A cash order at the customer's door: its driver collects 900, declares 500 and has 400 confirmed.\<close>

definition cash_shop :: shop where
  "cash_shop = example_shop\<lparr>
     s_orders := [example_order\<lparr>o_status := O_ACTIVE, o_fulfillmentStatus := READY\<rparr>],
     s_payments := [example_payment\<lparr>p_method := PAYMENT_METHOD_COD, p_status := PAY_PENDING\<rparr>],
     s_deliveries := [example_delivery], s_assignments := [example_assignment]\<rparr>"

definition cash_calls :: "cod_call list" where
  "cash_calls = [CollectCod 10 ''collection-1'' ''led-1'' ''drv-acc'' (JInt 900),
     SubmitRemittance 20 ''remittance-1'' ''0198-0001'' ''drv-acc'' (JInt 500),
     ConfirmRemittance 30 ''led-2'' ''remittance-1'' (JInt 400)]"

text \<open>
  The run, one call at a time: the ledger entries are evaluated on their own, the three states are
  written out.
\<close>

definition cash_entry :: ledger_entry where
  "cash_entry = fst (projr (post_ledger_event ''led-1'' 10 (EvCollection ''collection-1'' ''order-1'' ''drv'' 900) []))"

definition remit_entry :: ledger_entry where
  "remit_entry = fst (projr (post_ledger_event ''led-2'' 30 (EvRemittance ''remittance-1'' ''drv'' 400) [cash_entry]))"

definition cash_shop1 :: shop where
  "cash_shop1 = cash_shop\<lparr>s_payments := [example_payment\<lparr>p_method := PAYMENT_METHOD_COD, p_updatedAt := 10\<rparr>],
     s_collections := [\<lparr>co_collectionId = ''collection-1'', co_orderId = ''order-1'', co_driverId = ''drv'',
       co_expectedAmountMinor = 900, co_collectedAmountMinor = 900, co_collectedAt = 10,
       co_status = ''COLLECTED''\<rparr>],
     s_ledger := [cash_entry]\<rparr>"

definition cash_remittance :: remittance_row where
  "cash_remittance = \<lparr>rm_id = ''remittance-1'', rm_driverId = ''drv'', rm_submittedAmountMinor = 500,
     rm_confirmedAmountMinor = 0, rm_status = DECLARED, rm_reference = ''codr_01980001'',
     rm_submittedAt = 20, rm_confirmedAt = None\<rparr>"

definition cash_shop2 :: shop where
  "cash_shop2 = cash_shop1\<lparr>s_remittances := [cash_remittance]\<rparr>"

definition cash_shop3 :: shop where
  "cash_shop3 = cash_shop2\<lparr>s_remittances := [confirmed_row 30 400 cash_remittance],
     s_allocations := [\<lparr>al_remittanceId = ''remittance-1'', al_collectionId = ''collection-1'',
       al_allocatedAmountMinor = 400\<rparr>],
     s_discrepancies := [discrepancy_row_of (confirmed_row 30 400 cash_remittance)],
     s_ledger := [cash_entry, remit_entry]\<rparr>"

lemma cash_entries:
  "postCodCollection ''led-1'' 10 ''collection-1'' ''order-1'' ''drv'' (BigMinor 900) [] = Inr (cash_entry, [cash_entry])"
  "postCodRemittanceConfirmed ''led-2'' 30 ''remittance-1'' ''drv'' (BigMinor 400) [cash_entry] =
     Inr (remit_entry, [cash_entry, remit_entry])"
  by code_simp+

lemma cash_arithmetic:
  "(parseMinorUnits (DbBig 900) = JInt 900) \<and>
   (parseMinorUnits (DbBig 500) = JInt 500) \<and>
   (minorString (JInt 900) = Inr ''900'') \<and>
   (minorString (JInt 500) = Inr ''500'') \<and>
   (minorString (JInt 400) = Inr ''400'') \<and>
   (isExactCodAmount (JInt 900) (JInt 900) (JInt 900)) \<and>
   (isInteger (JInt 900)) \<and>
   (isSafeInteger (JInt 900)) \<and>
   (isPositiveMinor (JInt 500)) \<and>
   (isPositiveMinor (JInt 400)) \<and>
   (js_sum [JInt 900] = JInt 900) \<and>
   (js_sum [] = JInt 0) \<and>
   (js_sum [JInt 400] = JInt 400) \<and>
   (js_sub (JInt 900) (JInt 0) = JInt 900) \<and>
   (js_sub (JInt 400) (JInt 400) = JInt 0) \<and>
   (js_sub (JInt 400) (JInt 500) = JInt (- 100)) \<and>
   (js_neq (JInt 400) (JInt 500)) \<and>
   (\<not> js_neq (JInt 400) (JInt 400)) \<and>
   (newCodReference ''codr'' ''0198-0001'' = ''codr_01980001'')"
  by code_simp

lemma cash_numbers:
  "parseMinorUnits (DbBig 900) = JInt 900" "parseMinorUnits (DbBig 500) = JInt 500"
  "minorString (JInt 900) = Inr ''900''" "minorString (JInt 500) = Inr ''500''" "minorString (JInt 400) = Inr ''400''"
  "isExactCodAmount (JInt 900) (JInt 900) (JInt 900)" "isInteger (JInt 900)" "isSafeInteger (JInt 900)"
  "isPositiveMinor (JInt 500)" "isPositiveMinor (JInt 400)" "js_sum [JInt 900] = JInt 900" "js_sum [] = JInt 0"
  "js_sum [JInt 400] = JInt 400"
  "js_sub (JInt 900) (JInt 0) = JInt 900" "js_sub (JInt 400) (JInt 400) = JInt 0" "js_sub (JInt 400) (JInt 500) = JInt (- 100)"
  "js_neq (JInt 400) (JInt 500)" "\<not> js_neq (JInt 400) (JInt 400)"
  "newCodReference ''codr'' ''0198-0001'' = ''codr_01980001''"
  using cash_arithmetic by blast+

lemma cash_safe: "900 \<le> MAX_SAFE_INTEGER"
  by (simp add: MAX_SAFE_INTEGER_def)

lemmas cash_rows = cash_shop_def example_shop_def driverOfAccount_def example_assignment_def
  example_delivery_def example_order_def example_payment_def example_financials_def

lemmas cash_eval = Let_def t_find_def t_update_def pgBigInt_def in_ledger_def cash_entries cash_numbers cash_safe

lemma cash_step1: "run_cod (CollectCod 10 ''collection-1'' ''led-1'' ''drv-acc'' (JInt 900)) cash_shop = Inr cash_shop1"
  by (simp add: collectCod_def collectCodInTransaction_def cash_rows arrivedOrder_def cash_shop1_def
      findOpenAcceptedAssignment_def touchOrderPayment_def recordCollection_def isAcceptedAssignment_def
      insertCollection_def collectionView_def cash_eval cong: ebind_weak_cong del: parseMinorUnits.simps)

lemma cash_step2: "run_cod (SubmitRemittance 20 ''remittance-1'' ''0198-0001'' ''drv-acc'' (JInt 500)) cash_shop1 = Inr cash_shop2"
  by (simp add: submitCodRemittance_def cash_rows cash_shop1_def cash_shop2_def cash_remittance_def computeOutstandingCustody_def
      driverCollections_def driverRemittances_def loadConfirmedAllocationsByCollection_def insertRemittance_def
      cash_eval cong: ebind_weak_cong del: parseMinorUnits.simps)

lemma cash_step3: "run_cod (ConfirmRemittance 30 ''led-2'' ''remittance-1'' (JInt 400)) cash_shop2 = Inr cash_shop3"
  by (simp add: confirmCodRemittanceInTx_def cash_rows cash_shop1_def cash_shop2_def cash_shop3_def cash_remittance_def computeOutstandingCustody_def
      driverCollections_def driverRemittances_def loadConfirmedAllocationsByCollection_def recordDiscrepancy_def
      oldestFirst_def discrepancy_row_of_def confirmed_row_def js_le_def
      cash_eval cong: ebind_weak_cong del: parseMinorUnits.simps)

lemma cash_run: "run_calls run_cod cash_calls cash_shop = Inr cash_shop3"
  by (simp add: cash_calls_def run_calls_def cash_step1 cash_step2 cash_step3 del: run_cod.simps)

lemma cash_shop_inv: "cod_inv cash_shop"
proof -
  have "cod_books cash_shop"
    by (rule cod_booksI) (simp_all add: cash_shop_def example_shop_def driverRemittances_def)
  moreover have "balanced cash_shop"
    unfolding balanced_def by (rule exI [of _ "[]"])
      (simp add: ledger_inv_def shop_events_def shop_event_defs cash_shop_def example_shop_def)
  ultimately show ?thesis by (simp add: cod_inv_def cash_shop_def example_shop_def)
qed

lemma cash_shop2_inv: "cod_inv cash_shop2"
  by (rule cod.calls_inv [OF _ cash_shop_inv, of "take 2 cash_calls"])
    (simp add: cash_calls_def run_calls_def cash_step1 cash_step2 del: run_cod.simps)

lemma cash_shop3_inv: "cod_inv cash_shop3"
  by (rule cod.calls_inv [OF cash_run cash_shop_inv])

section \<open>Properties\<close>

text \<open>
  C26. Every successful sequence of collections, declared remittances and confirmations keeps the books
  of cash on delivery and the ledger: allocations never exceed what a collection brought, a confirmed
  remittance is allocated exactly, and the custody the ledger reports for a driver is what the driver's
  collections still owe, never negative.
\<close>

theorem cod_custody_balances:
  assumes "run_calls (run_cod) cs s = Inr s'" and "cod_inv s"
  shows "cod_spec\<^sup>*\<^sup>* s s' \<and> cod_books s' \<and> balanced s' \<and> 0 \<le> driver_owes d s' \<and>
    dp_codCustodyMinor (getDriverPositions d (s_ledger s')) = show_int (driver_owes d s')"
proof -
  from cod.calls_path [OF assms] have "cod_spec\<^sup>*\<^sup>* s s'" and i: "cod_books s'" "balanced s'"
    by (simp_all add: cod_inv_def)
  with balanced_positions(1) [OF i(2), of d] driver_owes_eq(1) [OF i(1), of d] driver_owes_nonneg [OF i(1), of d]
  show ?thesis by simp
qed

theorem cod_custody_balances_witness:
  "cod_books cash_shop3 \<and> driver_owes ''drv'' cash_shop3 = 500 \<and>
     dp_codCustodyMinor (getDriverPositions ''drv'' (s_ledger cash_shop3)) = ''500''"
proof -
  have "driver_owes ''drv'' cash_shop3 = 500" by code_simp
  moreover have "show_int 500 = ''500''" by code_simp
  ultimately show ?thesis using cod_custody_balances [OF cash_run cash_shop_inv, of "''drv''"] by simp
qed



text \<open>
  C28. The driver's own summary and the ledger agree: while the amounts are safe integers, the
  outstanding custody the cash service computes from collections and allocations is the custody
  position the ledger service computes from its entries.
\<close>

theorem cod_summary_is_ledger:
  assumes "cod_books s" and "balanced s" and "driverOfAccount acc s = Some d"
    and "collected_by d s \<le> MAX_SAFE_INTEGER"
  shows "\<exists>v. getDriverCodSummary acc s = Inr v \<and>
    sv_outstandingCustodyMinor v = dp_codCustodyMinor (getDriverPositions d (s_ledger s)) \<and>
    sv_collectedAmountMinor v = show_int (collected_by d s) \<and>
    sv_confirmedAllocatedMinor v = show_int (remitted_by d s)"
proof -
  have nn: "0 \<le> driver_owes d s" "0 \<le> remitted_by d s"
    using driver_owes_nonneg [OF assms(1)] driver_owes_eq(2) [OF assms(1), of d]
      cod_booksD(7) [OF assms(1)] set_driver_allocations [of d s]
    by (auto simp: allocation_ok_def less_imp_le subset_iff intro!: sum_list_nonneg simp flip: driver_owes_eq(2) [OF assms(1)])
  then have "\<bar>driver_owes d s\<bar> \<le> MAX_SAFE_INTEGER" "\<bar>remitted_by d s\<bar> \<le> MAX_SAFE_INTEGER"
    "\<bar>collected_by d s\<bar> \<le> MAX_SAFE_INTEGER"
    using assms(4) driver_owes_eq(1) [OF assms(1), of d] by simp_all
  then show ?thesis
    using assms(3) balanced_positions(1) [OF assms(2), of d] driver_owes_eq(1) [OF assms(1), of d]
    by (simp add: getDriverCodSummary_def custody_exact [OF assms(1,4)] toDriverSummaryView_def minorString_int)
qed

theorem cod_summary_is_ledger_witness:
  "\<exists>v. getDriverCodSummary ''drv-acc'' cash_shop3 = Inr v \<and>
     sv_outstandingCustodyMinor v = dp_codCustodyMinor (getDriverPositions ''drv'' (s_ledger cash_shop3))"
proof -
  have "collected_by ''drv'' cash_shop3 \<le> MAX_SAFE_INTEGER" by code_simp
  moreover have "driverOfAccount ''drv-acc'' cash_shop3 = Some ''drv''" by (simp add: cash_shop3_def cash_shop2_def cash_shop1_def cash_rows t_find_def)
  ultimately show ?thesis
    using cod_summary_is_ledger [of cash_shop3 "''drv-acc''" "''drv''"] cash_shop3_inv
    by (auto simp: cod_inv_def)
qed

end
