(* ===== verification/Settlement_Laws.thy ===== *)
theory Settlement_Laws
  imports Settlement_Books Cod_Laws
begin

text \<open>
  Merchant settlements: a period with one sale and one refund, settled call by call, and the
  properties of the service with their instances on it.
\<close>

section \<open>What a merchant is charged\<close>

text \<open>The amount the adjustments of an order take from its merchant.\<close>

definition charged :: "string \<Rightarrow> shop \<Rightarrow> int" where
  "charged k s = - sum_list (map ml_adjustmentMinor
     (filter (\<lambda>l. ml_type l = REFUND_ADJUSTMENT \<and> ml_orderId l = Some k) (s_settlementLines s)))"

lemma sum_list_set: "distinct (map key xs) \<Longrightarrow> sum_list (map f xs) = sum f (set xs)" for f :: "'a \<Rightarrow> int"
  by (simp add: sum_list_distinct_conv_sum_set distinct_map)

lemma charged_le_refunded:
  assumes b: "settlement_books dir s" and r: "refund_keys s"
  shows "charged k s \<le> refunded s k"
proof -
  let ?L = "filter (\<lambda>l. ml_type l = REFUND_ADJUSTMENT \<and> ml_orderId l = Some k) (s_settlementLines s)"
  let ?R = "filter (\<lambda>r. r_orderId r = k \<and> r_status r = REFUNDED) (s_refunds s)"
  have dA: "distinct (map ml_reference (filter (\<lambda>l. ml_type l = REFUND_ADJUSTMENT) (s_settlementLines s)))"
    using settlement_booksD(4) [OF b] by (simp add: adjusted_refunds_def)
  have inj: "l = l'" if "l \<in> set ?L" "l' \<in> set ?L" "ml_reference l = ml_reference l'" for l l'
    using dA that by (auto simp: distinct_map inj_on_def)
  have dL: "distinct (map ml_id ?L)" using settlement_booksD(2) [OF b] by (simp add: distinct_map_filter)
  have dR: "distinct (map r_id ?R)" using r by (simp add: refund_keys_def distinct_map_filter)
  have src: "\<exists>q \<in> set ?R. ml_reference l = Some (r_id q) \<and> - ml_adjustmentMinor l \<le> r_amountMinor q"
    if l: "l \<in> set ?L" for l
  proof -
    obtain m where "line_entitled dir s m l" using settlement_booksD(6) [OF b, of l] l by auto
    with l have "adjustment_ok dir s m l" by (simp add: line_entitled_def)
    then obtain q where "q \<in> set (s_refunds s)" "ml_reference l = Some (r_id q)" "ml_orderId l = Some (r_orderId q)"
      "r_status q = REFUNDED" "- ml_adjustmentMinor l \<le> r_amountMinor q" unfolding adjustment_ok_def by blast
    with l show ?thesis by (intro bexI [of _ q]) auto
  qed
  let ?line = "\<lambda>q. the (find (\<lambda>l. ml_reference l = Some (r_id q)) ?L)"
  have line: "?line q = l" if l: "l \<in> set ?L" "ml_reference l = Some (r_id q)" for l q
  proof -
    obtain x where x: "find (\<lambda>l. ml_reference l = Some (r_id q)) ?L = Some x"
      using l by (cases "find (\<lambda>l. ml_reference l = Some (r_id q)) ?L") (auto simp: find_None_iff)
    then have "x \<in> set ?L" "ml_reference x = Some (r_id q)" by (metis (mono_tags, lifting) find_Some_iff nth_mem)+
    with inj [OF _ l(1)] l(2) x show ?thesis by simp
  qed
  have "charged k s = (\<Sum>l\<in>set ?L. - ml_adjustmentMinor l)"
    unfolding charged_def sum_list_set [OF dL] by (simp only: sum_negf)
  also have "\<dots> \<le> (\<Sum>q\<in>set ?R. r_amountMinor q)"
  proof (rule sum_le_included [where i = ?line])
    show "\<forall>q \<in> set ?R. 0 \<le> r_amountMinor q" using r by (auto simp: refund_keys_def less_imp_le)
    show "\<forall>l \<in> set ?L. \<exists>q \<in> set ?R. ?line q = l \<and> - ml_adjustmentMinor l \<le> r_amountMinor q"
    proof
      fix l assume l: "l \<in> set ?L"
      from src [OF l] obtain q where "q \<in> set ?R" "ml_reference l = Some (r_id q)" "- ml_adjustmentMinor l \<le> r_amountMinor q" by blast
      with line [OF l] show "\<exists>q \<in> set ?R. ?line q = l \<and> - ml_adjustmentMinor l \<le> r_amountMinor q" by blast
    qed
  qed simp_all
  also have "\<dots> = refunded s k" unfolding refunded_def by (simp only: sum_list_set [OF dR])
  finally show ?thesis .
qed

lemma refunded_le_reserved:
  assumes "refund_keys s"
  shows "refunded s k \<le> reserved s k"
proof -
  have "sum_list (map r_amountMinor (filter (\<lambda>r. r_orderId r = k \<and> r_status r = REFUNDED) rs)) \<le>
      sum_list (map r_amountMinor (filter (\<lambda>r. r_orderId r = k \<and> isReservingRefundStatus (r_status r)) rs))"
    if "\<forall>r \<in> set rs. 0 < r_amountMinor r" for rs
    using that by (induction rs) (auto simp: isReservingRefundStatus_def)
  from this [of "s_refunds s"] assms show ?thesis by (simp add: refunded_def reserved_def refund_keys_def)
qed

lemma net_is_due:
  assumes "settlement_books dir s" and "m \<in> set (s_settlements s)"
  shows "ms_netPayableMinor m = sum_list (map line_due (lines_of (ms_id m) (s_settlementLines s)))"
proof -
  have "with_totals (deriveSettlementTotals (lines_of (ms_id m) (s_settlementLines s))) m = m"
    using settlement_booksD(7) [OF assms] by (simp add: totals_current_def)
  then have "ms_netPayableMinor m = st_netPayableMinor (deriveSettlementTotals (lines_of (ms_id m) (s_settlementLines s)))"
    by (metis with_totals_simps(5))
  then show ?thesis by (simp add: deriveSettlementTotals_sums)
qed

section \<open>An example\<close>

text \<open>A completed order of 900 (net 630), of which 300 went back to the customer.\<close>

definition period_refund :: refund_row where
  "period_refund = \<lparr>r_id = ''refund-1'', r_orderId = ''order-1'', r_paymentTransactionId = None,
     r_refundMethod = MANUAL_OTHER, r_amountMinor = 300, r_status = REFUNDED, r_reason = ''damaged'',
     r_internalNote = None, r_requestOrigin = ADMIN, r_requestedByAdminId = Some ''adm'',
     r_paidTerminalIntentKey = None, r_requestedAt = 50, r_completedAt = Some 60\<rparr>"

definition payment_entry :: ledger_entry where
  "payment_entry = fst (projr (post_ledger_event ''led-1'' 1
     (EvPayment ''0198c2f0-0000-7000-8000-000000000001'' ''order-1'' 900) []))"

definition refund_entry :: ledger_entry where
  "refund_entry = fst (projr (post_ledger_event ''led-2'' 60 (EvRefund ''refund-1'' ''order-1'' 300) [payment_entry]))"

definition settlement_entry :: ledger_entry where
  "settlement_entry = fst (projr (post_ledger_event ''led-3'' 90 (EvSettlement ''settlement-1'' ''mer'' 430)
     [payment_entry, refund_entry]))"

definition period_shop :: shop where
  "period_shop = example_shop\<lparr>
     s_orders := [example_order\<lparr>o_status := O_COMPLETED, o_fulfillmentStatus := READY, o_completedAt := Some 40\<rparr>],
     s_refunds := [period_refund], s_ledger := [payment_entry, refund_entry]\<rparr>"

definition settle_calls :: "settlement_call list" where
  "settle_calls = [OpenDraft 70 ''settlement-1'' ''mer'' (Some 0) (Some 65) ''adm'',
     BuildSaleLines 80 (\<lambda>_. ''line-1'') ''settlement-1'' ''adm'',
     AttachAdjustment 85 ''line-x'' ''line-2'' ''settlement-1'' ''refund-1'' (JInt 200) ''adm'',
     FinalizeSettlement 90 ''led-3'' ''settlement-1'' ''adm'']"

definition draft_row :: "int \<Rightarrow> int \<Rightarrow> int \<Rightarrow> int \<Rightarrow> settlement_row" where
  "draft_row gross commission refunds net = \<lparr>ms_id = ''settlement-1'', ms_merchantId = ''mer'',
     ms_periodStart = 0, ms_periodEnd = 65, ms_grossSalesMinor = gross, ms_commissionMinor = commission,
     ms_refundAdjustmentsMinor = refunds, ms_manualAdjustmentsMinor = 0, ms_netPayableMinor = net,
     ms_status = SETTLEMENT_DRAFT, ms_paidAt = None, ms_createdAt = 70\<rparr>"

definition sale_line :: settlement_line where
  "sale_line = \<lparr>ml_id = ''line-1'', ml_settlementId = ''settlement-1'', ml_orderId = Some ''order-1'', ml_type = SALE,
     ml_grossMerchandiseMinor = 700, ml_commissionMinor = 70, ml_merchantNetMinor = 630, ml_adjustmentMinor = 0,
     ml_reference = None, ml_createdAt = 80\<rparr>"

definition refund_line :: settlement_line where
  "refund_line = \<lparr>ml_id = ''line-2'', ml_settlementId = ''settlement-1'', ml_orderId = Some ''order-1'',
     ml_type = REFUND_ADJUSTMENT, ml_grossMerchandiseMinor = 0, ml_commissionMinor = 0, ml_merchantNetMinor = 0,
     ml_adjustmentMinor = - 200, ml_reference = Some ''refund-1'', ml_createdAt = 85\<rparr>"

definition period_shop1 :: shop where
  "period_shop1 = period_shop\<lparr>s_settlements := [draft_row 0 0 0 0]\<rparr>"

definition period_shop2 :: shop where
  "period_shop2 = period_shop\<lparr>s_settlements := [draft_row 700 70 0 630], s_settlementLines := [sale_line]\<rparr>"

definition period_shop3 :: shop where
  "period_shop3 = period_shop\<lparr>s_settlements := [draft_row 700 70 (- 200) 430], s_settlementLines := [sale_line, refund_line]\<rparr>"

definition period_shop4 :: shop where
  "period_shop4 = period_shop\<lparr>s_settlements := [(draft_row 700 70 (- 200) 430)\<lparr>ms_status := SETTLEMENT_FINALIZED\<rparr>],
     s_settlementLines := [sale_line, refund_line], s_ledger := [payment_entry, refund_entry, settlement_entry]\<rparr>"

lemma period_entries:
  "post_ledger_event ''led-1'' 1 (EvPayment ''0198c2f0-0000-7000-8000-000000000001'' ''order-1'' 900) [] =
     Inr (payment_entry, [payment_entry])"
  "post_ledger_event ''led-2'' 60 (EvRefund ''refund-1'' ''order-1'' 300) [payment_entry] =
     Inr (refund_entry, [payment_entry, refund_entry])"
  "postMerchantSettlementFinalized ''led-3'' 90 ''settlement-1'' ''mer'' (BigMinor 430) [payment_entry, refund_entry] =
     Inr (settlement_entry, [payment_entry, refund_entry, settlement_entry])"
  by code_simp+

lemmas period_rows = period_shop_def example_shop_def example_directory_def example_order_def example_payment_def
  example_financials_def period_refund_def draft_row_def sale_line_def refund_line_def

lemmas period_eval = requireSettlementAdmin_def requireValidSettlementPeriod_def findOpenDraft_def first_row_def
  createDraft_def toSettlement_def toLine_def readMinor_def requireDraft_def findSettlementById_def requireDraftStatus_def
  refreshDraftTotals_def listLines_def updateDraftTotals_def with_totals_def deriveSettlementTotals_def t_update_def t_find_def
  findSaleLineByOrderId_def findRefundAdjustmentByRefundId_def createLine_def

lemma period_step1: "run_settlement example_directory (OpenDraft 70 ''settlement-1'' ''mer'' (Some 0) (Some 65) ''adm'') period_shop = Inr period_shop1"
  by (simp add: openDraftInTx_def period_rows period_shop1_def period_eval Let_def cong: ebind_weak_cong)

lemma period_step2: "run_settlement example_directory (BuildSaleLines 80 (\<lambda>_. ''line-1'') ''settlement-1'' ''adm'') period_shop1 = Inr period_shop2"
  by (simp add: buildSaleLinesInTx_def findEligibleSaleOrders_def joinedSales_def completed_in_def saleOrder_def addSaleLine_def
      saleEligible_def isSaleEligibleOrder_def createSaleLine_def buildSaleLineAmounts_def
      period_rows period_shop1_def period_shop2_def period_eval Let_def cong: ebind_weak_cong)

lemma period_step3: "run_settlement example_directory (AttachAdjustment 85 ''line-x'' ''line-2'' ''settlement-1'' ''refund-1'' (JInt 200) ''adm'') period_shop2 = Inr period_shop3"
  by (simp add: attachRefundAdjustmentInTx_def findRefundSettlementContext_def findOrderSettlementContext_def saleOrder_def
      isRefundEligibleForAdjustment_def refundInPeriod_def isInstantInSettlementPeriod_def requireMerchantLiabilityMinor_def
      ensureSaleLine_def buildRefundAdjustmentAmounts_def
      period_rows period_shop2_def period_shop3_def period_eval Let_def cong: ebind_weak_cong)

lemma period_step4: "run_settlement example_directory (FinalizeSettlement 90 ''led-3'' ''settlement-1'' ''adm'') period_shop3 = Inr period_shop4"
  by (simp add: finalizeInTx_def finalizeDraft_def finalizeRow_def postFinalized_def in_ledger_def period_entries
      period_rows period_shop3_def period_shop4_def period_eval Let_def cong: ebind_weak_cong)

lemma settle_run: "run_calls (run_settlement example_directory) settle_calls period_shop = Inr period_shop4"
  by (simp add: settle_calls_def period_step1 period_step2 period_step3 period_step4 del: run_settlement.simps)

lemma period_shop_inv: "settlement_inv example_directory period_shop"
proof -
  let ?p = "EvPayment ''0198c2f0-0000-7000-8000-000000000001'' ''order-1'' 900" and ?r = "EvRefund ''refund-1'' ''order-1'' 300"
  have "ledger_history [?p] [payment_entry]"
    using ledger_history.post [OF ledger_history.empty period_entries(1)] by simp
  from ledger_history.post [OF this period_entries(2)]
  have "ledger_history [?p, ?r] [payment_entry, refund_entry]" by simp
  from ledger_history_inv [OF this] have "ledger_inv [?p, ?r] (s_ledger period_shop)" by (simp add: period_shop_def)
  moreover have "mset [?p, ?r] = shop_events period_shop" by (simp add: period_rows shop_events_def shop_event_defs)
  ultimately have "balanced period_shop" unfolding balanced_def by blast
  moreover have "settlement_books example_directory period_shop"
    by (rule settlement_booksI) (simp_all add: period_rows sale_orders_def adjusted_refunds_def sold_before_def open_drafts_def)
  ultimately show ?thesis by (simp add: settlement_inv_def)
qed

section \<open>Properties\<close>

text \<open>
  C29. Every successful sequence of settlement calls keeps the settlement books and the ledger: the
  totals of a settlement are the sums of its lines, at most one draft is open per merchant, every
  finalized settlement is booked exactly once, and the net position the ledger reports for a merchant
  is what the lines of its finalized settlements add up to.
\<close>

theorem settlement_pays_lines:
  assumes "run_calls (run_settlement dir) cs s = Inr s'" and "settlement_inv dir s"
  shows "(settle_spec dir)\<^sup>*\<^sup>* s s' \<and> settlement_books dir s' \<and> balanced s' \<and>
    mp_netPayableMinor (getMerchantPosition mer (s_ledger s')) = show_int (sum_list (map
      (\<lambda>m. sum_list (map line_due (lines_of (ms_id m) (s_settlementLines s'))))
      (filter (\<lambda>m. ms_status m = SETTLEMENT_FINALIZED \<and> ms_merchantId m = mer) (s_settlements s'))))"
proof -
  from settlement.calls_path [OF assms] have "(settle_spec dir)\<^sup>*\<^sup>* s s'"
    and i: "settlement_books dir s'" "balanced s'" by (simp_all add: settlement_inv_def)
  moreover have "settled_for mer s' = sum_list (map (\<lambda>m. sum_list (map line_due (lines_of (ms_id m) (s_settlementLines s'))))
      (filter (\<lambda>m. ms_status m = SETTLEMENT_FINALIZED \<and> ms_merchantId m = mer) (s_settlements s')))"
    unfolding settled_for_def using net_is_due [OF i(1)] by (intro arg_cong [of _ _ sum_list] map_cong) auto
  ultimately show ?thesis using balanced_positions(3) [OF i(2), of mer] by simp
qed

theorem settlement_pays_lines_witness:
  "settlement_books example_directory period_shop4 \<and>
     mp_netPayableMinor (getMerchantPosition ''mer'' (s_ledger period_shop4)) = ''430''"
proof -
  have "show_int 430 = ''430''" by code_simp
  moreover have "sum_list (map (\<lambda>m. sum_list (map line_due (lines_of (ms_id m) (s_settlementLines period_shop4))))
      (filter (\<lambda>m. ms_status m = SETTLEMENT_FINALIZED \<and> ms_merchantId m = ''mer'') (s_settlements period_shop4))) = 430"
    by (simp add: period_shop4_def period_rows lines_of_def line_due_def)
  ultimately show ?thesis using settlement_pays_lines [OF settle_run period_shop_inv, of "''mer''"] by simp
qed


lemma period_references:
  "le_reference payment_entry = ''PAYMENT:0198c2f0-0000-7000-8000-000000000001''"
  "le_reference refund_entry = ''REFUND:refund-1''" "le_reference settlement_entry = ''MERCHANT_SETTLEMENT:settlement-1''"
  "booked_right period_refund refund_entry"
  by code_simp+

lemma period_refund_books: "refund_books period_shop4"
proof -
  have "s_refunds period_shop4 = [period_refund]" "s_ledger period_shop4 = [payment_entry, refund_entry, settlement_entry]"
    "s_payments period_shop4 = [example_payment]" by (simp_all add: period_shop4_def period_shop_def example_shop_def)
  moreover have "r_id period_refund = ''refund-1''" "r_orderId period_refund = ''order-1''" "r_status period_refund = REFUNDED"
    "r_amountMinor period_refund = 300" "r_completedAt period_refund = Some 60" "r_paidTerminalIntentKey period_refund = None"
    by (simp_all add: period_refund_def)
  moreover have "p_orderId example_payment = ''order-1''" "p_status example_payment = PAY_SUCCEEDED" "p_amountMinor example_payment = 900"
    by (simp_all add: example_payment_def)
  ultimately show ?thesis
    by (simp add: refund_books_def refund_keys_def within_payment_def refund_booked_def entries_of_def reserved_def
        isReservingRefundStatus_def refund_reference_def period_references)
qed


text \<open>
  C31. Finalization is final: a finalized settlement and its lines stay exactly as they are through
  every further sequence of calls.
\<close>

theorem finalized_settlement_immutable:
  assumes "run_calls (run_settlement dir) cs s = Inr s'" and "settlement_inv dir s"
    and "m \<in> set (s_settlements s)" and "ms_status m = SETTLEMENT_FINALIZED"
  shows "m \<in> set (s_settlements s') \<and>
    lines_of (ms_id m) (s_settlementLines s') = lines_of (ms_id m) (s_settlementLines s)"
proof -
  from settlement.calls_path [OF assms(1,2)] have "(settle_spec dir)\<^sup>*\<^sup>* s s'" by simp
  then have "settlement_books dir s' \<and> m \<in> set (s_settlements s') \<and>
    lines_of (ms_id m) (s_settlementLines s') = lines_of (ms_id m) (s_settlementLines s)"
  proof induction
    case base
    from assms(2,3) show ?case by (simp add: settlement_inv_def)
  next
    case (step t u)
    then have "settlement_books dir t" by simp
    from settle_spec_books [OF step(2) this] settle_spec_final [OF step(2) settlement_booksD(1) [OF this] _ assms(4)] step.IH
    show ?case by simp
  qed
  then show ?thesis by simp
qed

text \<open>The finalized period stays as it is when the merchant's next period is opened.\<close>

definition next_period :: "settlement_call list" where
  "next_period = [OpenDraft 100 ''settlement-2'' ''mer'' (Some 65) (Some 130) ''adm'']"

lemma next_period_runs: "\<exists>s. run_calls (run_settlement example_directory) next_period period_shop4 = Inr s"
  by (simp add: next_period_def openDraftInTx_def period_rows period_shop4_def period_eval Let_def cong: ebind_weak_cong)

theorem finalized_settlement_immutable_witness:
  "\<exists>s. run_calls (run_settlement example_directory) next_period period_shop4 = Inr s \<and>
     (draft_row 700 70 (- 200) 430)\<lparr>ms_status := SETTLEMENT_FINALIZED\<rparr> \<in> set (s_settlements s) \<and>
     lines_of ''settlement-1'' (s_settlementLines s) = [sale_line, refund_line]"
proof -
  obtain s where s: "run_calls (run_settlement example_directory) next_period period_shop4 = Inr s"
    using next_period_runs by blast
  have i: "settlement_inv example_directory period_shop4" by (rule settlement.calls_inv [OF settle_run period_shop_inv])
  have "lines_of ''settlement-1'' (s_settlementLines period_shop4) = [sale_line, refund_line]"
    by (simp add: period_shop4_def lines_of_def sale_line_def refund_line_def)
  with finalized_settlement_immutable [OF s i, of "(draft_row 700 70 (- 200) 430)\<lparr>ms_status := SETTLEMENT_FINALIZED\<rparr>"] s
  show ?thesis by (auto simp: period_shop4_def draft_row_def)
qed

end
