(* ===== verification/Handoff.thy ===== *)
theory Handoff
  imports Payment
begin

text \<open>
  The pickup handoff: \<open>modules/delivery/application/pickup-handoff.service.ts\<close> with
  \<open>infrastructure/pickup-handoff.repository.ts\<close> and the rows of \<open>delivery.repository.ts\<close> it uses. The
  merchant shows a four-digit code, the driver types it in; wrong codes are counted and lock the
  challenge. The HMAC of a code, the cipher that seals it and the code drawn are parameters
  (\<open>crypto\<close>): the code is drawn and sealed by Node's \<open>crypto\<close> module.
\<close>

record crypto =
  cr_hash :: "string \<Rightarrow> string"
  cr_seal :: "string \<Rightarrow> string"
  cr_unseal :: "string \<Rightarrow> string option"

definition pickupHandoffCodeMatches :: "crypto \<Rightarrow> string \<Rightarrow> string \<Rightarrow> bool" where
  "pickupHandoffCodeMatches cr code storedHash \<longleftrightarrow> cr_hash cr code = storedHash"

section \<open>Handoff repository\<close>

definition findPending :: "string \<Rightarrow> shop \<Rightarrow> handoff_row option" where
  "findPending deliveryId s =
     find (\<lambda>h. h_deliveryId h = deliveryId \<and> h_status h = H_PENDING) (s_handoffs s)"

text \<open>The newest row of a list, the first one among equals.\<close>

fun newest :: "handoff_row list \<Rightarrow> handoff_row option" where
  "newest [] = None"
| "newest (h # hs) =
     (case newest hs of None \<Rightarrow> Some h
      | Some x \<Rightarrow> if h_createdAt h < h_createdAt x then Some x else Some h)"

definition findVerifiable :: "string \<Rightarrow> shop \<Rightarrow> handoff_row option" where
  "findVerifiable deliveryId s =
     (case findPending deliveryId s of
        Some pending \<Rightarrow> Some pending
      | None \<Rightarrow> newest (filter (\<lambda>h. h_deliveryId h = deliveryId \<and> h_status h = H_LOCKED) (s_handoffs s)))"

definition findConsumedForAssignment :: "string \<Rightarrow> string \<Rightarrow> shop \<Rightarrow> handoff_row option" where
  "findConsumedForAssignment deliveryId assignmentId s =
     find (\<lambda>h. h_deliveryId h = deliveryId \<and> h_assignmentId h = assignmentId \<and> h_status h = H_CONSUMED)
       (s_handoffs s)"

definition update_handoffs :: "(handoff_row \<Rightarrow> bool) \<Rightarrow> (handoff_row \<Rightarrow> handoff_row) \<Rightarrow> shop \<Rightarrow> shop" where
  "update_handoffs p f s = s\<lparr>s_handoffs := t_update p f (s_handoffs s)\<rparr>"

text \<open>One pending challenge per delivery is a unique index, as the primary key is.\<close>

definition insertHandoff :: "handoff_row \<Rightarrow> shop \<Rightarrow> app_error + handoff_row \<times> shop" where
  "insertHandoff row s =
     (if h_id row \<in> h_id ` set (s_handoffs s) \<or> findPending (h_deliveryId row) s \<noteq> None
      then Inl UniqueViolationE else Inr (row, s\<lparr>s_handoffs := s_handoffs s @ [row]\<rparr>))"

definition invalidatePending :: "instant \<Rightarrow> string \<Rightarrow> string \<Rightarrow> shop \<Rightarrow> shop" where
  "invalidatePending now deliveryId reason s =
     update_handoffs (\<lambda>h. h_deliveryId h = deliveryId \<and> h_status h = H_PENDING)
       (\<lambda>h. h\<lparr>h_status := H_INVALIDATED, h_invalidatedAt := Some now, h_invalidatedReason := Some reason\<rparr>) s"

definition markExpired :: "string \<Rightarrow> shop \<Rightarrow> shop" where
  "markExpired handoffId s =
     update_handoffs (\<lambda>h. h_id h = handoffId \<and> h_status h = H_PENDING) (\<lambda>h. h\<lparr>h_status := H_EXPIRED\<rparr>) s"

definition unlockIfDue :: "instant \<Rightarrow> string \<Rightarrow> shop \<Rightarrow> app_error + handoff_row option \<times> shop" where
  "unlockIfDue now handoffId s =
     (case t_find h_id handoffId (s_handoffs s) of
        None \<Rightarrow> Inr (None, s)
      | Some row \<Rightarrow>
          if h_status row \<noteq> H_LOCKED \<or> (case h_lockedUntil row of None \<Rightarrow> True | Some u \<Rightarrow> now < u)
          then Inr (Some row, s)
          else if findPending (h_deliveryId row) s \<noteq> None then Inl UniqueViolationE
          else let s' = update_handoffs (\<lambda>h. h_id h = handoffId)
                          (\<lambda>h. h\<lparr>h_status := H_PENDING, h_lockedUntil := None\<rparr>) s
               in Inr (t_find h_id handoffId (s_handoffs s'), s'))"

definition incrementAttemptsAndMaybeLock :: "instant \<Rightarrow> string \<Rightarrow> shop \<Rightarrow> handoff_row option \<times> shop" where
  "incrementAttemptsAndMaybeLock now handoffId s =
     (case t_find h_id handoffId (s_handoffs s) of
        None \<Rightarrow> (None, s)
      | Some row \<Rightarrow>
          let nextAttempts = h_attemptCount row + 1;
              shouldLock = h_maxAttempts row \<le> nextAttempts;
              s' = update_handoffs (\<lambda>h. h_id h = handoffId)
                (\<lambda>h. if shouldLock
                     then h\<lparr>h_attemptCount := nextAttempts, h_status := H_LOCKED,
                            h_lockedUntil := Some (pickupHandoffLockedUntil now)\<rparr>
                     else h\<lparr>h_attemptCount := nextAttempts\<rparr>) s
          in (t_find h_id handoffId (s_handoffs s'), s'))"

definition consumeConditional ::
  "instant \<Rightarrow> string \<Rightarrow> string \<Rightarrow> string \<Rightarrow> int \<Rightarrow> string \<Rightarrow> shop \<Rightarrow> bool \<times> shop" where
  "consumeConditional now handoffId deliveryId assignmentId assignmentVersion driverId s =
     (let s' = update_handoffs (\<lambda>h. h_id h = handoffId \<and> h_deliveryId h = deliveryId \<and>
                 h_assignmentId h = assignmentId \<and> h_assignmentVersion h = assignmentVersion \<and>
                 h_status h = H_PENDING)
               (\<lambda>h. h\<lparr>h_status := H_CONSUMED, h_consumedAt := Some now, h_consumedByDriverId := Some driverId\<rparr>) s
      in (case t_find h_id handoffId (s_handoffs s') of
            None \<Rightarrow> False
          | Some row \<Rightarrow> h_status row = H_CONSUMED \<and> h_consumedByDriverId row = Some driverId, s'))"

section \<open>Delivery rows\<close>

definition lockDelivery :: "instant \<Rightarrow> string \<Rightarrow> shop \<Rightarrow> delivery_row option \<times> shop" where
  "lockDelivery now deliveryId s =
     (let s' = s\<lparr>s_deliveries := t_update (\<lambda>d. d_id d = deliveryId) (\<lambda>d. d\<lparr>d_updatedAt := now\<rparr>) (s_deliveries s)\<rparr>
      in (t_find d_id deliveryId (s_deliveries s'), s'))"

definition appendEvent :: "delivery_event \<Rightarrow> shop \<Rightarrow> shop" where
  "appendEvent ev s = s\<lparr>s_deliveryEvents := s_deliveryEvents s @ [ev]\<rparr>"

definition stamp_field :: "timestamp_field option \<Rightarrow> instant \<Rightarrow> delivery_row \<Rightarrow> delivery_row" where
  "stamp_field field now d =
     (case field of
        None \<Rightarrow> d
      | Some F_pickedUpAt \<Rightarrow> d\<lparr>d_pickedUpAt := Some now\<rparr>
      | Some F_arrivedCustomerAt \<Rightarrow> d\<lparr>d_arrivedCustomerAt := Some now\<rparr>
      | Some F_deliveredAt \<Rightarrow> d\<lparr>d_deliveredAt := Some now\<rparr>)"

text \<open>The status moves only from \<open>dt_from\<close>, stamps its field and logs its event.\<close>

definition transitionIfStatus :: "instant \<Rightarrow> string \<Rightarrow> delivery_transition \<Rightarrow> string \<Rightarrow> shop \<Rightarrow> bool \<times> shop" where
  "transitionIfStatus now deliveryId t driverId s =
     (case t_find d_id deliveryId (s_deliveries s) of
        None \<Rightarrow> (False, s)
      | Some current \<Rightarrow>
          if d_status current \<noteq> dt_from t then (False, s)
          else let s' = s\<lparr>s_deliveries := t_update (\<lambda>d. d_id d = deliveryId \<and> d_status d = dt_from t)
                     (\<lambda>d. stamp_field (dt_timestampField t) now (d\<lparr>d_status := dt_to t, d_updatedAt := now\<rparr>))
                     (s_deliveries s)\<rparr>
               in case t_find d_id deliveryId (s_deliveries s') of
                    None \<Rightarrow> (False, s')
                  | Some row \<Rightarrow>
                      if d_status row \<noteq> dt_to t then (False, s')
                      else (True, appendEvent \<lparr>de_deliveryId = deliveryId, de_type = dt_eventType t,
                                    de_driverId = Some driverId, de_occurredAt = now\<rparr> s'))"

definition findOpenAcceptedAssignmentForDelivery :: "string \<Rightarrow> shop \<Rightarrow> assignment_row option" where
  "findOpenAcceptedAssignmentForDelivery deliveryId s =
     find (\<lambda>a. a_deliveryId a = deliveryId \<and> a_status a = A_ACCEPTED \<and> a_releasedAt a = None) (s_assignments s)"

section \<open>The driver confirms\<close>

text \<open>\<open>ConfirmPickupBody\<close>: what the driver's client sends, each field optional.\<close>

record confirm_body =
  cb_pickupCode :: "string option"
  cb_assignmentId :: "string option"
  cb_assignmentVersion :: "int option"

definition isAlreadyConfirmed :: "string \<Rightarrow> string \<Rightarrow> string \<Rightarrow> shop \<Rightarrow> bool" where
  "isAlreadyConfirmed deliveryId assignmentId driverId s =
     (case t_find d_id deliveryId (s_deliveries s) of
        None \<Rightarrow> False
      | Some delivery \<Rightarrow>
          if d_status delivery \<noteq> PICKED_UP then False
          else case findConsumedForAssignment deliveryId assignmentId s of
                 None \<Rightarrow> False
               | Some consumed \<Rightarrow> h_consumedByDriverId consumed = Some driverId)"

datatype verify_outcome = Verified | Reject handoff_error

text \<open>
  The transaction of a confirmation. Rejections are returned, not thrown, so that the counters and
  statuses they change are committed.
\<close>

definition verifyCode :: "crypto \<Rightarrow> instant \<Rightarrow> string \<Rightarrow> string \<Rightarrow> string \<Rightarrow> int \<Rightarrow> string \<Rightarrow>
    handoff_row \<Rightarrow> shop \<Rightarrow> verify_outcome \<times> shop" where
  "verifyCode cr now deliveryId driverId assignmentId assignmentVersion code handoff s =
     (if isPickupHandoffExpired (h_expiresAt handoff) now then (Reject PICKUP_HANDOFF_EXPIRED, markExpired (h_id handoff) s)
      else if h_status handoff = H_LOCKED \<or> isPickupHandoffLocked (h_lockedUntil handoff) now
      then (Reject PICKUP_HANDOFF_LOCKED, s)
      else if \<not> pickupHandoffCodeMatches cr code (h_codeHash handoff)
      then (case incrementAttemptsAndMaybeLock now (h_id handoff) s of
              (None, s') \<Rightarrow> (Reject PICKUP_HANDOFF_CODE_INVALID, s')
            | (Some updated, s') \<Rightarrow>
                (Reject (if h_status updated = H_LOCKED \<or> isPickupHandoffLocked (h_lockedUntil updated) now
                         then PICKUP_HANDOFF_LOCKED else PICKUP_HANDOFF_CODE_INVALID), s'))
      else case consumeConditional now (h_id handoff) deliveryId assignmentId assignmentVersion driverId s of
             (consumed, s') \<Rightarrow>
               if \<not> consumed then (Reject PICKUP_HANDOFF_ASSIGNMENT_CONFLICT, s')
               else case transitionIfStatus now deliveryId (transitionForAction CONFIRM_PICKUP) driverId s' of
                      (moved, s'') \<Rightarrow> (if moved then Verified else Reject PICKUP_HANDOFF_INVALID_STATE, s''))"

definition verifyInTx :: "crypto \<Rightarrow> instant \<Rightarrow> string \<Rightarrow> string \<Rightarrow> string \<Rightarrow> int \<Rightarrow> string \<Rightarrow> string \<Rightarrow> shop \<Rightarrow>
    app_error + verify_outcome \<times> shop" where
  "verifyInTx cr now deliveryId driverId assignmentId assignmentVersion challengeId code s0 =
     (let s = snd (lockDelivery now deliveryId s0)
      in case findVerifiable deliveryId s of
           None \<Rightarrow> Inr (Reject PICKUP_HANDOFF_ASSIGNMENT_CONFLICT, s)
         | Some handoff \<Rightarrow>
             if h_id handoff \<noteq> challengeId \<or> h_assignmentId handoff \<noteq> assignmentId
                \<or> h_assignmentVersion handoff \<noteq> assignmentVersion
             then Inr (Reject PICKUP_HANDOFF_ASSIGNMENT_CONFLICT, s)
             else ebind (if h_status handoff = H_LOCKED then unlockIfDue now (h_id handoff) s else Inr (Some handoff, s))
               (\<lambda>(unlocked, s1).
                 Inr (verifyCode cr now deliveryId driverId assignmentId assignmentVersion code
                        (case unlocked of None \<Rightarrow> handoff | Some h \<Rightarrow> h) s1)))"

datatype verify_result = Legacy | VerifiedResult

text \<open>An empty code or assignment id is falsy and counts as missing.\<close>

definition present :: "string option \<Rightarrow> bool" where
  "present v \<longleftrightarrow> v \<noteq> None \<and> v \<noteq> Some []"

definition verifyForConfirmPickup ::
  "crypto \<Rightarrow> instant \<Rightarrow> string \<Rightarrow> string \<Rightarrow> string \<Rightarrow> int \<Rightarrow> confirm_body option \<Rightarrow> verify_result effect" where
  "verifyForConfirmPickup cr now deliveryId driverId assignmentId assignmentVersion body s =
     (case findVerifiable deliveryId s of
        None \<Rightarrow> (Inr Legacy, s)
      | Some challenge \<Rightarrow>
          if h_assignmentId challenge \<noteq> assignmentId \<or> h_assignmentVersion challenge \<noteq> assignmentVersion
          then throw (HandoffE PICKUP_HANDOFF_ASSIGNMENT_CONFLICT) s
          else case body of
                 None \<Rightarrow> throw (HandoffE PICKUP_HANDOFF_CODE_INVALID) s
               | Some b \<Rightarrow>
                   if \<not> present (cb_pickupCode b) \<or> \<not> present (cb_assignmentId b) \<or> cb_assignmentVersion b = None
                   then throw (HandoffE PICKUP_HANDOFF_CODE_INVALID) s
                   else if cb_assignmentId b \<noteq> Some assignmentId \<or> cb_assignmentVersion b \<noteq> Some assignmentVersion
                   then throw (HandoffE PICKUP_HANDOFF_ASSIGNMENT_CONFLICT) s
                   else and_then (atomically (verifyInTx cr now deliveryId driverId assignmentId assignmentVersion
                                    (h_id challenge) (the (cb_pickupCode b))))
                          (\<lambda>outcome. case outcome of
                             Verified \<Rightarrow> pure (Inr VerifiedResult)
                           | Reject e \<Rightarrow> throw (HandoffE e)) s)"

section \<open>The merchant shows a code\<close>

record handoff_view =
  hv_id :: string
  hv_pickupCode :: string
  hv_status :: handoff_status
  hv_expiresAt :: instant
  hv_assignmentId :: string
  hv_assignmentVersion :: int
  hv_version :: int
  hv_attemptsRemaining :: int

definition toMerchantPickupHandoffView :: "handoff_row \<Rightarrow> string \<Rightarrow> handoff_view" where
  "toMerchantPickupHandoffView h pickupCode =
     \<lparr>hv_id = h_id h, hv_pickupCode = pickupCode, hv_status = h_status h, hv_expiresAt = h_expiresAt h,
      hv_assignmentId = h_assignmentId h, hv_assignmentVersion = h_assignmentVersion h, hv_version = h_version h,
      hv_attemptsRemaining = pickupHandoffAttemptsRemaining (h_attemptCount h) (h_maxAttempts h)\<rparr>"

definition toMerchantView :: "crypto \<Rightarrow> handoff_row \<Rightarrow> app_error + handoff_view" where
  "toMerchantView cr h =
     (case cr_unseal cr (h_codeSealed h) of
        None \<Rightarrow> Inl InternalE | Some code \<Rightarrow> Inr (toMerchantPickupHandoffView h code))"

record handoff_context =
  hc_deliveryId :: string
  hc_assignmentId :: string
  hc_assignmentVersion :: int

definition requireMerchantHandoffContext ::
  "directory \<Rightarrow> string \<Rightarrow> string \<Rightarrow> string \<Rightarrow> shop \<Rightarrow> app_error + handoff_context" where
  "requireMerchantHandoffContext dir accountId merchantId orderId s =
     (if \<not> dir_canReadOrders dir accountId merchantId then Inl MerchantAccessE
      else case t_find o_id orderId (s_orders s) of
        None \<Rightarrow> Inl (OrderE MERCHANT_ORDER_NOT_FOUND)
      | Some order \<Rightarrow>
          if dir_merchantOfBranch dir (o_merchantBranchId order) \<noteq> Some merchantId
          then Inl (OrderE MERCHANT_ORDER_NOT_FOUND)
          else if o_status order = O_CANCELLED \<or> o_status order = O_COMPLETED
          then Inl (HandoffE PICKUP_HANDOFF_INVALID_STATE)
          else case t_find d_orderId orderId (s_deliveries s) of
                 None \<Rightarrow> Inl (DeliveryE DELIVERY_NOT_FOUND)
               | Some delivery \<Rightarrow>
                   if d_status delivery \<noteq> AT_PICKUP then Inl (HandoffE PICKUP_HANDOFF_INVALID_STATE)
                   else if o_status order \<noteq> O_ACTIVE then Inl (HandoffE PICKUP_HANDOFF_INVALID_STATE)
                   else case findOpenAcceptedAssignmentForDelivery (d_id delivery) s of
                          None \<Rightarrow> Inl (HandoffE PICKUP_HANDOFF_INVALID_STATE)
                        | Some assignment \<Rightarrow>
                            Inr \<lparr>hc_deliveryId = d_id delivery, hc_assignmentId = a_id assignment,
                                 hc_assignmentVersion = a_version assignment\<rparr>)"

definition issuePending ::
  "crypto \<Rightarrow> instant \<Rightarrow> string \<Rightarrow> string \<Rightarrow> string \<Rightarrow> handoff_context \<Rightarrow> shop \<Rightarrow> app_error + handoff_view \<times> shop" where
  "issuePending cr now newId code accountId c s =
     ebind (insertHandoff \<lparr>h_id = newId, h_deliveryId = hc_deliveryId c, h_assignmentId = hc_assignmentId c,
        h_assignmentVersion = hc_assignmentVersion c, h_codeHash = cr_hash cr code, h_codeSealed = cr_seal cr code,
        h_status = H_PENDING, h_attemptCount = 0, h_maxAttempts = PICKUP_HANDOFF_MAX_ATTEMPTS,
        h_expiresAt = pickupHandoffExpiresAt now, h_lockedUntil = None, h_consumedAt = None,
        h_consumedByDriverId = None, h_createdByAccountId = Some accountId, h_invalidatedAt = None,
        h_invalidatedReason = None, h_version = 1, h_createdAt = now\<rparr> s)
       (\<lambda>(created, s'). Inr (toMerchantPickupHandoffView created code, s'))"

definition challengeFor :: "handoff_context \<Rightarrow> handoff_row \<Rightarrow> bool" where
  "challengeFor c h \<longleftrightarrow> h_assignmentId h = hc_assignmentId c \<and> h_assignmentVersion h = hc_assignmentVersion c"

definition issueInTx ::
  "crypto \<Rightarrow> instant \<Rightarrow> string \<Rightarrow> string \<Rightarrow> string \<Rightarrow> handoff_context \<Rightarrow> shop \<Rightarrow> app_error + handoff_view \<times> shop" where
  "issueInTx cr now newId code accountId c s0 =
     (let s = snd (lockDelivery now (hc_deliveryId c) s0)
      in case findPending (hc_deliveryId c) s of
           None \<Rightarrow> issuePending cr now newId code accountId c s
         | Some h \<Rightarrow>
             if challengeFor c h then ebind (toMerchantView cr h) (\<lambda>v. Inr (v, s))
             else issuePending cr now newId code accountId c
                    (invalidatePending now (hc_deliveryId c) ''ASSIGNMENT_CHANGED'' s))"

definition getOrIssueForMerchant ::
  "directory \<Rightarrow> crypto \<Rightarrow> instant \<Rightarrow> string \<Rightarrow> string \<Rightarrow> string \<Rightarrow> string \<Rightarrow> string \<Rightarrow> handoff_view effect" where
  "getOrIssueForMerchant dir cr now newId code accountId merchantId orderId s =
     (case requireMerchantHandoffContext dir accountId merchantId orderId s of
        Inl e \<Rightarrow> (Inl e, s)
      | Inr c \<Rightarrow>
          (case findPending (hc_deliveryId c) s of
             Some h \<Rightarrow> if challengeFor c h then (toMerchantView cr h, s)
                       else atomically (issueInTx cr now newId code accountId c) s
           | None \<Rightarrow> atomically (issueInTx cr now newId code accountId c) s))"

definition regenerateForMerchant ::
  "directory \<Rightarrow> crypto \<Rightarrow> instant \<Rightarrow> string \<Rightarrow> string \<Rightarrow> string \<Rightarrow> string \<Rightarrow> string \<Rightarrow> handoff_view effect" where
  "regenerateForMerchant dir cr now newId code accountId merchantId orderId s =
     (case requireMerchantHandoffContext dir accountId merchantId orderId s of
        Inl e \<Rightarrow> (Inl e, s)
      | Inr c \<Rightarrow>
          atomically (\<lambda>s0. issuePending cr now newId code accountId c
            (invalidatePending now (hc_deliveryId c) ''REGENERATED'' (snd (lockDelivery now (hc_deliveryId c) s0)))) s)"

definition invalidateForDelivery :: "instant \<Rightarrow> string \<Rightarrow> string \<Rightarrow> shop \<Rightarrow> shop" where
  "invalidateForDelivery now deliveryId reason s = invalidatePending now deliveryId reason s"

end
