(* ===== verification/Drivers.thy ===== *)
theory Drivers
  imports Payment
begin

text \<open>
  The drivers module: \<open>modules/drivers/application/driver.service.ts\<close> (onboarding and availability),
  \<open>driver-review.service.ts\<close> (the review by an administrator) and the rows of
  \<open>infrastructure/driver.repository.ts\<close>. Uploaded files live in an object store: promoting an upload
  to a durable locator is a parameter.
\<close>

fun driver_http_status :: "driver_error \<Rightarrow> int" where
  "driver_http_status DRIVER_PROFILE_NOT_FOUND = 404"
| "driver_http_status DRIVER_VEHICLE_NOT_FOUND = 404"
| "driver_http_status DRIVER_DOCUMENT_INVALID = 400"
| "driver_http_status _ = 409"

section \<open>Repository\<close>

definition findProfileByAccountId :: "string \<Rightarrow> shop \<Rightarrow> driver_row option" where
  "findProfileByAccountId accountId s = t_find dr_accountId accountId (s_drivers s)"

definition findProfileById :: "string \<Rightarrow> shop \<Rightarrow> driver_row option" where
  "findProfileById driverId s = t_find dr_id driverId (s_drivers s)"

definition update_driver :: "string \<Rightarrow> (driver_row \<Rightarrow> driver_row) \<Rightarrow> shop \<Rightarrow> shop" where
  "update_driver driverId f s = s\<lparr>s_drivers := t_update (\<lambda>d. dr_id d = driverId) f (s_drivers s)\<rparr>"

definition lockProfile :: "instant \<Rightarrow> string \<Rightarrow> shop \<Rightarrow> driver_row option \<times> shop" where
  "lockProfile now driverId s =
     (let s' = update_driver driverId (\<lambda>d. d\<lparr>dr_updatedAt := now\<rparr>) s in (findProfileById driverId s', s'))"

text \<open>Two unique columns of the profile, and the driver id is the key of its availability.\<close>

definition createProfileWithAvailability ::
  "instant \<Rightarrow> string \<Rightarrow> string \<Rightarrow> string \<Rightarrow> shop \<Rightarrow> app_error + driver_row \<times> shop" where
  "createProfileWithAvailability now driverId accountId fullName s =
     (if driverId \<in> dr_id ` set (s_drivers s) \<or> accountId \<in> dr_accountId ` set (s_drivers s)
         \<or> driverId \<in> av_driverId ` set (s_availability s)
      then Inl (DriverE DRIVER_PROFILE_ALREADY_EXISTS)
      else let profile = \<lparr>dr_id = driverId, dr_accountId = accountId, dr_fullName = fullName,
             dr_verificationStatus = V_UNVERIFIED, dr_approvedAt = None, dr_updatedAt = now\<rparr>
           in Inr (profile, s\<lparr>s_drivers := s_drivers s @ [profile],
                s_availability := s_availability s @ [\<lparr>av_driverId = driverId, av_status = AV_OFFLINE,
                  av_offlineAfterCurrentDelivery = False\<rparr>]\<rparr>))"

definition setVerificationStatus ::
  "instant \<Rightarrow> string \<Rightarrow> verification_status \<Rightarrow> instant option \<Rightarrow> shop \<Rightarrow> driver_row option \<times> shop" where
  "setVerificationStatus now driverId status approvedAt s =
     (let s' = update_driver driverId
        (\<lambda>d. d\<lparr>dr_verificationStatus := status, dr_approvedAt := approvedAt, dr_updatedAt := now\<rparr>) s
      in (findProfileById driverId s', s'))"

definition listDocuments :: "string \<Rightarrow> shop \<Rightarrow> driver_document list" where
  "listDocuments driverId s = filter (\<lambda>d. doc_driverId d = driverId) (s_documents s)"

definition updateDocumentFileUrl :: "string \<Rightarrow> string \<Rightarrow> shop \<Rightarrow> shop" where
  "updateDocumentFileUrl documentId fileUrl s =
     s\<lparr>s_documents := t_update (\<lambda>d. doc_id d = documentId) (\<lambda>d. d\<lparr>doc_fileUrl := fileUrl\<rparr>) (s_documents s)\<rparr>"

text \<open>An empty string is falsy: no expiry date.\<close>

definition some_text :: "string option \<Rightarrow> string option" where
  "some_text v = (case v of None \<Rightarrow> None | Some t \<Rightarrow> if t = [] then None else Some t)"

definition upsertDocumentRow ::
  "string \<Rightarrow> string \<Rightarrow> string \<Rightarrow> string option \<Rightarrow> shop \<Rightarrow> app_error + driver_document \<times> shop" where
  "upsertDocumentRow newId driverId type expiryDate s =
     (case find (\<lambda>d. doc_type d = type) (listDocuments driverId s) of
        Some current \<Rightarrow>
          (let s' = s\<lparr>s_documents := t_update (\<lambda>d. doc_id d = doc_id current)
                 (\<lambda>d. d\<lparr>doc_expiryDate := some_text expiryDate\<rparr>) (s_documents s)\<rparr>
           in case t_find doc_id (doc_id current) (s_documents s') of
                None \<Rightarrow> Inl InternalE | Some row \<Rightarrow> Inr (row, s'))
      | None \<Rightarrow>
          if newId \<in> doc_id ` set (s_documents s) then Inl UniqueViolationE
          else let created = \<lparr>doc_id = newId, doc_driverId = driverId, doc_type = type,
                 doc_fileUrl = objectKeyForDocument newId, doc_status = ''PENDING'',
                 doc_expiryDate = some_text expiryDate\<rparr>
               in Inr (created, s\<lparr>s_documents := s_documents s @ [created]\<rparr>))"

definition listVehicles :: "string \<Rightarrow> shop \<Rightarrow> vehicle_row list" where
  "listVehicles driverId s = sort_key vh_createdAt (filter (\<lambda>v. vh_driverId v = driverId) (s_vehicles s))"

definition findOwnedVehicle :: "string \<Rightarrow> string \<Rightarrow> shop \<Rightarrow> vehicle_row option" where
  "findOwnedVehicle driverId vehicleId s =
     find (\<lambda>v. vh_id v = vehicleId \<and> vh_driverId v = driverId) (s_vehicles s)"

definition deactivateVehicles :: "string \<Rightarrow> shop \<Rightarrow> shop" where
  "deactivateVehicles driverId s =
     s\<lparr>s_vehicles := t_update (\<lambda>v. vh_driverId v = driverId \<and> vh_status v = VEHICLE_ACTIVE)
         (\<lambda>v. v\<lparr>vh_status := VEHICLE_INACTIVE\<rparr>) (s_vehicles s)\<rparr>"

text \<open>The plates of the active vehicles are a unique index.\<close>

definition plateTaken :: "string \<Rightarrow> string \<Rightarrow> shop \<Rightarrow> bool" where
  "plateTaken vehicleId plate s \<longleftrightarrow>
     (\<exists>v \<in> set (s_vehicles s). vh_id v \<noteq> vehicleId \<and> vh_status v = VEHICLE_ACTIVE \<and> vh_plateNumber v = plate)"

record vehicle_input =
  vi_type :: string
  vi_plateNumber :: string
  vi_model :: string
  vi_color :: "string option"

definition createActiveVehicle ::
  "instant \<Rightarrow> string \<Rightarrow> string \<Rightarrow> vehicle_input \<Rightarrow> shop \<Rightarrow> app_error + vehicle_row \<times> shop" where
  "createActiveVehicle now newId driverId input s =
     (let s1 = deactivateVehicles driverId s
      in if newId \<in> vh_id ` set (s_vehicles s1) \<or> plateTaken newId (vi_plateNumber input) s1
         then Inl (DriverE DRIVER_VEHICLE_CONFLICT)
         else let created = \<lparr>vh_id = newId, vh_driverId = driverId, vh_type = vi_type input,
                vh_plateNumber = vi_plateNumber input, vh_model = vi_model input,
                vh_color = some_text (vi_color input), vh_status = VEHICLE_ACTIVE, vh_createdAt = now\<rparr>;
                s2 = s1\<lparr>s_vehicles := s_vehicles s1 @ [created]\<rparr>
              in if length (filter (\<lambda>v. vh_status v = VEHICLE_ACTIVE) (listVehicles driverId s2)) \<noteq> 1
                 then Inl InternalE else Inr (created, s2))"

record vehicle_patch =
  vp_type :: "string option"
  vp_plateNumber :: "string option"
  vp_model :: "string option"
  vp_color :: "string js_opt"

definition patch_vehicle :: "vehicle_patch \<Rightarrow> vehicle_row \<Rightarrow> vehicle_row" where
  "patch_vehicle p v =
     v\<lparr>vh_type := js_default (vp_type p) (vh_type v), vh_plateNumber := js_default (vp_plateNumber p) (vh_plateNumber v),
       vh_model := js_default (vp_model p) (vh_model v),
       vh_color := (case vp_color p of Undef \<Rightarrow> vh_color v | Null \<Rightarrow> None | Val c \<Rightarrow> some_text (Some c))\<rparr>"

definition updateVehicleRow ::
  "string \<Rightarrow> vehicle_patch \<Rightarrow> shop \<Rightarrow> app_error + vehicle_row option \<times> shop" where
  "updateVehicleRow vehicleId patch s =
     (let conflict = (case t_find vh_id vehicleId (s_vehicles s) of
            None \<Rightarrow> False
          | Some v \<Rightarrow> vh_status v = VEHICLE_ACTIVE \<and> plateTaken vehicleId (vh_plateNumber (patch_vehicle patch v)) s)
      in if conflict then Inl (DriverE DRIVER_VEHICLE_CONFLICT)
         else let s' = s\<lparr>s_vehicles := t_update (\<lambda>v. vh_id v = vehicleId) (patch_vehicle patch) (s_vehicles s)\<rparr>
              in Inr (t_find vh_id vehicleId (s_vehicles s'), s'))"

definition findAvailability :: "string \<Rightarrow> shop \<Rightarrow> availability_row option" where
  "findAvailability driverId s = t_find av_driverId driverId (s_availability s)"

definition setAvailabilityStatus ::
  "string \<Rightarrow> availability_status \<Rightarrow> availability_status \<Rightarrow> shop \<Rightarrow> availability_row option \<times> shop" where
  "setAvailabilityStatus driverId fromStatus toStatus s =
     (let s' = s\<lparr>s_availability := t_update (\<lambda>a. av_driverId a = driverId \<and> av_status a = fromStatus)
            (\<lambda>a. a\<lparr>av_status := toStatus,
                  av_offlineAfterCurrentDelivery := (toStatus = AV_OFFLINE_AFTER_CURRENT_DELIVERY)\<rparr>)
            (s_availability s)\<rparr>
      in (case findAvailability driverId s' of
            None \<Rightarrow> None | Some row \<Rightarrow> if av_status row \<noteq> toStatus then None else Some row, s'))"

definition forceAvailabilityStatus :: "string \<Rightarrow> availability_status \<Rightarrow> shop \<Rightarrow> shop" where
  "forceAvailabilityStatus driverId status s =
     s\<lparr>s_availability := t_update (\<lambda>a. av_driverId a = driverId)
         (\<lambda>a. a\<lparr>av_status := status, av_offlineAfterCurrentDelivery := False\<rparr>) (s_availability s)\<rparr>"

section \<open>Readiness\<close>

definition readinessInput :: "driver_row \<Rightarrow> shop \<Rightarrow> readiness_input" where
  "readinessInput profile s =
     \<lparr>ri_verificationStatus = dr_verificationStatus profile, ri_fullName = dr_fullName profile,
      ri_identity = find (\<lambda>d. doc_type d = DOC_IDENTITY) (listDocuments (dr_id profile) s),
      ri_license = find (\<lambda>d. doc_type d = DOC_LICENSE) (listDocuments (dr_id profile) s),
      ri_vehicles = listVehicles (dr_id profile) s\<rparr>"

record readiness =
  rd_profileComplete :: bool
  rd_identityDocumentComplete :: bool
  rd_drivingLicenseComplete :: bool
  rd_vehicleComplete :: bool
  rd_verificationSubmitted :: bool
  rd_verificationApproved :: bool
  rd_operationalReady :: bool
  rd_matchingEligible :: bool

definition readinessOf :: "instant \<Rightarrow> driver_row \<Rightarrow> shop \<Rightarrow> readiness" where
  "readinessOf now profile s =
     (let i = readinessInput profile s; today = utcTodayIsoDate now; operational = isOperationalReady i today
      in \<lparr>rd_profileComplete = isProfileComplete (dr_fullName profile),
          rd_identityDocumentComplete = isIdentityDocumentComplete (ri_identity i) today,
          rd_drivingLicenseComplete = isDrivingLicenseComplete (ri_license i) today,
          rd_vehicleComplete = list_ex (\<lambda>v. vh_status v = VEHICLE_ACTIVE) (ri_vehicles i),
          rd_verificationSubmitted = (dr_verificationStatus profile = V_PENDING_REVIEW
            \<or> dr_verificationStatus profile = V_APPROVED),
          rd_verificationApproved = (dr_verificationStatus profile = V_APPROVED),
          rd_operationalReady = operational,
          rd_matchingEligible = canParticipateInMatching (dr_verificationStatus profile)
            (map_option av_status (findAvailability (dr_id profile) s)) operational\<rparr>)"

record me_view =
  me_readiness :: readiness
  me_profile :: driver_row
  me_documents :: "driver_document list"
  me_vehicles :: "vehicle_row list"
  me_availability :: "availability_row option"

text \<open>Without a profile every answer of \<open>getMe\<close> is negative and empty: \<open>None\<close>.\<close>

definition getMe :: "instant \<Rightarrow> string \<Rightarrow> shop \<Rightarrow> me_view option" where
  "getMe now accountId s =
     map_option (\<lambda>profile. \<lparr>me_readiness = readinessOf now profile s, me_profile = profile,
        me_documents = listDocuments (dr_id profile) s, me_vehicles = listVehicles (dr_id profile) s,
        me_availability = findAvailability (dr_id profile) s\<rparr>) (findProfileByAccountId accountId s)"

definition thenMe :: "instant \<Rightarrow> string \<Rightarrow> unit effect \<Rightarrow> me_view option effect" where
  "thenMe now accountId m = and_then m (\<lambda>_ s. (Inr (getMe now accountId s), s))"

section \<open>Onboarding\<close>

definition createProfile ::
  "instant \<Rightarrow> string \<Rightarrow> string \<Rightarrow> string \<Rightarrow> shop \<Rightarrow> app_error + driver_row \<times> shop" where
  "createProfile now newId accountId fullName s =
     (if findProfileByAccountId accountId s \<noteq> None then Inl (DriverE DRIVER_PROFILE_ALREADY_EXISTS)
      else createProfileWithAvailability now newId accountId (js_trim fullName) s)"

definition requireEditableProfile :: "string \<Rightarrow> shop \<Rightarrow> app_error + driver_row" where
  "requireEditableProfile accountId s =
     (case findProfileByAccountId accountId s of
        None \<Rightarrow> Inl (DriverE DRIVER_PROFILE_NOT_FOUND)
      | Some profile \<Rightarrow>
          if \<not> isEditableOnboardingStatus (dr_verificationStatus profile)
          then Inl (DriverE DRIVER_VERIFICATION_INVALID_STATE) else Inr profile)"

definition updateProfile ::
  "instant \<Rightarrow> string \<Rightarrow> string option \<Rightarrow> shop \<Rightarrow> app_error + driver_row \<times> shop" where
  "updateProfile now accountId fullName s =
     ebind (requireEditableProfile accountId s) (\<lambda>profile.
     let s' = update_driver (dr_id profile)
           (\<lambda>d. d\<lparr>dr_fullName := js_default (map_option js_trim fullName) (dr_fullName d), dr_updatedAt := now\<rparr>) s
     in case findProfileById (dr_id profile) s' of
          None \<Rightarrow> Inl (DriverE DRIVER_PROFILE_NOT_FOUND) | Some updated \<Rightarrow> Inr (updated, s'))"

text \<open>The lock, and the status checked again under it.\<close>

definition lockEditable :: "instant \<Rightarrow> string \<Rightarrow> shop \<Rightarrow> app_error + driver_row \<times> shop" where
  "lockEditable now driverId s =
     (case lockProfile now driverId s of
        (None, _) \<Rightarrow> Inl (DriverE DRIVER_VERIFICATION_INVALID_STATE)
      | (Some locked, s1) \<Rightarrow>
          if \<not> isEditableOnboardingStatus (dr_verificationStatus locked)
          then Inl (DriverE DRIVER_VERIFICATION_INVALID_STATE) else Inr (locked, s1))"

definition checkDocument :: "instant \<Rightarrow> string \<Rightarrow> string option \<Rightarrow> app_error + unit" where
  "checkDocument now type expiryDate =
     (if \<not> isDriverDocumentType type then Inl (DriverE DRIVER_DOCUMENT_INVALID)
      else if type = DOC_LICENSE then
        (case some_text expiryDate of
           None \<Rightarrow> Inl (DriverE DRIVER_DOCUMENT_INVALID)
         | Some e \<Rightarrow> if isIsoDate e \<and> isExpiryValid (Some e) (utcTodayIsoDate now) then Inr ()
                     else Inl (DriverE DRIVER_DOCUMENT_INVALID))
      else (case some_text expiryDate of
              None \<Rightarrow> Inr ()
            | Some e \<Rightarrow> if isIsoDate e \<and> isExpiryValid (Some e) (utcTodayIsoDate now) then Inr ()
                        else Inl (DriverE DRIVER_DOCUMENT_INVALID)))"

definition upsertDocument ::
  "(string \<Rightarrow> app_error + string) \<Rightarrow> instant \<Rightarrow> string \<Rightarrow> string \<Rightarrow> string \<Rightarrow> string option \<Rightarrow> string option \<Rightarrow>
   me_view option effect" where
  "upsertDocument promote now newId accountId type expiryDate uploadReference s =
     (case ebind (checkDocument now type expiryDate) (\<lambda>_. requireEditableProfile accountId s) of
        Inl e \<Rightarrow> (Inl e, s)
      | Inr profile \<Rightarrow>
          thenMe now accountId
            (and_then (atomically (\<lambda>s0. ebind (lockEditable now (dr_id profile) s0) (\<lambda>(locked, s1).
                         upsertDocumentRow newId (dr_id locked) type expiryDate s1)))
              (\<lambda>document s1.
                 case some_text uploadReference of
                   None \<Rightarrow> (Inr (), s1)
                 | Some r \<Rightarrow>
                     (case promote r of
                        Inl e \<Rightarrow> (Inl e, s1)
                      | Inr locator \<Rightarrow> (Inr (), updateDocumentFileUrl (doc_id document) locator s1)))) s)"

definition createVehicle ::
  "instant \<Rightarrow> string \<Rightarrow> string \<Rightarrow> vehicle_input \<Rightarrow> shop \<Rightarrow> app_error + vehicle_row \<times> shop" where
  "createVehicle now newId accountId input s =
     (if \<not> isDriverVehicleType (vi_type input) then Inl (DriverE DRIVER_DOCUMENT_INVALID)
      else ebind (requireEditableProfile accountId s) (\<lambda>profile.
           ebind (lockEditable now (dr_id profile) s) (\<lambda>(locked, s1).
           createActiveVehicle now newId (dr_id locked)
             (input\<lparr>vi_plateNumber := normalizePlate (vi_plateNumber input), vi_model := js_trim (vi_model input),
                    vi_color := map_option js_trim (vi_color input)\<rparr>) s1)))"

fun js_opt_map :: "('a \<Rightarrow> 'b) \<Rightarrow> 'a js_opt \<Rightarrow> 'b js_opt" where
  "js_opt_map f Undef = Undef"
| "js_opt_map f Null = Null"
| "js_opt_map f (Val x) = Val (f x)"

definition updateVehicle ::
  "instant \<Rightarrow> string \<Rightarrow> string \<Rightarrow> vehicle_patch \<Rightarrow> shop \<Rightarrow> app_error + vehicle_row \<times> shop" where
  "updateVehicle now accountId vehicleId input s =
     (if (case vp_type input of None \<Rightarrow> False | Some t \<Rightarrow> \<not> isDriverVehicleType t)
      then Inl (DriverE DRIVER_DOCUMENT_INVALID)
      else ebind (requireEditableProfile accountId s) (\<lambda>profile.
           ebind (lockEditable now (dr_id profile) s) (\<lambda>(locked, s1).
           case findOwnedVehicle (dr_id locked) vehicleId s1 of
             None \<Rightarrow> Inl (DriverE DRIVER_VEHICLE_NOT_FOUND)
           | Some _ \<Rightarrow>
               ebind (updateVehicleRow vehicleId
                   (input\<lparr>vp_plateNumber := map_option normalizePlate (vp_plateNumber input),
                          vp_model := map_option js_trim (vp_model input),
                          vp_color := js_opt_map js_trim (vp_color input)\<rparr>) s1)
                 (\<lambda>(updated, s2). case updated of
                    None \<Rightarrow> Inl (DriverE DRIVER_VEHICLE_NOT_FOUND) | Some v \<Rightarrow> Inr (v, s2)))))"

definition assertOnboardingComplete :: "string \<Rightarrow> driver_row \<Rightarrow> shop \<Rightarrow> app_error + unit" where
  "assertOnboardingComplete today locked s =
     (let i = readinessInput locked s
      in if \<not> isProfileComplete (ri_fullName i) then Inl (DriverE DRIVER_ONBOARDING_INCOMPLETE)
         else if ri_identity i = None \<or> \<not> isIdentityDocumentComplete (ri_identity i) today
         then Inl (DriverE DRIVER_DOCUMENT_REQUIRED)
         else if (case ri_license i of None \<Rightarrow> True | Some l \<Rightarrow> \<not> isExpiryValid (doc_expiryDate l) today)
         then Inl (DriverE DRIVER_LICENSE_REQUIRED)
         else if \<not> list_ex (\<lambda>v. vh_status v = VEHICLE_ACTIVE) (ri_vehicles i) then Inl (DriverE DRIVER_VEHICLE_REQUIRED)
         else if \<not> isOnboardingReady i today then Inl (DriverE DRIVER_ONBOARDING_INCOMPLETE)
         else Inr ())"

definition submitVerificationInTx :: "instant \<Rightarrow> string \<Rightarrow> shop \<Rightarrow> app_error + unit \<times> shop" where
  "submitVerificationInTx now driverId s =
     (case lockProfile now driverId s of
        (None, _) \<Rightarrow> Inl (DriverE DRIVER_PROFILE_NOT_FOUND)
      | (Some locked, s1) \<Rightarrow>
          if dr_verificationStatus locked = V_PENDING_REVIEW then Inl (DriverE DRIVER_VERIFICATION_INVALID_STATE)
          else if \<not> canSubmitVerification (dr_verificationStatus locked)
          then Inl (DriverE DRIVER_VERIFICATION_INVALID_STATE)
          else ebind (assertOnboardingComplete (utcTodayIsoDate now) locked s1) (\<lambda>_.
               Inr ((), snd (setVerificationStatus now driverId V_PENDING_REVIEW None s1))))"

definition submitVerification :: "instant \<Rightarrow> string \<Rightarrow> me_view option effect" where
  "submitVerification now accountId s =
     (case findProfileByAccountId accountId s of
        None \<Rightarrow> (Inl (DriverE DRIVER_PROFILE_NOT_FOUND), s)
      | Some profile \<Rightarrow> thenMe now accountId (atomically (submitVerificationInTx now (dr_id profile))) s)"

section \<open>Availability\<close>

definition goOnlineInTx :: "instant \<Rightarrow> string \<Rightarrow> shop \<Rightarrow> app_error + unit \<times> shop" where
  "goOnlineInTx now driverId s =
     (case lockProfile now driverId s of
        (None, _) \<Rightarrow> Inl (DriverE DRIVER_PROFILE_NOT_FOUND)
      | (Some locked, s1) \<Rightarrow>
          if \<not> rd_operationalReady (readinessOf now locked s1) then Inl (DriverE DRIVER_NOT_OPERATIONAL)
          else case setAvailabilityStatus (dr_id locked) AV_OFFLINE AV_ONLINE s1 of
                 (None, _) \<Rightarrow> Inl (DriverE DRIVER_AVAILABILITY_INVALID_TRANSITION)
               | (Some _, s2) \<Rightarrow> Inr ((), s2))"

definition goOnline :: "instant \<Rightarrow> string \<Rightarrow> me_view option effect" where
  "goOnline now accountId s =
     (case findProfileByAccountId accountId s of
        None \<Rightarrow> (Inl (DriverE DRIVER_PROFILE_NOT_FOUND), s)
      | Some profile \<Rightarrow>
          if \<not> isOperationalReady (readinessInput profile s) (utcTodayIsoDate now)
          then (Inl (DriverE (if dr_verificationStatus profile \<noteq> V_APPROVED then DRIVER_NOT_APPROVED
                              else DRIVER_NOT_OPERATIONAL)), s)
          else if \<not> canGoOnline (dr_verificationStatus profile)
                     (map_option av_status (findAvailability (dr_id profile) s)) True
          then (Inl (DriverE DRIVER_AVAILABILITY_INVALID_TRANSITION), s)
          else thenMe now accountId (atomically (goOnlineInTx now (dr_id profile))) s)"

definition goOfflineInTx :: "instant \<Rightarrow> string \<Rightarrow> shop \<Rightarrow> app_error + unit \<times> shop" where
  "goOfflineInTx now driverId s =
     (case lockProfile now driverId s of
        (None, _) \<Rightarrow> Inl (DriverE DRIVER_PROFILE_NOT_FOUND)
      | (Some locked, s1) \<Rightarrow>
          (case findAvailability (dr_id locked) s1 of
             None \<Rightarrow> Inl (DriverE DRIVER_AVAILABILITY_INVALID_TRANSITION)
           | Some availability \<Rightarrow>
               if av_status availability = AV_OFFLINE \<or> av_status availability = AV_SUSPENDED
                  \<or> av_status availability = AV_OFFLINE_AFTER_CURRENT_DELIVERY
               then Inl (DriverE DRIVER_AVAILABILITY_INVALID_TRANSITION)
               else case setAvailabilityStatus (dr_id locked) (av_status availability)
                           (if findOpenAcceptedAssignment (dr_id locked) s1 \<noteq> None
                            then AV_OFFLINE_AFTER_CURRENT_DELIVERY else AV_OFFLINE) s1 of
                      (None, _) \<Rightarrow> Inl (DriverE DRIVER_AVAILABILITY_INVALID_TRANSITION)
                    | (Some _, s2) \<Rightarrow> Inr ((), s2)))"

definition goOffline :: "instant \<Rightarrow> string \<Rightarrow> me_view option effect" where
  "goOffline now accountId s =
     (case findProfileByAccountId accountId s of
        None \<Rightarrow> (Inl (DriverE DRIVER_PROFILE_NOT_FOUND), s)
      | Some profile \<Rightarrow> thenMe now accountId (atomically (goOfflineInTx now (dr_id profile))) s)"

definition matchingEligibility :: "instant \<Rightarrow> string \<Rightarrow> shop \<Rightarrow> bool" where
  "matchingEligibility now driverId s =
     (case findProfileById driverId s of
        None \<Rightarrow> False | Some profile \<Rightarrow> rd_matchingEligible (readinessOf now profile s))"

section \<open>Review\<close>

definition reviewTransitionInTx ::
  "instant \<Rightarrow> string \<Rightarrow> verification_status \<Rightarrow> verification_status \<Rightarrow> instant option \<Rightarrow> shop \<Rightarrow>
   app_error + driver_row \<times> shop" where
  "reviewTransitionInTx now driverId fromStatus toStatus approvedAt s =
     (case lockProfile now driverId s of
        (None, _) \<Rightarrow> Inl (DriverE DRIVER_PROFILE_NOT_FOUND)
      | (Some locked, s1) \<Rightarrow>
          if dr_verificationStatus locked \<noteq> fromStatus then Inl (DriverE DRIVER_VERIFICATION_INVALID_STATE)
          else case setVerificationStatus now driverId toStatus approvedAt s1 of
                 (updated, s2) \<Rightarrow>
                   let s3 = (if toStatus = V_REJECTED then forceAvailabilityStatus driverId AV_OFFLINE s2 else s2)
                   in case updated of
                        None \<Rightarrow> Inl (DriverE DRIVER_PROFILE_NOT_FOUND) | Some row \<Rightarrow> Inr (row, s3))"

definition approveInTx :: "instant \<Rightarrow> string \<Rightarrow> shop \<Rightarrow> app_error + driver_row \<times> shop" where
  "approveInTx now driverId = reviewTransitionInTx now driverId V_PENDING_REVIEW V_APPROVED (Some now)"

definition rejectInTx :: "instant \<Rightarrow> string \<Rightarrow> shop \<Rightarrow> app_error + driver_row \<times> shop" where
  "rejectInTx now driverId = reviewTransitionInTx now driverId V_PENDING_REVIEW V_REJECTED None"

definition suspendInTx :: "instant \<Rightarrow> string \<Rightarrow> shop \<Rightarrow> app_error + (driver_row \<times> bool) \<times> shop" where
  "suspendInTx now driverId s =
     (case lockProfile now driverId s of
        (None, _) \<Rightarrow> Inl (DriverE DRIVER_PROFILE_NOT_FOUND)
      | (Some locked, s1) \<Rightarrow>
          if dr_verificationStatus locked = V_SUSPENDED
          then Inr ((locked, True), forceAvailabilityStatus driverId AV_SUSPENDED s1)
          else if dr_verificationStatus locked \<noteq> V_APPROVED then Inl (DriverE DRIVER_VERIFICATION_INVALID_STATE)
          else case setVerificationStatus now driverId V_SUSPENDED (dr_approvedAt locked) s1 of
                 (updated, s2) \<Rightarrow>
                   let s3 = forceAvailabilityStatus driverId AV_SUSPENDED s2
                   in case updated of
                        None \<Rightarrow> Inl (DriverE DRIVER_PROFILE_NOT_FOUND) | Some row \<Rightarrow> Inr ((row, False), s3))"

end
