(* ===== verification/Driver_Delivery.thy ===== *)
theory Driver_Delivery
  imports Handoff Drivers
begin

text \<open>
  Deliveries: \<open>delivery.service.ts\<close> (a delivery for a ready order), \<open>driver-delivery.service.ts\<close> (the
  driver's actions up to the completion of the order), \<open>delivery.repository.ts\<close> and the remuneration of
  the driver (\<open>driver-remuneration.service.ts\<close>, \<open>driver-earning.repository.ts\<close>). Notifications, sent
  after the transactions, are left out.
\<close>

section \<open>Remuneration\<close>

definition toEarning :: "earning_row \<Rightarrow> app_error + earning_row" where
  "toEarning row =
     ebind (readMinor False (e_baseRemunerationMinor row)) (\<lambda>base.
     ebind (readMinor False (e_bonusMinor row)) (\<lambda>bonus.
     ebind (readMinor True (e_adjustmentMinor row)) (\<lambda>adjustment.
     ebind (readMinor False (e_netEarningMinor row)) (\<lambda>net.
     Inr (row\<lparr>e_baseRemunerationMinor := base, e_bonusMinor := bonus, e_adjustmentMinor := adjustment,
       e_netEarningMinor := net\<rparr>)))))"

definition findEarningByDeliveryId :: "string \<Rightarrow> shop \<Rightarrow> app_error + earning_row option" where
  "findEarningByDeliveryId deliveryId s =
     (case t_find e_deliveryId deliveryId (s_earnings s) of
        None \<Rightarrow> Inr None | Some row \<Rightarrow> ebind (toEarning row) (\<lambda>r. Inr (Some r)))"

text \<open>The remuneration agreed when the order was placed.\<close>

definition findDriverRemunerationSnapshot :: "string \<Rightarrow> shop \<Rightarrow> jsnum option" where
  "findDriverRemunerationSnapshot orderId s =
     (case t_find sn_orderId orderId (s_snapshots s) of
        None \<Rightarrow> None
      | Some row \<Rightarrow> Some (parseMinorUnits (DbBig (sn_driverRemunerationMinor row))))"

text \<open>The primary key and the unique delivery id of the table.\<close>

definition createEarned ::
  "instant \<Rightarrow> string \<Rightarrow> string \<Rightarrow> string \<Rightarrow> earning_amounts \<Rightarrow> shop \<Rightarrow> app_error + earning_row \<times> shop" where
  "createEarned at' newId deliveryId driverId a s =
     ebind (pgBigInt (ea_baseRemunerationMinor a)) (\<lambda>base.
     ebind (pgBigInt (ea_bonusMinor a)) (\<lambda>bonus.
     ebind (pgBigInt (ea_adjustmentMinor a)) (\<lambda>adjustment.
     ebind (pgBigInt (ea_netEarningMinor a)) (\<lambda>net.
     if newId \<in> e_id ` set (s_earnings s) \<or> deliveryId \<in> e_deliveryId ` set (s_earnings s)
     then Inl UniqueViolationE
     else let row = \<lparr>e_id = newId, e_deliveryId = deliveryId, e_driverId = driverId,
              e_baseRemunerationMinor = base, e_bonusMinor = bonus, e_adjustmentMinor = adjustment,
              e_netEarningMinor = net, e_status = ''EARNED'', e_validatedAt = at'\<rparr>
          in ebind (toEarning row) (\<lambda>r. Inr (r, s\<lparr>s_earnings := s_earnings s @ [row]\<rparr>))))))"

definition postEarning :: "instant \<Rightarrow> string \<Rightarrow> string \<Rightarrow> earning_row \<Rightarrow> shop \<Rightarrow> app_error + earning_row \<times> shop" where
  "postEarning now ledgerId orderId row s =
     ebind (in_ledger (postDriverEarning ledgerId now (e_id row) orderId (e_driverId row)
              (BigMinor (e_netEarningMinor row))) s) (\<lambda>s'. Inr (row, s'))"

definition earnOnce ::
  "instant \<Rightarrow> string \<Rightarrow> string \<Rightarrow> string \<Rightarrow> string \<Rightarrow> string \<Rightarrow> earning_amounts \<Rightarrow> shop \<Rightarrow>
   app_error + earning_row \<times> shop" where
  "earnOnce now newId ledgerId deliveryId orderId driverId a s =
     (case ebind (createEarned now newId deliveryId driverId a s)
             (\<lambda>(created, s1). postEarning now ledgerId orderId created s1) of
        Inr r \<Rightarrow> Inr r
      | Inl e \<Rightarrow>
          if e \<noteq> UniqueViolationE then Inl e
          else ebind (findEarningByDeliveryId deliveryId s) (\<lambda>raced.
            case raced of
              None \<Rightarrow> Inl (EarningE DRIVER_EARNING_ALREADY_EXISTS)
            | Some r \<Rightarrow>
                if e_driverId r = driverId \<and> JInt (e_netEarningMinor r) = ea_netEarningMinor a
                   \<and> e_status r = ''EARNED''
                then postEarning now ledgerId orderId r s
                else Inl (EarningE DRIVER_EARNING_ALREADY_EXISTS)))"

definition createForCompletedDelivery ::
  "instant \<Rightarrow> string \<Rightarrow> string \<Rightarrow> string \<Rightarrow> string \<Rightarrow> string \<Rightarrow> shop \<Rightarrow> app_error + earning_row \<times> shop" where
  "createForCompletedDelivery now newId ledgerId deliveryId orderId driverId s =
     (if driverId = [] \<or> deliveryId = [] \<or> orderId = [] then Inl (EarningE DRIVER_EARNING_ASSIGNMENT_INVALID)
      else ebind (findEarningByDeliveryId deliveryId s) (\<lambda>existing.
        case existing of
          Some row \<Rightarrow>
            if e_driverId row = driverId \<and> e_status row = ''EARNED''
            then postEarning now ledgerId orderId row s
            else Inl (EarningE DRIVER_EARNING_ALREADY_EXISTS)
        | None \<Rightarrow>
            (case t_find d_id deliveryId (s_deliveries s) of
               None \<Rightarrow> Inl (EarningE DRIVER_EARNING_DELIVERY_NOT_COMPLETED)
             | Some delivery \<Rightarrow>
                 if d_orderId delivery \<noteq> orderId \<or> d_status delivery \<noteq> DELIVERED
                 then Inl (EarningE DRIVER_EARNING_DELIVERY_NOT_COMPLETED)
                 else case findDriverRemunerationSnapshot orderId s of
                        None \<Rightarrow> Inl (EarningE DRIVER_EARNING_FINANCIAL_STATE_INVALID)
                      | Some remuneration \<Rightarrow>
                          ebind (emap EarningE (buildDriverEarningAmounts remuneration)) (\<lambda>a.
                          earnOnce now newId ledgerId deliveryId orderId driverId a s))))"

section \<open>Delivery repository\<close>

definition lockOrderPayment :: "instant \<Rightarrow> string \<Rightarrow> shop \<Rightarrow> payment_row option \<times> shop" where
  "lockOrderPayment now orderId s =
     (let s' = touchOrderPayment now orderId s in (t_find p_orderId orderId (s_payments s'), s'))"

definition insertDeliveryWithCreatedEvent :: "instant \<Rightarrow> string \<Rightarrow> string \<Rightarrow> shop \<Rightarrow> app_error + shop" where
  "insertDeliveryWithCreatedEvent now newId orderId s =
     (if newId \<in> d_id ` set (s_deliveries s) \<or> orderId \<in> d_orderId ` set (s_deliveries s)
      then Inl UniqueViolationE
      else Inr (appendEvent \<lparr>de_deliveryId = newId, de_type = ''DELIVERY_CREATED'', de_driverId = None,
                  de_occurredAt = now\<rparr>
             (s\<lparr>s_deliveries := s_deliveries s @ [\<lparr>d_id = newId, d_orderId = orderId,
                d_status = SEARCHING_DRIVER, d_driverSearchStartedAt = now, d_pickedUpAt = None,
                d_arrivedCustomerAt = None, d_deliveredAt = None, d_updatedAt = now\<rparr>]\<rparr>)))"

record delivery_context =
  dc_orderId :: string
  dc_customerId :: string
  dc_deliveryStatus :: delivery_status
  dc_orderStatus :: order_status
  dc_fulfillmentStatus :: fulfillment_status
  dc_pickup :: "jsnum \<times> jsnum"
  dc_dropoff :: "jsnum \<times> jsnum"
  dc_driverRemunerationMinor :: jsnum

definition findMatchingContext :: "directory \<Rightarrow> string \<Rightarrow> shop \<Rightarrow> delivery_context option" where
  "findMatchingContext dir deliveryId s =
     (case t_find d_id deliveryId (s_deliveries s) of
        None \<Rightarrow> None
      | Some delivery \<Rightarrow>
          (case t_find o_id (d_orderId delivery) (s_orders s) of
             None \<Rightarrow> None
           | Some order \<Rightarrow>
               (case (dir_branchLocation dir (o_merchantBranchId order),
                      t_find ad_orderId (o_id order) (s_addresses s), t_find sn_orderId (o_id order) (s_snapshots s)) of
                  (Some pickup, Some address, Some financial) \<Rightarrow>
                    Some \<lparr>dc_orderId = o_id order, dc_customerId = o_customerId order,
                      dc_deliveryStatus = d_status delivery, dc_orderStatus = o_status order,
                      dc_fulfillmentStatus = o_fulfillmentStatus order, dc_pickup = pickup,
                      dc_dropoff = (ad_latitude address, ad_longitude address),
                      dc_driverRemunerationMinor = parseMinorUnits (DbBig (sn_driverRemunerationMinor financial))\<rparr>
                | _ \<Rightarrow> None)))"

record delivery_detail =
  dd_id :: string
  dd_orderId :: string
  dd_status :: delivery_status
  dd_orderStatus :: order_status
  dd_fulfillmentStatus :: fulfillment_status
  dd_assignedDriverId :: "string option"
  dd_pickedUpAt :: "instant option"
  dd_arrivedCustomerAt :: "instant option"
  dd_deliveredAt :: "instant option"
  dd_pickup :: "jsnum \<times> jsnum"
  dd_dropoff :: "jsnum \<times> jsnum"
  dd_deliveryFeeMinor :: "string option"
  dd_events :: "delivery_event list"

text \<open>The delivery fee is a bigint, whose decimal string never fails.\<close>

definition findDeliveryDetail :: "directory \<Rightarrow> string \<Rightarrow> shop \<Rightarrow> delivery_detail option" where
  "findDeliveryDetail dir orderId s =
     (case t_find d_orderId orderId (s_deliveries s) of
        None \<Rightarrow> None
      | Some delivery \<Rightarrow>
          (case t_find o_id orderId (s_orders s) of
             None \<Rightarrow> None
           | Some order \<Rightarrow>
               (case (dir_branchLocation dir (o_merchantBranchId order), t_find ad_orderId orderId (s_addresses s)) of
                  (Some pickup, Some address) \<Rightarrow>
                    Some \<lparr>dd_id = d_id delivery, dd_orderId = o_id order, dd_status = d_status delivery,
                      dd_orderStatus = o_status order, dd_fulfillmentStatus = o_fulfillmentStatus order,
                      dd_assignedDriverId =
                        map_option a_driverId (findOpenAcceptedAssignmentForDelivery (d_id delivery) s),
                      dd_pickedUpAt = d_pickedUpAt delivery, dd_arrivedCustomerAt = d_arrivedCustomerAt delivery,
                      dd_deliveredAt = d_deliveredAt delivery, dd_pickup = pickup,
                      dd_dropoff = (ad_latitude address, ad_longitude address),
                      dd_deliveryFeeMinor = map_option (\<lambda>sn. show_int (sn_customerDeliveryFeeMinor sn))
                        (t_find sn_orderId orderId (s_snapshots s)),
                      dd_events = sort_key de_occurredAt
                        (filter (\<lambda>ev. de_deliveryId ev = d_id delivery) (s_deliveryEvents s))\<rparr>
                | _ \<Rightarrow> None)))"

text \<open>Releasing an assignment also invalidates the pending pickup code of its delivery.\<close>

definition releaseAcceptedAssignment :: "instant \<Rightarrow> string \<Rightarrow> shop \<Rightarrow> bool \<times> shop" where
  "releaseAcceptedAssignment now assignmentId s =
     (let s' = s\<lparr>s_assignments := t_update (\<lambda>a. a_id a = assignmentId \<and> a_status a = A_ACCEPTED \<and> a_releasedAt a = None)
                (\<lambda>a. a\<lparr>a_status := A_RELEASED, a_releasedAt := Some now\<rparr>) (s_assignments s)\<rparr>;
          released = (case t_find a_id assignmentId (s_assignments s') of
                        None \<Rightarrow> False | Some row \<Rightarrow> a_status row = A_RELEASED \<and> a_releasedAt row \<noteq> None)
      in case t_find a_id assignmentId (s_assignments s) of
           Some assignment \<Rightarrow>
             if released then (True, invalidatePending now (a_deliveryId assignment) ''ASSIGNMENT_RELEASED'' s')
             else (False, s')
         | None \<Rightarrow> (released, s'))"

definition completeActiveOrder :: "instant \<Rightarrow> string \<Rightarrow> string \<Rightarrow> shop \<Rightarrow> bool \<times> shop" where
  "completeActiveOrder now orderId driverId s =
     (let s' = s\<lparr>s_orders := t_update (\<lambda>o'. o_id o' = orderId \<and> o_status o' = O_ACTIVE)
                (\<lambda>o'. o'\<lparr>o_status := O_COMPLETED, o_completedAt := Some now, o_updatedAt := now\<rparr>) (s_orders s)\<rparr>
      in case t_find o_id orderId (s_orders s') of
           None \<Rightarrow> (False, s')
         | Some row \<Rightarrow>
             if o_status row \<noteq> O_COMPLETED then (False, s')
             else (True, s'\<lparr>s_events := s_events s' @ [\<lparr>ev_orderId = orderId, ev_eventType = ''ORDER_COMPLETED'',
                ev_actorType = ''DRIVER'', ev_actorId = driverId, ev_fromStatus = Some O_ACTIVE,
                ev_toStatus = O_COMPLETED, ev_occurredAt = now\<rparr>]\<rparr>))"

section \<open>A delivery for a ready order\<close>

definition createDeliveryInTx :: "instant \<Rightarrow> string \<Rightarrow> string \<Rightarrow> shop \<Rightarrow> app_error + unit \<times> shop" where
  "createDeliveryInTx now newId orderId s =
     (case lockOrder now orderId s of
        (None, _) \<Rightarrow> Inl (DeliveryE DELIVERY_ORDER_NOT_ELIGIBLE)
      | (Some locked, s1) \<Rightarrow>
          if t_find d_orderId orderId (s_deliveries s1) \<noteq> None then Inr ((), s1)
          else if \<not> isOrderEligibleForDelivery (o_status locked) (o_fulfillmentStatus locked)
          then Inl (DeliveryE DELIVERY_ORDER_NOT_ELIGIBLE)
          else case lockOrderPayment now orderId s1 of
                 (None, _) \<Rightarrow> Inl (DeliveryE DELIVERY_PAYMENT_NOT_READY)
               | (Some payment, s2) \<Rightarrow>
                   if \<not> isDeliveryPaymentEligible (p_method payment) (p_status payment)
                   then Inl (DeliveryE DELIVERY_PAYMENT_NOT_READY)
                   else if t_find ad_orderId orderId (s_addresses s2) = None
                   then Inl (DeliveryE DELIVERY_ORDER_NOT_ELIGIBLE)
                   else ebind (insertDeliveryWithCreatedEvent now newId orderId s2) (\<lambda>s3. Inr ((), s3)))"

definition createForReadyOrder :: "directory \<Rightarrow> instant \<Rightarrow> string \<Rightarrow> string \<Rightarrow> delivery_detail effect" where
  "createForReadyOrder dir now newId orderId s =
     (case atomically (createDeliveryInTx now newId orderId) s of
        (Inl e, s1) \<Rightarrow>
          if e \<noteq> UniqueViolationE then (Inl e, s1)
          else (case findDeliveryDetail dir orderId s1 of
                  None \<Rightarrow> (Inl (DeliveryE DELIVERY_NOT_FOUND), s1) | Some d \<Rightarrow> (Inr d, s1))
      | (Inr _, s1) \<Rightarrow>
          (case findDeliveryDetail dir orderId s1 of
             None \<Rightarrow> (Inl (DeliveryE DELIVERY_NOT_FOUND), s1) | Some d \<Rightarrow> (Inr d, s1)))"

section \<open>What customer and merchant see\<close>

definition getCustomerDelivery :: "directory \<Rightarrow> string \<Rightarrow> string \<Rightarrow> shop \<Rightarrow> app_error + delivery_detail" where
  "getCustomerDelivery dir accountId orderId s =
     (case dir_customerOfAccount dir accountId of
        None \<Rightarrow> Inl CustomerProfileNotFoundE
      | Some profileId \<Rightarrow>
          (case t_find o_id orderId (s_orders s) of
             None \<Rightarrow> Inl (OrderE ORDER_NOT_FOUND)
           | Some order \<Rightarrow>
               if o_customerId order \<noteq> profileId then Inl (OrderE ORDER_NOT_FOUND)
               else case findDeliveryDetail dir orderId s of
                      None \<Rightarrow> Inl (DeliveryE DELIVERY_NOT_FOUND) | Some d \<Rightarrow> Inr d))"

record driver_summary =
  ds_driverId :: string
  ds_assignmentId :: string
  ds_assignmentVersion :: int
  ds_displayName :: string
  ds_vehicle :: "(string \<times> string) option"
  ds_deliveryStatus :: delivery_status
  ds_arrivedPickupAt :: "instant option"

definition findActiveVehicle :: "string \<Rightarrow> shop \<Rightarrow> (string \<times> string) option" where
  "findActiveVehicle driverId s =
     map_option (\<lambda>v. (vh_type v, vh_plateNumber v))
       (find (\<lambda>v. vh_driverId v = driverId \<and> vh_status v = VEHICLE_ACTIVE) (s_vehicles s))"

text \<open>The last arrival of a driver at the pickup.\<close>

definition findArrivedPickupAt :: "string \<Rightarrow> shop \<Rightarrow> instant option" where
  "findArrivedPickupAt deliveryId s =
     (case map de_occurredAt (filter (\<lambda>ev. de_deliveryId ev = deliveryId \<and> de_type ev = ''DRIVER_ARRIVED_PICKUP'')
             (s_deliveryEvents s)) of
        [] \<Rightarrow> None | t # ts \<Rightarrow> Some (foldl max t ts))"

definition loadAssignedDriverSummary :: "string \<Rightarrow> delivery_status \<Rightarrow> shop \<Rightarrow> driver_summary option" where
  "loadAssignedDriverSummary deliveryId deliveryStatus s =
     (case findOpenAcceptedAssignmentForDelivery deliveryId s of
        None \<Rightarrow> None
      | Some a \<Rightarrow>
          (case findProfileById (a_driverId a) s of
             None \<Rightarrow> None
           | Some profile \<Rightarrow>
               if dr_fullName profile = [] then None
               else Some \<lparr>ds_driverId = a_driverId a, ds_assignmentId = a_id a, ds_assignmentVersion = a_version a,
                 ds_displayName = dr_fullName profile, ds_vehicle = findActiveVehicle (a_driverId a) s,
                 ds_deliveryStatus = deliveryStatus, ds_arrivedPickupAt = findArrivedPickupAt deliveryId s\<rparr>))"

definition getMerchantDelivery ::
  "directory \<Rightarrow> string \<Rightarrow> string \<Rightarrow> string \<Rightarrow> shop \<Rightarrow> app_error + delivery_detail \<times> driver_summary option" where
  "getMerchantDelivery dir accountId merchantId orderId s =
     (if \<not> dir_canReadOrders dir accountId merchantId then Inl MerchantAccessE
      else case t_find o_id orderId (s_orders s) of
        None \<Rightarrow> Inl (OrderE MERCHANT_ORDER_NOT_FOUND)
      | Some order \<Rightarrow>
          if dir_merchantOfBranch dir (o_merchantBranchId order) \<noteq> Some merchantId
          then Inl (OrderE MERCHANT_ORDER_NOT_FOUND)
          else case findDeliveryDetail dir orderId s of
                 None \<Rightarrow> Inl (DeliveryE DELIVERY_NOT_FOUND)
               | Some d \<Rightarrow> Inr (d, loadAssignedDriverSummary (dd_id d) (dd_status d) s))"

section \<open>The driver's earnings\<close>

definition driverEarnings :: "string \<Rightarrow> shop \<Rightarrow> earning_row list" where
  "driverEarnings driverId s = filter (\<lambda>e. e_driverId e = driverId) (s_earnings s)"

record earning_summary =
  es_totalEarnedMinor :: string
  es_unpaidEarnedMinor :: string
  es_earningCount :: nat

text \<open>The sums of \<open>aggregateDriverEarnings\<close>, read back and written as decimal strings.\<close>

definition earningTotal :: "earning_row list \<Rightarrow> app_error + string" where
  "earningTotal rows =
     ebind (readMinor False (sum_list (map e_netEarningMinor rows))) (\<lambda>n.
     emap (\<lambda>_. InternalE) (moneyMinorToDecimalString (MBig n)))"

definition getSummary :: "string \<Rightarrow> shop \<Rightarrow> app_error + earning_summary" where
  "getSummary accountId s =
     (case driverOfAccount accountId s of
        None \<Rightarrow> Inl (DriverE DRIVER_PROFILE_NOT_FOUND)
      | Some driverId \<Rightarrow>
          ebind (earningTotal (driverEarnings driverId s)) (\<lambda>total.
          ebind (earningTotal (filter (\<lambda>e. e_status e = ''EARNED'') (driverEarnings driverId s))) (\<lambda>unpaid.
          Inr \<lparr>es_totalEarnedMinor = total, es_unpaidEarnedMinor = unpaid,
               es_earningCount = length (driverEarnings driverId s)\<rparr>)))"

record earning_item =
  ei_earningId :: string
  ei_deliveryId :: string
  ei_orderId :: string
  ei_amountMinor :: string
  ei_status :: string
  ei_earnedAt :: instant

fun earningItems :: "(earning_row \<times> delivery_row) list \<Rightarrow> app_error + earning_item list" where
  "earningItems [] = Inr []"
| "earningItems ((e, d) # rest) =
     ebind (toEarning e) (\<lambda>r.
     ebind (emap (\<lambda>_. InternalE) (moneyMinorToDecimalString (MBig (e_netEarningMinor r)))) (\<lambda>amount.
     ebind (earningItems rest) (\<lambda>items.
     Inr (\<lparr>ei_earningId = e_id r, ei_deliveryId = e_deliveryId r, ei_orderId = d_orderId d,
           ei_amountMinor = amount, ei_status = e_status r, ei_earnedAt = e_validatedAt r\<rparr> # items))))"

text \<open>
  \<open>listDriverEarnings\<close>: newest first, ties by id; a row is created, validated and updated at one
  instant. The total counts the earnings without the join.
\<close>

definition listEarnings ::
  "string \<Rightarrow> jsnum option \<Rightarrow> jsnum option \<Rightarrow> shop \<Rightarrow> app_error + earning_item list \<times> nat" where
  "listEarnings accountId limit offset s =
     (case driverOfAccount accountId s of
        None \<Rightarrow> Inl (DriverE DRIVER_PROFILE_NOT_FOUND)
      | Some driverId \<Rightarrow>
          ebind (emap EarningE (normalizeDriverEarningListQuery limit offset 50 100)) (\<lambda>(l, o').
          let joined = concat (map (\<lambda>e. case t_find d_id (e_deliveryId e) (s_deliveries s) of
                  None \<Rightarrow> [] | Some d \<Rightarrow> [(e, d)])
                (rev (sort_key e_validatedAt (sort_key e_id (driverEarnings driverId s)))))
          in ebind (earningItems (take (nat (the_int l)) (drop (nat (the_int o')) joined))) (\<lambda>items.
             Inr (items, length (driverEarnings driverId s)))))"

section \<open>The driver's actions\<close>

text \<open>The driver's last location, the radii and the age limit of the configuration, and the distance.\<close>

record driver_env =
  en_distance :: "jsnum \<Rightarrow> jsnum \<Rightarrow> jsnum \<Rightarrow> jsnum \<Rightarrow> jsnum"
  en_location :: "string \<Rightarrow> location option"
  en_pickupRadiusMeters :: jsnum
  en_dropoffRadiusMeters :: jsnum
  en_locationMaxAgeMs :: int

record active_assignment =
  aa_driverId :: string
  aa_assignmentId :: string
  aa_assignmentVersion :: int
  aa_deliveryId :: string
  aa_orderId :: string
  aa_assignmentStatus :: assignment_status

definition resolveActiveAssignment ::
  "directory \<Rightarrow> string \<Rightarrow> shop \<Rightarrow> driver_delivery_error + active_assignment" where
  "resolveActiveAssignment dir accountId s =
     (case driverOfAccount accountId s of
        None \<Rightarrow> Inl DRIVER_DELIVERY_ACTION_NOT_ALLOWED
      | Some driverId \<Rightarrow>
          (case findOpenAcceptedAssignment driverId s of
             None \<Rightarrow> Inl DRIVER_DELIVERY_ASSIGNMENT_NOT_ACTIVE
           | Some accepted \<Rightarrow>
               if \<not> isAcceptedAssignment (a_status accepted) None then Inl DRIVER_DELIVERY_ASSIGNMENT_NOT_ACTIVE
               else case t_find d_id (a_deliveryId accepted) (s_deliveries s) of
                      None \<Rightarrow> Inl DRIVER_DELIVERY_NOT_FOUND
                    | Some delivery \<Rightarrow>
                        Inr \<lparr>aa_driverId = driverId, aa_assignmentId = a_id accepted,
                             aa_assignmentVersion = a_version accepted, aa_deliveryId = d_id delivery,
                             aa_orderId = d_orderId delivery, aa_assignmentStatus = a_status accepted\<rparr>))"

record current_delivery =
  cw_assignmentId :: string
  cw_deliveryId :: string
  cw_orderId :: string
  cw_deliveryStatus :: delivery_status
  cw_orderStatus :: order_status
  cw_fulfillmentStatus :: fulfillment_status
  cw_assignmentStatus :: assignment_status
  cw_allowedActions :: "driver_action list"
  cw_pickedUpAt :: "instant option"
  cw_arrivedCustomerAt :: "instant option"
  cw_deliveredAt :: "instant option"

text \<open>Without an active assignment there is no current delivery (\<open>resolveActiveAssignment\<close>, not required).\<close>

definition getCurrent :: "directory \<Rightarrow> string \<Rightarrow> shop \<Rightarrow> current_delivery option" where
  "getCurrent dir accountId s =
     (case resolveActiveAssignment dir accountId s of
        Inl _ \<Rightarrow> None
      | Inr c \<Rightarrow>
          (case findDeliveryDetail dir (aa_orderId c) s of
             None \<Rightarrow> None
           | Some d \<Rightarrow>
               Some \<lparr>cw_assignmentId = aa_assignmentId c, cw_deliveryId = aa_deliveryId c,
                 cw_orderId = aa_orderId c, cw_deliveryStatus = dd_status d, cw_orderStatus = dd_orderStatus d,
                 cw_fulfillmentStatus = dd_fulfillmentStatus d,
                 cw_assignmentStatus = aa_assignmentStatus c,
                 cw_allowedActions = allowedActionsForStatus (dd_status d), cw_pickedUpAt = dd_pickedUpAt d,
                 cw_arrivedCustomerAt = dd_arrivedCustomerAt d, cw_deliveredAt = dd_deliveredAt d\<rparr>))"

definition currentOr404 :: "directory \<Rightarrow> string \<Rightarrow> current_delivery effect" where
  "currentOr404 dir accountId s =
     (case getCurrent dir accountId s of
        None \<Rightarrow> (Inl (DriverDeliveryE DRIVER_DELIVERY_NOT_FOUND), s) | Some c \<Rightarrow> (Inr c, s))"

definition assertArrivalProximity ::
  "directory \<Rightarrow> driver_env \<Rightarrow> instant \<Rightarrow> driver_action \<Rightarrow> active_assignment \<Rightarrow> shop \<Rightarrow> app_error + unit" where
  "assertArrivalProximity dir env now action c s =
     (let targets = (case findMatchingContext dir (aa_deliveryId c) s of
            Some m \<Rightarrow> Some (dc_pickup m, dc_dropoff m)
          | None \<Rightarrow> map_option (\<lambda>d. (dd_pickup d, dd_dropoff d)) (findDeliveryDetail dir (aa_orderId c) s))
      in case targets of
           None \<Rightarrow> Inl (DriverDeliveryE DRIVER_DELIVERY_NOT_FOUND)
         | Some (pickup, dropoff) \<Rightarrow>
             (case (if action = ARRIVE_PICKUP then pickup else dropoff) of (latitude, longitude) \<Rightarrow>
             case decideArrivalLocation (en_distance env) (en_location env (aa_driverId c)) latitude longitude
                    (en_locationMaxAgeMs env)
                    (if action = ARRIVE_PICKUP then en_pickupRadiusMeters env else en_dropoffRadiusMeters env) now of
               AD_ok \<Rightarrow> Inr ()
             | AD_missing \<Rightarrow> Inl (DriverDeliveryE DRIVER_DELIVERY_LOCATION_REQUIRED)
             | AD_stale \<Rightarrow> Inl (DriverDeliveryE DRIVER_DELIVERY_LOCATION_STALE)
             | AD_too_far \<Rightarrow>
                 Inl (DriverDeliveryE (if action = ARRIVE_CUSTOMER then DRIVER_DELIVERY_NOT_NEAR_DROPOFF
                   else DRIVER_DELIVERY_NOT_NEAR_PICKUP))))"

text \<open>The guards every transition repeats under the delivery's lock.\<close>

definition lockActive ::
  "instant \<Rightarrow> active_assignment \<Rightarrow> (assignment_row \<Rightarrow> bool) \<Rightarrow> delivery_status \<Rightarrow> shop \<Rightarrow>
   app_error + delivery_row \<times> shop" where
  "lockActive now c still fromStatus s =
     (case lockDelivery now (aa_deliveryId c) s of
        (None, _) \<Rightarrow> Inl (DriverDeliveryE DRIVER_DELIVERY_NOT_FOUND)
      | (Some locked, s1) \<Rightarrow>
          (case findOpenAcceptedAssignment (aa_driverId c) s1 of
             None \<Rightarrow> Inl (DriverDeliveryE DRIVER_DELIVERY_ASSIGNMENT_NOT_ACTIVE)
           | Some accepted \<Rightarrow>
               if \<not> still accepted \<or> \<not> isAcceptedAssignment (a_status accepted) None
               then Inl (DriverDeliveryE DRIVER_DELIVERY_ASSIGNMENT_NOT_ACTIVE)
               else if d_status locked \<noteq> fromStatus then Inl (DriverDeliveryE DRIVER_DELIVERY_INVALID_STATE)
               else Inr (locked, s1)))"

definition sameDelivery :: "active_assignment \<Rightarrow> assignment_row \<Rightarrow> bool" where
  "sameDelivery c a \<longleftrightarrow> a_deliveryId a = aa_deliveryId c"

definition moveInTx ::
  "directory \<Rightarrow> driver_env \<Rightarrow> instant \<Rightarrow> driver_action \<Rightarrow> active_assignment \<Rightarrow> shop \<Rightarrow> app_error + bool \<times> shop" where
  "moveInTx dir env now action c s =
     ebind (lockActive now c (sameDelivery c) (dt_from (transitionForAction action)) s) (\<lambda>(_, s1).
     ebind (if actionRequiresArrivalLocation action then assertArrivalProximity dir env now action c s1 else Inr ())
       (\<lambda>_. Inr (transitionIfStatus now (aa_deliveryId c) (transitionForAction action) (aa_driverId c) s1)))"

definition afterMove :: "directory \<Rightarrow> string \<Rightarrow> bool \<Rightarrow> current_delivery effect" where
  "afterMove dir accountId moved =
     (if \<not> moved then throw (DriverDeliveryE DRIVER_DELIVERY_INVALID_STATE) else currentOr404 dir accountId)"

definition codCompletionReady :: "active_assignment \<Rightarrow> payment_row \<Rightarrow> shop \<Rightarrow> bool" where
  "codCompletionReady c payment s \<longleftrightarrow>
     (case (t_find co_orderId (aa_orderId c) (s_collections s), t_find sn_orderId (aa_orderId c) (s_snapshots s)) of
        (Some collection, Some snapshot) \<Rightarrow>
          let collected = parseMinorUnits (DbBig (co_collectedAmountMinor collection))
          in sn_currency snapshot = ''DZD'' \<and> co_status collection = ''COLLECTED'' \<and>
             p_status payment = PAY_SUCCEEDED \<and> co_driverId collection = aa_driverId c \<and>
             \<not> js_neq collected (parseMinorUnits (DbBig (co_expectedAmountMinor collection))) \<and>
             \<not> js_neq collected (parseMinorUnits (DbBig (p_amountMinor payment))) \<and>
             \<not> js_neq collected (parseMinorUnits (DbBig (sn_customerPayableMinor snapshot)))
      | _ \<Rightarrow> False)"

definition requirePaid :: "active_assignment \<Rightarrow> payment_row \<Rightarrow> shop \<Rightarrow> app_error + unit" where
  "requirePaid c payment s =
     (if p_method payment = PAYMENT_METHOD_COD
      then if codCompletionReady c payment s then Inr ()
           else Inl (DriverDeliveryE DRIVER_DELIVERY_COD_COMPLETION_NOT_READY)
      else if p_method payment \<noteq> PAYMENT_METHOD_ELECTRONIC \<or> p_status payment \<noteq> PAY_SUCCEEDED
      then Inl (DriverDeliveryE DRIVER_DELIVERY_PAYMENT_NOT_READY) else Inr ())"

text \<open>A boolean step of a transaction that must succeed.\<close>

definition must :: "driver_delivery_error \<Rightarrow> bool \<times> shop \<Rightarrow> app_error + shop" where
  "must e r = (case r of (done', s) \<Rightarrow> if done' then Inr s else Inl (DriverDeliveryE e))"

definition goOfflineAfterDelivery :: "string \<Rightarrow> shop \<Rightarrow> shop" where
  "goOfflineAfterDelivery driverId s =
     (case findAvailability driverId s of
        None \<Rightarrow> s
      | Some a \<Rightarrow> if av_status a = AV_OFFLINE_AFTER_CURRENT_DELIVERY
                  then snd (setAvailabilityStatus driverId AV_OFFLINE_AFTER_CURRENT_DELIVERY AV_OFFLINE s) else s)"

definition completeInTx ::
  "instant \<Rightarrow> string \<Rightarrow> string \<Rightarrow> active_assignment \<Rightarrow> shop \<Rightarrow> app_error + earning_row \<times> shop" where
  "completeInTx now newId ledgerId c s =
     (let t = transitionForAction COMPLETE_DELIVERY
      in ebind (lockActive now c (\<lambda>a. a_id a = aa_assignmentId c) (dt_from t) s) (\<lambda>(_, s1).
         case lockOrder now (aa_orderId c) s1 of
           (None, _) \<Rightarrow> Inl (DriverDeliveryE DRIVER_DELIVERY_INVALID_STATE)
         | (Some order, s2) \<Rightarrow>
             if o_status order \<noteq> O_ACTIVE then Inl (DriverDeliveryE DRIVER_DELIVERY_INVALID_STATE)
             else case lockOrderPayment now (aa_orderId c) s2 of
                    (None, _) \<Rightarrow> Inl (DriverDeliveryE DRIVER_DELIVERY_PAYMENT_NOT_READY)
                  | (Some payment, s3) \<Rightarrow>
                      ebind (requirePaid c payment s3) (\<lambda>_.
                      ebind (must DRIVER_DELIVERY_INVALID_STATE
                               (transitionIfStatus now (aa_deliveryId c) t (aa_driverId c) s3)) (\<lambda>s4.
                      ebind (must DRIVER_DELIVERY_ASSIGNMENT_NOT_ACTIVE
                               (releaseAcceptedAssignment now (aa_assignmentId c) s4)) (\<lambda>s5.
                      ebind (must DRIVER_DELIVERY_INVALID_STATE
                               (completeActiveOrder now (aa_orderId c) (aa_driverId c) s5)) (\<lambda>s6.
                      ebind (createForCompletedDelivery now newId ledgerId (aa_deliveryId c) (aa_orderId c)
                               (aa_driverId c) s6) (\<lambda>(earning, s7).
                      Inr (earning, goOfflineAfterDelivery (aa_driverId c) s7))))))))"

definition completedView :: "directory \<Rightarrow> active_assignment \<Rightarrow> current_delivery effect" where
  "completedView dir c s =
     (case findDeliveryDetail dir (aa_orderId c) s of
        None \<Rightarrow> (Inl (DriverDeliveryE DRIVER_DELIVERY_NOT_FOUND), s)
      | Some d \<Rightarrow>
          (Inr \<lparr>cw_assignmentId = aa_assignmentId c, cw_deliveryId = aa_deliveryId c, cw_orderId = aa_orderId c,
                cw_deliveryStatus = dd_status d, cw_orderStatus = dd_orderStatus d,
                 cw_fulfillmentStatus = dd_fulfillmentStatus d,
                cw_assignmentStatus = A_RELEASED, cw_allowedActions = [],
                cw_pickedUpAt = dd_pickedUpAt d, cw_arrivedCustomerAt = dd_arrivedCustomerAt d,
                cw_deliveredAt = dd_deliveredAt d\<rparr>, s))"

definition completeDelivery ::
  "directory \<Rightarrow> instant \<Rightarrow> string \<Rightarrow> string \<Rightarrow> active_assignment \<Rightarrow> current_delivery effect" where
  "completeDelivery dir now newId ledgerId c =
     and_then (atomically (completeInTx now newId ledgerId c)) (\<lambda>_. completedView dir c)"

definition confirmPickup ::
  "directory \<Rightarrow> crypto \<Rightarrow> instant \<Rightarrow> string \<Rightarrow> confirm_body option \<Rightarrow> current_delivery effect" where
  "confirmPickup dir cr now accountId body s =
     (case resolveActiveAssignment dir accountId s of
        Inl e \<Rightarrow> (Inl (DriverDeliveryE e), s)
      | Inr c \<Rightarrow>
          if isAlreadyConfirmed (aa_deliveryId c) (aa_assignmentId c) (aa_driverId c) s
          then currentOr404 dir accountId s
          else and_then (verifyForConfirmPickup cr now (aa_deliveryId c) (aa_driverId c) (aa_assignmentId c)
                   (aa_assignmentVersion c) body)
                 (\<lambda>outcome. case outcome of
                    VerifiedResult \<Rightarrow> currentOr404 dir accountId
                  | Legacy \<Rightarrow>
                      and_then (atomically (\<lambda>s0.
                          ebind (lockActive now c (sameDelivery c) (dt_from (transitionForAction CONFIRM_PICKUP)) s0)
                            (\<lambda>(_, s1). Inr (transitionIfStatus now (aa_deliveryId c)
                                         (transitionForAction CONFIRM_PICKUP) (aa_driverId c) s1))))
                        (afterMove dir accountId)) s)"

definition performAction ::
  "directory \<Rightarrow> driver_env \<Rightarrow> crypto \<Rightarrow> instant \<Rightarrow> string \<Rightarrow> string \<Rightarrow> string \<Rightarrow> driver_action \<Rightarrow>
   confirm_body option \<Rightarrow> current_delivery effect" where
  "performAction dir env cr now newId ledgerId accountId action body s =
     (if action = CONFIRM_PICKUP then confirmPickup dir cr now accountId body s
      else case resolveActiveAssignment dir accountId s of
             Inl e \<Rightarrow> (Inl (DriverDeliveryE e), s)
           | Inr c \<Rightarrow>
               if action = COMPLETE_DELIVERY then completeDelivery dir now newId ledgerId c s
               else and_then (atomically (moveInTx dir env now action c)) (afterMove dir accountId) s)"

end
