(* ===== verification/Matching.thy ===== *)
theory Matching
  imports Driver_Delivery
begin

text \<open>
  Matching deliveries with drivers: \<open>modules/matching/application/matching.service.ts\<close> with
  \<open>infrastructure/assignment.repository.ts\<close>. The store of driver locations (Redis) and its search
  are parameters; the jobs scheduled after a match and the notifications are left out: they change
  nothing here, and a failure to schedule is swallowed.
\<close>

fun matching_http_status :: "matching_error \<Rightarrow> int" where
  "matching_http_status DRIVER_ASSIGNMENT_NOT_FOUND = 404"
| "matching_http_status DRIVER_LOCATION_INVALID = 400"
| "matching_http_status _ = 409"

record matching_env =
  mt_location :: "string \<Rightarrow> location option"
  mt_searchNear :: "jsnum \<Rightarrow> jsnum \<Rightarrow> jsnum \<Rightarrow> int \<Rightarrow> candidate list"
  mt_distance :: "jsnum \<Rightarrow> jsnum \<Rightarrow> jsnum \<Rightarrow> jsnum \<Rightarrow> jsnum"
  mt_pickupRadiusMeters :: jsnum
  mt_candidateLimit :: int
  mt_locationMaxAgeMs :: int
  mt_offerTimeoutMs :: int

section \<open>Assignment repository\<close>

definition findAssignment :: "string \<Rightarrow> shop \<Rightarrow> assignment_row option" where
  "findAssignment assignmentId s = t_find a_id assignmentId (s_assignments s)"

definition findOpenByDelivery :: "string \<Rightarrow> shop \<Rightarrow> assignment_row option" where
  "findOpenByDelivery deliveryId s =
     find (\<lambda>a. a_deliveryId a = deliveryId \<and> a_releasedAt a = None) (s_assignments s)"

definition findOpenByDriver :: "string \<Rightarrow> shop \<Rightarrow> assignment_row option" where
  "findOpenByDriver driverId s =
     find (\<lambda>a. a_driverId a = driverId \<and> a_releasedAt a = None) (s_assignments s)"

definition listDriverIdsForDelivery :: "string \<Rightarrow> shop \<Rightarrow> string list" where
  "listDriverIdsForDelivery deliveryId s =
     map a_driverId (filter (\<lambda>a. a_deliveryId a = deliveryId) (s_assignments s))"

text \<open>One open assignment per delivery and one per driver are unique indexes.\<close>

definition createOffer ::
  "instant \<Rightarrow> string \<Rightarrow> string \<Rightarrow> string \<Rightarrow> shop \<Rightarrow> app_error + assignment_row \<times> shop" where
  "createOffer now newId deliveryId driverId s =
     (if newId \<in> a_id ` set (s_assignments s) \<or> findOpenByDelivery deliveryId s \<noteq> None
         \<or> findOpenByDriver driverId s \<noteq> None
      then Inl (MatchingE (if findOpenByDelivery deliveryId s \<noteq> None then DELIVERY_ALREADY_ASSIGNED
                           else DRIVER_ALREADY_ASSIGNED))
      else let created = \<lparr>a_id = newId, a_deliveryId = deliveryId, a_driverId = driverId,
             a_status = A_OFFERED, a_version = 1, a_assignedAt = now, a_acceptedAt = None, a_releasedAt = None\<rparr>
           in Inr (created, s\<lparr>s_assignments := s_assignments s @ [created]\<rparr>))"

definition releaseIfOffered ::
  "instant \<Rightarrow> string \<Rightarrow> assignment_status \<Rightarrow> shop \<Rightarrow> assignment_row option \<times> shop" where
  "releaseIfOffered now assignmentId nextStatus s =
     (let s' = s\<lparr>s_assignments := t_update
            (\<lambda>a. a_id a = assignmentId \<and> a_status a = A_OFFERED \<and> a_releasedAt a = None)
            (\<lambda>a. a\<lparr>a_status := nextStatus, a_releasedAt := Some now\<rparr>) (s_assignments s)\<rparr>
      in (case findAssignment assignmentId s' of
            None \<Rightarrow> None
          | Some row \<Rightarrow> if a_status row \<noteq> nextStatus \<or> a_releasedAt row = None then None else Some row, s'))"

definition acceptIfOffered :: "instant \<Rightarrow> string \<Rightarrow> shop \<Rightarrow> assignment_row option \<times> shop" where
  "acceptIfOffered now assignmentId s =
     (let s' = s\<lparr>s_assignments := t_update
            (\<lambda>a. a_id a = assignmentId \<and> a_status a = A_OFFERED \<and> a_releasedAt a = None)
            (\<lambda>a. a\<lparr>a_status := A_ACCEPTED, a_acceptedAt := Some now\<rparr>) (s_assignments s)\<rparr>
      in (case findAssignment assignmentId s' of
            None \<Rightarrow> None
          | Some row \<Rightarrow>
              if a_status row \<noteq> A_ACCEPTED \<or> a_acceptedAt row = None \<or> a_releasedAt row \<noteq> None
              then None else Some row, s'))"

definition setDeliveryAssigned :: "instant \<Rightarrow> string \<Rightarrow> string \<Rightarrow> shop \<Rightarrow> bool \<times> shop" where
  "setDeliveryAssigned now deliveryId driverId s =
     (let s' = s\<lparr>s_deliveries := t_update (\<lambda>d. d_id d = deliveryId \<and> d_status d = SEARCHING_DRIVER)
            (\<lambda>d. d\<lparr>d_status := DRIVER_ASSIGNED, d_updatedAt := now\<rparr>) (s_deliveries s)\<rparr>
      in case t_find d_id deliveryId (s_deliveries s') of
           None \<Rightarrow> (False, s')
         | Some row \<Rightarrow>
             if d_status row \<noteq> DRIVER_ASSIGNED then (False, s')
             else (True, appendEvent \<lparr>de_deliveryId = deliveryId, de_type = ''DRIVER_ASSIGNED'',
                           de_driverId = Some driverId, de_occurredAt = now\<rparr> s'))"

section \<open>Expiry of offers\<close>

definition expireOffer :: "matching_env \<Rightarrow> instant \<Rightarrow> string \<Rightarrow> shop \<Rightarrow> assignment_row option \<times> shop" where
  "expireOffer env now assignmentId s =
     (case findAssignment assignmentId s of
        None \<Rightarrow> (None, s)
      | Some assignment \<Rightarrow>
          if \<not> isOpenOffer (a_status assignment) (map_option Some (a_releasedAt assignment)) then (Some assignment, s)
          else if \<not> isOfferExpired (Some (a_assignedAt assignment)) (mt_offerTimeoutMs env) now
          then (Some assignment, s)
          else case releaseIfOffered now assignmentId A_EXPIRED (snd (lockDelivery now (a_deliveryId assignment) s)) of
                 (Some expired, s') \<Rightarrow> (Some expired, s')
               | (None, s') \<Rightarrow> (findAssignment assignmentId s', s'))"

definition expireOpenOfferIfDue :: "matching_env \<Rightarrow> instant \<Rightarrow> string \<Rightarrow> shop \<Rightarrow> shop" where
  "expireOpenOfferIfDue env now deliveryId s =
     (case findOpenByDelivery deliveryId s of
        None \<Rightarrow> s
      | Some opn \<Rightarrow> if isOpenOffer (a_status opn) (map_option Some (a_releasedAt opn)) then snd (expireOffer env now (a_id opn) s) else s)"

definition expireOpenOfferForDriverIfDue :: "matching_env \<Rightarrow> instant \<Rightarrow> string \<Rightarrow> shop \<Rightarrow> shop" where
  "expireOpenOfferForDriverIfDue env now driverId s =
     (case findOpenByDriver driverId s of
        None \<Rightarrow> s
      | Some opn \<Rightarrow> if isOpenOffer (a_status opn) (map_option Some (a_releasedAt opn)) then snd (expireOffer env now (a_id opn) s) else s)"

section \<open>Matching\<close>

record match_result =
  mr_deliveryId :: string
  mr_deliveryStatus :: delivery_status
  mr_assignment :: "assignment_row option"
  mr_offered :: bool

definition isMatchable :: "instant \<Rightarrow> string \<Rightarrow> shop \<Rightarrow> bool" where
  "isMatchable now driverId s \<longleftrightarrow>
     matchingEligibility now driverId s \<and>
     (case findAvailability driverId s of None \<Rightarrow> False | Some a \<Rightarrow> av_status a = AV_ONLINE) \<and>
     findOpenByDriver driverId s = None"

text \<open>The candidates in order; the first one that can be offered the delivery is.\<close>

fun offerFirst ::
  "matching_env \<Rightarrow> instant \<Rightarrow> string \<Rightarrow> string \<Rightarrow> candidate list \<Rightarrow> shop \<Rightarrow>
   app_error + assignment_row option \<times> shop" where
  "offerFirst env now newId deliveryId [] s = Inr (None, s)"
| "offerFirst env now newId deliveryId (c # cs) s =
     (if \<not> isWithinPickupRadius (jsnum_of_rat (cd_distanceMeters c)) (mt_pickupRadiusMeters env)
      then offerFirst env now newId deliveryId cs s
      else case mt_location env (cd_driverId c) of
        None \<Rightarrow> offerFirst env now newId deliveryId cs s
      | Some l \<Rightarrow>
          if \<not> isLocationFresh (lc_recordedAt l) (mt_locationMaxAgeMs env) now
             \<or> \<not> isMatchable now (cd_driverId c) s
          then offerFirst env now newId deliveryId cs s
          else case lockProfile now (cd_driverId c) s of
                 (None, s1) \<Rightarrow> offerFirst env now newId deliveryId cs s1
               | (Some _, s1) \<Rightarrow>
                   if findOpenByDriver (cd_driverId c) s1 \<noteq> None then offerFirst env now newId deliveryId cs s1
                   else case createOffer now newId deliveryId (cd_driverId c) s1 of
                          Inr (created, s2) \<Rightarrow> Inr (Some created, s2)
                        | Inl e \<Rightarrow>
                            if e = MatchingE DRIVER_ALREADY_ASSIGNED
                            then offerFirst env now newId deliveryId cs s1
                            else if e = MatchingE DELIVERY_ALREADY_ASSIGNED
                                    \<and> findOpenByDelivery deliveryId s1 \<noteq> None
                            then Inr (findOpenByDelivery deliveryId s1, s1)
                            else Inl e)"

definition matchInTx ::
  "matching_env \<Rightarrow> instant \<Rightarrow> string \<Rightarrow> string \<Rightarrow> candidate list \<Rightarrow> shop \<Rightarrow>
   app_error + assignment_row option \<times> shop" where
  "matchInTx env now newId deliveryId ranked s =
     (case lockDelivery now deliveryId s of
        (None, _) \<Rightarrow> Inl (MatchingE DELIVERY_NOT_SEARCHING_DRIVER)
      | (Some locked, s1) \<Rightarrow>
          if d_status locked \<noteq> SEARCHING_DRIVER then Inl (MatchingE DELIVERY_NOT_SEARCHING_DRIVER)
          else case findOpenByDelivery deliveryId s1 of
                 Some opn \<Rightarrow> Inr (Some opn, s1)
               | None \<Rightarrow> offerFirst env now newId deliveryId ranked s1)"

definition rankedCandidates :: "matching_env \<Rightarrow> delivery_context \<Rightarrow> string \<Rightarrow> shop \<Rightarrow> candidate list" where
  "rankedCandidates env c deliveryId s =
     filter (\<lambda>k. cd_driverId k \<notin> set (listDriverIdsForDelivery deliveryId s))
       (rankCandidates (mt_searchNear env (fst (dc_pickup c)) (snd (dc_pickup c))
          (mt_pickupRadiusMeters env) (mt_candidateLimit env)))"

definition matchDelivery ::
  "directory \<Rightarrow> matching_env \<Rightarrow> instant \<Rightarrow> string \<Rightarrow> string \<Rightarrow> match_result effect" where
  "matchDelivery dir env now newId deliveryId s0 =
     (let s = expireOpenOfferIfDue env now deliveryId s0;
          existing = findOpenByDelivery deliveryId s;
          accepted = (case existing of None \<Rightarrow> False | Some a \<Rightarrow> isAcceptedAssignment (a_status a) (map_option Some (a_releasedAt a)));
          offered = (case existing of None \<Rightarrow> False | Some a \<Rightarrow> isOpenOffer (a_status a) (map_option Some (a_releasedAt a)))
      in if accepted
         then (Inr \<lparr>mr_deliveryId = deliveryId, mr_deliveryStatus = DRIVER_ASSIGNED,
                    mr_assignment = existing, mr_offered = False\<rparr>, s)
         else if offered
         then (Inr \<lparr>mr_deliveryId = deliveryId, mr_deliveryStatus = SEARCHING_DRIVER,
                    mr_assignment = existing, mr_offered = True\<rparr>, s)
         else case findMatchingContext dir deliveryId s of
                None \<Rightarrow> (Inl (MatchingE DELIVERY_NOT_SEARCHING_DRIVER), s)
              | Some c \<Rightarrow>
                  if dc_deliveryStatus c \<noteq> SEARCHING_DRIVER
                  then (Inl (MatchingE DELIVERY_NOT_SEARCHING_DRIVER), s)
                  else and_then (atomically (matchInTx env now newId deliveryId (rankedCandidates env c deliveryId s)))
                         (\<lambda>created. pure (Inr \<lparr>mr_deliveryId = deliveryId, mr_deliveryStatus = SEARCHING_DRIVER,
                            mr_assignment = created,
                            mr_offered = (case created of None \<Rightarrow> False | Some a \<Rightarrow> a_status a = A_OFFERED)\<rparr>)) s)"

definition startForReadyOrder ::
  "directory \<Rightarrow> matching_env \<Rightarrow> instant \<Rightarrow> string \<Rightarrow> string \<Rightarrow> string \<Rightarrow> match_result effect" where
  "startForReadyOrder dir env now deliveryId newId orderId =
     and_then (createForReadyOrder dir now deliveryId orderId) (\<lambda>d. matchDelivery dir env now newId (dd_id d))"

section \<open>The driver answers\<close>

definition requireDriver :: "string \<Rightarrow> shop \<Rightarrow> app_error + string" where
  "requireDriver accountId s =
     (case driverOfAccount accountId s of
        None \<Rightarrow> Inl (MatchingE DRIVER_ASSIGNMENT_NOT_FOUND) | Some d \<Rightarrow> Inr d)"

definition assertOfferAcceptable ::
  "matching_env \<Rightarrow> instant \<Rightarrow> assignment_row \<Rightarrow> delivery_status \<Rightarrow> app_error + unit" where
  "assertOfferAcceptable env now a deliveryStatus =
     (if isOfferExpired (Some (a_assignedAt a)) (mt_offerTimeoutMs env) now
      then Inl (MatchingE DRIVER_ASSIGNMENT_EXPIRED)
      else if \<not> isOpenOffer (a_status a) (map_option Some (a_releasedAt a)) then Inl (MatchingE DRIVER_ASSIGNMENT_INVALID_STATE)
      else if deliveryStatus \<noteq> SEARCHING_DRIVER
      then (if deliveryStatus = D_CANCELLED \<or> deliveryStatus = D_FAILED
            then Inl (MatchingE DELIVERY_NOT_SEARCHING_DRIVER)
            else Inl (MatchingE DELIVERY_ALREADY_ASSIGNED))
      else Inr ())"

definition assertAcceptEligibility :: "matching_env \<Rightarrow> instant \<Rightarrow> string \<Rightarrow> shop \<Rightarrow> app_error + unit" where
  "assertAcceptEligibility env now driverId s =
     (if \<not> matchingEligibility now driverId s then Inl (MatchingE DRIVER_NOT_MATCHING_ELIGIBLE)
      else if (case findAvailability driverId s of None \<Rightarrow> False
               | Some a \<Rightarrow> av_status a = AV_OFFLINE_AFTER_CURRENT_DELIVERY)
      then Inl (MatchingE DRIVER_NOT_MATCHING_ELIGIBLE)
      else case mt_location env driverId of
             None \<Rightarrow> Inl (MatchingE DRIVER_LOCATION_REQUIRED)
           | Some l \<Rightarrow> if \<not> isLocationFresh (lc_recordedAt l) (mt_locationMaxAgeMs env) now
                       then Inl (MatchingE DRIVER_LOCATION_STALE) else Inr ())"

text \<open>The driver's own assignment, as \<open>accept\<close> and \<open>reject\<close> look it up before and after the locks.\<close>

definition ownAssignment :: "string \<Rightarrow> string \<Rightarrow> shop \<Rightarrow> app_error + assignment_row" where
  "ownAssignment driverId assignmentId s =
     (case findAssignment assignmentId s of
        None \<Rightarrow> Inl (MatchingE DRIVER_ASSIGNMENT_NOT_FOUND)
      | Some a \<Rightarrow> if a_driverId a \<noteq> driverId then Inl (MatchingE DRIVER_ASSIGNMENT_NOT_FOUND) else Inr a)"

definition acceptInTx ::
  "matching_env \<Rightarrow> instant \<Rightarrow> string \<Rightarrow> string \<Rightarrow> shop \<Rightarrow> app_error + assignment_row \<times> shop" where
  "acceptInTx env now driverId assignmentId s =
     ebind (ownAssignment driverId assignmentId s) (\<lambda>a.
     case lockDelivery now (a_deliveryId a) s of
       (None, _) \<Rightarrow> Inl (MatchingE DELIVERY_NOT_SEARCHING_DRIVER)
     | (Some delivery, s1) \<Rightarrow>
         let s2 = snd (lockProfile now driverId s1)
         in ebind (ownAssignment driverId assignmentId s2) (\<lambda>current.
            ebind (assertOfferAcceptable env now current (d_status delivery)) (\<lambda>_.
            ebind (assertAcceptEligibility env now driverId s2) (\<lambda>_.
            case acceptIfOffered now assignmentId s2 of
              (None, _) \<Rightarrow> Inl (MatchingE DRIVER_ASSIGNMENT_INVALID_STATE)
            | (Some moved, s3) \<Rightarrow>
                (case setDeliveryAssigned now (a_deliveryId a) driverId s3 of
                   (assigned, s4) \<Rightarrow>
                     if \<not> assigned then Inl (MatchingE DELIVERY_ALREADY_ASSIGNED) else Inr (moved, s4))))))"

record accepted_view =
  ac_assignmentId :: string
  ac_deliveryId :: string
  ac_status :: assignment_status
  ac_acceptedAt :: "instant option"
  ac_driverRemunerationMinor :: string
  ac_pickup :: "jsnum \<times> jsnum"
  ac_dropoff :: "jsnum \<times> jsnum"

definition requireContext :: "directory \<Rightarrow> string \<Rightarrow> shop \<Rightarrow> app_error + delivery_context" where
  "requireContext dir deliveryId s =
     (case findMatchingContext dir deliveryId s of
        None \<Rightarrow> Inl (MatchingE DRIVER_ASSIGNMENT_NOT_FOUND) | Some c \<Rightarrow> Inr c)"

definition toAcceptedView :: "directory \<Rightarrow> assignment_row \<Rightarrow> shop \<Rightarrow> app_error + accepted_view" where
  "toAcceptedView dir a s =
     ebind (requireContext dir (a_deliveryId a) s) (\<lambda>c.
     ebind (minorString (dc_driverRemunerationMinor c)) (\<lambda>amount.
     Inr \<lparr>ac_assignmentId = a_id a, ac_deliveryId = a_deliveryId a, ac_status = a_status a,
          ac_acceptedAt = a_acceptedAt a, ac_driverRemunerationMinor = amount,
          ac_pickup = dc_pickup c, ac_dropoff = dc_dropoff c\<rparr>))"

definition accept :: "directory \<Rightarrow> matching_env \<Rightarrow> instant \<Rightarrow> string \<Rightarrow> string \<Rightarrow> accepted_view effect" where
  "accept dir env now accountId assignmentId s =
     (case requireDriver accountId s of
        Inl e \<Rightarrow> (Inl e, s)
      | Inr driverId \<Rightarrow>
          and_then (atomically (acceptInTx env now driverId assignmentId))
            (\<lambda>accepted s'. (toAcceptedView dir accepted s', s'))
            (snd (expireOffer env now assignmentId s)))"

definition rejectOfferInTx ::
  "instant \<Rightarrow> string \<Rightarrow> string \<Rightarrow> shop \<Rightarrow> app_error + string \<times> shop" where
  "rejectOfferInTx now driverId assignmentId s =
     ebind (ownAssignment driverId assignmentId s) (\<lambda>a.
     let s1 = snd (lockDelivery now (a_deliveryId a) s)
     in ebind (ownAssignment driverId assignmentId s1) (\<lambda>current.
        if \<not> isOpenOffer (a_status current) (map_option Some (a_releasedAt current))
        then Inl (MatchingE DRIVER_ASSIGNMENT_INVALID_STATE)
        else case releaseIfOffered now assignmentId A_REJECTED s1 of
               (None, _) \<Rightarrow> Inl (MatchingE DRIVER_ASSIGNMENT_INVALID_STATE)
             | (Some _, s2) \<Rightarrow> Inr (a_deliveryId a, s2)))"

definition rejectOffer ::
  "directory \<Rightarrow> matching_env \<Rightarrow> instant \<Rightarrow> string \<Rightarrow> string \<Rightarrow> string \<Rightarrow> match_result effect" where
  "rejectOffer dir env now newId accountId assignmentId s =
     (case requireDriver accountId s of
        Inl e \<Rightarrow> (Inl e, s)
      | Inr driverId \<Rightarrow>
          and_then (atomically (rejectOfferInTx now driverId assignmentId)) (matchDelivery dir env now newId)
            (snd (expireOffer env now assignmentId s)))"

text \<open>The timeout job: whatever the clock says, the open offer ends and the search goes on.\<close>

definition expireAndContinue ::
  "directory \<Rightarrow> matching_env \<Rightarrow> instant \<Rightarrow> string \<Rightarrow> string \<Rightarrow> match_result option effect" where
  "expireAndContinue dir env now newId assignmentId s =
     (case findAssignment assignmentId s of
        None \<Rightarrow> (Inr None, s)
      | Some before \<Rightarrow>
          if \<not> isOpenOffer (a_status before) (map_option Some (a_releasedAt before)) then (Inr None, s)
          else case releaseIfOffered now assignmentId A_EXPIRED (snd (lockDelivery now (a_deliveryId before) s)) of
                 (None, s1) \<Rightarrow> (Inr None, s1)
               | (Some expired, s1) \<Rightarrow>
                   and_then (matchDelivery dir env now newId (a_deliveryId expired)) (\<lambda>r. pure (Inr (Some r))) s1)"

record offer_view =
  of_assignmentId :: string
  of_deliveryId :: string
  of_status :: assignment_status
  of_offeredAt :: instant
  of_expiresAt :: instant
  of_driverRemunerationMinor :: string
  of_pickupDistanceMeters :: jsnum
  of_deliveryDistanceMeters :: "jsnum option"

fun roundDistanceMeters :: "jsnum \<Rightarrow> jsnum" where
  "roundDistanceMeters (JFrac q) = JInt (\<lfloor>q + 1 / 2\<rfloor>)"
| "roundDistanceMeters x = x"

definition toOfferView :: "directory \<Rightarrow> matching_env \<Rightarrow> assignment_row \<Rightarrow> shop \<Rightarrow> app_error + offer_view" where
  "toOfferView dir env a s =
     ebind (requireContext dir (a_deliveryId a) s) (\<lambda>c.
     let far = (\<lambda>target. map_option (\<lambda>l. mt_distance env (lc_latitude l) (lc_longitude l) (fst target) (snd target))
                            (mt_location env (a_driverId a)))
     in ebind (minorString (dc_driverRemunerationMinor c)) (\<lambda>amount.
        Inr \<lparr>of_assignmentId = a_id a, of_deliveryId = a_deliveryId a, of_status = a_status a,
             of_offeredAt = a_assignedAt a, of_expiresAt = offerExpiresAt (a_assignedAt a) (mt_offerTimeoutMs env),
             of_driverRemunerationMinor = amount,
             of_pickupDistanceMeters = roundDistanceMeters (js_default (far (dc_pickup c)) (JInt 0)),
             of_deliveryDistanceMeters = map_option roundDistanceMeters (far (dc_dropoff c))\<rparr>))"

definition getCurrentOffer ::
  "directory \<Rightarrow> matching_env \<Rightarrow> instant \<Rightarrow> string \<Rightarrow> offer_view option effect" where
  "getCurrentOffer dir env now accountId s0 =
     (case driverOfAccount accountId s0 of
        None \<Rightarrow> (Inr None, s0)
      | Some driverId \<Rightarrow>
          (let s = expireOpenOfferForDriverIfDue env now driverId s0
           in case findOpenByDriver driverId s of
                None \<Rightarrow> (Inr None, s)
              | Some opn \<Rightarrow>
                  if \<not> isOpenOffer (a_status opn) (map_option Some (a_releasedAt opn)) then (Inr None, s)
                  else (ebind (toOfferView dir env opn s) (\<lambda>v. Inr (Some v)), s)))"

definition getAcceptedAssignment :: "directory \<Rightarrow> string \<Rightarrow> shop \<Rightarrow> app_error + accepted_view option" where
  "getAcceptedAssignment dir accountId s =
     (case driverOfAccount accountId s of
        None \<Rightarrow> Inr None
      | Some driverId \<Rightarrow>
          (case findOpenByDriver driverId s of
             None \<Rightarrow> Inr None
           | Some opn \<Rightarrow>
               if \<not> isAcceptedAssignment (a_status opn) (map_option Some (a_releasedAt opn)) then Inr None
               else ebind (toAcceptedView dir opn s) (\<lambda>v. Inr (Some v))))"

end
