(* ===== verification/Delivery_Books.thy ===== *)
theory Delivery_Books
  imports Matching Bookkeeping
begin

text \<open>
  What deliveries promise: the abstract machine \<open>dispatch_spec\<close> on the tables of deliveries,
  assignments and earnings, and its invariant \<open>dispatch_inv\<close>. A delivery walks its eight statuses
  in order, leaves one event for each, is served by the one driver who accepted it, and pays
  that driver once, when it completes the order.
\<close>

section \<open>The books\<close>

definition delivery_view :: "delivery_row \<Rightarrow> delivery_row" where
  "delivery_view d = d\<lparr>d_updatedAt := 0\<rparr>"

lemma delivery_view_simps [simp]:
  "d_id (delivery_view d) = d_id d" "d_orderId (delivery_view d) = d_orderId d"
  "d_status (delivery_view d) = d_status d" "d_pickedUpAt (delivery_view d) = d_pickedUpAt d"
  "d_arrivedCustomerAt (delivery_view d) = d_arrivedCustomerAt d" "d_deliveredAt (delivery_view d) = d_deliveredAt d"
  by (simp_all add: delivery_view_def)

text \<open>A shop up to update stamps, without the drivers' own rows and the pickup challenges.\<close>

definition core :: "shop \<Rightarrow> shop" where
  "core s = s\<lparr>s_orders := map order_view (s_orders s), s_payments := map pay_view (s_payments s),
     s_deliveries := map delivery_view (s_deliveries s), s_drivers := [], s_documents := [], s_vehicles := [],
     s_availability := [], s_handoffs := []\<rparr>"

definition DELIVERY_TRAIL :: "string list" where
  "DELIVERY_TRAIL = [''DELIVERY_CREATED'', ''DRIVER_ASSIGNED'', ''DRIVER_STARTED_TO_PICKUP'',
     ''DRIVER_ARRIVED_PICKUP'', ''ORDER_PICKED_UP'', ''DELIVERY_IN_TRANSIT'', ''DRIVER_ARRIVED_CUSTOMER'',
     ''DELIVERY_COMPLETED'']"

fun delivery_rank :: "delivery_status \<Rightarrow> nat" where
  "delivery_rank SEARCHING_DRIVER = 1"
| "delivery_rank DRIVER_ASSIGNED = 2"
| "delivery_rank TO_PICKUP = 3"
| "delivery_rank AT_PICKUP = 4"
| "delivery_rank PICKED_UP = 5"
| "delivery_rank IN_TRANSIT = 6"
| "delivery_rank ARRIVED_CUSTOMER = 7"
| "delivery_rank DELIVERED = 8"
| "delivery_rank D_FAILED = 0"
| "delivery_rank D_CANCELLED = 0"

definition events_of :: "string \<Rightarrow> shop \<Rightarrow> delivery_event list" where
  "events_of i s = filter (\<lambda>e. de_deliveryId e = i) (s_deliveryEvents s)"

definition accepted_of :: "string \<Rightarrow> shop \<Rightarrow> assignment_row list" where
  "accepted_of i s = filter (\<lambda>a. a_deliveryId a = i \<and> a_acceptedAt a \<noteq> None) (s_assignments s)"

definition offers_of :: "string \<Rightarrow> shop \<Rightarrow> assignment_row list" where
  "offers_of i s = filter (\<lambda>a. a_deliveryId a = i \<and> a_status a = A_OFFERED) (s_assignments s)"

definition earnings_of :: "string \<Rightarrow> shop \<Rightarrow> earning_row list" where
  "earnings_of i s = filter (\<lambda>e. e_deliveryId e = i) (s_earnings s)"

definition event_at :: "string \<Rightarrow> delivery_event list \<Rightarrow> instant option" where
  "event_at ty evs = map_option de_occurredAt (find (\<lambda>e. de_type e = ty) evs)"

text \<open>An assignment is open exactly while it is offered or accepted.\<close>

definition assignment_ok :: "assignment_row \<Rightarrow> bool" where
  "assignment_ok a \<longleftrightarrow> (a_releasedAt a = None \<longleftrightarrow> a_status a \<in> {A_OFFERED, A_ACCEPTED}) \<and>
     (a_acceptedAt a \<noteq> None \<longleftrightarrow> a_status a \<in> {A_ACCEPTED, A_RELEASED})"

text \<open>Who serves a delivery: at most one offer while it searches, then the one driver who accepted.\<close>

definition served :: "delivery_status \<Rightarrow> assignment_row list \<Rightarrow> assignment_row list \<Rightarrow> bool" where
  "served st acc off \<longleftrightarrow>
     (if st = SEARCHING_DRIVER then acc = [] \<and> length off \<le> 1
      else off = [] \<and> (\<exists>a. acc = [a] \<and> a_status a = (if st = DELIVERED then A_RELEASED else A_ACCEPTED)))"

definition earning_pays :: "snapshot_row list \<Rightarrow> delivery_row \<Rightarrow> string \<Rightarrow> earning_row \<Rightarrow> bool" where
  "earning_pays sns d driverId e \<longleftrightarrow> e_deliveryId e = d_id d \<and> e_driverId e = driverId \<and>
     e_bonusMinor e = 0 \<and> e_adjustmentMinor e = 0 \<and> e_netEarningMinor e = e_baseRemunerationMinor e \<and>
     e_status e = ''EARNED'' \<and> d_deliveredAt d = Some (e_validatedAt e) \<and>
     (\<exists>sn. t_find sn_orderId (d_orderId d) sns = Some sn \<and>
        e_netEarningMinor e = sn_driverRemunerationMinor sn)"

definition paid_out :: "shop \<Rightarrow> delivery_row \<Rightarrow> bool" where
  "paid_out s d \<longleftrightarrow>
     (if d_status d = DELIVERED
      then \<exists>a e. accepted_of (d_id d) s = [a] \<and> earnings_of (d_id d) s = [e] \<and> earning_pays (s_snapshots s) d (a_driverId a) e
      else earnings_of (d_id d) s = [])"

definition order_fits :: "shop \<Rightarrow> delivery_row \<Rightarrow> bool" where
  "order_fits s d \<longleftrightarrow> (\<exists>o'. t_find o_id (d_orderId d) (s_orders s) = Some o' \<and> o_fulfillmentStatus o' = READY \<and>
     o_status o' = (if d_status d = DELIVERED then O_COMPLETED else O_ACTIVE))"

definition trail_fits :: "shop \<Rightarrow> delivery_row \<Rightarrow> bool" where
  "trail_fits s d \<longleftrightarrow> (let evs = events_of (d_id d) s in
     map de_type evs = take (delivery_rank (d_status d)) DELIVERY_TRAIL \<and>
     (\<forall>e \<in> set (tl evs). \<exists>a \<in> set (accepted_of (d_id d) s). de_driverId e = Some (a_driverId a)) \<and>
     d_pickedUpAt d = event_at ''ORDER_PICKED_UP'' evs \<and>
     d_arrivedCustomerAt d = event_at ''DRIVER_ARRIVED_CUSTOMER'' evs \<and>
     d_deliveredAt d = event_at ''DELIVERY_COMPLETED'' evs)"

definition delivery_ok :: "shop \<Rightarrow> delivery_row \<Rightarrow> bool" where
  "delivery_ok s d \<longleftrightarrow> d_status d \<notin> {D_FAILED, D_CANCELLED} \<and> trail_fits s d \<and>
     served (d_status d) (accepted_of (d_id d) s) (offers_of (d_id d) s) \<and> paid_out s d \<and> order_fits s d"

definition open_drivers :: "shop \<Rightarrow> string list" where
  "open_drivers s = map a_driverId (filter (\<lambda>a. a_releasedAt a = None) (s_assignments s))"

definition dispatch_inv :: "shop \<Rightarrow> bool" where
  "dispatch_inv s \<longleftrightarrow> distinct (map o_id (s_orders s)) \<and> distinct (map d_id (s_deliveries s)) \<and>
     distinct (map d_orderId (s_deliveries s)) \<and> distinct (map a_id (s_assignments s)) \<and>
     distinct (map e_id (s_earnings s)) \<and> distinct (open_drivers s) \<and>
     a_deliveryId ` set (s_assignments s) \<union> de_deliveryId ` set (s_deliveryEvents s)
       \<union> e_deliveryId ` set (s_earnings s) \<subseteq> d_id ` set (s_deliveries s) \<and>
     (\<forall>a \<in> set (s_assignments s). assignment_ok a) \<and> (\<forall>d \<in> set (s_deliveries s). delivery_ok s d) \<and>
     (\<forall>o' \<in> set (s_orders s). o_status o' = O_COMPLETED \<longrightarrow> o_id o' \<in> d_orderId ` set (s_deliveries s))"

lemma dispatch_invI:
  assumes "distinct (map o_id (s_orders s))" "distinct (map d_id (s_deliveries s))"
    "distinct (map d_orderId (s_deliveries s))" "distinct (map a_id (s_assignments s))"
    "distinct (map e_id (s_earnings s))" "distinct (open_drivers s)"
    "a_deliveryId ` set (s_assignments s) \<subseteq> d_id ` set (s_deliveries s)"
    "de_deliveryId ` set (s_deliveryEvents s) \<subseteq> d_id ` set (s_deliveries s)"
    "e_deliveryId ` set (s_earnings s) \<subseteq> d_id ` set (s_deliveries s)"
    "\<And>a. a \<in> set (s_assignments s) \<Longrightarrow> assignment_ok a"
    "\<And>d. d \<in> set (s_deliveries s) \<Longrightarrow> delivery_ok s d"
    "\<And>o'. o' \<in> set (s_orders s) \<Longrightarrow> o_status o' = O_COMPLETED \<Longrightarrow> o_id o' \<in> d_orderId ` set (s_deliveries s)"
  shows "dispatch_inv s"
  using assms by (simp add: dispatch_inv_def)

lemma dispatch_invD:
  assumes "dispatch_inv s"
  shows "distinct (map o_id (s_orders s))" "distinct (map d_id (s_deliveries s))"
    "distinct (map d_orderId (s_deliveries s))" "distinct (map a_id (s_assignments s))"
    "distinct (map e_id (s_earnings s))" "distinct (open_drivers s)"
    "a_deliveryId ` set (s_assignments s) \<subseteq> d_id ` set (s_deliveries s)"
    "de_deliveryId ` set (s_deliveryEvents s) \<subseteq> d_id ` set (s_deliveries s)"
    "e_deliveryId ` set (s_earnings s) \<subseteq> d_id ` set (s_deliveries s)"
    "a \<in> set (s_assignments s) \<Longrightarrow> assignment_ok a"
    "d \<in> set (s_deliveries s) \<Longrightarrow> delivery_ok s d"
    "o' \<in> set (s_orders s) \<Longrightarrow> o_status o' = O_COMPLETED \<Longrightarrow> o_id o' \<in> d_orderId ` set (s_deliveries s)"
  using assms by (simp_all add: dispatch_inv_def)

section \<open>The machine\<close>

definition offer_row :: "string \<Rightarrow> string \<Rightarrow> string \<Rightarrow> instant \<Rightarrow> assignment_row" where
  "offer_row j i driverId now = \<lparr>a_id = j, a_deliveryId = i, a_driverId = driverId, a_status = A_OFFERED,
     a_version = 1, a_assignedAt = now, a_acceptedAt = None, a_releasedAt = None\<rparr>"

definition delivery_event_row :: "string \<Rightarrow> string \<Rightarrow> string option \<Rightarrow> instant \<Rightarrow> delivery_event" where
  "delivery_event_row i ty driverId now =
     \<lparr>de_deliveryId = i, de_type = ty, de_driverId = driverId, de_occurredAt = now\<rparr>"

definition new_delivery :: "string \<Rightarrow> string \<Rightarrow> instant \<Rightarrow> delivery_row" where
  "new_delivery i k now = \<lparr>d_id = i, d_orderId = k, d_status = SEARCHING_DRIVER, d_driverSearchStartedAt = now,
     d_pickedUpAt = None, d_arrivedCustomerAt = None, d_deliveredAt = None, d_updatedAt = 0\<rparr>"

definition walk :: "driver_action \<Rightarrow> instant \<Rightarrow> delivery_row \<Rightarrow> delivery_row" where
  "walk action now d = stamp_field (dt_timestampField (transitionForAction action)) now
     (d\<lparr>d_status := dt_to (transitionForAction action)\<rparr>)"

inductive dispatch_spec :: "shop \<Rightarrow> shop \<Rightarrow> bool" where
  created: "i \<notin> d_id ` set (s_deliveries s) \<Longrightarrow> k \<notin> d_orderId ` set (s_deliveries s) \<Longrightarrow>
    t_find o_id k (s_orders s) = Some o' \<Longrightarrow> o_status o' = O_ACTIVE \<Longrightarrow> o_fulfillmentStatus o' = READY \<Longrightarrow>
    dispatch_spec s (s\<lparr>s_deliveries := s_deliveries s @ [new_delivery i k now],
      s_deliveryEvents := s_deliveryEvents s @ [delivery_event_row i ''DELIVERY_CREATED'' None now]\<rparr>)"
| offered: "t_find d_id i (s_deliveries s) = Some d \<Longrightarrow> d_status d = SEARCHING_DRIVER \<Longrightarrow>
    j \<notin> a_id ` set (s_assignments s) \<Longrightarrow>
    (\<forall>x \<in> set (s_assignments s). a_releasedAt x = None \<longrightarrow> a_deliveryId x \<noteq> i \<and> a_driverId x \<noteq> driverId) \<Longrightarrow>
    dispatch_spec s (s\<lparr>s_assignments := s_assignments s @ [offer_row j i driverId now]\<rparr>)"
| declined: "t_find a_id j (s_assignments s) = Some a \<Longrightarrow> a_status a = A_OFFERED \<Longrightarrow> st \<in> {A_REJECTED, A_EXPIRED} \<Longrightarrow>
    dispatch_spec s (s\<lparr>s_assignments := t_update (\<lambda>a. a_id a = j)
      (\<lambda>a. a\<lparr>a_status := st, a_releasedAt := Some now\<rparr>) (s_assignments s)\<rparr>)"
| accepted: "t_find a_id j (s_assignments s) = Some a \<Longrightarrow> a_status a = A_OFFERED \<Longrightarrow>
    t_find d_id (a_deliveryId a) (s_deliveries s) = Some d \<Longrightarrow> d_status d = SEARCHING_DRIVER \<Longrightarrow>
    dispatch_spec s (s\<lparr>s_assignments := t_update (\<lambda>a. a_id a = j)
        (\<lambda>a. a\<lparr>a_status := A_ACCEPTED, a_acceptedAt := Some now\<rparr>) (s_assignments s),
      s_deliveries := t_update (\<lambda>d. d_id d = a_deliveryId a) (\<lambda>d. d\<lparr>d_status := DRIVER_ASSIGNED\<rparr>) (s_deliveries s),
      s_deliveryEvents := s_deliveryEvents s
        @ [delivery_event_row (a_deliveryId a) ''DRIVER_ASSIGNED'' (Some (a_driverId a)) now]\<rparr>)"
| moved: "t_find d_id (a_deliveryId a) (s_deliveries s) = Some d \<Longrightarrow> action \<noteq> COMPLETE_DELIVERY \<Longrightarrow>
    d_status d = dt_from (transitionForAction action) \<Longrightarrow>
    a \<in> set (s_assignments s) \<Longrightarrow> a_status a = A_ACCEPTED \<Longrightarrow>
    dispatch_spec s (s\<lparr>s_deliveries := t_update (\<lambda>d. d_id d = a_deliveryId a) (walk action now) (s_deliveries s),
      s_deliveryEvents := s_deliveryEvents s @ [delivery_event_row (a_deliveryId a)
        (dt_eventType (transitionForAction action)) (Some (a_driverId a)) now]\<rparr>)"
| delivered: "t_find d_id (a_deliveryId a) (s_deliveries s) = Some d \<Longrightarrow> d_status d = ARRIVED_CUSTOMER \<Longrightarrow>
    t_find a_id (a_id a) (s_assignments s) = Some a \<Longrightarrow> a_status a = A_ACCEPTED \<Longrightarrow>
    t_find o_id (d_orderId d) (s_orders s) = Some o' \<Longrightarrow> o_status o' = O_ACTIVE \<Longrightarrow>
    t_find sn_orderId (d_orderId d) (s_snapshots s) = Some sn \<Longrightarrow>
    t_find p_orderId (d_orderId d) (s_payments s) = Some p \<Longrightarrow> p_status p = PAY_SUCCEEDED \<Longrightarrow>
    (p_method p = PAYMENT_METHOD_COD \<longrightarrow> (\<exists>c \<in> set (s_collections s). co_orderId c = d_orderId d \<and>
       co_driverId c = a_driverId a \<and> co_collectedAmountMinor c = p_amountMinor p)) \<Longrightarrow>
    e = \<lparr>e_id = n, e_deliveryId = d_id d, e_driverId = a_driverId a,
      e_baseRemunerationMinor = sn_driverRemunerationMinor sn, e_bonusMinor = 0, e_adjustmentMinor = 0,
      e_netEarningMinor = sn_driverRemunerationMinor sn, e_status = ''EARNED'', e_validatedAt = now\<rparr> \<Longrightarrow>
    n \<notin> e_id ` set (s_earnings s) \<Longrightarrow>
    post_ledger_event l now (EvEarning n (d_orderId d) (a_driverId a) (sn_driverRemunerationMinor sn)) (s_ledger s)
      = Inr (le, es) \<Longrightarrow>
    ev_orderId oe = d_orderId d \<Longrightarrow> ev_fromStatus oe = Some O_ACTIVE \<Longrightarrow> ev_toStatus oe = O_COMPLETED \<Longrightarrow>
    dispatch_spec s (s\<lparr>
      s_deliveries := t_update (\<lambda>x. d_id x = d_id d) (walk COMPLETE_DELIVERY now) (s_deliveries s),
      s_deliveryEvents := s_deliveryEvents s
        @ [delivery_event_row (d_id d) ''DELIVERY_COMPLETED'' (Some (a_driverId a)) now],
      s_assignments := t_update (\<lambda>x. a_id x = a_id a)
        (\<lambda>x. x\<lparr>a_status := A_RELEASED, a_releasedAt := Some now\<rparr>) (s_assignments s),
      s_orders := t_update (\<lambda>x. o_id x = d_orderId d)
        (\<lambda>x. x\<lparr>o_status := O_COMPLETED, o_completedAt := Some now\<rparr>) (s_orders s),
      s_events := s_events s @ [oe], s_earnings := s_earnings s @ [e], s_ledger := es\<rparr>)"

section \<open>The machine keeps the books\<close>

text \<open>\<open>delivery_ok\<close> reads only the rows of the delivery.\<close>

definition same_delivery :: "shop \<Rightarrow> shop \<Rightarrow> string \<Rightarrow> bool" where
  "same_delivery s s' i \<longleftrightarrow> events_of i s' = events_of i s \<and> accepted_of i s' = accepted_of i s \<and>
     offers_of i s' = offers_of i s \<and> earnings_of i s' = earnings_of i s"

lemma delivery_ok_cong:
  assumes "delivery_ok s d" "same_delivery s s' (d_id d)" "s_snapshots s' = s_snapshots s"
    and "t_find o_id (d_orderId d) (s_orders s') = t_find o_id (d_orderId d) (s_orders s)"
  shows "delivery_ok s' d"
  using assms by (cases "d_status d = DELIVERED")
    (simp_all add: delivery_ok_def same_delivery_def trail_fits_def paid_out_def order_fits_def)

lemma find_in:
  assumes "distinct (map key xs)" "t_find key k xs = Some r" "x \<in> set xs" "key x = k"
  shows "x = r"
  using assms t_find_distinct [of key xs x] by simp

text \<open>The one row with a key, changed.\<close>

lemma update_split:
  assumes "distinct (map key xs)" "t_find key k xs = Some r"
  obtains ys zs where "xs = ys @ r # zs" "t_update (\<lambda>x. key x = k) f xs = ys @ f r # zs"
    "\<forall>x \<in> set ys \<union> set zs. key x \<noteq> k"
proof -
  from t_find_Some [OF assms(2)] obtain ys zs where xs: "xs = ys @ r # zs" "key r = k" by (auto dest: split_list)
  with assms(1) have n: "\<forall>x \<in> set ys \<union> set zs. key x \<noteq> k" by (auto simp: image_iff)
  then have "t_update (\<lambda>x. key x = k) f xs = ys @ f r # zs" unfolding xs(1) by (intro t_update_split) (simp_all add: xs(2))
  with xs n that show ?thesis by blast
qed

lemma dispatch_inv_change:
  assumes b: "dispatch_inv s" and f: "t_find d_id i (s_deliveries s) = Some d"
    and ds: "s_deliveries s' = t_update (\<lambda>d. d_id d = i) g (s_deliveries s)" "d_id (g d) = i" "d_orderId (g d) = d_orderId d"
    and evs: "s_deliveryEvents s' = s_deliveryEvents s @ es" "\<forall>e \<in> set es. de_deliveryId e = i"
    and other: "\<And>j. j \<noteq> i \<Longrightarrow> accepted_of j s' = accepted_of j s \<and> offers_of j s' = offers_of j s \<and> earnings_of j s' = earnings_of j s"
    and ords: "map o_id (s_orders s') = map o_id (s_orders s)"
      "\<And>k. k \<noteq> d_orderId d \<Longrightarrow> t_find o_id k (s_orders s') = t_find o_id k (s_orders s)"
    and sns: "s_snapshots s' = s_snapshots s"
    and as: "distinct (map a_id (s_assignments s'))" "a_deliveryId ` set (s_assignments s') \<subseteq> d_id ` set (s_deliveries s)"
      "\<And>a. a \<in> set (s_assignments s') \<Longrightarrow> assignment_ok a" "distinct (open_drivers s')"
    and earn: "distinct (map e_id (s_earnings s'))" "e_deliveryId ` set (s_earnings s') \<subseteq> d_id ` set (s_deliveries s)"
    and ok: "delivery_ok s' (g d)"
  shows "dispatch_inv s'"
proof -
  obtain xs ys where xs: "s_deliveries s = xs @ d # ys" "s_deliveries s' = xs @ g d # ys"
    "\<forall>x \<in> set xs \<union> set ys. d_id x \<noteq> i"
    using update_split [OF dispatch_invD(2) [OF b] f] ds(1) by metis
  have di: "d \<in> set (s_deliveries s)" "d_id d = i" using t_find_Some [OF f] by simp_all
  have maps: "map d_id (s_deliveries s') = map d_id (s_deliveries s)"
    "map d_orderId (s_deliveries s') = map d_orderId (s_deliveries s)" by (simp_all add: xs ds di)
  have sets: "d_id ` set (s_deliveries s') = d_id ` set (s_deliveries s)"
    "d_orderId ` set (s_deliveries s') = d_orderId ` set (s_deliveries s)"
    using arg_cong [OF maps(1), of set] arg_cong [OF maps(2), of set] by simp_all
  have "delivery_ok s' x" if x: "x \<in> set (s_deliveries s')" for x
  proof (cases "x = g d")
    case False
    with x xs have x': "x \<in> set (s_deliveries s)" "d_id x \<noteq> i" by auto
    have "d_orderId x \<noteq> d_orderId d"
      using dispatch_invD(3) [OF b] x' di by (auto simp: distinct_map inj_on_def)
    with x' show ?thesis
      using delivery_ok_cong [OF dispatch_invD(11) [OF b x'(1)] _ sns] other ords(2) evs
      by (auto simp: same_delivery_def events_of_def filter_empty_conv)
  qed (use ok in simp)
  moreover have "o_id q \<in> d_orderId ` set (s_deliveries s')"
    if q: "q \<in> set (s_orders s')" "o_status q = O_COMPLETED" for q
  proof (cases "o_id q = d_orderId d")
    case False
    have "distinct (map o_id (s_orders s'))" using dispatch_invD(1) [OF b] ords(1) by simp
    from t_find_distinct [OF this q(1)] ords(2) [OF False] t_find_Some [of o_id "o_id q" "s_orders s" q]
    have "q \<in> set (s_orders s)" by simp
    from dispatch_invD(12) [OF b this q(2)] show ?thesis by (simp add: sets)
  next
    case True
    with di show ?thesis unfolding sets by (metis imageI)
  qed
  moreover have "de_deliveryId ` set (s_deliveryEvents s') \<subseteq> d_id ` set (s_deliveries s')"
  proof -
    have "i \<in> d_id ` set (s_deliveries s)" using di by auto
    then show ?thesis using dispatch_invD(8) [OF b] evs by (auto simp: sets)
  qed
  ultimately show ?thesis
    using dispatch_invD(1-3) [OF b] ords(1) as earn maps by (intro dispatch_invI) (simp_all add: sets)
qed

lemma event_at_snoc:
  "event_at ty (evs @ [e]) =
   (case event_at ty evs of Some t \<Rightarrow> Some t | None \<Rightarrow> if de_type e = ty then Some (de_occurredAt e) else None)"
  by (induction evs) (simp_all add: event_at_def)

lemma event_at_None: "event_at ty evs = None \<longleftrightarrow> ty \<notin> set (map de_type evs)"
  by (induction evs) (auto simp: event_at_def)

lemma delivery_event_row_simps [simp]:
  "de_deliveryId (delivery_event_row i ty drv now) = i" "de_type (delivery_event_row i ty drv now) = ty"
  "de_driverId (delivery_event_row i ty drv now) = drv" "de_occurredAt (delivery_event_row i ty drv now) = now"
  by (simp_all add: delivery_event_row_def)

lemma walk_simps [simp]:
  "d_id (walk action now d) = d_id d" "d_orderId (walk action now d) = d_orderId d"
  "d_status (walk action now d) = dt_to (transitionForAction action)"
  by (cases action; simp add: walk_def stamp_field_def)+

lemma trail_walk:
  assumes t: "trail_fits s d" and st: "d_status d = dt_from (transitionForAction action)"
    and e: "events_of (d_id d) s' = events_of (d_id d) s
       @ [delivery_event_row i (dt_eventType (transitionForAction action)) (Some drv) now]"
    and a: "accepted_of (d_id d) s = [a]" "accepted_of (d_id d) s' = [a']" "a_driverId a = drv" "a_driverId a' = drv"
  shows "trail_fits s' (walk action now d)"
proof -
  let ?evs = "events_of (d_id d) s"
  have m: "map de_type ?evs = take (delivery_rank (d_status d)) DELIVERY_TRAIL" using t by (simp add: trail_fits_def Let_def)
  then have ne: "?evs \<noteq> []" using st by (cases action) (auto simp: DELIVERY_TRAIL_def)
  have none: "event_at ty ?evs = None" if "ty \<notin> set (take (delivery_rank (d_status d)) DELIVERY_TRAIL)" for ty
    using that m by (simp add: event_at_None)
  from ne t a show ?thesis
    using m st none
    by (cases action) (auto simp: trail_fits_def Let_def e walk_def stamp_field_def DELIVERY_TRAIL_def event_at_snoc
        split: option.splits)
qed

lemma delivery_okD:
  assumes "dispatch_inv s" "t_find d_id i (s_deliveries s) = Some d"
  shows "d \<in> set (s_deliveries s)" "d_id d = i" "trail_fits s d" "paid_out s d" "order_fits s d"
    "served (d_status d) (accepted_of i s) (offers_of i s)" "d_status d \<notin> {D_FAILED, D_CANCELLED}"
  using t_find_Some [OF assms(2)] dispatch_invD(11) [OF assms(1), of d] by (simp_all add: delivery_ok_def)

lemma t_find_unchanged:
  "(\<And>r. key (f r) = key r) \<Longrightarrow> k' \<noteq> k \<Longrightarrow> t_find key k' (t_update (\<lambda>r. key r = k) f xs) = t_find key k' xs"
  by (induction xs) (auto simp: t_find_def t_update_def)

text \<open>An accepted row of a delivery is the one its driver works on.\<close>

lemma accepted_one:
  assumes b: "dispatch_inv s" and a: "a \<in> set (s_assignments s)" "a_status a = A_ACCEPTED"
    and f: "t_find d_id (a_deliveryId a) (s_deliveries s) = Some d"
  shows "accepted_of (a_deliveryId a) s = [a]" "offers_of (a_deliveryId a) s = []"
    "d_status d \<notin> {SEARCHING_DRIVER, DELIVERED, D_FAILED, D_CANCELLED}"
proof -
  have "a_acceptedAt a \<noteq> None" using dispatch_invD(10) [OF b a(1)] a(2) by (auto simp: assignment_ok_def)
  with a(1) have m: "a \<in> set (accepted_of (a_deliveryId a) s)" by (simp add: accepted_of_def)
  with delivery_okD(6,7) [OF b f] a(2)
  show "accepted_of (a_deliveryId a) s = [a]" "offers_of (a_deliveryId a) s = []"
    "d_status d \<notin> {SEARCHING_DRIVER, DELIVERED, D_FAILED, D_CANCELLED}"
    by (auto simp: served_def split: if_splits)
qed

lemma offered_one:
  assumes b: "dispatch_inv s" and a: "a \<in> set (s_assignments s)" "a_status a = A_OFFERED"
    and f: "t_find d_id (a_deliveryId a) (s_deliveries s) = Some d"
  shows "accepted_of (a_deliveryId a) s = []" "offers_of (a_deliveryId a) s = [a]" "d_status d = SEARCHING_DRIVER"
proof -
  have m: "a \<in> set (offers_of (a_deliveryId a) s)" using a by (simp add: offers_of_def)
  with delivery_okD(6) [OF b f] show st: "d_status d = SEARCHING_DRIVER" by (auto simp: served_def split: if_splits)
  with delivery_okD(6) [OF b f] have "accepted_of (a_deliveryId a) s = []" "length (offers_of (a_deliveryId a) s) \<le> 1"
    by (simp_all add: served_def)
  moreover from this m have "length (offers_of (a_deliveryId a) s) = 1"
    by (cases "offers_of (a_deliveryId a) s") auto
  ultimately show "accepted_of (a_deliveryId a) s = []" "offers_of (a_deliveryId a) s = [a]"
    using m by (auto simp: length_Suc_conv)
qed

lemma keep_created:
  assumes b: "dispatch_inv s" and i: "i \<notin> d_id ` set (s_deliveries s)" "k \<notin> d_orderId ` set (s_deliveries s)"
    and o': "t_find o_id k (s_orders s) = Some o'" "o_status o' = O_ACTIVE" "o_fulfillmentStatus o' = READY"
  shows "dispatch_inv (s\<lparr>s_deliveries := s_deliveries s @ [new_delivery i k now],
      s_deliveryEvents := s_deliveryEvents s @ [delivery_event_row i ''DELIVERY_CREATED'' None now]\<rparr>)"
    (is "dispatch_inv ?s")
proof (rule dispatch_invI)
  have nd: "d_id (new_delivery i k now) = i" "d_orderId (new_delivery i k now) = k" by (simp_all add: new_delivery_def)
  have none: "accepted_of i ?s = []" "offers_of i ?s = []" "earnings_of i ?s = []" "events_of i s = []"
    using i(1) dispatch_invD(7-9) [OF b]
    by (auto simp: accepted_of_def offers_of_def earnings_of_def events_of_def filter_empty_conv)
  have evs: "events_of i ?s = [delivery_event_row i ''DELIVERY_CREATED'' None now]"
    using none(4) by (simp add: events_of_def)
  show "delivery_ok ?s d" if d: "d \<in> set (s_deliveries ?s)" for d
  proof (cases "d_id d = i")
    case True
    with d i(1) have "d = new_delivery i k now" by auto
    then show ?thesis
      using none evs o' by (simp add: delivery_ok_def trail_fits_def served_def paid_out_def order_fits_def
          new_delivery_def DELIVERY_TRAIL_def event_at_def)
  next
    case False
    with d nd have "d \<in> set (s_deliveries s)" by auto
    from dispatch_invD(11) [OF b this] show ?thesis
      by (rule delivery_ok_cong)
        (use False in \<open>simp_all add: same_delivery_def events_of_def accepted_of_def offers_of_def earnings_of_def\<close>)
  qed
qed (use dispatch_invD [OF b] i in \<open>auto simp: new_delivery_def open_drivers_def delivery_event_row_def\<close>)

lemma offer_row_simps [simp]:
  "a_id (offer_row j i drv now) = j" "a_deliveryId (offer_row j i drv now) = i"
  "a_driverId (offer_row j i drv now) = drv" "a_status (offer_row j i drv now) = A_OFFERED"
  "a_acceptedAt (offer_row j i drv now) = None" "a_releasedAt (offer_row j i drv now) = None"
  "assignment_ok (offer_row j i drv now)"
  by (simp_all add: offer_row_def assignment_ok_def)

lemma keep_offered:
  assumes b: "dispatch_inv s" and f: "t_find d_id i (s_deliveries s) = Some d" and st: "d_status d = SEARCHING_DRIVER"
    and j: "j \<notin> a_id ` set (s_assignments s)"
    and free: "\<forall>x \<in> set (s_assignments s). a_releasedAt x = None \<longrightarrow> a_deliveryId x \<noteq> i \<and> a_driverId x \<noteq> drv"
  shows "dispatch_inv (s\<lparr>s_assignments := s_assignments s @ [offer_row j i drv now]\<rparr>)" (is "dispatch_inv ?s")
proof -
  note d = delivery_okD [OF b f]
  have "offers_of i s = []"
    using free dispatch_invD(10) [OF b] by (auto simp: offers_of_def filter_empty_conv assignment_ok_def)
  then have "served (d_status d) (accepted_of i ?s) (offers_of i ?s)"
    using d(6) st by (simp add: served_def accepted_of_def offers_of_def)
  moreover have "events_of i ?s = events_of i s" "accepted_of i ?s = accepted_of i s" "earnings_of i ?s = earnings_of i s"
    by (simp_all add: events_of_def accepted_of_def earnings_of_def)
  ultimately have ok: "delivery_ok ?s d"
    using d st by (simp add: delivery_ok_def trail_fits_def paid_out_def order_fits_def)
  have "i \<in> d_id ` set (s_deliveries s)" using d(1,2) by auto
  with free j dispatch_invD [OF b] show ?thesis
    by (intro dispatch_inv_change [OF b f, where g = "\<lambda>d. d" and es = "[]"])
      (auto simp: d(2) t_update_def accepted_of_def offers_of_def earnings_of_def open_drivers_def ok cong: map_cong)
qed

text \<open>The assignments with one of them changed.\<close>

lemma assignments_change:
  assumes b: "dispatch_inv s" and f: "t_find a_id j (s_assignments s) = Some a"
    and g: "\<And>x. a_id (g x) = a_id x" "\<And>x. a_deliveryId (g x) = a_deliveryId x" "\<And>x. a_driverId (g x) = a_driverId x"
    and ok: "assignment_ok (g a)" and open': "a_releasedAt (g a) = None \<longrightarrow> a_releasedAt a = None"
    and s': "s_assignments s' = t_update (\<lambda>x. a_id x = j) g (s_assignments s)"
  shows "distinct (map a_id (s_assignments s'))" "a_deliveryId ` set (s_assignments s') \<subseteq> d_id ` set (s_deliveries s)"
    "\<And>x. x \<in> set (s_assignments s') \<Longrightarrow> assignment_ok x" "distinct (open_drivers s')"
    "k \<noteq> a_deliveryId a \<Longrightarrow> accepted_of k s' = accepted_of k s \<and> offers_of k s' = offers_of k s"
    "accepted_of (a_deliveryId a) s = [] \<Longrightarrow> accepted_of (a_deliveryId a) s' = (if a_acceptedAt (g a) = None then [] else [g a])"
    "accepted_of (a_deliveryId a) s = [a] \<Longrightarrow> accepted_of (a_deliveryId a) s' = (if a_acceptedAt (g a) = None then [] else [g a])"
    "offers_of (a_deliveryId a) s = [] \<Longrightarrow> offers_of (a_deliveryId a) s' = (if a_status (g a) = A_OFFERED then [g a] else [])"
    "offers_of (a_deliveryId a) s = [a] \<Longrightarrow> offers_of (a_deliveryId a) s' = (if a_status (g a) = A_OFFERED then [g a] else [])"
proof -
  obtain xs ys where xs: "s_assignments s = xs @ a # ys" "s_assignments s' = xs @ g a # ys"
    "\<forall>x \<in> set xs \<union> set ys. a_id x \<noteq> j"
    using update_split [OF dispatch_invD(4) [OF b] f] s' by metis
  note bs = dispatch_invD [OF b, unfolded xs(1)]
  show "distinct (map a_id (s_assignments s'))" "a_deliveryId ` set (s_assignments s') \<subseteq> d_id ` set (s_deliveries s)"
    using bs(4,7) by (simp_all add: xs(2) g)
  show "assignment_ok x" if "x \<in> set (s_assignments s')" for x using that bs(10) ok by (auto simp: xs(2))
  show "distinct (open_drivers s')"
    using dispatch_invD(6) [OF b] open' by (auto simp: open_drivers_def xs(1,2) g split: if_splits)
  show "k \<noteq> a_deliveryId a \<Longrightarrow> accepted_of k s' = accepted_of k s \<and> offers_of k s' = offers_of k s"
    by (simp add: accepted_of_def offers_of_def xs(1,2) g)
  show "accepted_of (a_deliveryId a) s = [] \<Longrightarrow> accepted_of (a_deliveryId a) s' = (if a_acceptedAt (g a) = None then [] else [g a])"
    "offers_of (a_deliveryId a) s = [] \<Longrightarrow> offers_of (a_deliveryId a) s' = (if a_status (g a) = A_OFFERED then [g a] else [])"
    by (simp_all add: accepted_of_def offers_of_def xs(1,2) g split: if_splits)
  have one: "filter Q xs = [] \<and> filter Q ys = []" if "filter Q (xs @ a # ys) = [a]" for Q
  proof -
    have "a \<in> set (filter Q (xs @ a # ys))" by (simp only: that) simp
    then have "Q a" unfolding set_filter by simp
    with that show ?thesis by (cases "filter Q xs") simp_all
  qed
  show "accepted_of (a_deliveryId a) s' = (if a_acceptedAt (g a) = None then [] else [g a])"
    if h: "accepted_of (a_deliveryId a) s = [a]"
  proof -
    let ?Q = "\<lambda>x. a_deliveryId x = a_deliveryId a \<and> a_acceptedAt x \<noteq> None"
    have "filter ?Q xs = [] \<and> filter ?Q ys = []" by (rule one) (use h in \<open>simp only: accepted_of_def xs(1)\<close>)
    then show ?thesis unfolding accepted_of_def xs(2) by (simp add: g)
  qed
  show "offers_of (a_deliveryId a) s' = (if a_status (g a) = A_OFFERED then [g a] else [])"
    if h: "offers_of (a_deliveryId a) s = [a]"
  proof -
    let ?Q = "\<lambda>x. a_deliveryId x = a_deliveryId a \<and> a_status x = A_OFFERED"
    have "filter ?Q xs = [] \<and> filter ?Q ys = []" by (rule one) (use h in \<open>simp only: offers_of_def xs(1)\<close>)
    then show ?thesis unfolding offers_of_def xs(2) by (simp add: g)
  qed
qed

lemma assignment_delivery:
  assumes b: "dispatch_inv s" and a: "a \<in> set (s_assignments s)"
  obtains d where "t_find d_id (a_deliveryId a) (s_deliveries s) = Some d"
proof -
  have "a_deliveryId a \<in> d_id ` set (s_deliveries s)" using dispatch_invD(7) [OF b] a by auto
  then obtain d where "d \<in> set (s_deliveries s)" "d_id d = a_deliveryId a" by auto
  with t_find_distinct [OF dispatch_invD(2) [OF b] this(1)] that show ?thesis by simp
qed

lemma keep_declined:
  assumes b: "dispatch_inv s" and f: "t_find a_id j (s_assignments s) = Some a" and st: "a_status a = A_OFFERED"
    and st': "st' \<in> {A_REJECTED, A_EXPIRED}"
  shows "dispatch_inv (s\<lparr>s_assignments := t_update (\<lambda>a. a_id a = j)
      (\<lambda>a. a\<lparr>a_status := st', a_releasedAt := Some now\<rparr>) (s_assignments s)\<rparr>)" (is "dispatch_inv ?s")
proof -
  have a: "a \<in> set (s_assignments s)" "a_id a = j" using t_find_Some [OF f] by simp_all
  obtain d where d: "t_find d_id (a_deliveryId a) (s_deliveries s) = Some d" by (rule assignment_delivery [OF b a(1)])
  let ?g = "\<lambda>a. a\<lparr>a_status := st', a_releasedAt := Some now\<rparr>"
  note one = offered_one [OF b a(1) st d] and dok = delivery_okD [OF b d]
  have ok: "assignment_ok (?g a)" using st' dispatch_invD(10) [OF b a(1)] st by (auto simp: assignment_ok_def)
  have nacc: "a_acceptedAt a = None" using dispatch_invD(10) [OF b a(1)] st by (auto simp: assignment_ok_def)
  note ch = assignments_change [OF b f, of ?g ?s, OF _ _ _ ok, simplified]
  have "accepted_of (a_deliveryId a) ?s = []" "offers_of (a_deliveryId a) ?s = []"
    using ch(6) [OF one(1)] ch(9) [OF one(2)] nacc st' by auto
  moreover have "events_of k ?s = events_of k s" "earnings_of k ?s = earnings_of k s" for k
    by (simp_all add: events_of_def earnings_of_def)
  ultimately have dk: "delivery_ok ?s d"
    using dok one by (simp add: delivery_ok_def trail_fits_def paid_out_def order_fits_def served_def)
  show ?thesis
    by (rule dispatch_inv_change [OF b d, where g = "\<lambda>d. d" and es = "[]"])
      (use ch(1-5) dispatch_invD(5,9) [OF b] dok(2) dk in \<open>simp_all add: t_update_id earnings_of_def\<close>)
qed

lemma keep_accepted:
  assumes b: "dispatch_inv s" and f: "t_find a_id j (s_assignments s) = Some a" and st: "a_status a = A_OFFERED"
    and d: "t_find d_id (a_deliveryId a) (s_deliveries s) = Some d"
  shows "dispatch_inv (s\<lparr>s_assignments := t_update (\<lambda>a. a_id a = j)
        (\<lambda>a. a\<lparr>a_status := A_ACCEPTED, a_acceptedAt := Some now\<rparr>) (s_assignments s),
      s_deliveries := t_update (\<lambda>d. d_id d = a_deliveryId a) (\<lambda>d. d\<lparr>d_status := DRIVER_ASSIGNED\<rparr>) (s_deliveries s),
      s_deliveryEvents := s_deliveryEvents s
        @ [delivery_event_row (a_deliveryId a) ''DRIVER_ASSIGNED'' (Some (a_driverId a)) now]\<rparr>)" (is "dispatch_inv ?s")
proof -
  let ?g = "\<lambda>a. a\<lparr>a_status := A_ACCEPTED, a_acceptedAt := Some now\<rparr>"
  let ?h = "\<lambda>d. d\<lparr>d_status := DRIVER_ASSIGNED\<rparr>"
  have a: "a \<in> set (s_assignments s)" "a_id a = j" using t_find_Some [OF f] by simp_all
  note one = offered_one [OF b a(1) st d] and dok = delivery_okD [OF b d]
  have open': "a_releasedAt a = None" using dispatch_invD(10) [OF b a(1)] st by (auto simp: assignment_ok_def)
  then have ok: "assignment_ok (?g a)" by (simp add: assignment_ok_def)
  note ch = assignments_change [OF b f, of ?g ?s, OF _ _ _ ok, simplified]
  have new: "accepted_of (a_deliveryId a) ?s = [?g a]" "offers_of (a_deliveryId a) ?s = []"
    using ch(6) [OF one(1)] ch(9) [OF one(2)] by (simp_all add: open')
  have evs: "events_of (a_deliveryId a) ?s = events_of (a_deliveryId a) s
      @ [delivery_event_row (a_deliveryId a) ''DRIVER_ASSIGNED'' (Some (a_driverId a)) now]"
    "earnings_of k ?s = earnings_of k s" for k
    by (simp_all add: events_of_def earnings_of_def)
  have t: "map de_type (events_of (a_deliveryId a) s) = [''DELIVERY_CREATED'']"
    using dok(2,3) one(3) by (simp add: trail_fits_def Let_def DELIVERY_TRAIL_def)
  then obtain e where e: "events_of (a_deliveryId a) s = [e]" "de_type e = ''DELIVERY_CREATED''" by auto
  have "trail_fits ?s (?h d)"
    using dok(2,3) one(3) by (simp add: trail_fits_def Let_def DELIVERY_TRAIL_def evs e event_at_def new)
  then have dk: "delivery_ok ?s (?h d)"
    using dok one new evs by (simp add: delivery_ok_def paid_out_def order_fits_def served_def)
  show ?thesis
    by (rule dispatch_inv_change [OF b d, where g = ?h and es = "[delivery_event_row (a_deliveryId a) ''DRIVER_ASSIGNED'' (Some (a_driverId a)) now]"])
      (use ch(1-5) open' dispatch_invD(5,9) [OF b] dok(2) dk in \<open>simp_all add: earnings_of_def\<close>)
qed

lemma keep_moved:
  assumes b: "dispatch_inv s" and d: "t_find d_id (a_deliveryId a) (s_deliveries s) = Some d"
    and act: "action \<noteq> COMPLETE_DELIVERY" and src: "d_status d = dt_from (transitionForAction action)"
    and a: "a \<in> set (s_assignments s)" "a_status a = A_ACCEPTED"
  shows "dispatch_inv (s\<lparr>s_deliveries := t_update (\<lambda>d. d_id d = a_deliveryId a) (walk action now) (s_deliveries s),
      s_deliveryEvents := s_deliveryEvents s @ [delivery_event_row (a_deliveryId a)
        (dt_eventType (transitionForAction action)) (Some (a_driverId a)) now]\<rparr>)" (is "dispatch_inv ?s")
proof -
  note one = accepted_one [OF b a d] and dok = delivery_okD [OF b d]
  let ?e = "delivery_event_row (a_deliveryId a) (dt_eventType (transitionForAction action)) (Some (a_driverId a)) now"
  have same: "accepted_of k ?s = accepted_of k s" "offers_of k ?s = offers_of k s" "earnings_of k ?s = earnings_of k s" for k
    by (simp_all add: accepted_of_def offers_of_def earnings_of_def)
  have to: "dt_to (transitionForAction action) \<notin> {SEARCHING_DRIVER, DELIVERED, D_FAILED, D_CANCELLED}"
    using act by (cases action) simp_all
  have "trail_fits ?s (walk action now d)"
    by (rule trail_walk [OF dok(3) src, where a = a and a' = a and drv = "a_driverId a" and i = "a_deliveryId a" and now = now])
      (simp_all add: events_of_def same one dok(2))
  moreover have "served (d_status (walk action now d)) (accepted_of (a_deliveryId a) ?s) (offers_of (a_deliveryId a) ?s)"
    using a(2) one(1,2) to by (simp add: same served_def)
  moreover have "paid_out ?s (walk action now d)" "order_fits ?s (walk action now d)"
    "d_status (walk action now d) \<notin> {D_FAILED, D_CANCELLED}"
    using dok(4,5) one(3) src to by (simp_all add: paid_out_def order_fits_def same)
  ultimately have dk: "delivery_ok ?s (walk action now d)" using dok(2) by (simp add: delivery_ok_def)
  show ?thesis
    by (rule dispatch_inv_change [OF b d, where g = "walk action now" and es = "[?e]"])
      (use dispatch_invD [OF b] dok(2) dk same in \<open>simp_all add: open_drivers_def\<close>)
qed

lemma keep_delivered:
  assumes b: "dispatch_inv s" and d: "t_find d_id (a_deliveryId a) (s_deliveries s) = Some d"
    and src: "d_status d = ARRIVED_CUSTOMER"
    and f: "t_find a_id (a_id a) (s_assignments s) = Some a" and st: "a_status a = A_ACCEPTED"
    and o': "t_find o_id (d_orderId d) (s_orders s) = Some o'"
    and sn: "t_find sn_orderId (d_orderId d) (s_snapshots s) = Some sn"
    and e: "e_deliveryId e = d_id d" "e_driverId e = a_driverId a" "e_netEarningMinor e = sn_driverRemunerationMinor sn"
      "e_baseRemunerationMinor e = sn_driverRemunerationMinor sn" "e_bonusMinor e = 0" "e_adjustmentMinor e = 0"
      "e_status e = ''EARNED''" "e_validatedAt e = now" "e_id e \<notin> e_id ` set (s_earnings s)"
  shows "dispatch_inv (s\<lparr>
      s_deliveries := t_update (\<lambda>x. d_id x = d_id d) (walk COMPLETE_DELIVERY now) (s_deliveries s),
      s_deliveryEvents := s_deliveryEvents s
        @ [delivery_event_row (d_id d) ''DELIVERY_COMPLETED'' (Some (a_driverId a)) now],
      s_assignments := t_update (\<lambda>x. a_id x = a_id a)
        (\<lambda>x. x\<lparr>a_status := A_RELEASED, a_releasedAt := Some now\<rparr>) (s_assignments s),
      s_orders := t_update (\<lambda>x. o_id x = d_orderId d)
        (\<lambda>x. x\<lparr>o_status := O_COMPLETED, o_completedAt := Some now\<rparr>) (s_orders s),
      s_events := evs', s_earnings := s_earnings s @ [e], s_ledger := es\<rparr>)" (is "dispatch_inv ?s")
proof -
  let ?g = "\<lambda>a. a\<lparr>a_status := A_RELEASED, a_releasedAt := Some now\<rparr>"
  let ?h = "walk COMPLETE_DELIVERY now"
  have a: "a \<in> set (s_assignments s)" using t_find_Some [OF f] by simp
  note one = accepted_one [OF b a st d] and dok = delivery_okD [OF b d]
  have acc: "a_acceptedAt a \<noteq> None" using dispatch_invD(10) [OF b a] st by (auto simp: assignment_ok_def)
  then have ok: "assignment_ok (?g a)" by (simp add: assignment_ok_def)
  note ch = assignments_change [OF b f, of ?g ?s, OF _ _ _ ok, simplified]
  have new: "accepted_of (a_deliveryId a) ?s = [?g a]" "offers_of (a_deliveryId a) ?s = []"
    using ch(7) [OF one(1)] ch(8) [OF one(2)] acc by simp_all
  have none: "earnings_of (a_deliveryId a) s = []" using dok(2,4) src by (simp add: paid_out_def)
  have earn: "earnings_of (a_deliveryId a) ?s = [e]" "k \<noteq> a_deliveryId a \<Longrightarrow> earnings_of k ?s = earnings_of k s" for k
    using none e(1) dok(2) by (simp_all add: earnings_of_def)
  have t: "trail_fits ?s (?h d)"
    by (rule trail_walk [OF dok(3), where a = a and a' = "?g a" and drv = "a_driverId a" and i = "d_id d" and now = now])
      (use new one dok(2) src in \<open>simp_all add: events_of_def\<close>)
  moreover have "paid_out ?s (?h d)"
    using sn e dok(2) new(1) earn(1) by (simp add: paid_out_def earning_pays_def walk_def stamp_field_def)
  moreover have "order_fits ?s (?h d)"
    using dok(5) o' t_find_Some [OF o'] by (auto simp: order_fits_def t_find_update)
  ultimately have dk: "delivery_ok ?s (?h d)" using dok(2) new by (simp add: delivery_ok_def served_def)
  show ?thesis
  proof (rule dispatch_inv_change [OF b d, where g = ?h
      and es = "[delivery_event_row (d_id d) ''DELIVERY_COMPLETED'' (Some (a_driverId a)) now]"])
    show "e_deliveryId ` set (s_earnings ?s) \<subseteq> d_id ` set (s_deliveries s)"
      using dispatch_invD(9) [OF b] e(1) dok(1) by auto
    show "t_find o_id k (s_orders ?s) = t_find o_id k (s_orders s)" if "k \<noteq> d_orderId d" for k
      using that by (simp add: t_find_unchanged)
  qed (use ch(1-5) dispatch_invD(5,9) [OF b] dok(2) dk earn e in simp_all)
qed

lemma dispatch_spec_inv: "dispatch_spec s s' \<Longrightarrow> dispatch_inv s \<Longrightarrow> dispatch_inv s'"
proof (induction rule: dispatch_spec.induct)
  case (delivered a s d o' sn p e n now l le es oe)
  show ?case
    by (rule keep_delivered [where sn = sn and o' = o']) (use delivered in simp_all)
qed (blast intro: keep_created keep_offered keep_declined keep_accepted keep_moved)+

section \<open>The machine keeps the ledger\<close>

lemma order_of_delivery_update:
  "(\<And>d. d_id (g d) = d_id d) \<Longrightarrow> (\<And>d. d_orderId (g d) = d_orderId d) \<Longrightarrow>
   s_deliveries s' = t_update P g (s_deliveries s) \<Longrightarrow> order_of_delivery s' i = order_of_delivery s i"
  by (simp add: order_of_delivery_def t_find_update split: option.splits)

lemma t_find_append_known: "k \<in> key ` set xs \<Longrightarrow> t_find key k (xs @ ys) = t_find key k xs"
  by (induction xs) (auto simp: t_find_def)

lemma balanced_frame:
  assumes "balanced s" "s_ledger s' = s_ledger s" "map pay_view (s_payments s') = map pay_view (s_payments s)"
    "s_collections s' = s_collections s" "s_remittances s' = s_remittances s" "s_settlements s' = s_settlements s"
    "s_refunds s' = s_refunds s" "s_earnings s' = s_earnings s"
    "\<And>e. e \<in> set (s_earnings s) \<Longrightarrow> order_of_delivery s' (e_deliveryId e) = order_of_delivery s (e_deliveryId e)"
  shows "balanced s'"
proof (rule balanced_same [OF assms(1,2)])
  have p: "payment_events x = map (\<lambda>p. EvPayment (p_id p) (p_orderId p) (p_amountMinor p))
      (filter (\<lambda>p. p_method p = PAYMENT_METHOD_ELECTRONIC \<and> p_status p = PAY_SUCCEEDED) (map pay_view (s_payments x)))" for x
    by (simp add: payment_events_def filter_map comp_def)
  have "earning_events s' = earning_events s" using assms(8,9) by (simp add: earning_events_def)
  then show "shop_events s' = shop_events s"
    using assms(3-7) by (simp add: shop_events_def p collection_events_def remittance_events_def
        settlement_events_def refund_events_def)
qed

lemma dispatch_spec_balanced:
  assumes "dispatch_spec s s'" and b: "dispatch_inv s" and bal: "balanced s"
  shows "balanced s'"
  using assms(1)
proof cases
  case (created i k o' now)
  have "order_of_delivery s' (e_deliveryId e) = order_of_delivery s (e_deliveryId e)" if "e \<in> set (s_earnings s)" for e
  proof -
    have "e_deliveryId e \<in> d_id ` set (s_deliveries s)" using that dispatch_invD(9) [OF b] by auto
    then show ?thesis by (simp add: order_of_delivery_def created(1) t_find_append_known)
  qed
  then show ?thesis by (intro balanced_frame [OF bal]) (simp_all add: created(1))
next
  case offered
  then show ?thesis by (intro balanced_frame [OF bal]) (simp_all add: order_of_delivery_def)
next
  case declined
  then show ?thesis by (intro balanced_frame [OF bal]) (simp_all add: order_of_delivery_def)
next
  case (accepted j a d now)
  show ?thesis
    by (rule balanced_frame [OF bal])
      (simp_all add: accepted(1) order_of_delivery_update [where g = "\<lambda>d. d\<lparr>d_status := DRIVER_ASSIGNED\<rparr>" and s = s])
next
  case (moved a d action now)
  show ?thesis
    by (rule balanced_frame [OF bal])
      (simp_all add: moved(1) order_of_delivery_update [where g = "walk action now" and s = s])
next
  case (delivered a d o' sn p e n now l le es oe)
  let ?ev = "EvEarning n (d_orderId d) (a_driverId a) (sn_driverRemunerationMinor sn)"
  have o: "order_of_delivery s' i = order_of_delivery s i" for i
    by (rule order_of_delivery_update [where g = "walk COMPLETE_DELIVERY now"]) (simp_all add: delivered(1))
  have di: "d_id d = a_deliveryId a" using t_find_Some [OF delivered(2)] by simp
  have "order_of_delivery s (d_id d) = d_orderId d" using delivered(2) by (simp add: order_of_delivery_def di)
  then have "mset (earning_events s') = add_mset ?ev (mset (earning_events s))"
    by (simp add: earning_events_def o) (simp add: delivered(1,12))
  then have "shop_events s' = add_mset ?ev (shop_events s)"
    by (simp add: delivered(1) shop_events_def payment_events_def collection_events_def
        remittance_events_def settlement_events_def refund_events_def)
  moreover have "event_reference ?ev \<notin> event_reference ` set_mset (shop_events s)"
    by (rule fresh_reference) (use delivered(13) in \<open>auto simp: events_source\<close>)
  ultimately show ?thesis
    using delivered(14) by (intro balanced_new [OF bal, where newId = l and now = now and e = le]) (simp_all add: delivered(1))
qed

end
