(* ===== verification/Fleet_Books.thy ===== *)
theory Fleet_Books
  imports Drivers
begin

text \<open>
  What the drivers module promises. Every driver has one availability, which agrees with the
  driver's verification; a driver has at most one active vehicle and no two active vehicles
  share a plate; a driver has one document of a type. What a review decides on stays as it
  was reviewed: nothing but an onboarding driver's own calls changes documents and vehicles.
\<close>

section \<open>The books\<close>

definition standing_ok :: "driver_row \<Rightarrow> availability_row \<Rightarrow> bool" where
  "standing_ok d a \<longleftrightarrow> av_driverId a = dr_id d \<and>
     (av_status a = AV_SUSPENDED \<longleftrightarrow> dr_verificationStatus d = V_SUSPENDED) \<and>
     (av_status a \<in> {AV_ONLINE, AV_OFFLINE_AFTER_CURRENT_DELIVERY} \<longrightarrow> dr_verificationStatus d = V_APPROVED) \<and>
     (av_offlineAfterCurrentDelivery a \<longleftrightarrow> av_status a = AV_OFFLINE_AFTER_CURRENT_DELIVERY) \<and>
     (dr_approvedAt d \<noteq> None \<longleftrightarrow> dr_verificationStatus d \<in> {V_APPROVED, V_SUSPENDED})"

definition active_vehicles :: "shop \<Rightarrow> vehicle_row list" where
  "active_vehicles s = filter (\<lambda>v. vh_status v = VEHICLE_ACTIVE) (s_vehicles s)"

definition roster_ok :: "shop \<Rightarrow> bool" where
  "roster_ok s \<longleftrightarrow> distinct (map dr_id (s_drivers s)) \<and> distinct (map dr_accountId (s_drivers s)) \<and>
     list_all2 standing_ok (s_drivers s) (s_availability s)"

definition vehicles_ok :: "shop \<Rightarrow> bool" where
  "vehicles_ok s \<longleftrightarrow> distinct (map vh_id (s_vehicles s)) \<and> distinct (map vh_driverId (active_vehicles s)) \<and>
     distinct (map vh_plateNumber (active_vehicles s))"

definition documents_ok :: "shop \<Rightarrow> bool" where
  "documents_ok s \<longleftrightarrow> distinct (map doc_id (s_documents s)) \<and>
     distinct (map (\<lambda>d. (doc_driverId d, doc_type d)) (s_documents s)) \<and>
     (\<forall>d \<in> set (s_documents s). isDriverDocumentType (doc_type d))"

definition fleet_inv :: "shop \<Rightarrow> bool" where
  "fleet_inv s \<longleftrightarrow> roster_ok s \<and> vehicles_ok s \<and> documents_ok s"

section \<open>The calls\<close>

datatype driver_call =
    CreateProfile string string string
  | UpdateProfile string "string option"
  | UpsertDocument string string string "string option" "string option"
  | CreateVehicle string string vehicle_input
  | UpdateVehicle string string vehicle_patch
  | SubmitVerification string
  | GoOnline string
  | GoOffline string
  | ApproveDriver string
  | RejectDriver string
  | SuspendDriver string

text \<open>The shop after a call at an instant, whether it succeeds or throws.\<close>

fun run_driver :: "(string \<Rightarrow> app_error + string) \<Rightarrow> instant \<Rightarrow> driver_call \<Rightarrow> shop \<Rightarrow> shop" where
  "run_driver promote now (CreateProfile i acc name) s = snd (atomically (createProfile now i acc name) s)"
| "run_driver promote now (UpdateProfile acc name) s = snd (atomically (updateProfile now acc name) s)"
| "run_driver promote now (UpsertDocument i acc type expiry upload) s =
     snd (upsertDocument promote now i acc type expiry upload s)"
| "run_driver promote now (CreateVehicle i acc input) s = snd (atomically (createVehicle now i acc input) s)"
| "run_driver promote now (UpdateVehicle acc i patch) s = snd (atomically (updateVehicle now acc i patch) s)"
| "run_driver promote now (SubmitVerification acc) s = snd (submitVerification now acc s)"
| "run_driver promote now (GoOnline acc) s = snd (goOnline now acc s)"
| "run_driver promote now (GoOffline acc) s = snd (goOffline now acc s)"
| "run_driver promote now (ApproveDriver i) s = snd (atomically (approveInTx now i) s)"
| "run_driver promote now (RejectDriver i) s = snd (atomically (rejectInTx now i) s)"
| "run_driver promote now (SuspendDriver i) s = snd (atomically (suspendInTx now i) s)"

section \<open>The roster\<close>

text \<open>An update of one driver, and of its availability, keeps the roster if that pair stays in order.\<close>

lemma roster_change:
  assumes r: "roster_ok s" and f: "\<And>d. dr_id (f d) = dr_id d" "\<And>d. dr_accountId (f d) = dr_accountId d"
    and g: "\<And>a. av_driverId (g a) = av_driverId a"
    and ok: "\<And>d a. d \<in> set (s_drivers s) \<Longrightarrow> dr_id d = i \<Longrightarrow> standing_ok d a \<Longrightarrow>
      standing_ok (f d) (if Q a then g a else a)"
    and s': "s_drivers s' = t_update (\<lambda>d. dr_id d = i) f (s_drivers s)"
      "s_availability s' = t_update (\<lambda>a. av_driverId a = i \<and> Q a) g (s_availability s)"
  shows "roster_ok s'"
proof -
  have "list_all2 standing_ok (s_drivers s') (s_availability s')"
    unfolding s' t_update_def list_all2_map1 list_all2_map2
  proof (rule list.rel_mono_strong)
    show "list_all2 standing_ok (s_drivers s) (s_availability s)" using r by (simp add: roster_ok_def)
  next
    fix d a assume "d \<in> set (s_drivers s)" "standing_ok d a"
    then show "standing_ok (if dr_id d = i then f d else d) (if av_driverId a = i \<and> Q a then g a else a)"
      using ok [of d a] by (cases "dr_id d = i") (simp_all add: standing_ok_def)
  qed
  with r f show ?thesis by (simp add: roster_ok_def s' t_update_keys)
qed

lemma t_update_none: "(\<And>x. x \<in> set xs \<Longrightarrow> \<not> P x) \<Longrightarrow> t_update P f xs = xs"
  unfolding t_update_def by (rule map_idI) simp

lemma t_update_twice:
  "(\<And>x. key (f x) = key x) \<Longrightarrow>
   t_update (\<lambda>x. key x = i) g (t_update (\<lambda>x. key x = i) f xs) = t_update (\<lambda>x. key x = i) (\<lambda>x. g (f x)) xs"
  by (simp add: t_update_def)

lemma lockProfile_ok:
  assumes "lockProfile now i s = (r, s1)"
  shows "s1 = s\<lparr>s_drivers := t_update (\<lambda>d. dr_id d = i) (\<lambda>d. d\<lparr>dr_updatedAt := now\<rparr>) (s_drivers s)\<rparr>"
    "r = map_option (\<lambda>d. d\<lparr>dr_updatedAt := now\<rparr>) (t_find dr_id i (s_drivers s))"
proof -
  show "s1 = s\<lparr>s_drivers := t_update (\<lambda>d. dr_id d = i) (\<lambda>d. d\<lparr>dr_updatedAt := now\<rparr>) (s_drivers s)\<rparr>"
    using assms by (simp add: lockProfile_def Let_def update_driver_def)
  have "r = t_find dr_id i (t_update (\<lambda>d. dr_id d = i) (\<lambda>d. d\<lparr>dr_updatedAt := now\<rparr>) (s_drivers s))"
    using assms by (simp add: lockProfile_def Let_def update_driver_def findProfileById_def)
  then show "r = map_option (\<lambda>d. d\<lparr>dr_updatedAt := now\<rparr>) (t_find dr_id i (s_drivers s))"
    using t_find_Some [of dr_id i "s_drivers s"] by (cases "t_find dr_id i (s_drivers s)") (simp_all add: t_find_update)
qed

lemma roster_found:
  assumes "roster_ok s" "t_find dr_id i (s_drivers s) = Some d" "d' \<in> set (s_drivers s)" "dr_id d' = i"
  shows "d' = d"
  using t_find_distinct [of dr_id "s_drivers s" d'] assms by (simp add: roster_ok_def)

text \<open>The transitions of an availability, given the verification of its driver.\<close>

lemma roster_review:
  assumes r: "roster_ok s" and d: "t_find dr_id i (s_drivers s) = Some d" "dr_verificationStatus d = st"
    and ok: "(st, st', ap \<noteq> None, force') \<in> {(V_UNVERIFIED, V_PENDING_REVIEW, False, None), (V_REJECTED, V_PENDING_REVIEW, False, None),
      (V_PENDING_REVIEW, V_APPROVED, True, None), (V_PENDING_REVIEW, V_REJECTED, False, Some AV_OFFLINE),
      (V_APPROVED, V_SUSPENDED, True, Some AV_SUSPENDED)}"
    and s': "s_drivers s' = t_update (\<lambda>d. dr_id d = i)
        (\<lambda>d. d\<lparr>dr_verificationStatus := st', dr_approvedAt := ap, dr_updatedAt := now\<rparr>) (s_drivers s)"
      "s_availability s' = (case force' of None \<Rightarrow> s_availability s | Some av \<Rightarrow> t_update (\<lambda>a. av_driverId a = i)
        (\<lambda>a. a\<lparr>av_status := av, av_offlineAfterCurrentDelivery := False\<rparr>) (s_availability s))"
  shows "roster_ok s'"
proof (rule roster_change [OF r, where i = i and Q = "\<lambda>_. force' \<noteq> None"
      and f = "\<lambda>d. d\<lparr>dr_verificationStatus := st', dr_approvedAt := ap, dr_updatedAt := now\<rparr>"
      and g = "\<lambda>a. a\<lparr>av_status := the force', av_offlineAfterCurrentDelivery := False\<rparr>"])
  fix d' a assume "d' \<in> set (s_drivers s)" "dr_id d' = i" and a: "standing_ok d' a"
  with roster_found [OF r d(1)] have "d' = d" by simp
  with a d(2) ok show "standing_ok (d'\<lparr>dr_verificationStatus := st', dr_approvedAt := ap, dr_updatedAt := now\<rparr>)
      (if force' \<noteq> None then a\<lparr>av_status := the force', av_offlineAfterCurrentDelivery := False\<rparr> else a)"
    by (cases "av_status a") (auto simp: standing_ok_def)
next
  show "s_availability s' = t_update (\<lambda>a. av_driverId a = i \<and> force' \<noteq> None)
     (\<lambda>a. a\<lparr>av_status := the force', av_offlineAfterCurrentDelivery := False\<rparr>) (s_availability s)"
    unfolding s'(2) by (cases force') (simp_all add: t_update_def)
qed (simp_all add: s'(1))

lemma roster_availability:
  assumes r: "roster_ok s" and d: "t_find dr_id i (s_drivers s) = Some d"
    and ok: "dr_verificationStatus d = V_APPROVED \<and> to' \<noteq> AV_SUSPENDED \<or> to' = AV_OFFLINE" "fr \<noteq> AV_SUSPENDED"
    and s': "s_drivers s' = t_update (\<lambda>d. dr_id d = i) (\<lambda>d. d\<lparr>dr_updatedAt := upd d\<rparr>) (s_drivers s)"
      "s_availability s' = t_update (\<lambda>a. av_driverId a = i \<and> av_status a = fr)
        (\<lambda>a. a\<lparr>av_status := to', av_offlineAfterCurrentDelivery := (to' = AV_OFFLINE_AFTER_CURRENT_DELIVERY)\<rparr>) (s_availability s)"
  shows "roster_ok s'"
proof (rule roster_change [OF r, where i = i and Q = "\<lambda>a. av_status a = fr" and f = "\<lambda>d. d\<lparr>dr_updatedAt := upd d\<rparr>",
      OF _ _ _ _ s'])
  fix d' a assume "d' \<in> set (s_drivers s)" "dr_id d' = i" and a: "standing_ok d' a"
  with roster_found [OF r d(1)] have "d' = d" by simp
  with a ok show "standing_ok (d'\<lparr>dr_updatedAt := upd d'\<rparr>) (if av_status a = fr
      then a\<lparr>av_status := to', av_offlineAfterCurrentDelivery := (to' = AV_OFFLINE_AFTER_CURRENT_DELIVERY)\<rparr> else a)"
    by (cases to') (auto simp: standing_ok_def)
qed simp_all

lemma roster_touch:
  assumes "roster_ok s" "s_drivers s' = t_update (\<lambda>d. dr_id d = i)
      (\<lambda>d. d\<lparr>dr_fullName := nm d, dr_updatedAt := upd d\<rparr>) (s_drivers s)" "s_availability s' = s_availability s"
  shows "roster_ok s'"
proof (rule roster_change [OF assms(1), where i = i and Q = "\<lambda>_. False" and g = "\<lambda>a. a", OF _ _ _ _ assms(2)])
  show "s_availability s' = t_update (\<lambda>a. av_driverId a = i \<and> False) (\<lambda>a. a) (s_availability s)"
    by (simp add: assms(3) t_update_def)
qed (simp_all add: standing_ok_def)

section \<open>Vehicles and documents\<close>

lemma distinct_update:
  "distinct (map key xs) \<Longrightarrow> distinct (map h xs) \<Longrightarrow>
   (\<And>v w. v \<in> set xs \<Longrightarrow> w \<in> set xs \<Longrightarrow> key v = i \<Longrightarrow> key w \<noteq> i \<Longrightarrow> h w \<noteq> h (f v)) \<Longrightarrow>
   distinct (map h (t_update (\<lambda>v. key v = i) f xs))"
proof (induction xs)
  case (Cons x xs)
  have IH: "distinct (map h (t_update (\<lambda>v. key v = i) f xs))" by (rule Cons.IH) (use Cons.prems in auto)
  show ?case
  proof (cases "key x = i")
    case True
    then have "t_update (\<lambda>v. key v = i) f xs = xs" using Cons.prems(1) by (intro t_update_id) (auto simp: image_iff)
    moreover have "h (f x) \<notin> h ` set xs"
    proof
      assume "h (f x) \<in> h ` set xs"
      then obtain w where w: "w \<in> set xs" "h w = h (f x)" by auto
      have "key x \<notin> key ` set xs" using Cons.prems(1) by simp
      with w(1) True have "key w \<noteq> i" by (metis imageI)
      with Cons.prems(3) [of x w] w True show False by simp
    qed
    ultimately show ?thesis using True Cons.prems(2) by (simp add: t_update_def)
  next
    case False
    have "h x \<notin> h ` set (t_update (\<lambda>v. key v = i) f xs)"
      using Cons.prems(2,3) False by (fastforce simp: t_update_in)
    moreover have "t_update (\<lambda>v. key v = i) f (x # xs) = x # t_update (\<lambda>v. key v = i) f xs"
      using False by (simp add: t_update_def)
    ultimately show ?thesis using IH by simp
  qed
qed (simp add: t_update_def)

lemma active_distinct: "vehicles_ok s \<Longrightarrow> distinct (map vh_id (active_vehicles s))"
  by (simp add: vehicles_ok_def active_vehicles_def distinct_map_filter)

lemma plateTaken_iff:
  "plateTaken i p s \<longleftrightarrow> (\<exists>v \<in> set (active_vehicles s). vh_id v \<noteq> i \<and> vh_plateNumber v = p)"
  by (auto simp: plateTaken_def active_vehicles_def)

lemma deactivate_active:
  "active_vehicles (deactivateVehicles drv s) = filter (\<lambda>v. vh_driverId v \<noteq> drv) (active_vehicles s)"
proof -
  have "filter (\<lambda>v. vh_status v = VEHICLE_ACTIVE) (t_update (\<lambda>v. vh_driverId v = drv \<and> vh_status v = VEHICLE_ACTIVE)
      (\<lambda>v. v\<lparr>vh_status := VEHICLE_INACTIVE\<rparr>) vs) = filter (\<lambda>v. vh_driverId v \<noteq> drv) (filter (\<lambda>v. vh_status v = VEHICLE_ACTIVE) vs)" for vs
    by (induction vs) (auto simp: t_update_def)
  then show ?thesis by (simp add: active_vehicles_def deactivateVehicles_def)
qed

lemma createActiveVehicle_ok:
  assumes "createActiveVehicle now i drv input s = Inr (v, s')" and ok: "vehicles_ok s"
  shows "vehicles_ok s'" "s_drivers s' = s_drivers s" "s_availability s' = s_availability s" "s_documents s' = s_documents s"
    "\<And>drv'. drv' \<noteq> drv \<Longrightarrow> filter (\<lambda>v. vh_driverId v = drv') (s_vehicles s') = filter (\<lambda>v. vh_driverId v = drv') (s_vehicles s)"
proof -
  let ?d = "deactivateVehicles drv s"
  have new: "i \<notin> vh_id ` set (s_vehicles ?d)" "\<not> plateTaken i (vi_plateNumber input) ?d"
    and v: "vh_id v = i" "vh_driverId v = drv" "vh_plateNumber v = vi_plateNumber input" "vh_status v = VEHICLE_ACTIVE"
    and s': "s' = ?d\<lparr>s_vehicles := s_vehicles ?d @ [v]\<rparr>"
    using assms(1) by (auto simp: createActiveVehicle_def Let_def split: if_splits)
  have act: "active_vehicles s' = filter (\<lambda>v. vh_driverId v \<noteq> drv) (active_vehicles s) @ [v]"
    using v deactivate_active [of drv s] by (simp add: s' active_vehicles_def)
  have fresh: "vi_plateNumber input \<notin> vh_plateNumber ` set (active_vehicles ?d)"
    using new by (auto simp: plateTaken_iff active_vehicles_def)
  have keep: "map vh_id (s_vehicles ?d) = map vh_id (s_vehicles s)" by (simp add: deactivateVehicles_def)
  then have ids: "vh_id ` set (s_vehicles ?d) = vh_id ` set (s_vehicles s)" by (metis list.set_map)
  have plate: "vi_plateNumber input \<notin> vh_plateNumber ` set (filter (\<lambda>v. vh_driverId v \<noteq> drv) (active_vehicles s))"
    using fresh by (simp only: deactivate_active not_False_eq_True)
  have "distinct (map vh_id (s_vehicles s'))"
    using ok new(1) v(1) ids by (simp add: vehicles_ok_def s' keep)
  moreover have "distinct (map vh_driverId (active_vehicles s'))" "distinct (map vh_plateNumber (active_vehicles s'))"
    using ok v plate unfolding vehicles_ok_def act by (auto simp: distinct_map_filter)
  ultimately show "vehicles_ok s'" by (simp add: vehicles_ok_def)
  show "s_drivers s' = s_drivers s" "s_availability s' = s_availability s" "s_documents s' = s_documents s"
    by (simp_all add: s' deactivateVehicles_def)
  have "filter (\<lambda>v. vh_driverId v = drv') (t_update (\<lambda>v. vh_driverId v = drv \<and> vh_status v = VEHICLE_ACTIVE)
      (\<lambda>v. v\<lparr>vh_status := VEHICLE_INACTIVE\<rparr>) vs) = filter (\<lambda>v. vh_driverId v = drv') vs" if "drv' \<noteq> drv" for drv' vs
    using that by (induction vs) (auto simp: t_update_def)
  then show "filter (\<lambda>v. vh_driverId v = drv') (s_vehicles s') = filter (\<lambda>v. vh_driverId v = drv') (s_vehicles s)" if "drv' \<noteq> drv" for drv'
    using that v(2) by (simp add: s' deactivateVehicles_def)
qed

lemma patch_simps [simp]:
  "vh_id (patch_vehicle p v) = vh_id v" "vh_driverId (patch_vehicle p v) = vh_driverId v" "vh_status (patch_vehicle p v) = vh_status v"
  by (simp_all add: patch_vehicle_def)

lemma filter_update: "(\<And>x. P (f x) = P x) \<Longrightarrow> filter P (t_update Q f xs) = t_update Q f (filter P xs)"
  by (induction xs) (auto simp: t_update_def)

lemma updateVehicleRow_ok:
  assumes "updateVehicleRow i patch s = Inr (v, s')" and ok: "vehicles_ok s"
  shows "vehicles_ok s'" "s_drivers s' = s_drivers s" "s_availability s' = s_availability s" "s_documents s' = s_documents s"
    "s_vehicles s' = t_update (\<lambda>v. vh_id v = i) (patch_vehicle patch) (s_vehicles s)"
proof -
  have s': "s' = s\<lparr>s_vehicles := t_update (\<lambda>v. vh_id v = i) (patch_vehicle patch) (s_vehicles s)\<rparr>"
    and free: "\<And>v. t_find vh_id i (s_vehicles s) = Some v \<Longrightarrow> vh_status v = VEHICLE_ACTIVE \<Longrightarrow>
      \<not> plateTaken i (vh_plateNumber (patch_vehicle patch v)) s"
    using assms(1) by (auto simp: updateVehicleRow_def Let_def split: if_splits)
  have act: "active_vehicles s' = t_update (\<lambda>v. vh_id v = i) (patch_vehicle patch) (active_vehicles s)"
    by (simp add: s' active_vehicles_def filter_update)
  have "distinct (map vh_plateNumber (active_vehicles s'))"
    unfolding act
  proof (rule distinct_update [OF active_distinct [OF ok]])
    show "distinct (map vh_plateNumber (active_vehicles s))" using ok by (simp add: vehicles_ok_def)
  next
    fix v w assume v: "v \<in> set (active_vehicles s)" "vh_id v = i" and w: "w \<in> set (active_vehicles s)" "vh_id w \<noteq> i"
    have "t_find vh_id i (s_vehicles s) = Some v"
      using t_find_distinct [of vh_id "s_vehicles s" v] v ok by (simp add: vehicles_ok_def active_vehicles_def)
    with free v(1) have "\<not> plateTaken i (vh_plateNumber (patch_vehicle patch v)) s" by (simp add: active_vehicles_def)
    with w show "vh_plateNumber w \<noteq> vh_plateNumber (patch_vehicle patch v)" by (auto simp: plateTaken_iff)
  qed
  with ok act show "vehicles_ok s'" by (simp add: vehicles_ok_def s')
qed (use assms in \<open>auto simp: updateVehicleRow_def Let_def split: if_splits\<close>)

lemma documents_update:
  assumes "documents_ok s" "\<And>d. doc_id (f d) = doc_id d" "\<And>d. doc_driverId (f d) = doc_driverId d" "\<And>d. doc_type (f d) = doc_type d"
  shows "documents_ok (s\<lparr>s_documents := t_update Q f (s_documents s)\<rparr>)"
proof -
  have "map (\<lambda>d. (doc_driverId d, doc_type d)) (t_update Q f (s_documents s)) = map (\<lambda>d. (doc_driverId d, doc_type d)) (s_documents s)"
    by (simp add: t_update_def assms)
  with assms show ?thesis by (auto simp: documents_ok_def t_update_in)
qed

text \<open>An update of one driver's document leaves the documents of the others alone.\<close>

lemma documents_others:
  assumes "documents_ok s" "c \<in> set (s_documents s)" "doc_driverId c \<noteq> drv" "\<And>d. doc_driverId (f d) = doc_driverId d"
  shows "filter (\<lambda>d. doc_driverId d = drv) (t_update (\<lambda>d. doc_id d = doc_id c) f (s_documents s))
    = filter (\<lambda>d. doc_driverId d = drv) (s_documents s)"
proof -
  have "t_update (\<lambda>d. doc_id d = doc_id c) f (filter (\<lambda>d. doc_driverId d = drv) (s_documents s))
      = filter (\<lambda>d. doc_driverId d = drv) (s_documents s)"
  proof (rule t_update_none)
    fix d assume d: "d \<in> set (filter (\<lambda>d. doc_driverId d = drv) (s_documents s))"
    show "\<not> doc_id d = doc_id c"
    proof
      assume "doc_id d = doc_id c"
      then have "d = c" using d assms(1,2) by (auto simp: documents_ok_def distinct_map inj_on_def)
      with d assms(3) show False by simp
    qed
  qed
  then show ?thesis by (simp add: filter_update assms(4))
qed

lemma upsertDocumentRow_cases:
  assumes "upsertDocumentRow i drv ty expiry s = Inr (d, s')" and ok: "documents_ok s"
  obtains c where "c \<in> set (s_documents s)" "doc_driverId c = drv" "doc_id d = doc_id c" "doc_driverId d = doc_driverId c"
      "d \<in> set (s_documents s')"
      "s' = s\<lparr>s_documents := t_update (\<lambda>d. doc_id d = doc_id c) (\<lambda>d. d\<lparr>doc_expiryDate := some_text expiry\<rparr>) (s_documents s)\<rparr>"
    | "\<forall>x \<in> set (s_documents s). \<not> (doc_driverId x = drv \<and> doc_type x = ty)" "i \<notin> doc_id ` set (s_documents s)"
      "doc_id d = i" "doc_driverId d = drv" "doc_type d = ty" "s' = s\<lparr>s_documents := s_documents s @ [d]\<rparr>"
proof (cases "find (\<lambda>d. doc_type d = ty) (listDocuments drv s)")
  case None
  then have "\<forall>x \<in> set (s_documents s). \<not> (doc_driverId x = drv \<and> doc_type x = ty)" by (auto simp: find_None_iff listDocuments_def)
  with assms None show thesis by (intro that(2)) (auto simp: upsertDocumentRow_def Let_def split: if_splits)
next
  case (Some c)
  then have c: "c \<in> set (s_documents s)" "doc_driverId c = drv"
    by (auto simp: find_Some_iff listDocuments_def dest: nth_mem)
  from assms Some have s': "s' = s\<lparr>s_documents := t_update (\<lambda>d. doc_id d = doc_id c) (\<lambda>d. d\<lparr>doc_expiryDate := some_text expiry\<rparr>) (s_documents s)\<rparr>"
    and f: "t_find doc_id (doc_id c) (s_documents s') = Some d"
    by (auto simp: upsertDocumentRow_def Let_def split: option.splits)
  have "t_find doc_id (doc_id c) (s_documents s) = Some c"
    using t_find_distinct [of doc_id "s_documents s" c] ok c(1) by (simp add: documents_ok_def)
  with f have d: "d = c\<lparr>doc_expiryDate := some_text expiry\<rparr>" by (simp add: s' t_find_update)
  show thesis
    by (rule that(1) [OF c]) (use s' c d in \<open>auto simp: t_update_in\<close>)
qed

lemma upsertDocumentRow_ok:
  assumes u: "upsertDocumentRow i drv ty expiry s = Inr (d, s')" and ok: "documents_ok s" and ty: "isDriverDocumentType ty"
  shows "documents_ok s'" "s_drivers s' = s_drivers s" "s_availability s' = s_availability s" "s_vehicles s' = s_vehicles s"
    "d \<in> set (s_documents s')" "doc_driverId d = drv"
    "drv' \<noteq> drv \<Longrightarrow> filter (\<lambda>v. doc_driverId v = drv') (s_documents s') = filter (\<lambda>v. doc_driverId v = drv') (s_documents s)"
proof -
  have "documents_ok s' \<and> s_drivers s' = s_drivers s \<and> s_availability s' = s_availability s \<and> s_vehicles s' = s_vehicles s \<and>
    d \<in> set (s_documents s') \<and> doc_driverId d = drv \<and>
    (drv' \<noteq> drv \<longrightarrow> filter (\<lambda>v. doc_driverId v = drv') (s_documents s') = filter (\<lambda>v. doc_driverId v = drv') (s_documents s))"
  proof (rule upsertDocumentRow_cases [OF u ok])
    fix c assume c: "c \<in> set (s_documents s)" "doc_driverId c = drv" "doc_id d = doc_id c" "doc_driverId d = doc_driverId c" "d \<in> set (s_documents s')"
      and s': "s' = s\<lparr>s_documents := t_update (\<lambda>d. doc_id d = doc_id c) (\<lambda>d. d\<lparr>doc_expiryDate := some_text expiry\<rparr>) (s_documents s)\<rparr>"
    have "documents_ok s'" unfolding s' by (rule documents_update [OF ok]) simp_all
    with c documents_others [OF ok c(1), of drv' "\<lambda>d. d\<lparr>doc_expiryDate := some_text expiry\<rparr>"] show ?thesis by (simp add: s')
  next
    assume n: "\<forall>x \<in> set (s_documents s). \<not> (doc_driverId x = drv \<and> doc_type x = ty)" "i \<notin> doc_id ` set (s_documents s)"
      "doc_id d = i" "doc_driverId d = drv" "doc_type d = ty" "s' = s\<lparr>s_documents := s_documents s @ [d]\<rparr>"
    then have "documents_ok s'" using ok ty by (auto simp: documents_ok_def)
    with n show ?thesis by simp
  qed
  then show "documents_ok s'" "s_drivers s' = s_drivers s" "s_availability s' = s_availability s" "s_vehicles s' = s_vehicles s"
    "d \<in> set (s_documents s')" "doc_driverId d = drv"
    "drv' \<noteq> drv \<Longrightarrow> filter (\<lambda>v. doc_driverId v = drv') (s_documents s') = filter (\<lambda>v. doc_driverId v = drv') (s_documents s)" by simp_all
qed

section \<open>Every call keeps the books\<close>

text \<open>What a review looks at.\<close>

definition dossier :: "string \<Rightarrow> shop \<Rightarrow> string option \<times> driver_document list \<times> vehicle_row list" where
  "dossier drv s = (map_option dr_fullName (t_find dr_id drv (s_drivers s)),
     filter (\<lambda>d. doc_driverId d = drv) (s_documents s), filter (\<lambda>v. vh_driverId v = drv) (s_vehicles s))"

definition under_review :: "string \<Rightarrow> shop \<Rightarrow> bool" where
  "under_review drv s \<longleftrightarrow> (\<exists>d. t_find dr_id drv (s_drivers s) = Some d \<and> \<not> isEditableOnboardingStatus (dr_verificationStatus d))"

definition fleet_step :: "shop \<Rightarrow> shop \<Rightarrow> bool" where
  "fleet_step s s' \<longleftrightarrow> fleet_inv s' \<and> (\<forall>drv. under_review drv s \<longrightarrow> dossier drv s' = dossier drv s)"

lemma fleet_invD:
  assumes "fleet_inv s"
  shows "roster_ok s" "vehicles_ok s" "documents_ok s"
  using assms by (simp_all add: fleet_inv_def)

lemma tables_ok_cong:
  "s_vehicles s' = s_vehicles s \<Longrightarrow> vehicles_ok s' = vehicles_ok s"
  "s_documents s' = s_documents s \<Longrightarrow> documents_ok s' = documents_ok s"
  by (simp_all add: vehicles_ok_def documents_ok_def active_vehicles_def)

lemma fleet_step_same: "fleet_inv s \<Longrightarrow> fleet_step s s"
  by (simp add: fleet_step_def)

lemma find_name:
  "(\<And>d. dr_id (f d) = dr_id d) \<Longrightarrow> (\<And>d. dr_fullName (f d) = dr_fullName d) \<Longrightarrow>
   map_option dr_fullName (t_find dr_id drv (t_update P f ds)) = map_option dr_fullName (t_find dr_id drv ds)"
  by (cases "t_find dr_id drv ds") (simp_all add: t_find_update)

text \<open>A call that changes the roster only, names aside.\<close>

lemma roster_step:
  assumes "fleet_inv s" "roster_ok s'" "s_vehicles s' = s_vehicles s" "s_documents s' = s_documents s"
    "\<And>drv. under_review drv s \<Longrightarrow>
      map_option dr_fullName (t_find dr_id drv (s_drivers s')) = map_option dr_fullName (t_find dr_id drv (s_drivers s))"
  shows "fleet_step s s'"
  using assms tables_ok_cong [of s' s] by (simp add: fleet_step_def fleet_inv_def dossier_def)

definition touched :: "instant \<Rightarrow> string \<Rightarrow> shop \<Rightarrow> shop" where
  "touched now i s = s\<lparr>s_drivers := t_update (\<lambda>d. dr_id d = i) (\<lambda>d. d\<lparr>dr_updatedAt := now\<rparr>) (s_drivers s)\<rparr>"

lemma touched_simps [simp]:
  "s_vehicles (touched now i s) = s_vehicles s" "s_documents (touched now i s) = s_documents s"
  "s_availability (touched now i s) = s_availability s" "s_assignments (touched now i s) = s_assignments s"
  by (simp_all add: touched_def)

lemma touched_inv: "fleet_inv s \<Longrightarrow> fleet_inv (touched now i s)"
  using roster_touch [where s = s and s' = "touched now i s" and i = i and nm = dr_fullName and upd = "\<lambda>_. now"]
    tables_ok_cong [of "touched now i s" s]
  by (simp add: fleet_inv_def touched_def)

lemma touched_step: "fleet_inv s \<Longrightarrow> fleet_step s (touched now i s)"
  using touched_inv [of s now i] by (intro roster_step) (simp_all add: fleet_invD find_name touched_def)

lemma lock_touched: "lockProfile now i s = (r, s1) \<Longrightarrow> s1 = touched now i s \<and> r = map_option (\<lambda>d. d\<lparr>dr_updatedAt := now\<rparr>) (t_find dr_id i (s_drivers s))"
  using lockProfile_ok [of now i s r s1] by (simp add: touched_def)

lemma lock_found:
  assumes "lockProfile now i s = (Some l, s1)"
  obtains d :: driver_row where "t_find dr_id i (s_drivers s) = Some d" "l = d\<lparr>dr_updatedAt := now\<rparr>" "s1 = touched now i s"
  using lock_touched [OF assms] that by (cases "t_find dr_id i (s_drivers s)") auto

lemma lockEditable_ok:
  assumes "lockEditable now i s = Inr (l, s1)"
  shows "s1 = touched now i s" "dr_id l = i" "\<not> under_review i s"
proof -
  obtain r s2 where l: "lockProfile now i s = (r, s2)" by fastforce
  with assms lock_touched [OF l] have "s1 = touched now i s \<and> dr_id l = i \<and> \<not> under_review i s"
    by (auto simp: lockEditable_def under_review_def dest!: t_find_Some split: option.splits if_splits)
  then show "s1 = touched now i s" "dr_id l = i" "\<not> under_review i s" by simp_all
qed

text \<open>A change of one driver's own vehicles or documents, under the lock of an editable profile.\<close>

lemma own_change:
  assumes inv: "fleet_inv s" and l: "lockEditable now i s = Inr (l, s1)"
    and ok: "vehicles_ok s'" "documents_ok s'" "s_drivers s' = s_drivers s1" "s_availability s' = s_availability s1"
    and others: "\<And>drv. drv \<noteq> i \<Longrightarrow> filter (\<lambda>d. doc_driverId d = drv) (s_documents s') = filter (\<lambda>d. doc_driverId d = drv) (s_documents s1)"
      "\<And>drv. drv \<noteq> i \<Longrightarrow> filter (\<lambda>v. vh_driverId v = drv) (s_vehicles s') = filter (\<lambda>v. vh_driverId v = drv) (s_vehicles s1)"
  shows "fleet_step s s'"
proof -
  note le = lockEditable_ok [OF l]
  have "roster_ok s'" using fleet_invD(1) [OF touched_inv [OF inv]] ok(3,4) by (simp add: le(1) roster_ok_def)
  moreover have "dossier drv s' = dossier drv s" if "under_review drv s" for drv
  proof -
    from that le(3) have "drv \<noteq> i" by auto
    with others [of drv] ok(3) show ?thesis by (simp add: dossier_def le(1)) (simp add: touched_def find_name)
  qed
  ultimately show ?thesis using ok(1,2) by (simp add: fleet_step_def fleet_inv_def)
qed

lemma atomically_step:
  assumes "fleet_inv s" "\<And>r s'. t s = Inr (r, s') \<Longrightarrow> fleet_step s s'"
  shows "fleet_step s (snd (atomically t s))"
  using assms by (auto simp: atomically_def fleet_step_same split: sum.splits)

lemma createVehicle_step:
  assumes inv: "fleet_inv s" and ok: "createVehicle now i acc input s = Inr (r, s')"
  shows "fleet_step s s'"
proof -
  obtain p :: driver_row and l s1 input' where l: "lockEditable now (dr_id p) s = Inr (l, s1)" and c: "createActiveVehicle now i (dr_id l) input' s1 = Inr (r, s')"
    using ok by (auto simp: createVehicle_def ebind_Inr split: if_splits)
  note le = lockEditable_ok [OF l]
  have v: "vehicles_ok s1" "documents_ok s1" using fleet_invD [OF touched_inv [OF inv]] by (simp_all add: le)
  note c' = createActiveVehicle_ok [OF c v(1)]
  show ?thesis
    by (rule own_change [OF inv l]) (use c' le(2) v tables_ok_cong(2) [OF c'(4)] in simp_all)
qed

lemma updateVehicle_step:
  assumes inv: "fleet_inv s" and ok: "updateVehicle now acc i patch s = Inr (r, s')"
  shows "fleet_step s s'"
proof -
  obtain p :: driver_row and l s1 v patch' x where l: "lockEditable now (dr_id p) s = Inr (l, s1)" and o': "findOwnedVehicle (dr_id l) i s1 = Some v"
    and u: "updateVehicleRow i patch' s1 = Inr (x, s')"
    using ok by (auto simp: updateVehicle_def ebind_Inr split: if_splits option.splits)
  note le = lockEditable_ok [OF l]
  have ok1: "vehicles_ok s1" "documents_ok s1" using fleet_invD [OF touched_inv [OF inv]] by (simp_all add: le)
  note u' = updateVehicleRow_ok [OF u ok1(1)]
  have v: "v \<in> set (s_vehicles s1)" "vh_id v = i" "vh_driverId v = dr_id p"
    using o' le(2) by (auto simp: findOwnedVehicle_def find_Some_iff dest: nth_mem)
  have "filter (\<lambda>v. vh_driverId v = drv) (s_vehicles s') = filter (\<lambda>v. vh_driverId v = drv) (s_vehicles s1)" if "drv \<noteq> dr_id p" for drv
  proof -
    have "t_update (\<lambda>v. vh_id v = i) (patch_vehicle patch') (filter (\<lambda>v. vh_driverId v = drv) (s_vehicles s1))
        = filter (\<lambda>v. vh_driverId v = drv) (s_vehicles s1)"
    proof (rule t_update_none)
      fix w assume w: "w \<in> set (filter (\<lambda>v. vh_driverId v = drv) (s_vehicles s1))"
      show "\<not> vh_id w = i"
      proof
        assume "vh_id w = i"
        then have "w = v" using w v ok1(1) by (auto simp: vehicles_ok_def distinct_map inj_on_def)
        with w v(3) that show False by simp
      qed
    qed
    then show ?thesis unfolding u'(5) by (simp add: filter_update)
  qed
  then show ?thesis
    by (intro own_change [OF inv l]) (use u' ok1 tables_ok_cong(2) [OF u'(4)] in simp_all)
qed

lemma then_me_same: "snd (thenMe now acc m s) = snd (m s)"
  by (auto simp: thenMe_def and_then_def split: prod.splits sum.splits)

lemma file_url_step:
  assumes inv: "fleet_inv s" and d: "d \<in> set (s_documents s)" and drv: "\<not> under_review (doc_driverId d) s0"
    and s0: "fleet_step s0 s"
  shows "fleet_step s0 (updateDocumentFileUrl (doc_id d) url s)"
proof -
  let ?s = "updateDocumentFileUrl (doc_id d) url s"
  have "documents_ok ?s"
    unfolding updateDocumentFileUrl_def by (rule documents_update [OF fleet_invD(3) [OF inv]]) simp_all
  moreover have "roster_ok ?s" "vehicles_ok ?s"
    using fleet_invD(1,2) [OF inv] by (simp_all add: updateDocumentFileUrl_def roster_ok_def vehicles_ok_def active_vehicles_def)
  moreover have "dossier x ?s = dossier x s" if "under_review x s0" for x
  proof -
    have "doc_driverId d \<noteq> x" using that drv by auto
    from documents_others [OF fleet_invD(3) [OF inv] d this, of "\<lambda>d. d\<lparr>doc_fileUrl := url\<rparr>"]
    show ?thesis by (simp add: dossier_def updateDocumentFileUrl_def)
  qed
  ultimately show ?thesis using s0 by (simp add: fleet_step_def fleet_inv_def)
qed

lemma upsertInTx_step:
  assumes inv: "fleet_inv s" and ty: "isDriverDocumentType ty"
    and ok: "ebind (lockEditable now i s) (\<lambda>(locked, s1). upsertDocumentRow n (dr_id locked) ty expiry s1) = Inr (d, s')"
  shows "fleet_step s s' \<and> d \<in> set (s_documents s') \<and> doc_driverId d = i \<and> \<not> under_review i s"
proof -
  obtain l s1 where l: "lockEditable now i s = Inr (l, s1)" and u: "upsertDocumentRow n (dr_id l) ty expiry s1 = Inr (d, s')"
    using ok by (auto simp: ebind_Inr)
  note le = lockEditable_ok [OF l]
  have ok1: "vehicles_ok s1" "documents_ok s1" using fleet_invD [OF touched_inv [OF inv]] by (simp_all add: le)
  note u' = upsertDocumentRow_ok [OF u ok1(2) ty]
  have "fleet_step s s'"
    by (rule own_change [OF inv l]) (use u' le(2) ok1 tables_ok_cong(1) [OF u'(4)] in simp_all)
  with u'(5,6) le show ?thesis by simp
qed

lemma upsertDocument_step:
  assumes inv: "fleet_inv s"
  shows "fleet_step s (snd (upsertDocument promote now n acc ty expiry upload s))"
proof (cases "ebind (checkDocument now ty expiry) (\<lambda>_. requireEditableProfile acc s)")
  case (Inl e)
  then show ?thesis using inv by (simp add: upsertDocument_def fleet_step_same)
next
  case (Inr p)
  let ?t = "\<lambda>s0. ebind (lockEditable now (dr_id p) s0) (\<lambda>(locked, s1). upsertDocumentRow n (dr_id locked) ty expiry s1)"
  have ty: "isDriverDocumentType ty" using Inr by (auto simp: ebind_Inr checkDocument_def split: if_splits)
  show ?thesis
  proof (cases "?t s")
    case (Inl e)
    then have "atomically ?t s = (Inl e, s)" by (simp add: atomically_def)
    then show ?thesis using \<open>ebind _ _ = Inr p\<close> inv by (simp add: upsertDocument_def then_me_same and_then_def fleet_step_same)
  next
    case (Inr r)
    obtain d s1 where r: "r = (d, s1)" by fastforce
    note st = upsertInTx_step [OF inv ty Inr [unfolded r]]
    have at': "atomically ?t s = (Inr d, s1)" using Inr r by (simp add: atomically_def)
    have "fleet_inv s1" using st by (simp add: fleet_step_def)
    with st file_url_step [of s1 d s] show ?thesis
      using \<open>ebind _ _ = Inr p\<close> by (auto simp: upsertDocument_def then_me_same and_then_def at' split: option.splits sum.splits)
  qed
qed

lemma createProfile_step:
  assumes inv: "fleet_inv s" and ok: "createProfile now i acc name s = Inr (r, s')"
  shows "fleet_step s s'"
proof -
  let ?d = "\<lparr>dr_id = i, dr_accountId = acc, dr_fullName = js_trim name, dr_verificationStatus = V_UNVERIFIED,
    dr_approvedAt = None, dr_updatedAt = now\<rparr>"
  let ?a = "\<lparr>av_driverId = i, av_status = AV_OFFLINE, av_offlineAfterCurrentDelivery = False\<rparr>"
  have new: "i \<notin> dr_id ` set (s_drivers s)" "acc \<notin> dr_accountId ` set (s_drivers s)"
    and s': "s' = s\<lparr>s_drivers := s_drivers s @ [?d], s_availability := s_availability s @ [?a]\<rparr>"
    using ok by (auto simp: createProfile_def createProfileWithAvailability_def Let_def split: if_splits)
  have "standing_ok ?d ?a" by (simp add: standing_ok_def)
  then have "roster_ok s'"
    using fleet_invD(1) [OF inv] new by (auto simp: roster_ok_def s' intro: list_all2_appendI)
  moreover have "t_find dr_id drv (s_drivers s') = t_find dr_id drv (s_drivers s)" if "under_review drv s" for drv
  proof -
    have "drv \<noteq> i" using that new(1) by (auto simp: under_review_def dest!: t_find_Some)
    then show ?thesis by (simp add: s' t_find_append_other)
  qed
  ultimately show ?thesis by (intro roster_step [OF inv]) (simp_all add: s')
qed

lemma updateProfile_step:
  assumes inv: "fleet_inv s" and ok: "updateProfile now acc name s = Inr (r, s')"
  shows "fleet_step s s'"
proof -
  let ?nm = "\<lambda>d. js_default (map_option js_trim name) (dr_fullName d)"
  obtain p :: driver_row where p: "t_find dr_accountId acc (s_drivers s) = Some p" "isEditableOnboardingStatus (dr_verificationStatus p)"
    and s': "s' = s\<lparr>s_drivers := t_update (\<lambda>d. dr_id d = dr_id p) (\<lambda>d. d\<lparr>dr_fullName := ?nm d, dr_updatedAt := now\<rparr>) (s_drivers s)\<rparr>"
    using ok by (auto simp: updateProfile_def ebind_Inr requireEditableProfile_def findProfileByAccountId_def update_driver_def Let_def
        split: option.splits if_splits)
  have "roster_ok s'"
    by (rule roster_touch [OF fleet_invD(1) [OF inv], where i = "dr_id p" and nm = ?nm and upd = "\<lambda>_. now"]) (simp_all add: s')
  moreover have "t_find dr_id drv (s_drivers s') = t_find dr_id drv (s_drivers s)" if u: "under_review drv s" for drv
  proof -
    obtain d :: driver_row where d: "t_find dr_id drv (s_drivers s) = Some d" "\<not> isEditableOnboardingStatus (dr_verificationStatus d)"
      using u by (auto simp: under_review_def)
    have "drv \<noteq> dr_id p"
      using roster_found [OF fleet_invD(1) [OF inv] d(1), of p] t_find_Some [OF p(1)] p(2) d(2) by auto
    then show ?thesis using t_find_Some [OF d(1)] d(1) by (simp add: s' t_find_update)
  qed
  ultimately show ?thesis by (intro roster_step [OF inv]) (simp_all add: s')
qed

lemma verification_step:
  assumes inv: "fleet_inv s" and l: "lockProfile now i s = (Some l, s1)" and st: "dr_verificationStatus l = st"
    and ok: "(st, st', ap \<noteq> None, force') \<in> {(V_UNVERIFIED, V_PENDING_REVIEW, False, None), (V_REJECTED, V_PENDING_REVIEW, False, None),
      (V_PENDING_REVIEW, V_APPROVED, True, None), (V_PENDING_REVIEW, V_REJECTED, False, Some AV_OFFLINE),
      (V_APPROVED, V_SUSPENDED, True, Some AV_SUSPENDED)}"
    and s': "s' = (case force' of None \<Rightarrow> snd (setVerificationStatus now i st' ap s1)
      | Some av \<Rightarrow> forceAvailabilityStatus i av (snd (setVerificationStatus now i st' ap s1)))"
  shows "fleet_step s s'"
proof -
  obtain d :: driver_row where d: "t_find dr_id i (s_drivers s) = Some d" "dr_verificationStatus d = st" and s1: "s1 = touched now i s"
    using st by (auto intro: lock_found [OF l])
  let ?f = "\<lambda>d. d\<lparr>dr_verificationStatus := st', dr_approvedAt := ap, dr_updatedAt := now\<rparr>"
  have tabs: "s_vehicles s' = s_vehicles s" "s_documents s' = s_documents s"
    and drivers: "s_drivers s' = t_update (\<lambda>d. dr_id d = i) ?f (s_drivers s)"
    by (simp_all add: s' s1 setVerificationStatus_def Let_def update_driver_def forceAvailabilityStatus_def touched_def t_update_twice
        split: option.splits)
  have "s_availability s' = (case force' of None \<Rightarrow> s_availability s | Some av \<Rightarrow> t_update (\<lambda>a. av_driverId a = i)
        (\<lambda>a. a\<lparr>av_status := av, av_offlineAfterCurrentDelivery := False\<rparr>) (s_availability s))"
    by (simp add: s' s1 setVerificationStatus_def Let_def update_driver_def forceAvailabilityStatus_def split: option.splits)
  from roster_review [OF fleet_invD(1) [OF inv] d ok drivers this] have "roster_ok s'" .
  then show ?thesis by (intro roster_step [OF inv]) (simp_all add: tabs drivers find_name)
qed

lemma lock_none_step:
  "fleet_inv s \<Longrightarrow> lockProfile now i s = (r, s1) \<Longrightarrow> fleet_step s s1"
  using lock_touched touched_step by blast

lemma submit_step:
  assumes inv: "fleet_inv s" and ok: "submitVerificationInTx now i s = Inr (r, s')"
  shows "fleet_step s s'"
proof -
  obtain l s1 where l: "lockProfile now i s = (Some l, s1)"
    using ok by (cases "lockProfile now i s"; cases "fst (lockProfile now i s)") (auto simp: submitVerificationInTx_def)
  show ?thesis
    by (rule verification_step [OF inv l refl, where st' = V_PENDING_REVIEW and ap = None and force' = None])
      (use ok l in \<open>auto simp: submitVerificationInTx_def canSubmitVerification_def ebind_Inr split: if_splits\<close>)
qed

lemma review_step:
  assumes inv: "fleet_inv s" and ok: "reviewTransitionInTx now i V_PENDING_REVIEW st' ap s = Inr (r, s')"
    and st': "st' = V_APPROVED \<and> ap \<noteq> None \<or> st' = V_REJECTED \<and> ap = None"
  shows "fleet_step s s'"
proof -
  obtain l s1 where l: "lockProfile now i s = (Some l, s1)"
    using ok by (cases "lockProfile now i s"; cases "fst (lockProfile now i s)") (auto simp: reviewTransitionInTx_def)
  then have st: "dr_verificationStatus l = V_PENDING_REVIEW" using ok by (auto simp: reviewTransitionInTx_def split: if_splits)
  obtain u s2 where u: "setVerificationStatus now i st' ap s1 = (u, s2)" by fastforce
  show ?thesis
    by (rule verification_step [OF inv l st, where st' = st' and ap = ap and force' = "if st' = V_REJECTED then Some AV_OFFLINE else None"])
      (use ok l st u st' in \<open>auto simp: reviewTransitionInTx_def Let_def split: if_splits option.splits\<close>)
qed

lemma suspend_step:
  assumes inv: "fleet_inv s" and ok: "suspendInTx now i s = Inr (r, s')"
  shows "fleet_step s s'"
proof -
  obtain l s1 where l: "lockProfile now i s = (Some l, s1)"
    using ok by (cases "lockProfile now i s"; cases "fst (lockProfile now i s)") (auto simp: suspendInTx_def)
  note s1 = lock_touched [OF l]
  obtain d :: driver_row where d: "t_find dr_id i (s_drivers s) = Some d" "dr_verificationStatus d = dr_verificationStatus l"
    by (auto intro: lock_found [OF l])
  show ?thesis
  proof (cases "dr_verificationStatus l = V_SUSPENDED")
    case True
    have s': "s' = forceAvailabilityStatus i AV_SUSPENDED s1" using ok l True by (simp add: suspendInTx_def)
    have "roster_ok s'"
    proof (rule roster_change [OF fleet_invD(1) [OF inv], where i = i and Q = "\<lambda>_. True"])
      show "s_drivers s' = t_update (\<lambda>d. dr_id d = i) (\<lambda>d. d\<lparr>dr_updatedAt := now\<rparr>) (s_drivers s)"
        "s_availability s' = t_update (\<lambda>a. av_driverId a = i \<and> True)
          (\<lambda>a. a\<lparr>av_status := AV_SUSPENDED, av_offlineAfterCurrentDelivery := False\<rparr>) (s_availability s)"
        using s1 by (simp_all add: s' forceAvailabilityStatus_def touched_def)
      fix d' a assume "d' \<in> set (s_drivers s)" "dr_id d' = i" "standing_ok d' a"
      with roster_found [OF fleet_invD(1) [OF inv] d(1)] d(2) True
      show "standing_ok (d'\<lparr>dr_updatedAt := now\<rparr>) (if True then a\<lparr>av_status := AV_SUSPENDED, av_offlineAfterCurrentDelivery := False\<rparr> else a)"
        by (auto simp: standing_ok_def)
    qed simp_all
    then show ?thesis
      using s1 by (intro roster_step [OF inv]) (simp_all add: s' forceAvailabilityStatus_def touched_def find_name)
  next
    case False
    then have st: "dr_verificationStatus l = V_APPROVED" using ok l by (auto simp: suspendInTx_def split: if_splits)
    have "dr_approvedAt d \<noteq> None"
    proof -
      obtain a where "standing_ok d a"
        using fleet_invD(1) [OF inv] t_find_Some [OF d(1)] unfolding roster_ok_def list_all2_conv_all_nth
        by (metis in_set_conv_nth)
      with d(2) st show ?thesis by (auto simp: standing_ok_def)
    qed
    then have ap: "dr_approvedAt l \<noteq> None" using s1 d by auto
    show ?thesis
      by (rule verification_step [OF inv l st, where st' = V_SUSPENDED and ap = "dr_approvedAt l" and force' = "Some AV_SUSPENDED"])
        (use ok l st ap in \<open>auto simp: suspendInTx_def Let_def split: prod.splits option.splits\<close>)
  qed
qed

lemma go_step:
  assumes inv: "fleet_inv s" and l: "lockProfile now i s = (Some l, s1)"
    and ok: "dr_verificationStatus l = V_APPROVED \<and> to' \<noteq> AV_SUSPENDED \<or> to' = AV_OFFLINE" "fr \<noteq> AV_SUSPENDED"
  shows "fleet_step s (snd (setAvailabilityStatus i fr to' s1))"
proof -
  let ?s = "snd (setAvailabilityStatus i fr to' s1)"
  obtain d :: driver_row where d: "t_find dr_id i (s_drivers s) = Some d" "l = d\<lparr>dr_updatedAt := now\<rparr>" and s1: "s1 = touched now i s"
    by (rule lock_found [OF l])
  have "roster_ok ?s"
    by (rule roster_availability [OF fleet_invD(1) [OF inv] d(1), where to' = to' and fr = fr and upd = "\<lambda>_. now"])
      (use ok d(2) in \<open>simp_all add: setAvailabilityStatus_def Let_def s1\<close>, simp add: touched_def)
  then show ?thesis
    by (intro roster_step [OF inv]) (simp_all add: setAvailabilityStatus_def Let_def s1, simp add: touched_def find_name)
qed

lemma online_step:
  assumes inv: "fleet_inv s" and ok: "goOnlineInTx now i s = Inr (r, s')"
  shows "fleet_step s s'"
proof -
  obtain l s1 where l: "lockProfile now i s = (Some l, s1)"
    using ok by (cases "lockProfile now i s"; cases "fst (lockProfile now i s)") (auto simp: goOnlineInTx_def)
  have li: "dr_id l = i" using lock_found [OF l] t_find_Some [of dr_id i "s_drivers s"] by (metis driver_row.select_convs(1) driver_row.surjective driver_row.update_convs(6))
  have rd: "rd_operationalReady (readinessOf now l s1)" and s': "s' = snd (setAvailabilityStatus i AV_OFFLINE AV_ONLINE s1)"
    using ok l li by (auto simp: goOnlineInTx_def dest!: sndI split: if_splits prod.splits option.splits)
  then have "dr_verificationStatus l = V_APPROVED"
    by (simp add: readinessOf_def Let_def isOperationalReady_def isApprovedVerification_def readinessInput_def)
  then show ?thesis unfolding s' by (intro go_step [OF inv l]) simp_all
qed

lemma offline_step:
  assumes inv: "fleet_inv s" and ok: "goOfflineInTx now i s = Inr (r, s')"
  shows "fleet_step s s'"
proof -
  obtain l s1 where l: "lockProfile now i s = (Some l, s1)"
    using ok by (cases "lockProfile now i s"; cases "fst (lockProfile now i s)") (auto simp: goOfflineInTx_def)
  obtain d :: driver_row where d: "t_find dr_id i (s_drivers s) = Some d" "l = d\<lparr>dr_updatedAt := now\<rparr>" and s1: "s1 = touched now i s"
    by (rule lock_found [OF l])
  have li: "dr_id l = i" using d t_find_Some [OF d(1)] by simp
  obtain a to' where a: "t_find av_driverId i (s_availability s) = Some a" "av_status a = AV_ONLINE"
    and to': "to' \<in> {AV_OFFLINE_AFTER_CURRENT_DELIVERY, AV_OFFLINE}"
    and s': "s' = snd (setAvailabilityStatus i (av_status a) to' s1)"
  proof (cases "findAvailability i s1")
    case None
    with ok l li show thesis by (simp add: goOfflineInTx_def)
  next
    case (Some a)
    obtain u s2 where "setAvailabilityStatus i (av_status a) (if findOpenAcceptedAssignment i s1 \<noteq> None
        then AV_OFFLINE_AFTER_CURRENT_DELIVERY else AV_OFFLINE) s1 = (u, s2)" by fastforce
    moreover from this Some ok l li have "av_status a = AV_ONLINE" "s' = s2"
      by (cases "av_status a"; auto simp: goOfflineInTx_def split: if_splits option.splits)+
    moreover have "t_find av_driverId i (s_availability s) = Some a" using Some by (simp add: findAvailability_def s1)
    ultimately show thesis using that [of a] by (auto dest: sndI split: if_splits)
  qed
  have "dr_verificationStatus l = V_APPROVED"
  proof -
    obtain k where k: "k < length (s_availability s)" "s_availability s ! k = a"
      using t_find_Some [OF a(1)] by (auto simp: in_set_conv_nth)
    then have "standing_ok (s_drivers s ! k) a" "s_drivers s ! k \<in> set (s_drivers s)"
      using fleet_invD(1) [OF inv] unfolding roster_ok_def list_all2_conv_all_nth by auto
    with roster_found [OF fleet_invD(1) [OF inv] d(1), of "s_drivers s ! k"] t_find_Some [OF a(1)] a(2) d(2)
    show ?thesis by (auto simp: standing_ok_def)
  qed
  then show ?thesis unfolding s' using to' a(2) by (intro go_step [OF inv l]) auto
qed

text \<open>Every call of the module, accepted or refused.\<close>

lemma run_driver_step:
  assumes inv: "fleet_inv s"
  shows "fleet_step s (run_driver promote now c s)"
proof (cases c)
  case (SubmitVerification acc)
  then show ?thesis
    using inv by (auto simp: submitVerification_def then_me_same fleet_step_same split: option.splits
        intro!: atomically_step [OF inv] elim: submit_step [OF inv])
next
  case (GoOnline acc)
  then show ?thesis
    using inv by (auto simp: goOnline_def then_me_same fleet_step_same split: option.splits
        intro!: atomically_step [OF inv] elim: online_step [OF inv])
next
  case (GoOffline acc)
  then show ?thesis
    using inv by (auto simp: goOffline_def then_me_same fleet_step_same split: option.splits
        intro!: atomically_step [OF inv] elim: offline_step [OF inv])
next
  case (UpsertDocument i acc type expiry upload)
  then show ?thesis by (simp add: upsertDocument_step [OF inv])
next
  case (ApproveDriver i)
  then show ?thesis by (auto simp: approveInTx_def intro!: atomically_step [OF inv] review_step [OF inv])
next
  case (RejectDriver i)
  then show ?thesis by (auto simp: rejectInTx_def intro!: atomically_step [OF inv] review_step [OF inv])
qed (auto intro: atomically_step [OF inv] createProfile_step [OF inv] updateProfile_step [OF inv]
  createVehicle_step [OF inv] updateVehicle_step [OF inv] suspend_step [OF inv])

section \<open>Histories\<close>

lemma fleet_step_inv: "fleet_step s s' \<Longrightarrow> fleet_inv s'"
  by (simp add: fleet_step_def)

interpretation fleet: refined_service
  "\<lambda>(now, c) s. Inr (run_driver promote now c s) :: app_error + shop" "\<lambda>s. s" fleet_step fleet_inv for promote
  by unfold_locales (auto intro: run_driver_step fleet_step_inv)

end
