(* ===== verification/Delivery_Flow.thy ===== *)
theory Delivery_Flow
  imports Delivery_Books Fleet_Books
begin

text \<open>
  The operations of the delivery, matching and driver modules are steps of \<open>dispatch_spec\<close>, or leave
  the books alone. The calls of these modules form one service whose history keeps
  \<open>dispatch_inv\<close>.
\<close>

section \<open>Reading and writing the core\<close>

lemma core_simps [simp]:
  "s_orders (core s) = map order_view (s_orders s)" "s_payments (core s) = map pay_view (s_payments s)"
  "s_deliveries (core s) = map delivery_view (s_deliveries s)" "s_assignments (core s) = s_assignments s"
  "s_deliveryEvents (core s) = s_deliveryEvents s" "s_earnings (core s) = s_earnings s"
  "s_events (core s) = s_events s" "s_ledger (core s) = s_ledger s" "s_snapshots (core s) = s_snapshots s"
  "s_collections (core s) = s_collections s"
  by (simp_all add: core_def)

lemma core_updates [simp]:
  "core (s\<lparr>s_orders := os\<rparr>) = (core s)\<lparr>s_orders := map order_view os\<rparr>"
  "core (s\<lparr>s_payments := ps\<rparr>) = (core s)\<lparr>s_payments := map pay_view ps\<rparr>"
  "core (s\<lparr>s_deliveries := ds\<rparr>) = (core s)\<lparr>s_deliveries := map delivery_view ds\<rparr>"
  "core (s\<lparr>s_assignments := as\<rparr>) = (core s)\<lparr>s_assignments := as\<rparr>"
  "core (s\<lparr>s_deliveryEvents := es\<rparr>) = (core s)\<lparr>s_deliveryEvents := es\<rparr>"
  "core (s\<lparr>s_earnings := ns\<rparr>) = (core s)\<lparr>s_earnings := ns\<rparr>"
  "core (s\<lparr>s_events := vs\<rparr>) = (core s)\<lparr>s_events := vs\<rparr>"
  "core (s\<lparr>s_ledger := ls\<rparr>) = (core s)\<lparr>s_ledger := ls\<rparr>"
  "core (s\<lparr>s_drivers := xs\<rparr>) = core s" "core (s\<lparr>s_documents := ys\<rparr>) = core s"
  "core (s\<lparr>s_vehicles := zs\<rparr>) = core s" "core (s\<lparr>s_availability := bs\<rparr>) = core s"
  "core (s\<lparr>s_handoffs := hs\<rparr>) = core s"
  by (simp_all add: core_def)

lemma core_same [simp]:
  "(core s)\<lparr>s_orders := map order_view (s_orders s)\<rparr> = core s"
  "(core s)\<lparr>s_payments := map pay_view (s_payments s)\<rparr> = core s"
  "(core s)\<lparr>s_deliveries := map delivery_view (s_deliveries s)\<rparr> = core s"
  by (simp_all add: core_def)

lemma map_view_update:
  "(\<And>d. v (f d) = g (v d)) \<Longrightarrow> (\<And>d. Q (v d) = P d) \<Longrightarrow> map v (t_update P f xs) = t_update Q g (map v xs)"
  by (simp add: t_update_def)

lemma view_touch: "(\<And>d. v (f d) = v d) \<Longrightarrow> map v (t_update P f xs) = map v xs"
  by (simp add: t_update_def)

lemma find_map_view: "(\<And>x. key (v x) = key x) \<Longrightarrow> t_find key k (map v xs) = map_option v (t_find key k xs)"
  by (induction xs) (simp_all add: t_find_def)

lemma t_update_guard:
  assumes "distinct (map key xs)" "t_find key k xs = Some r" "P r"
  shows "t_update (\<lambda>x. key x = k \<and> P x) f xs = t_update (\<lambda>x. key x = k) f xs"
  unfolding t_update_def
proof (rule map_cong [OF refl])
  fix x assume "x \<in> set xs"
  with find_in [OF assms(1,2)] assms(3) have "key x = k \<Longrightarrow> P x" by blast
  then show "(if key x = k \<and> P x then f x else x) = (if key x = k then f x else x)" by auto
qed

lemma core_distinct:
  assumes "dispatch_inv (core s)"
  shows "distinct (map o_id (s_orders s))" "distinct (map d_id (s_deliveries s))" "distinct (map a_id (s_assignments s))"
  using dispatch_invD(1,2,4) [OF assms] by (simp_all add: comp_def)

lemma lockDelivery_core [simp]: "core (snd (lockDelivery now i s)) = core s"
  by (simp add: lockDelivery_def Let_def view_touch delivery_view_def)

lemma lockDelivery_found:
  assumes "lockDelivery now i s = (r, s1)"
  shows "core s1 = core s" "s_assignments s1 = s_assignments s" "r = t_find d_id i (s_deliveries s1)"
    "map_option delivery_view r = t_find d_id i (s_deliveries (core s))"
proof -
  from assms show c: "core s1 = core s" using lockDelivery_core [of now i s] by simp
  from assms show "s_assignments s1 = s_assignments s" by (auto simp: lockDelivery_def Let_def)
  from assms show r: "r = t_find d_id i (s_deliveries s1)" by (auto simp: lockDelivery_def Let_def)
  show "map_option delivery_view r = t_find d_id i (s_deliveries (core s))"
    unfolding c [symmetric] r by (simp add: find_map_view)
qed

lemma lockOrder_core: "lockOrder now i s = (r, s1) \<Longrightarrow> core s1 = core s \<and> map_option order_view r = t_find o_id i (s_orders (core s))"
  by (cases "t_find o_id i (s_orders s)")
    (auto simp: lockOrder_def Let_def view_touch order_view_def t_find_update find_map_view)

lemma lockOrderPayment_core:
  "lockOrderPayment now i s = (r, s1) \<Longrightarrow> core s1 = core s \<and> map_option pay_view r = t_find p_orderId i (s_payments (core s))"
  by (cases "t_find p_orderId i (s_payments s)")
    (auto simp: lockOrderPayment_def touchOrderPayment_def Let_def view_touch pay_view_def t_find_update find_map_view)

lemma core_quiet [simp]:
  "core (update_handoffs p f s) = core s" "core (invalidatePending now i r s) = core s" "core (markExpired h s) = core s"
  "core (update_driver i g s) = core s" "core (snd (lockProfile now i s)) = core s"
  "core (forceAvailabilityStatus i st s) = core s" "core (snd (setAvailabilityStatus i st st' s)) = core s"
  "core (goOfflineAfterDelivery i s) = core s"
  by (simp_all add: update_handoffs_def invalidatePending_def markExpired_def update_driver_def lockProfile_def Let_def
      forceAvailabilityStatus_def setAvailabilityStatus_def goOfflineAfterDelivery_def split: option.splits)

lemma appendEvent_core [simp]: "core (appendEvent e s) = (core s)\<lparr>s_deliveryEvents := s_deliveryEvents s @ [e]\<rparr>"
  by (simp add: appendEvent_def)

section \<open>Steps of a delivery\<close>

lemma createDelivery_spec:
  assumes ok: "createDeliveryInTx now i k s = Inr ((), s')" and b: "dispatch_inv (core s)"
  shows "dispatch_spec\<^sup>=\<^sup>= (core s) (core s')"
proof -
  obtain l s1 where l: "lockOrder now k s = (Some l, s1)"
    using ok by (cases "lockOrder now k s"; cases "fst (lockOrder now k s)") (auto simp: createDeliveryInTx_def)
  note c1 = lockOrder_core [OF l]
  show ?thesis
  proof (cases "t_find d_orderId k (s_deliveries s1)")
    case (Some d)
    with ok l have "s' = s1" by (simp add: createDeliveryInTx_def)
    with c1 show ?thesis by simp
  next
    case None
    obtain p s2 where p: "lockOrderPayment now k s1 = (Some p, s2)"
      using ok l None by (cases "lockOrderPayment now k s1"; cases "fst (lockOrderPayment now k s1)")
        (auto simp: createDeliveryInTx_def split: if_splits)
    have elig: "o_status l = O_ACTIVE" "o_fulfillmentStatus l = READY"
      and ins: "insertDeliveryWithCreatedEvent now i k s2 = Inr s'"
      using ok l None p by (auto simp: createDeliveryInTx_def isOrderEligibleForDelivery_def ebind_Inr split: if_splits)
    have c2: "core s2 = core s" using c1 lockOrderPayment_core [OF p] by simp
    have "map d_id (s_deliveries s2) = map d_id (s_deliveries (core s2))" "map d_orderId (s_deliveries s2) = map d_orderId (s_deliveries (core s2))"
      by (simp_all add: comp_def)
    then have sets: "d_id ` set (s_deliveries s2) = d_id ` set (s_deliveries (core s))"
      "d_orderId ` set (s_deliveries s2) = d_orderId ` set (s_deliveries (core s))"
      unfolding c2 by (metis list.set_map)+
    have eqs: "map delivery_view (s_deliveries s2) = map delivery_view (s_deliveries s)" "s_deliveryEvents s2 = s_deliveryEvents s"
      using arg_cong [OF c2, of s_deliveries] arg_cong [OF c2, of s_deliveryEvents] by simp_all
    have s': "core s' = (core s)\<lparr>s_deliveries := s_deliveries (core s) @ [new_delivery i k now],
      s_deliveryEvents := s_deliveryEvents (core s) @ [delivery_event_row i ''DELIVERY_CREATED'' None now]\<rparr>"
      and fresh: "i \<notin> d_id ` set (s_deliveries s2)" "k \<notin> d_orderId ` set (s_deliveries s2)"
      using ins eqs by (auto simp: insertDeliveryWithCreatedEvent_def new_delivery_def delivery_event_row_def delivery_view_def c2
          split: if_splits)
    have "dispatch_spec (core s) (core s')"
      unfolding s'
    proof (rule dispatch_spec.created)
      show "t_find o_id k (s_orders (core s)) = Some (order_view l)" using c1 by (metis option.simps(9))
    qed (use fresh elig sets in simp_all)
    then show ?thesis by simp
  qed
qed

text \<open>A transition either happens, from its own status, or changes nothing.\<close>

lemma transition_core:
  assumes ok: "transitionIfStatus now i (transitionForAction act) drv s = (done', s')"
    and dd: "distinct (map d_id (s_deliveries s))"
  shows "(\<not> done' \<and> s' = s) \<or> (done' \<and> (\<exists>d. t_find d_id i (s_deliveries (core s)) = Some d \<and>
      d_status d = dt_from (transitionForAction act)) \<and>
    core s' = (core s)\<lparr>s_deliveries := t_update (\<lambda>d. d_id d = i) (walk act now) (s_deliveries (core s)),
      s_deliveryEvents := s_deliveryEvents (core s)
        @ [delivery_event_row i (dt_eventType (transitionForAction act)) (Some drv) now]\<rparr>)"
proof (cases "t_find d_id i (s_deliveries s)")
  case None
  with ok show ?thesis by (simp add: transitionIfStatus_def)
next
  case (Some d)
  let ?t = "transitionForAction act"
  let ?f = "\<lambda>d. stamp_field (dt_timestampField ?t) now (d\<lparr>d_status := dt_to ?t, d_updatedAt := now\<rparr>)"
  have f: "d_id (?f x) = d_id x" "d_status (?f x) = dt_to ?t" "delivery_view (?f x) = walk act now (delivery_view x)" for x
    by (cases act; simp add: stamp_field_def walk_def delivery_view_def)+
  show ?thesis
  proof (cases "d_status d = dt_from ?t")
    case False
    with ok Some show ?thesis by (simp add: transitionIfStatus_def)
  next
    case True
    let ?ds = "t_update (\<lambda>d. d_id d = i \<and> d_status d = dt_from ?t) ?f (s_deliveries s)"
    have ds: "?ds = t_update (\<lambda>d. d_id d = i) ?f (s_deliveries s)" by (rule t_update_guard [where P = "\<lambda>d. d_status d = dt_from ?t", OF dd Some True])
    have "t_find d_id i ?ds = Some (?f d)"
      unfolding ds using t_find_Some [OF Some] by (simp add: t_find_update f(1) Some)
    with ok Some True have s': "done'" "s' = appendEvent (delivery_event_row i (dt_eventType ?t) (Some drv) now) (s\<lparr>s_deliveries := ?ds\<rparr>)"
      by (auto simp: transitionIfStatus_def Let_def f delivery_event_row_def)
    have "map delivery_view ?ds = t_update (\<lambda>d. d_id d = i) (walk act now) (map delivery_view (s_deliveries s))"
      unfolding ds by (rule map_view_update) (simp_all add: f)
    with s' have "core s' = (core s)\<lparr>s_deliveries := t_update (\<lambda>d. d_id d = i) (walk act now) (s_deliveries (core s)),
      s_deliveryEvents := s_deliveryEvents (core s) @ [delivery_event_row i (dt_eventType ?t) (Some drv) now]\<rparr>"
      by simp
    moreover have "t_find d_id i (s_deliveries (core s)) = Some (delivery_view d)" by (simp add: find_map_view Some)
    ultimately show ?thesis using s'(1) True by auto
  qed
qed

text \<open>A transition other than the last, by the driver whose accepted assignment it is.\<close>

lemma walk_spec:
  assumes ok: "transitionIfStatus now i (transitionForAction act) (a_driverId a) s = (done', s')"
    and b: "dispatch_inv (core s)" and act: "act \<noteq> COMPLETE_DELIVERY"
    and a: "a \<in> set (s_assignments s)" "a_status a = A_ACCEPTED" "a_deliveryId a = i"
  shows "dispatch_spec\<^sup>=\<^sup>= (core s) (core s')"
  using transition_core [OF ok core_distinct(2) [OF b]]
proof (elim disjE conjE exE)
  fix d assume "t_find d_id i (s_deliveries (core s)) = Some d" "d_status d = dt_from (transitionForAction act)"
    and s': "core s' = (core s)\<lparr>s_deliveries := t_update (\<lambda>d. d_id d = i) (walk act now) (s_deliveries (core s)),
      s_deliveryEvents := s_deliveryEvents (core s)
        @ [delivery_event_row i (dt_eventType (transitionForAction act)) (Some (a_driverId a)) now]\<rparr>"
  then have "dispatch_spec (core s) (core s')"
    unfolding s' using dispatch_spec.moved [of a "core s" d act now] a act by simp
  then show ?thesis by simp
qed simp

lemma findOpenAccepted:
  assumes "findOpenAcceptedAssignment drv s = Some a"
  shows "a \<in> set (s_assignments s)" "a_driverId a = drv" "a_status a = A_ACCEPTED" "a_releasedAt a = None"
  using assms unfolding findOpenAcceptedAssignment_def find_Some_iff by (metis nth_mem)+

lemma lockActive_ok:
  assumes "lockActive now c still st s = Inr (l, s1)"
  shows "core s1 = core s" "s_assignments s1 = s_assignments s" "d_status l = st"
    "t_find d_id (aa_deliveryId c) (s_deliveries s1) = Some l"
    "\<exists>a \<in> set (s_assignments s). a_driverId a = aa_driverId c \<and> a_status a = A_ACCEPTED \<and> a_releasedAt a = None \<and> still a"
proof -
  obtain a where l: "lockDelivery now (aa_deliveryId c) s = (Some l, s1)"
    and a: "findOpenAcceptedAssignment (aa_driverId c) s1 = Some a" "still a" "d_status l = st"
    using assms by (auto simp: lockActive_def split: prod.splits option.splits if_splits)
  note lk = lockDelivery_found [OF l]
  show "core s1 = core s" "s_assignments s1 = s_assignments s" "d_status l = st"
    "t_find d_id (aa_deliveryId c) (s_deliveries s1) = Some l" using lk a(3) by simp_all
  show "\<exists>a \<in> set (s_assignments s). a_driverId a = aa_driverId c \<and> a_status a = A_ACCEPTED \<and> a_releasedAt a = None \<and> still a"
    using findOpenAccepted [OF a(1)] a(2) lk(2) by auto
qed

lemma move_spec:
  assumes ok: "moveInTx dir env now act c s = Inr (done', s')" and b: "dispatch_inv (core s)" and act: "act \<noteq> COMPLETE_DELIVERY"
  shows "dispatch_spec\<^sup>=\<^sup>= (core s) (core s')"
proof -
  obtain l s1 where l: "lockActive now c (sameDelivery c) (dt_from (transitionForAction act)) s = Inr (l, s1)"
    and t: "transitionIfStatus now (aa_deliveryId c) (transitionForAction act) (aa_driverId c) s1 = (done', s')"
    using ok by (auto simp: moveInTx_def ebind_Inr)
  note la = lockActive_ok [OF l]
  from la(5) obtain a where a: "a \<in> set (s_assignments s)" "a_driverId a = aa_driverId c" "a_status a = A_ACCEPTED"
    "sameDelivery c a" by blast
  have "dispatch_spec\<^sup>=\<^sup>= (core s1) (core s')"
    by (rule walk_spec [where a = a]) (use t la a b act in \<open>simp_all add: sameDelivery_def\<close>)
  then show ?thesis by (simp add: la(1))
qed

section \<open>The pickup code\<close>

lemma consume_core [simp]: "core (snd (consumeConditional now h i j v drv s)) = core s"
  by (simp add: consumeConditional_def Let_def)

lemma increment_core [simp]: "core (snd (incrementAttemptsAndMaybeLock now h s)) = core s"
  by (simp add: incrementAttemptsAndMaybeLock_def Let_def split: option.splits)

lemma handoff_writes:
  "consumeConditional now h i j v drv s = (b, s') \<Longrightarrow> core s' = core s"
  "incrementAttemptsAndMaybeLock now h s = (r, s') \<Longrightarrow> core s' = core s"
  using consume_core [of now h i j v drv s] increment_core [of now h s] by simp_all

lemma quiet_assignments [simp]:
  "s_assignments (update_handoffs p f s) = s_assignments s" "s_assignments (snd (consumeConditional now h i j v drv s)) = s_assignments s"
  by (simp_all add: update_handoffs_def consumeConditional_def Let_def)

lemma unlock_ok: "unlockIfDue now h s = Inr (r, s') \<Longrightarrow> core s' = core s \<and> s_assignments s' = s_assignments s"
  by (auto simp: unlockIfDue_def Let_def split: option.splits if_splits)

lemma verifyCode_spec:
  assumes ok: "verifyCode cr now i (a_driverId a) j v code h s = (r, s')" and b: "dispatch_inv (core s)"
    and a: "a \<in> set (s_assignments s)" "a_status a = A_ACCEPTED" "a_deliveryId a = i"
  shows "dispatch_spec\<^sup>=\<^sup>= (core s) (core s')"
proof -
  have "core s' = core s \<or> (\<exists>done'. transitionIfStatus now i (transitionForAction CONFIRM_PICKUP) (a_driverId a)
      (snd (consumeConditional now (h_id h) i j v (a_driverId a) s)) = (done', s'))"
    using ok by (auto simp: verifyCode_def dest: handoff_writes split: if_splits prod.splits option.splits)
  then show ?thesis
  proof
    assume "\<exists>done'. transitionIfStatus now i (transitionForAction CONFIRM_PICKUP) (a_driverId a)
      (snd (consumeConditional now (h_id h) i j v (a_driverId a) s)) = (done', s')"
    then obtain done' where t: "transitionIfStatus now i (transitionForAction CONFIRM_PICKUP) (a_driverId a)
      (snd (consumeConditional now (h_id h) i j v (a_driverId a) s)) = (done', s')" by blast
    from walk_spec [OF this] b a show ?thesis by simp
  qed simp
qed

lemma verifyInTx_spec:
  assumes ok: "verifyInTx cr now i (a_driverId a) j v ch code s = Inr (r, s')" and b: "dispatch_inv (core s)"
    and a: "a \<in> set (s_assignments s)" "a_status a = A_ACCEPTED" "a_deliveryId a = i"
  shows "dispatch_spec\<^sup>=\<^sup>= (core s) (core s')"
proof -
  let ?s1 = "snd (lockDelivery now i s)"
  have s1: "core ?s1 = core s" "s_assignments ?s1 = s_assignments s"
    using lockDelivery_found(2) [of now i s "fst (lockDelivery now i s)" ?s1] by simp_all
  have "s' = ?s1 \<or> (\<exists>h s2. core s2 = core s \<and> s_assignments s2 = s_assignments s \<and>
      verifyCode cr now i (a_driverId a) j v code h s2 = (r, s'))"
    using ok unlock_ok [of now _ ?s1] s1
    by (auto simp: verifyInTx_def Let_def ebind_Inr split: option.splits if_splits)
  then show ?thesis
  proof (elim disjE exE conjE)
    fix h s2 assume s2: "core s2 = core s" "s_assignments s2 = s_assignments s"
      "verifyCode cr now i (a_driverId a) j v code h s2 = (r, s')"
    from verifyCode_spec [OF s2(3)] s2 b a show ?thesis by simp
  qed (simp add: s1)
qed

lemma atomically_core:
  assumes "\<And>r s'. t s = Inr (r, s') \<Longrightarrow> dispatch_spec\<^sup>=\<^sup>= (core s) (core s')"
  shows "dispatch_spec\<^sup>=\<^sup>= (core s) (core (snd (atomically t s)))"
  using assms by (auto simp: atomically_def split: sum.splits)

lemma and_then_same:
  "(\<And>r s'. snd (k r s') = s') \<Longrightarrow> snd (and_then m k s) = snd (m s)"
  by (auto simp: and_then_def split: prod.splits sum.splits)

lemma verify_spec:
  assumes b: "dispatch_inv (core s)" and a: "a \<in> set (s_assignments s)" "a_status a = A_ACCEPTED" "a_deliveryId a = i"
  shows "dispatch_spec\<^sup>=\<^sup>= (core s) (core (snd (verifyForConfirmPickup cr now i (a_driverId a) j v body s)))"
proof -
  let ?k = "\<lambda>outcome. case outcome of Verified \<Rightarrow> pure (Inr VerifiedResult) | Reject e \<Rightarrow> throw (HandoffE e)"
  have "snd (verifyForConfirmPickup cr now i (a_driverId a) j v body s) = s \<or>
    (\<exists>ch code. snd (verifyForConfirmPickup cr now i (a_driverId a) j v body s) =
       snd (atomically (verifyInTx cr now i (a_driverId a) j v ch code) s))"
    unfolding verifyForConfirmPickup_def throw_def
    by (auto simp: and_then_same pure_def throw_def split: option.splits if_splits verify_outcome.splits)
  then show ?thesis
  proof (elim disjE exE)
    fix ch code
    assume s': "snd (verifyForConfirmPickup cr now i (a_driverId a) j v body s) =
       snd (atomically (verifyInTx cr now i (a_driverId a) j v ch code) s)"
    show ?thesis
      unfolding s' by (rule atomically_core) (rule verifyInTx_spec [OF _ b a])
  qed simp
qed

section \<open>Completion\<close>

lemma snapshot_number:
  "findDriverRemunerationSnapshot k s = Some v \<Longrightarrow> requireDriverRemunerationMinor v = Inr w \<Longrightarrow>
   \<exists>sn. t_find sn_orderId k (s_snapshots s) = Some sn \<and> w = JInt (sn_driverRemunerationMinor sn) \<and>
     double_of_int (sn_driverRemunerationMinor sn) = JInt (sn_driverRemunerationMinor sn)"
  by (auto simp: findDriverRemunerationSnapshot_def requireDriverRemunerationMinor_def double_of_int_exact
      CATALOG_PRICE_MINOR_MAX_def MAX_SAFE_INTEGER_def split: option.splits if_splits)

lemma amounts_ok:
  "findDriverRemunerationSnapshot k s = Some v \<Longrightarrow> buildDriverEarningAmounts v = Inr a \<Longrightarrow>
   \<exists>sn. t_find sn_orderId k (s_snapshots s) = Some sn \<and>
     a = \<lparr>ea_baseRemunerationMinor = JInt (sn_driverRemunerationMinor sn), ea_bonusMinor = JInt 0,
       ea_adjustmentMinor = JInt 0, ea_netEarningMinor = JInt (sn_driverRemunerationMinor sn)\<rparr>"
  by (auto simp: buildDriverEarningAmounts_def ebind_Inr Let_def isSafeInteger_iff
      dest!: snapshot_number split: if_splits)

lemma createEarned_ok:
  "createEarned now n i drv \<lparr>ea_baseRemunerationMinor = JInt x, ea_bonusMinor = JInt 0, ea_adjustmentMinor = JInt 0,
       ea_netEarningMinor = JInt x\<rparr> s = Inr (r, s') \<Longrightarrow>
   n \<notin> e_id ` set (s_earnings s) \<and>
   r = \<lparr>e_id = n, e_deliveryId = i, e_driverId = drv, e_baseRemunerationMinor = x, e_bonusMinor = 0,
     e_adjustmentMinor = 0, e_netEarningMinor = x, e_status = ''EARNED'', e_validatedAt = now\<rparr> \<and>
   s' = s\<lparr>s_earnings := s_earnings s @ [r]\<rparr>"
  by (simp add: createEarned_def pgBigInt_def toEarning_def ebind_Inr readMinor_ok Let_def split: if_splits)
    (elim conjE, simp)

text \<open>The first earning of a delivered order is the remuneration agreed at placement, booked once.\<close>

lemma earning_created:
  assumes ok: "createForCompletedDelivery now n l i k drv s = Inr (r, s')"
    and none: "t_find e_deliveryId i (s_earnings s) = None"
  obtains sn le es where "t_find sn_orderId k (s_snapshots s) = Some sn"
    "r = \<lparr>e_id = n, e_deliveryId = i, e_driverId = drv, e_baseRemunerationMinor = sn_driverRemunerationMinor sn,
       e_bonusMinor = 0, e_adjustmentMinor = 0, e_netEarningMinor = sn_driverRemunerationMinor sn,
       e_status = ''EARNED'', e_validatedAt = now\<rparr>"
    "n \<notin> e_id ` set (s_earnings s)"
    "post_ledger_event l now (EvEarning n k drv (sn_driverRemunerationMinor sn)) (s_ledger s) = Inr (le, es)"
    "s' = s\<lparr>s_earnings := s_earnings s @ [r], s_ledger := es\<rparr>"
proof -
  have no: "findEarningByDeliveryId i s = Inr None" using none by (simp add: findEarningByDeliveryId_def)
  obtain v a where v: "findDriverRemunerationSnapshot k s = Some v" "buildDriverEarningAmounts v = Inr a"
    and e: "earnOnce now n l i k drv a s = Inr (r, s')"
  proof (cases "findDriverRemunerationSnapshot k s")
    case None
    with ok show thesis by (simp add: createForCompletedDelivery_def no split: if_splits option.splits)
  next
    case (Some v)
    with ok that show thesis
      by (cases "buildDriverEarningAmounts v")
        (simp_all add: createForCompletedDelivery_def no split: if_splits option.splits)
  qed
  obtain sn where sn: "t_find sn_orderId k (s_snapshots s) = Some sn"
    and a: "a = \<lparr>ea_baseRemunerationMinor = JInt (sn_driverRemunerationMinor sn), ea_bonusMinor = JInt 0,
      ea_adjustmentMinor = JInt 0, ea_netEarningMinor = JInt (sn_driverRemunerationMinor sn)\<rparr>"
    using amounts_ok [OF v] by blast
  obtain r1 s1 where c: "createEarned now n i drv a s = Inr (r1, s1)" and p: "postEarning now l k r1 s1 = Inr (r, s')"
    using e by (cases "createEarned now n i drv a s"; cases "postEarning now l k (fst (projr (createEarned now n i drv a s)))
        (snd (projr (createEarned now n i drv a s)))") (auto simp: earnOnce_def no split: if_splits)
  from createEarned_ok [OF c [unfolded a]]
  have new: "n \<notin> e_id ` set (s_earnings s)" "s1 = s\<lparr>s_earnings := s_earnings s @ [r1]\<rparr>"
    and r1: "r1 = \<lparr>e_id = n, e_deliveryId = i, e_driverId = drv, e_baseRemunerationMinor = sn_driverRemunerationMinor sn,
       e_bonusMinor = 0, e_adjustmentMinor = 0, e_netEarningMinor = sn_driverRemunerationMinor sn,
       e_status = ''EARNED'', e_validatedAt = now\<rparr>" by blast+
  have f: "e_id r1 = n" "e_driverId r1 = drv" "e_netEarningMinor r1 = sn_driverRemunerationMinor sn" by (simp_all add: r1)
  from p obtain le es where q: "postDriverEarning l now n k drv (BigMinor (sn_driverRemunerationMinor sn)) (s_ledger s1) = Inr (le, es)"
    "r = r1" "s' = s1\<lparr>s_ledger := es\<rparr>"
    by (auto simp: postEarning_def ebind_Inr in_ledger_ok f)
  show thesis
    by (rule that [OF sn _ new(1)]) (use q r1 new(2) in simp_all)
qed

lemma release_core:
  assumes ok: "releaseAcceptedAssignment now j s = (True, s')" and dd: "distinct (map a_id (s_assignments s))"
    and a: "t_find a_id j (s_assignments s) = Some a" "a_status a = A_ACCEPTED" "a_releasedAt a = None"
  shows "core s' = (core s)\<lparr>s_assignments := t_update (\<lambda>a. a_id a = j)
      (\<lambda>a. a\<lparr>a_status := A_RELEASED, a_releasedAt := Some now\<rparr>) (s_assignments s)\<rparr>"
proof -
  have "t_update (\<lambda>a. a_id a = j \<and> a_status a = A_ACCEPTED \<and> a_releasedAt a = None) f (s_assignments s)
      = t_update (\<lambda>a. a_id a = j) f (s_assignments s)" for f
    by (rule t_update_guard [where P = "\<lambda>a. a_status a = A_ACCEPTED \<and> a_releasedAt a = None", OF dd a(1)]) (simp add: a)
  then show ?thesis
    using ok a(1) by (auto simp: releaseAcceptedAssignment_def Let_def split: option.splits if_splits)
qed

lemma complete_core:
  assumes ok: "completeActiveOrder now k drv s = (True, s')" and dd: "distinct (map o_id (s_orders s))"
    and o': "t_find o_id k (s_orders s) = Some o'" "o_status o' = O_ACTIVE"
  shows "core s' = (core s)\<lparr>s_orders := t_update (\<lambda>o'. o_id o' = k)
      (\<lambda>o'. o'\<lparr>o_status := O_COMPLETED, o_completedAt := Some now\<rparr>) (s_orders (core s)),
    s_events := s_events s @ [\<lparr>ev_orderId = k, ev_eventType = ''ORDER_COMPLETED'', ev_actorType = ''DRIVER'',
      ev_actorId = drv, ev_fromStatus = Some O_ACTIVE, ev_toStatus = O_COMPLETED, ev_occurredAt = now\<rparr>]\<rparr>"
proof -
  let ?f = "\<lambda>o'. o'\<lparr>o_status := O_COMPLETED, o_completedAt := Some now, o_updatedAt := now\<rparr>"
  have "t_update (\<lambda>o'. o_id o' = k \<and> o_status o' = O_ACTIVE) ?f (s_orders s) = t_update (\<lambda>o'. o_id o' = k) ?f (s_orders s)"
    by (rule t_update_guard [where P = "\<lambda>o'. o_status o' = O_ACTIVE", OF dd o'])
  moreover have "map order_view (t_update (\<lambda>o'. o_id o' = k) ?f (s_orders s)) =
      t_update (\<lambda>o'. o_id o' = k) (\<lambda>o'. o'\<lparr>o_status := O_COMPLETED, o_completedAt := Some now\<rparr>) (map order_view (s_orders s))"
    by (rule map_view_update) (simp_all add: order_view_def)
  ultimately show ?thesis
    using ok by (auto simp: completeActiveOrder_def Let_def split: option.splits if_splits)
qed

lemma resolve_ok:
  assumes "resolveActiveAssignment dir acc s = Inr c"
  obtains a d where "a \<in> set (s_assignments s)" "a_id a = aa_assignmentId c" "a_deliveryId a = aa_deliveryId c"
    "a_driverId a = aa_driverId c" "a_status a = A_ACCEPTED" "a_releasedAt a = None"
    "t_find d_id (aa_deliveryId c) (s_deliveries s) = Some d" "d_orderId d = aa_orderId c"
    "driverOfAccount acc s = Some (aa_driverId c)"
proof -
  obtain drv a d where "driverOfAccount acc s = Some drv" and a: "findOpenAcceptedAssignment drv s = Some a"
    and d: "t_find d_id (a_deliveryId a) (s_deliveries s) = Some d"
    and "c = \<lparr>aa_driverId = drv, aa_assignmentId = a_id a, aa_assignmentVersion = a_version a,
      aa_deliveryId = d_id d, aa_orderId = d_orderId d, aa_assignmentStatus = a_status a\<rparr>"
    using assms by (auto simp: resolveActiveAssignment_def split: option.splits if_splits)
  with findOpenAccepted [OF a] t_find_Some [OF d] that show thesis by simp
qed

lemma must_ok: "must e r = Inr s \<longleftrightarrow> r = (True, s)"
  by (auto simp: must_def split: prod.splits if_splits)

lemma completeInTx_steps:
  assumes "completeInTx now n l c s = Inr (r, s')"
  obtains d s1 o' s2 p s3 s4 s5 s6 s7 where
    "lockActive now c (\<lambda>a. a_id a = aa_assignmentId c) ARRIVED_CUSTOMER s = Inr (d, s1)"
    "lockOrder now (aa_orderId c) s1 = (Some o', s2)" "o_status o' = O_ACTIVE"
    "lockOrderPayment now (aa_orderId c) s2 = (Some p, s3)" "requirePaid c p s3 = Inr ()"
    "transitionIfStatus now (aa_deliveryId c) (transitionForAction COMPLETE_DELIVERY) (aa_driverId c) s3 = (True, s4)"
    "releaseAcceptedAssignment now (aa_assignmentId c) s4 = (True, s5)"
    "completeActiveOrder now (aa_orderId c) (aa_driverId c) s5 = (True, s6)"
    "createForCompletedDelivery now n l (aa_deliveryId c) (aa_orderId c) (aa_driverId c) s6 = Inr (r, s7)"
    "s' = goOfflineAfterDelivery (aa_driverId c) s7"
proof -
  have src: "dt_from (transitionForAction COMPLETE_DELIVERY) = ARRIVED_CUSTOMER" by simp
  obtain d s1 where l: "lockActive now c (\<lambda>a. a_id a = aa_assignmentId c) ARRIVED_CUSTOMER s = Inr (d, s1)"
    using assms by (cases "lockActive now c (\<lambda>a. a_id a = aa_assignmentId c) ARRIVED_CUSTOMER s")
      (auto simp: completeInTx_def)
  note run = assms [unfolded completeInTx_def Let_def src l ebind.simps prod.case]
  obtain o' s2 where o': "lockOrder now (aa_orderId c) s1 = (Some o', s2)" "o_status o' = O_ACTIVE"
    using run by (cases "lockOrder now (aa_orderId c) s1"; cases "fst (lockOrder now (aa_orderId c) s1)") (auto split: if_splits)
  obtain p s3 where p: "lockOrderPayment now (aa_orderId c) s2 = (Some p, s3)"
    using run o' by (cases "lockOrderPayment now (aa_orderId c) s2"; cases "fst (lockOrderPayment now (aa_orderId c) s2)") auto
  from run o' p show thesis
    by (auto simp: ebind_Inr must_ok simp del: transitionForAction.simps intro: that [OF l o' p])
qed

lemma requirePaid_ok:
  assumes "requirePaid c p s = Inr ()"
  shows "p_status p = PAY_SUCCEEDED" "p_method p = PAYMENT_METHOD_COD \<longrightarrow>
    (\<exists>x \<in> set (s_collections s). co_orderId x = aa_orderId c \<and> co_driverId x = aa_driverId c \<and>
       co_collectedAmountMinor x = p_amountMinor p)"
proof -
  have *: "a = b" if "\<not> js_neq (parseMinorUnits (DbBig a)) (parseMinorUnits (DbBig b))" for a b
    using that by (auto simp: double_of_int_exact CATALOG_PRICE_MINOR_MAX_def MAX_SAFE_INTEGER_def js_neq_def split: if_splits)
  show "p_status p = PAY_SUCCEEDED"
    using assms by (auto simp: requirePaid_def codCompletionReady_def Let_def split: if_splits option.splits)
  show "p_method p = PAYMENT_METHOD_COD \<longrightarrow>
    (\<exists>x \<in> set (s_collections s). co_orderId x = aa_orderId c \<and> co_driverId x = aa_driverId c \<and>
       co_collectedAmountMinor x = p_amountMinor p)"
    using assms * by (auto simp: requirePaid_def codCompletionReady_def Let_def dest!: t_find_Some
        split: if_splits option.splits simp del: parseMinorUnits.simps)
qed

lemma update_key_cong: "i = j \<Longrightarrow> t_update (\<lambda>x. key x = i) f xs = t_update (\<lambda>x. key x = j) f xs"
  by simp

lemma complete_spec:
  assumes ok: "completeInTx now n l c s = Inr (r, s')" and b: "dispatch_inv (core s)"
    and c: "resolveActiveAssignment dir acc s = Inr c"
  shows "dispatch_spec (core s) (core s')"
proof -
  obtain a dv where a: "a \<in> set (s_assignments s)" "a_id a = aa_assignmentId c" "a_deliveryId a = aa_deliveryId c"
      "a_driverId a = aa_driverId c" "a_status a = A_ACCEPTED" "a_releasedAt a = None"
    and dv: "t_find d_id (aa_deliveryId c) (s_deliveries s) = Some dv" "d_orderId dv = aa_orderId c"
    using resolve_ok [OF c] by metis
  obtain d s1 o' s2 p s3 s4 s5 s6 s7 where
    st1: "lockActive now c (\<lambda>a. a_id a = aa_assignmentId c) ARRIVED_CUSTOMER s = Inr (d, s1)" and
    st2: "lockOrder now (aa_orderId c) s1 = (Some o', s2)" "o_status o' = O_ACTIVE" and
    st3: "lockOrderPayment now (aa_orderId c) s2 = (Some p, s3)" "requirePaid c p s3 = Inr ()" and
    st4: "transitionIfStatus now (aa_deliveryId c) (transitionForAction COMPLETE_DELIVERY) (aa_driverId c) s3 = (True, s4)" and
    st5: "releaseAcceptedAssignment now (aa_assignmentId c) s4 = (True, s5)" and
    st6: "completeActiveOrder now (aa_orderId c) (aa_driverId c) s5 = (True, s6)" and
    st7: "createForCompletedDelivery now n l (aa_deliveryId c) (aa_orderId c) (aa_driverId c) s6 = Inr (r, s7)"
      "s' = goOfflineAfterDelivery (aa_driverId c) s7"
    by (rule completeInTx_steps [OF ok])
  note di = dispatch_invD [OF b]
  have k1: "core s1 = core s" using lockActive_ok(1) [OF st1] .
  have k2: "core s2 = core s" "t_find o_id (aa_orderId c) (s_orders (core s)) = Some (order_view o')"
    using lockOrder_core [OF st2(1)] k1 by auto
  have k3: "core s3 = core s" "t_find p_orderId (aa_orderId c) (s_payments (core s)) = Some (pay_view p)"
    using lockOrderPayment_core [OF st3(1)] k2 by auto
  from transition_core [OF st4 core_distinct(2)] b k3(1)
  obtain x where x: "t_find d_id (aa_deliveryId c) (s_deliveries (core s)) = Some x" "d_status x = ARRIVED_CUSTOMER"
    and k4: "core s4 = (core s)\<lparr>s_deliveries := t_update (\<lambda>d. d_id d = aa_deliveryId c) (walk COMPLETE_DELIVERY now) (s_deliveries (core s)),
      s_deliveryEvents := s_deliveryEvents (core s)
        @ [delivery_event_row (aa_deliveryId c) ''DELIVERY_COMPLETED'' (Some (aa_driverId c)) now]\<rparr>"
    by auto
  have xd: "x = delivery_view dv" using x(1) dv(1) by (simp add: find_map_view)
  have as4: "s_assignments s4 = s_assignments s" using arg_cong [OF k4, of s_assignments] by simp
  have fa: "t_find a_id (aa_assignmentId c) (s_assignments s) = Some a"
    using t_find_distinct [of a_id "s_assignments s" a] a(1,2) di(4) by simp
  have k5: "core s5 = (core s4)\<lparr>s_assignments := t_update (\<lambda>a. a_id a = aa_assignmentId c)
      (\<lambda>a. a\<lparr>a_status := A_RELEASED, a_releasedAt := Some now\<rparr>) (s_assignments s4)\<rparr>"
    by (rule release_core [OF st5]) (use as4 fa a di(4) in simp_all)
  have ord5: "map order_view (s_orders s5) = map order_view (s_orders s)" "s_events s5 = s_events s"
    using arg_cong [OF k5, of s_orders] arg_cong [OF k5, of s_events] by (simp_all add: k4)
  have ids5: "map o_id (s_orders s5) = map o_id (s_orders s)"
    using arg_cong [OF ord5(1), of "map o_id"] by (simp add: comp_def)
  from k2(2) ord5(1) have "t_find o_id (aa_orderId c) (map order_view (s_orders s5)) = Some (order_view o')" by simp
  then obtain o5 where o5: "t_find o_id (aa_orderId c) (s_orders s5) = Some o5" "order_view o5 = order_view o'"
    by (auto simp: find_map_view)
  have o5s: "o_status o5 = O_ACTIVE" using arg_cong [OF o5(2), of o_status] st2(2) by simp
  have k6: "core s6 = (core s5)\<lparr>s_orders := t_update (\<lambda>o'. o_id o' = aa_orderId c)
      (\<lambda>o'. o'\<lparr>o_status := O_COMPLETED, o_completedAt := Some now\<rparr>) (s_orders (core s5)),
    s_events := s_events s5 @ [\<lparr>ev_orderId = aa_orderId c, ev_eventType = ''ORDER_COMPLETED'', ev_actorType = ''DRIVER'',
      ev_actorId = aa_driverId c, ev_fromStatus = Some O_ACTIVE, ev_toStatus = O_COMPLETED, ev_occurredAt = now\<rparr>]\<rparr>"
    by (rule complete_core [OF st6 _ o5(1) o5s]) (use ids5 core_distinct(1) [OF b] in simp)
  have tabs: "s_earnings s6 = s_earnings s" "s_snapshots s6 = s_snapshots s" "s_ledger s6 = s_ledger s"
    using arg_cong [OF k6, of s_earnings] arg_cong [OF k6, of s_snapshots] arg_cong [OF k6, of s_ledger]
    by (simp_all add: k5 k4)
  have none: "earnings_of (aa_deliveryId c) (core s) = []"
    using delivery_okD(2,4) [OF b x(1)] x(2) by (simp add: paid_out_def)
  then have "t_find e_deliveryId (aa_deliveryId c) (s_earnings s6) = None"
    unfolding tabs t_find_def find_None_iff by (auto simp: earnings_of_def filter_empty_conv)
  from earning_created [OF st7(1) this] obtain sn le es where e: "t_find sn_orderId (aa_orderId c) (s_snapshots s6) = Some sn"
    "r = \<lparr>e_id = n, e_deliveryId = aa_deliveryId c, e_driverId = aa_driverId c,
       e_baseRemunerationMinor = sn_driverRemunerationMinor sn, e_bonusMinor = 0, e_adjustmentMinor = 0,
       e_netEarningMinor = sn_driverRemunerationMinor sn, e_status = ''EARNED'', e_validatedAt = now\<rparr>"
    "n \<notin> e_id ` set (s_earnings s6)"
    "post_ledger_event l now (EvEarning n (aa_orderId c) (aa_driverId c) (sn_driverRemunerationMinor sn)) (s_ledger s6) = Inr (le, es)"
    "s7 = s6\<lparr>s_earnings := s_earnings s6 @ [r], s_ledger := es\<rparr>" by metis
  have cols: "s_collections s3 = s_collections s" using arg_cong [OF k3(1), of s_collections] by simp
  note paid = requirePaid_ok [OF st3(2)]
  have "core s' = (core s)\<lparr>
      s_deliveries := t_update (\<lambda>d. d_id d = d_id x) (walk COMPLETE_DELIVERY now) (s_deliveries (core s)),
      s_deliveryEvents := s_deliveryEvents (core s)
        @ [delivery_event_row (d_id x) ''DELIVERY_COMPLETED'' (Some (a_driverId a)) now],
      s_assignments := t_update (\<lambda>y. a_id y = a_id a)
        (\<lambda>y. y\<lparr>a_status := A_RELEASED, a_releasedAt := Some now\<rparr>) (s_assignments (core s)),
      s_orders := t_update (\<lambda>y. o_id y = d_orderId x)
        (\<lambda>y. y\<lparr>o_status := O_COMPLETED, o_completedAt := Some now\<rparr>) (s_orders (core s)),
      s_events := s_events (core s) @ [\<lparr>ev_orderId = aa_orderId c, ev_eventType = ''ORDER_COMPLETED'', ev_actorType = ''DRIVER'',
      ev_actorId = aa_driverId c, ev_fromStatus = Some O_ACTIVE, ev_toStatus = O_COMPLETED, ev_occurredAt = now\<rparr>],
      s_earnings := s_earnings (core s) @ [r], s_ledger := es\<rparr>"
    by (simp add: st7(2) e(5) k6 k5 k4 as4 ord5 tabs xd dv(2) t_find_Some [OF dv(1)] a(2,4))
  moreover have "dispatch_spec (core s) \<dots>"
    by (rule dispatch_spec.delivered [where a = a and d = x and o' = "order_view o'" and sn = sn and p = "pay_view p" and n = n])
      (use x a dv fa k2 k3 st2(2) e tabs paid cols xd t_find_Some [OF dv(1)] in simp_all)
  ultimately show ?thesis by simp
qed

section \<open>Matching\<close>

lemma offered_guard:
  assumes dd: "distinct (map a_id (s_assignments s))"
  shows "t_update (\<lambda>a. a_id a = j \<and> a_status a = A_OFFERED \<and> a_releasedAt a = None) f (s_assignments s) = s_assignments s \<or>
    (\<exists>a. t_find a_id j (s_assignments s) = Some a \<and> a_status a = A_OFFERED \<and> a_releasedAt a = None \<and>
     t_update (\<lambda>a. a_id a = j \<and> a_status a = A_OFFERED \<and> a_releasedAt a = None) f (s_assignments s)
       = t_update (\<lambda>a. a_id a = j) f (s_assignments s))"
proof (cases "\<exists>a \<in> set (s_assignments s). a_id a = j \<and> a_status a = A_OFFERED \<and> a_releasedAt a = None")
  case True
  then obtain a where a: "a \<in> set (s_assignments s)" "a_id a = j" "a_status a = A_OFFERED" "a_releasedAt a = None" by blast
  then have f: "t_find a_id j (s_assignments s) = Some a" using t_find_distinct [OF dd a(1)] by simp
  with a t_update_guard [where P = "\<lambda>a. a_status a = A_OFFERED \<and> a_releasedAt a = None", OF dd f] show ?thesis by simp
next
  case False
  then have "t_update (\<lambda>a. a_id a = j \<and> a_status a = A_OFFERED \<and> a_releasedAt a = None) f (s_assignments s) = s_assignments s"
    by (intro t_update_none) blast
  then show ?thesis ..
qed

lemma release_spec:
  assumes b: "dispatch_inv (core s)" and st: "st \<in> {A_REJECTED, A_EXPIRED}"
  shows "dispatch_spec\<^sup>=\<^sup>= (core s) (core (snd (releaseIfOffered now j st s)))"
proof -
  have dd: "distinct (map a_id (s_assignments s))" using dispatch_invD(4) [OF b] by simp
  let ?f = "\<lambda>a. a\<lparr>a_status := st, a_releasedAt := Some now\<rparr>"
  have c: "core (snd (releaseIfOffered now j st s)) = (core s)\<lparr>s_assignments := t_update
      (\<lambda>a. a_id a = j \<and> a_status a = A_OFFERED \<and> a_releasedAt a = None) ?f (s_assignments s)\<rparr>"
    by (simp add: releaseIfOffered_def Let_def)
  show ?thesis
    using offered_guard [OF dd, of j ?f]
  proof (elim disjE exE conjE)
    assume "t_update (\<lambda>a. a_id a = j \<and> a_status a = A_OFFERED \<and> a_releasedAt a = None) ?f (s_assignments s) = s_assignments s"
    then show ?thesis unfolding c by (simp add: core_def)
  next
    fix a assume "t_find a_id j (s_assignments s) = Some a" "a_status a = A_OFFERED"
      and u: "t_update (\<lambda>a. a_id a = j \<and> a_status a = A_OFFERED \<and> a_releasedAt a = None) ?f (s_assignments s)
        = t_update (\<lambda>a. a_id a = j) ?f (s_assignments s)"
    with dispatch_spec.declined [of j "core s" a st now] st show ?thesis unfolding c u by simp
  qed
qed

text \<open>Moving the books along the machine, as far as they were in order.\<close>

definition moves :: "shop \<Rightarrow> shop \<Rightarrow> bool" where
  "moves s s' \<longleftrightarrow> (dispatch_inv (core s) \<longrightarrow> dispatch_spec\<^sup>*\<^sup>* (core s) (core s') \<and> dispatch_inv (core s'))"

lemma moves_step: "(dispatch_inv (core s) \<Longrightarrow> dispatch_spec\<^sup>=\<^sup>= (core s) (core s')) \<Longrightarrow> moves s s'"
  by (auto simp: moves_def dest: dispatch_spec_inv)

lemma moves_same: "core s' = core s \<Longrightarrow> moves s s'"
  by (simp add: moves_def)

lemma moves_trans: "moves s t \<Longrightarrow> moves t u \<Longrightarrow> moves s u"
  by (auto simp: moves_def)

lemma moves_atomically:
  "(\<And>r s'. dispatch_inv (core s) \<Longrightarrow> t s = Inr (r, s') \<Longrightarrow> dispatch_spec\<^sup>=\<^sup>= (core s) (core s')) \<Longrightarrow>
   moves s (snd (atomically t s))"
  by (auto simp: moves_step moves_same atomically_def split: sum.splits)

lemma moves_then:
  "moves s (snd (m s)) \<Longrightarrow> (\<And>r s'. moves s' (snd (k r s'))) \<Longrightarrow> moves s (snd (and_then m k s))"
  by (cases "m s"; cases "fst (m s)") (auto simp: and_then_def intro: moves_trans)

lemma lockDelivery_moves: "moves s s' \<Longrightarrow> moves s (snd (lockDelivery now i s'))"
  by (simp add: moves_def)

lemma expireOffer_moves: "moves s (snd (expireOffer env now j s))"
proof -
  have "moves s (snd (releaseIfOffered now j A_EXPIRED (snd (lockDelivery now i s))))" for i
    by (rule moves_trans [OF lockDelivery_moves [OF moves_same [OF refl], of s now i]])
      (rule moves_step, rule release_spec, simp_all)
  then show ?thesis
    by (auto simp: expireOffer_def moves_same dest!: sndI split: option.splits prod.splits)
qed

lemma expire_due_moves: "moves s (expireOpenOfferIfDue env now i s)" "moves s (expireOpenOfferForDriverIfDue env now drv s)"
  by (auto simp: expireOpenOfferIfDue_def expireOpenOfferForDriverIfDue_def expireOffer_moves moves_same split: option.splits)

lemma createOffer_ok:
  assumes "createOffer now n i drv s = Inr (a, s')"
  shows "core s' = (core s)\<lparr>s_assignments := s_assignments (core s) @ [offer_row n i drv now]\<rparr>"
    "n \<notin> a_id ` set (s_assignments (core s))"
    "\<forall>x \<in> set (s_assignments (core s)). a_releasedAt x = None \<longrightarrow> a_deliveryId x \<noteq> i \<and> a_driverId x \<noteq> drv"
  using assms by (auto simp: createOffer_def findOpenByDelivery_def findOpenByDriver_def find_None_iff offer_row_def Let_def split: if_splits)

lemma offer_spec:
  assumes "t_find d_id i (s_deliveries (core s)) = Some d" "d_status d = SEARCHING_DRIVER"
  shows "offerFirst env now n i cs s = Inr (r, s') \<Longrightarrow> dispatch_spec\<^sup>=\<^sup>= (core s) (core s')"
  using assms
proof (induction cs arbitrary: s)
  case (Cons c cs)
  obtain pr s1 where l: "lockProfile now (cd_driverId c) s = (pr, s1)" by (cases "lockProfile now (cd_driverId c) s")
  then have s1: "core s1 = core s" by (metis core_quiet(5) snd_conv)
  consider "offerFirst env now n i cs s = Inr (r, s')" | "offerFirst env now n i cs s1 = Inr (r, s')" | "s' = s1"
    | a where "createOffer now n i (cd_driverId c) s1 = Inr (a, s')"
    using Cons.prems(1) l by (fastforce split: if_splits option.splits sum.splits)
  then show ?case
  proof cases
    case 1
    from Cons.IH [OF this] Cons.prems show ?thesis by blast
  next
    case 2
    from Cons.IH [OF this, unfolded s1] Cons.prems show ?thesis by blast
  next
    case 3
    then show ?thesis by (simp add: s1)
  next
    case 4
    from createOffer_ok [OF this] s1 dispatch_spec.offered [OF Cons.prems(2,3), of n "cd_driverId c" now]
    show ?thesis by simp
  qed
qed simp

lemma matchInTx_spec:
  assumes "matchInTx env now n i cs s = Inr (r, s')"
  shows "dispatch_spec\<^sup>=\<^sup>= (core s) (core s')"
proof -
  obtain d s1 where l: "lockDelivery now i s = (Some d, s1)" and d: "d_status d = SEARCHING_DRIVER"
    and o: "s' = s1 \<or> offerFirst env now n i cs s1 = Inr (r, s')"
    using assms by (cases "lockDelivery now i s"; cases "fst (lockDelivery now i s)")
      (auto simp: matchInTx_def split: option.splits if_splits)
  have "t_find d_id i (s_deliveries (core s1)) = Some (delivery_view d)" "core s1 = core s"
    using lockDelivery_found(1,4) [OF l] by simp_all
  with offer_spec [of i s1 "delivery_view d" env now n cs r s'] d o show ?thesis by auto
qed

lemma matchDelivery_moves: "moves s (snd (matchDelivery dir env now n i s))"
proof -
  have offer: "moves s' (snd (and_then (atomically (matchInTx env now n i cs)) (\<lambda>created. pure (f created)) s'))" for cs f s'
    by (rule moves_then, rule moves_atomically, erule matchInTx_spec) (simp add: moves_same pure_def)
  show ?thesis
    by (auto simp: matchDelivery_def Let_def expire_due_moves split: option.splits
        intro!: moves_trans [OF expire_due_moves(1) offer])
qed

lemma ownAssignment_ok: "ownAssignment drv j s = Inr a \<longleftrightarrow> t_find a_id j (s_assignments s) = Some a \<and> a_driverId a = drv"
  by (auto simp: ownAssignment_def findAssignment_def split: option.splits)

lemma lockProfile_assignments [simp]:
  "s_assignments (snd (lockProfile now drv s)) = s_assignments s" "s_deliveries (snd (lockProfile now drv s)) = s_deliveries s"
  by (simp_all add: lockProfile_def Let_def update_driver_def)

lemma acceptOffer_core:
  assumes ok: "acceptIfOffered now j s = (Some a', s')" and dd: "distinct (map a_id (s_assignments s))"
    and a: "t_find a_id j (s_assignments s) = Some a" "a_status a = A_OFFERED" "a_releasedAt a = None"
  shows "s' = s\<lparr>s_assignments := t_update (\<lambda>a. a_id a = j)
      (\<lambda>a. a\<lparr>a_status := A_ACCEPTED, a_acceptedAt := Some now\<rparr>) (s_assignments s)\<rparr>"
  using ok t_update_guard [where P = "\<lambda>a. a_status a = A_OFFERED \<and> a_releasedAt a = None", OF dd a(1)] a
  by (simp add: acceptIfOffered_def Let_def)

lemma setAssigned_core:
  assumes ok: "setDeliveryAssigned now i drv s = (True, s')" and dd: "distinct (map d_id (s_deliveries s))"
    and d: "t_find d_id i (s_deliveries s) = Some d" "d_status d = SEARCHING_DRIVER"
  shows "core s' = (core s)\<lparr>s_deliveries := t_update (\<lambda>d. d_id d = i) (\<lambda>d. d\<lparr>d_status := DRIVER_ASSIGNED\<rparr>) (s_deliveries (core s)),
    s_deliveryEvents := s_deliveryEvents s @ [delivery_event_row i ''DRIVER_ASSIGNED'' (Some drv) now]\<rparr>"
proof -
  let ?f = "\<lambda>d. d\<lparr>d_status := DRIVER_ASSIGNED, d_updatedAt := now\<rparr>"
  have "t_update (\<lambda>d. d_id d = i \<and> d_status d = SEARCHING_DRIVER) ?f (s_deliveries s) = t_update (\<lambda>d. d_id d = i) ?f (s_deliveries s)"
    by (rule t_update_guard [where P = "\<lambda>d. d_status d = SEARCHING_DRIVER", OF dd d])
  moreover have "map delivery_view (t_update (\<lambda>d. d_id d = i) ?f (s_deliveries s)) =
      t_update (\<lambda>d. d_id d = i) (\<lambda>d. d\<lparr>d_status := DRIVER_ASSIGNED\<rparr>) (map delivery_view (s_deliveries s))"
    by (rule map_view_update) (simp_all add: delivery_view_def)
  ultimately show ?thesis
    using ok by (auto simp: setDeliveryAssigned_def Let_def delivery_event_row_def split: option.splits if_splits)
qed

lemma acceptInTx_steps:
  assumes ok: "acceptInTx env now drv j s = Inr (r, s')"
  obtains a d s1 s3 where "t_find a_id j (s_assignments s) = Some a" "a_driverId a = drv"
    "lockDelivery now (a_deliveryId a) s = (Some d, s1)" "assertOfferAcceptable env now a (d_status d) = Inr ()"
    "acceptIfOffered now j (snd (lockProfile now drv s1)) = (Some r, s3)"
    "setDeliveryAssigned now (a_deliveryId a) drv s3 = (True, s')"
proof -
  obtain a where own: "ownAssignment drv j s = Inr a" using ok by (auto simp: acceptInTx_def ebind_Inr)
  obtain d s1 where l: "lockDelivery now (a_deliveryId a) s = (Some d, s1)"
    using ok own by (cases "lockDelivery now (a_deliveryId a) s"; cases "fst (lockDelivery now (a_deliveryId a) s)") (simp_all add: acceptInTx_def)
  have own2: "ownAssignment drv j (snd (lockProfile now drv s1)) = Inr a"
    using own lockDelivery_found(2) [OF l] by (simp add: ownAssignment_ok)
  note run = ok [unfolded acceptInTx_def own ebind.simps l prod.case option.case Let_def, unfolded own2 ebind.simps]
  obtain x s3 where x: "acceptIfOffered now j (snd (lockProfile now drv s1)) = (x, s3)" by fastforce
  obtain y s4 where y: "setDeliveryAssigned now (a_deliveryId a) drv s3 = (y, s4)" by fastforce
  obtain z where x': "x = Some z" using run x by (cases x) (simp_all add: ebind_Inr)
  have "assertOfferAcceptable env now a (d_status d) = Inr ()" using run by (simp add: ebind_Inr)
  moreover from run have "y \<and> z = r \<and> s4 = s'" by (simp add: x x' y ebind_Inr split: if_splits)
  ultimately show thesis using that [of a d s1 s3] own l x x' y by (simp add: ownAssignment_ok)
qed

lemma acceptInTx_spec:
  assumes ok: "acceptInTx env now drv j s = Inr (r, s')" and b: "dispatch_inv (core s)"
  shows "dispatch_spec\<^sup>=\<^sup>= (core s) (core s')"
proof -
  obtain a d s1 s3 where a: "t_find a_id j (s_assignments s) = Some a" "a_driverId a = drv"
    and l: "lockDelivery now (a_deliveryId a) s = (Some d, s1)" and st: "assertOfferAcceptable env now a (d_status d) = Inr ()"
    and a3: "acceptIfOffered now j (snd (lockProfile now drv s1)) = (Some r, s3)"
    and d3: "setDeliveryAssigned now (a_deliveryId a) drv s3 = (True, s')"
    by (rule acceptInTx_steps [OF ok])
  note lk = lockDelivery_found [OF l]
  let ?s2 = "snd (lockProfile now drv s1)"
  have off: "a_status a = A_OFFERED" "a_releasedAt a = None" "d_status d = SEARCHING_DRIVER"
    using st by (auto simp: assertOfferAcceptable_def isOpenOffer_def split: if_splits)
  have k3: "s3 = ?s2\<lparr>s_assignments := t_update (\<lambda>a. a_id a = j)
      (\<lambda>a. a\<lparr>a_status := A_ACCEPTED, a_acceptedAt := Some now\<rparr>) (s_assignments ?s2)\<rparr>"
    by (rule acceptOffer_core [OF a3, where a = a]) (use core_distinct(3) [OF b] lk(2) a(1) off in simp_all)
  have s3: "core s3 = (core s)\<lparr>s_assignments := t_update (\<lambda>a. a_id a = j)
      (\<lambda>a. a\<lparr>a_status := A_ACCEPTED, a_acceptedAt := Some now\<rparr>) (s_assignments s)\<rparr>"
    unfolding k3 by (simp add: lk(1,2))
  have t3: "s_deliveries s3 = s_deliveries s1" by (simp add: k3)
  have e3: "s_deliveryEvents s3 = s_deliveryEvents s" using arg_cong [OF s3, of s_deliveryEvents] by simp
  have "distinct (map d_id (s_deliveries s3))" using core_distinct(2) [of s1] b lk(1) t3 by simp
  from setAssigned_core [OF d3 this, of d]
  have "core s' = (core s)\<lparr>s_assignments := t_update (\<lambda>a. a_id a = j)
        (\<lambda>a. a\<lparr>a_status := A_ACCEPTED, a_acceptedAt := Some now\<rparr>) (s_assignments (core s)),
      s_deliveries := t_update (\<lambda>d. d_id d = a_deliveryId a) (\<lambda>d. d\<lparr>d_status := DRIVER_ASSIGNED\<rparr>) (s_deliveries (core s)),
      s_deliveryEvents := s_deliveryEvents (core s) @ [delivery_event_row (a_deliveryId a) ''DRIVER_ASSIGNED'' (Some (a_driverId a)) now]\<rparr>"
    using lk(3) off(3) t3 e3 arg_cong [OF lk(1), of s_deliveries] by (simp add: s3 a(2))
  moreover have "t_find d_id (a_deliveryId a) (s_deliveries (core s)) = Some (delivery_view d)" using lk(4) by simp
  ultimately show ?thesis
    using dispatch_spec.accepted [of j "core s" a "delivery_view d" now] a off by simp
qed

section \<open>The calls of the three services\<close>

lemma accept_moves: "moves s (snd (accept dir env now acc j s))"
proof -
  have "moves s' (snd (and_then (atomically (acceptInTx env now drv j)) (\<lambda>a s'. (toAcceptedView dir a s', s')) s'))" for drv s'
    by (rule moves_then, rule moves_atomically, erule (1) acceptInTx_spec) (simp add: moves_same)
  then show ?thesis
    by (auto simp: accept_def moves_same intro: moves_trans [OF expireOffer_moves] split: sum.splits)
qed

lemma rejectInTx_spec:
  assumes ok: "rejectOfferInTx now drv j s = Inr (r, s')" and b: "dispatch_inv (core s)"
  shows "dispatch_spec\<^sup>=\<^sup>= (core s) (core s')"
proof -
  obtain i where "s' = snd (releaseIfOffered now j A_REJECTED (snd (lockDelivery now i s)))"
    using ok by (auto simp: rejectOfferInTx_def ebind_Inr Let_def dest!: sndI split: if_splits prod.splits option.splits)
  then show ?thesis using release_spec [of "snd (lockDelivery now i s)" A_REJECTED now j] b by simp
qed

lemma reject_moves: "moves s (snd (rejectOffer dir env now n acc j s))"
proof -
  have "moves s' (snd (and_then (atomically (rejectOfferInTx now drv j)) (matchDelivery dir env now n) s'))" for drv s'
    by (rule moves_then, rule moves_atomically, erule (1) rejectInTx_spec) (rule matchDelivery_moves)
  then show ?thesis
    by (auto simp: rejectOffer_def moves_same intro: moves_trans [OF expireOffer_moves] split: sum.splits)
qed

lemma expire_continue_moves: "moves s (snd (expireAndContinue dir env now n j s))"
proof -
  have rel: "moves s (snd (releaseIfOffered now j A_EXPIRED (snd (lockDelivery now i s))))" for i
    using moves_step [OF release_spec, of "snd (lockDelivery now i s)" A_EXPIRED now j] by (simp add: moves_def)
  have "moves s' (snd (and_then (matchDelivery dir env now n i) (\<lambda>r. pure (Inr (Some r))) s'))" for i s'
    by (rule moves_then, rule matchDelivery_moves) (simp add: moves_same pure_def)
  with rel show ?thesis
    by (auto simp: expireAndContinue_def moves_same intro: moves_trans dest!: sndI split: option.splits prod.splits)
qed

lemma getCurrentOffer_moves: "moves s (snd (getCurrentOffer dir env now acc s))"
  by (auto simp: getCurrentOffer_def Let_def moves_same expire_due_moves split: option.splits)

lemma createDelivery_moves: "moves s (snd (createForReadyOrder dir now n k s))"
proof -
  have "moves s (snd (atomically (createDeliveryInTx now n k) s))"
    by (rule moves_atomically) (rule createDelivery_spec, simp_all)
  then show ?thesis
    by (auto simp: createForReadyOrder_def dest!: sndI split: option.splits prod.splits sum.splits)
qed

lemma start_moves: "moves s (snd (startForReadyOrder dir env now i n k s))"
  unfolding startForReadyOrder_def by (rule moves_then [OF createDelivery_moves matchDelivery_moves])

lemma legacy_pickup_spec:
  assumes "ebind (lockActive now c (sameDelivery c) (dt_from (transitionForAction CONFIRM_PICKUP)) s) (\<lambda>(_, s1).
      Inr (transitionIfStatus now (aa_deliveryId c) (transitionForAction CONFIRM_PICKUP) (aa_driverId c) s1)) = Inr (r, s')"
    and b: "dispatch_inv (core s)"
  shows "dispatch_spec\<^sup>=\<^sup>= (core s) (core s')"
proof -
  have "moveInTx dir env now CONFIRM_PICKUP c s = Inr (r, s')"
    using assms(1) by (simp add: moveInTx_def actionRequiresArrivalLocation_def)
  from move_spec [OF this b] show ?thesis by simp
qed

lemma view_moves:
  "moves s (snd (currentOr404 dir acc s))" "moves s (snd (afterMove dir acc m s))" "moves s (snd (completedView dir c s))"
  by (auto simp: currentOr404_def afterMove_def completedView_def throw_def moves_same split: option.splits)

lemma verify_moves:
  assumes c: "resolveActiveAssignment dir acc s = Inr c"
  shows "moves s (snd (verifyForConfirmPickup cr now (aa_deliveryId c) (aa_driverId c) j v body s))"
proof (rule moves_step)
  obtain a where "a \<in> set (s_assignments s)" "a_status a = A_ACCEPTED" "a_deliveryId a = aa_deliveryId c" "a_driverId a = aa_driverId c"
    using resolve_ok [OF c] by metis
  then show "dispatch_spec\<^sup>=\<^sup>= (core s) (core (snd (verifyForConfirmPickup cr now (aa_deliveryId c) (aa_driverId c) j v body s)))"
    if "dispatch_inv (core s)" using verify_spec [OF that, of a] by metis
qed

lemma pickup_moves: "moves s (snd (confirmPickup dir cr now acc body s))"
proof (cases "resolveActiveAssignment dir acc s")
  case (Inr c)
  have "moves s' (snd (and_then (atomically (\<lambda>s0. ebind (lockActive now c (sameDelivery c)
      (dt_from (transitionForAction CONFIRM_PICKUP)) s0) (\<lambda>(_, s1). Inr (transitionIfStatus now (aa_deliveryId c)
      (transitionForAction CONFIRM_PICKUP) (aa_driverId c) s1)))) (afterMove dir acc) s'))" for s'
    by (rule moves_then, rule moves_atomically, erule (1) legacy_pickup_spec) (rule view_moves)
  with Inr show ?thesis
    unfolding confirmPickup_def
    by (auto simp: view_moves intro!: moves_then verify_moves split: verify_result.splits)
qed (simp add: confirmPickup_def moves_same)

lemma complete_moves:
  "resolveActiveAssignment dir acc s = Inr c \<Longrightarrow> moves s (snd (completeDelivery dir' now n l c s))"
  unfolding completeDelivery_def
  by (rule moves_then, rule moves_atomically) (auto intro: complete_spec view_moves)

lemma performAction_moves: "moves s (snd (performAction dir env cr now n l acc act body s))"
proof -
  have "moves s' (snd (and_then (atomically (moveInTx dir env now act c)) (afterMove dir acc) s'))"
    if "act \<noteq> COMPLETE_DELIVERY" for c s'
    by (rule moves_then, rule moves_atomically, erule (1) move_spec [OF _ _ that]) (rule view_moves)
  then show ?thesis
    by (auto simp: performAction_def pickup_moves moves_same complete_moves split: sum.splits)
qed

section \<open>Calls that leave the books alone\<close>

lemma quiet_atomically: "(\<And>r s'. t s = Inr (r, s') \<Longrightarrow> core s' = core s) \<Longrightarrow> core (snd (atomically t s)) = core s"
  by (auto simp: atomically_def split: sum.splits)

lemma insertHandoff_core: "insertHandoff h s = Inr (r, s') \<Longrightarrow> core s' = core s"
  by (auto simp: insertHandoff_def Let_def split: if_splits)

lemma issuePending_core: "issuePending cr now n code acc c s = Inr (r, s') \<Longrightarrow> core s' = core s"
  by (auto simp: issuePending_def ebind_Inr dest: insertHandoff_core)

lemma handoff_core:
  "core (snd (getOrIssueForMerchant dir cr now n code acc m k s)) = core s"
  "core (snd (regenerateForMerchant dir cr now n code acc m k s)) = core s"
  "core (invalidateForDelivery now i why s) = core s"
proof -
  have "issueInTx cr now n code acc c s = Inr (r, s') \<Longrightarrow> core s' = core s" for c r s'
    by (auto simp: issueInTx_def Let_def ebind_Inr dest: issuePending_core split: option.splits if_splits)
  then have a: "core (snd (atomically (issueInTx cr now n code acc c) s)) = core s" for c
    by (rule quiet_atomically)
  then show "core (snd (getOrIssueForMerchant dir cr now n code acc m k s)) = core s"
    by (auto simp: getOrIssueForMerchant_def split: sum.splits option.splits)
  have "core (snd (atomically (\<lambda>s0. issuePending cr now n code acc c
      (invalidatePending now (hc_deliveryId c) ''REGENERATED'' (snd (lockDelivery now (hc_deliveryId c) s0)))) s)) = core s" for c
    by (rule quiet_atomically) (auto dest: issuePending_core)
  then show "core (snd (regenerateForMerchant dir cr now n code acc m k s)) = core s"
    by (auto simp: regenerateForMerchant_def split: sum.splits)
qed (simp add: invalidateForDelivery_def)

text \<open>The driver calls write the four tables of the fleet and nothing else.\<close>

definition elsewhere :: "shop \<Rightarrow> shop" where
  "elsewhere s = s\<lparr>s_drivers := [], s_documents := [], s_vehicles := [], s_availability := []\<rparr>"

lemma elsewhere_updates [simp]:
  "elsewhere (s\<lparr>s_drivers := xs\<rparr>) = elsewhere s" "elsewhere (s\<lparr>s_documents := ys\<rparr>) = elsewhere s"
  "elsewhere (s\<lparr>s_vehicles := zs\<rparr>) = elsewhere s" "elsewhere (s\<lparr>s_availability := bs\<rparr>) = elsewhere s"
  by (simp_all add: elsewhere_def)

lemma elsewhere_same:
  assumes "elsewhere s' = elsewhere s"
  shows "core s' = core s" "s_handoffs s' = s_handoffs s"
  using arg_cong [OF assms, of core] arg_cong [OF assms, of s_handoffs] by (simp_all add: elsewhere_def)

lemma roster_writes_elsewhere [simp]:
  "elsewhere (touched now i s) = elsewhere s" "elsewhere (updateDocumentFileUrl i url s) = elsewhere s"
  "elsewhere (deactivateVehicles drv s) = elsewhere s" "elsewhere (snd (setVerificationStatus now i st ap s)) = elsewhere s"
  "elsewhere (update_driver i g s) = elsewhere s" "elsewhere (snd (lockProfile now i s)) = elsewhere s"
  "elsewhere (forceAvailabilityStatus i av s) = elsewhere s" "elsewhere (snd (setAvailabilityStatus i av av' s)) = elsewhere s"
  by (simp_all add: touched_def updateDocumentFileUrl_def deactivateVehicles_def setVerificationStatus_def Let_def update_driver_def
      lockProfile_def forceAvailabilityStatus_def setAvailabilityStatus_def)

lemma elsewhere_atomically:
  "(\<And>r s'. t s = Inr (r, s') \<Longrightarrow> elsewhere s' = elsewhere s) \<Longrightarrow> elsewhere (snd (atomically t s)) = elsewhere s"
  by (auto simp: atomically_def split: sum.splits)

lemma lockEditable_elsewhere: "lockEditable now i s = Inr (l, s1) \<Longrightarrow> elsewhere s1 = elsewhere s"
  using lockEditable_ok(1) by force

lemma lockProfile_elsewhere: "lockProfile now i s = (r, s1) \<Longrightarrow> elsewhere s1 = elsewhere s"
  using roster_writes_elsewhere(6) [of now i s] by simp

lemma own_rows_elsewhere:
  "createActiveVehicle now i drv input s = Inr (v, s') \<Longrightarrow> elsewhere s' = elsewhere s"
  "updateVehicleRow i patch s = Inr (x, s') \<Longrightarrow> elsewhere s' = elsewhere s"
  "upsertDocumentRow i drv ty expiry s = Inr (d, s') \<Longrightarrow> elsewhere s' = elsewhere s"
  by (auto simp: createActiveVehicle_def updateVehicleRow_def upsertDocumentRow_def Let_def split: if_splits option.splits)

lemma status_elsewhere:
  "setVerificationStatus now i st ap s = (u, s') \<Longrightarrow> elsewhere s' = elsewhere s"
  "setAvailabilityStatus i fr to' s = (v, s') \<Longrightarrow> elsewhere s' = elsewhere s"
  using roster_writes_elsewhere(4) [of now i st ap s] roster_writes_elsewhere(8) [of i fr to' s] by simp_all

lemma profile_tx_elsewhere:
  "createProfile now i acc name s = Inr (r1, s') \<Longrightarrow> elsewhere s' = elsewhere s"
  "updateProfile now acc name' s = Inr (r1, s') \<Longrightarrow> elsewhere s' = elsewhere s"
  subgoal by (auto simp: createProfile_def createProfileWithAvailability_def Let_def split: if_splits)
  subgoal by (auto simp: updateProfile_def ebind_Inr Let_def split: if_splits option.splits)
  done

lemma vehicle_tx_elsewhere:
  "createVehicle now i acc input s = Inr (r2, s') \<Longrightarrow> elsewhere s' = elsewhere s"
  "updateVehicle now acc i patch s = Inr (r2, s') \<Longrightarrow> elsewhere s' = elsewhere s"
proof -
  assume "createVehicle now i acc input s = Inr (r2, s')"
  then obtain p :: driver_row and l s1 input' where "lockEditable now (dr_id p) s = Inr (l, s1)"
    "createActiveVehicle now i (dr_id l) input' s1 = Inr (r2, s')"
    by (auto simp: createVehicle_def ebind_Inr split: if_splits)
  then show "elsewhere s' = elsewhere s" by (metis lockEditable_elsewhere own_rows_elsewhere(1))
next
  assume "updateVehicle now acc i patch s = Inr (r2, s')"
  then obtain p :: driver_row and l s1 v patch' x where "lockEditable now (dr_id p) s = Inr (l, s1)"
    "findOwnedVehicle (dr_id l) i s1 = Some v" "updateVehicleRow i patch' s1 = Inr (x, s')"
    by (auto simp: updateVehicle_def ebind_Inr split: if_splits option.splits)
  then show "elsewhere s' = elsewhere s" by (metis lockEditable_elsewhere own_rows_elsewhere(2))
qed

lemma submit_tx_elsewhere: "submitVerificationInTx now i s = Inr (r3, s') \<Longrightarrow> elsewhere s' = elsewhere s"
  by (cases "lockProfile now i s"; cases "fst (lockProfile now i s)")
    (auto simp: submitVerificationInTx_def ebind_Inr dest: lockProfile_elsewhere split: if_splits)

lemma online_tx_elsewhere: "goOnlineInTx now i s = Inr (r3, s') \<Longrightarrow> elsewhere s' = elsewhere s"
  by (cases "lockProfile now i s"; cases "fst (lockProfile now i s)")
    (auto simp: goOnlineInTx_def split: if_splits option.splits prod.splits, metis lockProfile_elsewhere status_elsewhere(2))

lemma offline_tx_elsewhere: "goOfflineInTx now i s = Inr (r3, s') \<Longrightarrow> elsewhere s' = elsewhere s"
  by (cases "lockProfile now i s"; cases "fst (lockProfile now i s)")
    (auto simp: goOfflineInTx_def split: if_splits option.splits prod.splits, (metis lockProfile_elsewhere status_elsewhere(2))+)

lemmas driver_tx_elsewhere = profile_tx_elsewhere vehicle_tx_elsewhere submit_tx_elsewhere online_tx_elsewhere offline_tx_elsewhere

lemma review_tx_elsewhere:
  "reviewTransitionInTx now i fr st' ap s = Inr (r, s') \<Longrightarrow> elsewhere s' = elsewhere s"
  "suspendInTx now i s = Inr (r', s') \<Longrightarrow> elsewhere s' = elsewhere s"
  subgoal by (auto simp: reviewTransitionInTx_def Let_def dest!: lockProfile_elsewhere status_elsewhere split: if_splits option.splits prod.splits)
  subgoal by (auto simp: suspendInTx_def Let_def dest!: lockProfile_elsewhere status_elsewhere split: if_splits option.splits prod.splits)
  done

lemma document_elsewhere: "elsewhere (snd (upsertDocument promote now i acc ty expiry upload s)) = elsewhere s"
proof -
  have t: "ebind (lockEditable now p s0) (\<lambda>(l, s1). upsertDocumentRow i (dr_id l) ty expiry s1) = Inr (d, s') \<Longrightarrow> elsewhere s' = elsewhere s0" for p d s' s0
    by (auto simp: ebind_Inr dest!: lockEditable_elsewhere own_rows_elsewhere)
  show ?thesis
    by (auto simp: upsertDocument_def then_me_same and_then_def atomically_def dest!: t split: sum.splits prod.splits option.splits)
qed

lemma run_driver_elsewhere: "elsewhere (run_driver promote now c s) = elsewhere s"
proof (cases c)
  case (UpsertDocument i acc type expiry upload)
  then show ?thesis by (simp add: document_elsewhere)
qed (auto simp: submitVerification_def goOnline_def goOffline_def then_me_same approveInTx_def rejectInTx_def
  intro!: elsewhere_atomically dest: driver_tx_elsewhere review_tx_elsewhere split: option.splits)

lemmas run_driver_core = elsewhere_same [OF run_driver_elsewhere]

section \<open>Histories\<close>

record dispatch_env =
  de_dir :: directory
  de_matching :: matching_env
  de_driver :: driver_env
  de_crypto :: crypto
  de_promote :: "string \<Rightarrow> app_error + string"

text \<open>The calls of the delivery, matching, handoff and driver services, with the identifiers they generate.\<close>

datatype dispatch_call =
    StartMatching string string string
  | MatchAgain string string
  | AcceptOffer string string
  | RejectOffer string string string
  | ExpireOfferJob string string
  | CurrentOffer string
  | DriverAction string string string driver_action "confirm_body option"
  | IssueCode string string string string string
  | RegenerateCode string string string string string
  | DriverCall driver_call

fun run_dispatch :: "dispatch_env \<Rightarrow> instant \<Rightarrow> dispatch_call \<Rightarrow> shop \<Rightarrow> shop" where
  "run_dispatch env now (StartMatching i n k) s = snd (startForReadyOrder (de_dir env) (de_matching env) now i n k s)"
| "run_dispatch env now (MatchAgain n i) s = snd (matchDelivery (de_dir env) (de_matching env) now n i s)"
| "run_dispatch env now (AcceptOffer acc j) s = snd (accept (de_dir env) (de_matching env) now acc j s)"
| "run_dispatch env now (RejectOffer n acc j) s = snd (rejectOffer (de_dir env) (de_matching env) now n acc j s)"
| "run_dispatch env now (ExpireOfferJob n j) s = snd (expireAndContinue (de_dir env) (de_matching env) now n j s)"
| "run_dispatch env now (CurrentOffer acc) s = snd (getCurrentOffer (de_dir env) (de_matching env) now acc s)"
| "run_dispatch env now (DriverAction n l acc action body) s =
     snd (performAction (de_dir env) (de_driver env) (de_crypto env) now n l acc action body s)"
| "run_dispatch env now (IssueCode n code acc m k) s =
     snd (getOrIssueForMerchant (de_dir env) (de_crypto env) now n code acc m k s)"
| "run_dispatch env now (RegenerateCode n code acc m k) s =
     snd (regenerateForMerchant (de_dir env) (de_crypto env) now n code acc m k s)"
| "run_dispatch env now (DriverCall c) s = run_driver (de_promote env) now c s"

lemma run_dispatch_moves: "moves s (run_dispatch env now c s)"
  by (cases c) (simp_all add: start_moves matchDelivery_moves accept_moves reject_moves expire_continue_moves
      getCurrentOffer_moves performAction_moves moves_same handoff_core run_driver_core)

text \<open>The ledger entries are those of the tables, delivered orders included.\<close>

definition dispatch_books :: "shop \<Rightarrow> bool" where
  "dispatch_books s \<longleftrightarrow> dispatch_inv s \<and> balanced s"

lemma dispatch_path_books: "dispatch_spec\<^sup>*\<^sup>* s s' \<Longrightarrow> dispatch_books s \<Longrightarrow> dispatch_books s'"
  by (induction rule: rtranclp_induct) (auto simp: dispatch_books_def intro: dispatch_spec_inv dispatch_spec_balanced)

interpretation dispatch: refined_service
  "\<lambda>(now, c) s. Inr (run_dispatch env now c s) :: app_error + shop" core "dispatch_spec\<^sup>*\<^sup>*" dispatch_books for env
proof
  fix s c s'
  assume "dispatch_books (core s)" "(case c of (now, c) \<Rightarrow> \<lambda>s. Inr (run_dispatch env now c s) :: app_error + shop) s = Inr s'"
  then show "dispatch_spec\<^sup>*\<^sup>* (core s) (core s')"
    using run_dispatch_moves by (cases c) (auto simp: dispatch_books_def moves_def)
qed (rule dispatch_path_books)

end
