(* ===== verification/Delivery_Laws.thy ===== *)
theory Delivery_Laws
  imports Delivery_Flow
begin

text \<open>
  What the calls of the delivery, matching, handoff and driver services guarantee, whatever their
  order: the properties of a delivery, read off the invariant of \<open>dispatch_spec\<close> through the
  interpretation \<open>dispatch\<close>.
\<close>

section \<open>Histories of calls\<close>

definition dispatch_history :: "dispatch_env \<Rightarrow> (instant \<times> dispatch_call) list \<Rightarrow> shop \<Rightarrow> shop" where
  "dispatch_history env cs s = fold (\<lambda>(now, c). run_dispatch env now c) cs s"

lemma history_calls:
  "run_calls (\<lambda>(now, c) s. Inr (run_dispatch env now c s) :: app_error + shop) cs s = Inr (dispatch_history env cs s)"
  by (induction cs arbitrary: s) (auto simp: dispatch_history_def)

lemma history_path:
  "dispatch_books (core s) \<Longrightarrow> dispatch_spec\<^sup>*\<^sup>* (core s) (core (dispatch_history env cs s))"
  using dispatch.calls_path [OF history_calls] by simp

lemma history_books: "dispatch_books (core s) \<Longrightarrow> dispatch_books (core (dispatch_history env cs s))"
  by (rule dispatch.calls_inv [OF history_calls])

lemma core_reads [simp]:
  "events_of i (core s) = events_of i s" "accepted_of i (core s) = accepted_of i s" "offers_of i (core s) = offers_of i s"
  "earnings_of i (core s) = earnings_of i s" "open_drivers (core s) = open_drivers s"
  by (simp_all add: events_of_def accepted_of_def offers_of_def earnings_of_def open_drivers_def)

lemma core_delivery_ok: "dispatch_inv (core s) \<Longrightarrow> d \<in> set (s_deliveries s) \<Longrightarrow> delivery_ok (core s) (delivery_view d)"
  by (rule dispatch_invD(11)) simp_all

lemma core_order [simp]: "order_of_delivery (core s) i = order_of_delivery s i"
  by (cases "t_find d_id i (s_deliveries s)") (simp_all add: order_of_delivery_def find_map_view)

lemma balanced_core: "balanced (core s) = balanced s"
proof -
  have "shop_events (core s) = shop_events s"
    by (simp add: shop_events_def payment_events_def collection_events_def remittance_events_def earning_events_def
        settlement_events_def refund_events_def filter_map comp_def) (simp add: core_def)
  then show ?thesis by (simp add: balanced_def)
qed

text \<open>The rows of a delivery that are still open.\<close>

definition open_of :: "string \<Rightarrow> shop \<Rightarrow> assignment_row list" where
  "open_of i s = filter (\<lambda>a. a_deliveryId a = i \<and> a_releasedAt a = None) (s_assignments s)"

lemma open_rows:
  assumes b: "dispatch_inv s" and d: "t_find d_id i (s_deliveries s) = Some d"
  shows "open_of i s = (if d_status d = SEARCHING_DRIVER then offers_of i s
    else if d_status d = DELIVERED then [] else accepted_of i s)"
proof -
  have ok: "(a_releasedAt a = None) = (a_status a = A_OFFERED \<or> a_status a = A_ACCEPTED)"
    "(a_acceptedAt a \<noteq> None) = (a_status a = A_ACCEPTED \<or> a_status a = A_RELEASED)" if "a \<in> set (s_assignments s)" for a
    using dispatch_invD(10) [OF b that] by (auto simp: assignment_ok_def)
  note sv = delivery_okD(6) [OF b d, unfolded served_def]
  have mem: "(x \<in> set (offers_of i s)) = (x \<in> set (s_assignments s) \<and> a_deliveryId x = i \<and> a_status x = A_OFFERED)"
    "(x \<in> set (accepted_of i s)) = (x \<in> set (s_assignments s) \<and> a_deliveryId x = i \<and> a_acceptedAt x \<noteq> None)" for x
    by (auto simp: offers_of_def accepted_of_def)
  show ?thesis
  proof (cases "d_status d = SEARCHING_DRIVER")
    case True
    then have none: "accepted_of i s = []" using sv by simp
    have "open_of i s = offers_of i s"
      unfolding open_of_def offers_of_def
    proof (rule filter_cong [OF refl])
      fix x assume x: "x \<in> set (s_assignments s)"
      have "x \<notin> set (accepted_of i s)" using none by simp
      then show "(a_deliveryId x = i \<and> a_releasedAt x = None) = (a_deliveryId x = i \<and> a_status x = A_OFFERED)"
        using ok [OF x] x unfolding mem by auto
    qed
    with True show ?thesis by simp
  next
    case False
    then obtain a where a: "offers_of i s = []" "accepted_of i s = [a]"
      "a_status a = (if d_status d = DELIVERED then A_RELEASED else A_ACCEPTED)" using sv by auto
    have row: "(a_deliveryId x = i \<and> a_releasedAt x = None) = (d_status d \<noteq> DELIVERED \<and> a_deliveryId x = i \<and> a_acceptedAt x \<noteq> None)"
      if x: "x \<in> set (s_assignments s)" for x
    proof -
      have no: "x \<notin> set (offers_of i s)" using a(1) by simp
      have one: "x \<in> set (accepted_of i s) \<Longrightarrow> x = a" using a(2) by simp
      show ?thesis
        using no one a(3) ok [OF x] x unfolding mem by (cases "a_status x") auto
    qed
    show ?thesis
    proof (cases "d_status d = DELIVERED")
      case True
      have "open_of i s = []" unfolding open_of_def using row True by (simp add: filter_empty_conv)
      with True show ?thesis by simp
    next
      case nd: False
      have "open_of i s = accepted_of i s"
        unfolding open_of_def accepted_of_def by (rule filter_cong [OF refl]) (simp add: row nd)
      with nd False show ?thesis by simp
    qed
  qed
qed

text \<open>A delivered order was paid: electronically before, or in cash to the driver who brought it.\<close>

definition order_paid :: "shop \<Rightarrow> delivery_row \<Rightarrow> bool" where
  "order_paid s d \<longleftrightarrow> (\<exists>p. t_find p_orderId (d_orderId d) (s_payments s) = Some p \<and> p_status p = PAY_SUCCEEDED \<and>
     (p_method p = PAYMENT_METHOD_COD \<longrightarrow> (\<exists>c \<in> set (s_collections s). co_orderId c = d_orderId d \<and>
        co_collectedAmountMinor c = p_amountMinor p \<and>
        (\<exists>e \<in> set (s_deliveryEvents s). de_deliveryId e = d_id d \<and> de_type e = ''DELIVERY_COMPLETED'' \<and>
           de_driverId e = Some (co_driverId c)))))"

definition delivered_before :: "shop \<Rightarrow> delivery_row \<Rightarrow> bool" where
  "delivered_before s d \<longleftrightarrow> (\<exists>d0 \<in> set (s_deliveries s). d_id d0 = d_id d \<and> d_status d0 = DELIVERED)"

lemma order_paid_mono:
  "order_paid s d \<Longrightarrow> s_payments s' = s_payments s \<Longrightarrow> s_collections s' = s_collections s \<Longrightarrow>
   set (s_deliveryEvents s) \<subseteq> set (s_deliveryEvents s') \<Longrightarrow> d_id d' = d_id d \<Longrightarrow> d_orderId d' = d_orderId d \<Longrightarrow> order_paid s' d'"
  unfolding order_paid_def by (simp add: subset_iff) blast

lemma paid_step:
  assumes st: "dispatch_spec s s'" and inv: "dispatch_inv s"
    and old: "\<And>d. d \<in> set (s_deliveries s) \<Longrightarrow> d_status d = DELIVERED \<Longrightarrow> delivered_before s0 d \<or> order_paid s d"
    and d: "d \<in> set (s_deliveries s')" "d_status d = DELIVERED"
  shows "delivered_before s0 d \<or> order_paid s' d"
proof -
  have frame: "s_payments s' = s_payments s" "s_collections s' = s_collections s"
    "set (s_deliveryEvents s) \<subseteq> set (s_deliveryEvents s')"
    using st by (cases; auto)+
  have keep: "delivered_before s0 d \<or> order_paid s' d" if x: "x \<in> set (s_deliveries s)" "d_status x = DELIVERED"
      "d_id d = d_id x" "d_orderId d = d_orderId x" for x
    using old [OF x(1,2)] order_paid_mono [OF _ frame x(3,4)] x(3) by (auto simp: delivered_before_def)
  from st show ?thesis
  proof cases
    case (created i k o' now)
    then have "d \<in> set (s_deliveries s)" using d by (auto simp: new_delivery_def)
    then show ?thesis using keep d(2) by blast
  next
    case (accepted j a x now)
    then have "d \<in> set (s_deliveries s)" using d by (auto simp: t_update_in split: if_splits)
    then show ?thesis using keep d(2) by blast
  next
    case (moved a x act now)
    obtain y where y: "y \<in> set (s_deliveries s)" "d = (if d_id y = a_deliveryId a then walk act now y else y)"
      using d(1) moved(1) by (auto simp: t_update_in)
    then have "d = y" using d(2) moved(3) by (cases act) (auto split: if_splits)
    with y(1) keep d(2) show ?thesis by blast
  next
    case (delivered a x o' sn p e n now l le es oe)
    obtain y where y: "y \<in> set (s_deliveries s)" "d = (if d_id y = d_id x then walk COMPLETE_DELIVERY now y else y)"
      using d(1) delivered(1) by (auto simp: t_update_in)
    show ?thesis
    proof (cases "d_id y = d_id x")
      case False
      with y keep d(2) show ?thesis by simp
    next
      case True
      have "y = x" using t_find_distinct [OF dispatch_invD(2) [OF inv] y(1)] True delivered(2) t_find_Some [OF delivered(2)] by simp
      then have dd: "d_id d = d_id x" "d_orderId d = d_orderId x" using y(2) True by simp_all
      have "t_find p_orderId (d_orderId d) (s_payments s') = Some p" "p_status p = PAY_SUCCEEDED"
        using delivered(9,10) frame(1) dd(2) by simp_all
      moreover have "p_method p = PAYMENT_METHOD_COD \<longrightarrow> (\<exists>c \<in> set (s_collections s'). co_orderId c = d_orderId d \<and>
        co_collectedAmountMinor c = p_amountMinor p \<and>
        (\<exists>e \<in> set (s_deliveryEvents s'). de_deliveryId e = d_id d \<and> de_type e = ''DELIVERY_COMPLETED'' \<and>
           de_driverId e = Some (co_driverId c)))"
        using delivered(11) frame(2) dd by (auto simp: delivered(1) delivery_event_row_def)
      ultimately show ?thesis unfolding order_paid_def by blast
    qed
  qed (use d keep in auto)
qed

lemma paid_path:
  assumes "dispatch_spec\<^sup>*\<^sup>* s s'" and "dispatch_inv s" and "d \<in> set (s_deliveries s')" "d_status d = DELIVERED"
  shows "delivered_before s d \<or> order_paid s' d"
proof -
  from assms(1) have "dispatch_inv s' \<and> (\<forall>d \<in> set (s_deliveries s'). d_status d = DELIVERED \<longrightarrow> delivered_before s d \<or> order_paid s' d)"
  proof induction
    case base
    then show ?case using assms(2) by (auto simp: delivered_before_def)
  next
    case (step t u)
    then show ?case using paid_step [OF step.hyps(2), of s] dispatch_spec_inv by blast
  qed
  with assms(3,4) show ?thesis by blast
qed

section \<open>An example\<close>

text \<open>A paid order that is ready, and a driver with a motorcycle waiting online near by.\<close>

definition ready_payment :: payment_row where
  "ready_payment = example_payment\<lparr>p_id := ''payment-1''\<rparr>"

definition ready_entries :: "ledger_entry list" where
  "ready_entries = snd (projr (post_ledger_event ''led-0'' 0 (EvPayment ''payment-1'' ''order-1'' 900) []))"

definition ready_shop :: shop where
  "ready_shop = example_shop\<lparr>
     s_orders := [example_order\<lparr>o_status := O_ACTIVE, o_fulfillmentStatus := READY\<rparr>],
     s_payments := [ready_payment],
     s_documents := [\<lparr>doc_id = ''doc-1'', doc_driverId = ''drv'', doc_type = ''IDENTITY'', doc_fileUrl = ''a'',
         doc_status = ''PENDING'', doc_expiryDate = None\<rparr>,
       \<lparr>doc_id = ''doc-2'', doc_driverId = ''drv'', doc_type = ''DRIVING_LICENSE'', doc_fileUrl = ''b'',
         doc_status = ''PENDING'', doc_expiryDate = Some ''2030-01-01''\<rparr>],
     s_vehicles := [\<lparr>vh_id = ''veh-1'', vh_driverId = ''drv'', vh_type = ''MOTORCYCLE'', vh_plateNumber = ''123'',
       vh_model = ''M'', vh_color = None, vh_status = VEHICLE_ACTIVE, vh_createdAt = 0\<rparr>],
     s_availability := [\<lparr>av_driverId = ''drv'', av_status = AV_ONLINE, av_offlineAfterCurrentDelivery = False\<rparr>],
     s_addresses := [\<lparr>ad_orderId = ''order-1'', ad_latitude = JInt 36, ad_longitude = JInt 3\<rparr>],
     s_ledger := ready_entries\<rparr>"

definition courier_env :: dispatch_env where
  "courier_env = \<lparr>de_dir = example_directory,
     de_matching = \<lparr>mt_location = (\<lambda>_. Some \<lparr>lc_latitude = JInt 36, lc_longitude = JInt 3, lc_recordedAt = Some 0\<rparr>),
       mt_searchNear = (\<lambda>_ _ _ _. [\<lparr>cd_driverId = ''drv'', cd_distanceMeters = 10\<rparr>]), mt_distance = (\<lambda>_ _ _ _. JInt 10),
       mt_pickupRadiusMeters = JInt 5000, mt_candidateLimit = 5, mt_locationMaxAgeMs = 60000, mt_offerTimeoutMs = 30000\<rparr>,
     de_driver = \<lparr>en_distance = (\<lambda>_ _ _ _. JInt 10),
       en_location = (\<lambda>_. Some \<lparr>lc_latitude = JInt 36, lc_longitude = JInt 3, lc_recordedAt = Some 0\<rparr>),
       en_pickupRadiusMeters = JInt 200, en_dropoffRadiusMeters = JInt 200, en_locationMaxAgeMs = 60000\<rparr>,
     de_crypto = \<lparr>cr_hash = rev, cr_seal = id, cr_unseal = Some\<rparr>,
     de_promote = Inr\<rparr>"

definition courier_calls :: "(instant \<times> dispatch_call) list" where
  "courier_calls = [(1, StartMatching ''dlv-1'' ''asg-1'' ''order-1''), (2, AcceptOffer ''drv-acc'' ''asg-1''),
     (3, DriverAction [] [] ''drv-acc'' START_TO_PICKUP None), (4, DriverAction [] [] ''drv-acc'' ARRIVE_PICKUP None),
     (5, IssueCode ''hnd-1'' ''1234'' ''mer-acc'' ''mer'' ''order-1''),
     (6, DriverAction [] [] ''drv-acc'' CONFIRM_PICKUP (Some \<lparr>cb_pickupCode = Some ''1234'',
        cb_assignmentId = Some ''asg-1'', cb_assignmentVersion = Some 1\<rparr>)),
     (7, DriverAction [] [] ''drv-acc'' START_DELIVERY None), (8, DriverAction [] [] ''drv-acc'' ARRIVE_CUSTOMER None),
     (9, DriverAction ''earning-1'' ''led-1'' ''drv-acc'' COMPLETE_DELIVERY None)]"

definition courier_digest :: "shop \<Rightarrow> (string \<times> delivery_status) list \<times> string list \<times> (string \<times> int) list" where
  "courier_digest s = (map (\<lambda>d. (d_id d, d_status d)) (s_deliveries s), map de_type (s_deliveryEvents s),
     map (\<lambda>e. (e_driverId e, e_netEarningMinor e)) (s_earnings s))"

text \<open>The first stage ends at the pickup; the second one starts from there.\<close>

definition courier_stages :: "shop \<Rightarrow> (string \<times> delivery_status) list \<times> (string \<times> delivery_status) list \<times> string list \<times> (string \<times> int) list" where
  "courier_stages s = (map (\<lambda>d. (d_id d, d_status d)) (s_deliveries s),
     courier_digest (dispatch_history courier_env (drop 4 courier_calls) s))"

lemma courier_runs:
  "courier_stages (dispatch_history courier_env (take 4 courier_calls) ready_shop) =
     ([(''dlv-1'', AT_PICKUP)], [(''dlv-1'', DELIVERED)], DELIVERY_TRAIL, [(''drv'', 150)])"
  by code_simp

lemma history_append: "dispatch_history env (xs @ ys) s = dispatch_history env ys (dispatch_history env xs s)"
  by (simp add: dispatch_history_def)

lemma courier_run:
  "courier_digest (dispatch_history courier_env courier_calls ready_shop) =
     ([(''dlv-1'', DELIVERED)], DELIVERY_TRAIL, [(''drv'', 150)])"
  "map (\<lambda>d. (d_id d, d_status d)) (s_deliveries (dispatch_history courier_env (take 4 courier_calls) ready_shop)) = [(''dlv-1'', AT_PICKUP)]"
  using courier_runs history_append [of courier_env "take 4 courier_calls" "drop 4 courier_calls" ready_shop]
  by (simp_all add: courier_stages_def)

lemma ready_entry:
  "\<exists>e. post_ledger_event ''led-0'' 0 (EvPayment ''payment-1'' ''order-1'' 900) [] = Inr (e, ready_entries)"
proof -
  have "isl (post_ledger_event ''led-0'' 0 (EvPayment ''payment-1'' ''order-1'' 900) []) = False" by code_simp
  then show ?thesis
    by (cases "post_ledger_event ''led-0'' 0 (EvPayment ''payment-1'' ''order-1'' 900) []") (auto simp: ready_entries_def)
qed

lemma ready_books: "dispatch_books (core ready_shop)"
proof -
  obtain e where e: "post_ledger_event ''led-0'' 0 (EvPayment ''payment-1'' ''order-1'' 900) [] = Inr (e, ready_entries)"
    using ready_entry by blast
  let ?s0 = "ready_shop\<lparr>s_payments := [], s_ledger := []\<rparr>"
  have b0: "balanced ?s0"
    unfolding balanced_def by (rule exI [of _ "[]"])
      (simp add: ledger_inv_def shop_events_def shop_event_defs ready_shop_def example_shop_def)
  have "balanced ready_shop"
    by (rule balanced_new [OF b0, of "''led-0''" 0 "EvPayment ''payment-1'' ''order-1'' 900" e])
      (use e in \<open>simp_all add: shop_events_def shop_event_defs ready_shop_def example_shop_def ready_payment_def example_payment_def
        del: post_ledger_event.simps\<close>)
  moreover have "dispatch_inv (core ready_shop)"
    by (rule dispatch_invI) (auto simp: ready_shop_def example_shop_def open_drivers_def example_order_def)
  ultimately show ?thesis by (simp add: dispatch_books_def balanced_core)
qed

section \<open>Properties\<close>

text \<open>
  C32. Whatever the calls and their order, a delivery walks its statuses one by one: its events are
  the first ones of the trail, up to its status, each later one by the driver who accepted the
  delivery, and its timestamps are the instants of the events.
\<close>

theorem delivery_follows_trail:
  assumes "dispatch_books (core s)" and "d \<in> set (s_deliveries (dispatch_history env cs s))"
  shows "d_status d \<notin> {D_FAILED, D_CANCELLED} \<and> trail_fits (dispatch_history env cs s) d"
proof -
  let ?s = "dispatch_history env cs s"
  have "dispatch_inv (core ?s)" using history_books [OF assms(1)] by (simp add: dispatch_books_def)
  from core_delivery_ok [OF this assms(2)] show ?thesis
    by (simp add: delivery_ok_def trail_fits_def)
qed

theorem delivery_follows_trail_witness:
  "\<exists>d. d \<in> set (s_deliveries (dispatch_history courier_env courier_calls ready_shop)) \<and> d_status d = DELIVERED \<and>
     trail_fits (dispatch_history courier_env courier_calls ready_shop) d"
proof -
  obtain d where d: "d \<in> set (s_deliveries (dispatch_history courier_env courier_calls ready_shop))" "d_status d = DELIVERED"
    using courier_run(1) by (auto simp: courier_digest_def map_eq_Cons_conv)
  with delivery_follows_trail [OF ready_books d(1)] show ?thesis by blast
qed

text \<open>
  C33. No two drivers are on one delivery and no driver is on two: open assignments have distinct
  deliveries and distinct drivers, a searching delivery has at most one offer and nobody who
  accepted it, and from then on exactly one driver has accepted it.
\<close>

theorem one_driver_per_delivery:
  assumes "dispatch_books (core s)" and "d \<in> set (s_deliveries (dispatch_history env cs s))"
  shows "distinct (open_drivers (dispatch_history env cs s)) \<and>
    length (open_of (d_id d) (dispatch_history env cs s)) \<le> 1 \<and>
    length (accepted_of (d_id d) (dispatch_history env cs s)) = (if d_status d = SEARCHING_DRIVER then 0 else 1)"
proof -
  let ?s = "dispatch_history env cs s"
  have b: "dispatch_inv (core ?s)" using history_books [OF assms(1)] by (simp add: dispatch_books_def)
  have "delivery_view d \<in> set (s_deliveries (core ?s))" using assms(2) by simp
  from t_find_distinct [OF dispatch_invD(2) [OF b] this]
  have f: "t_find d_id (d_id d) (s_deliveries (core ?s)) = Some (delivery_view d)" by simp
  have o': "open_of (d_id d) (core ?s) = open_of (d_id d) ?s" by (simp add: open_of_def)
  show ?thesis
    using dispatch_invD(6) [OF b] open_rows [OF b f] delivery_okD(6) [OF b f] by (auto simp: o' served_def split: if_splits)
qed

theorem one_driver_per_delivery_witness:
  "\<exists>d. d \<in> set (s_deliveries (dispatch_history courier_env (take 4 courier_calls) ready_shop)) \<and>
     length (accepted_of (d_id d) (dispatch_history courier_env (take 4 courier_calls) ready_shop)) = 1"
proof -
  obtain d where d: "d \<in> set (s_deliveries (dispatch_history courier_env (take 4 courier_calls) ready_shop))" "d_status d = AT_PICKUP"
    using courier_run(2) by (auto simp: courier_digest_def map_eq_Cons_conv)
  with one_driver_per_delivery [OF ready_books d(1)] show ?thesis by auto
qed

text \<open>
  C34. A driver is paid for a delivery exactly when it is completed, once, and what the order's
  financial snapshot promised; the order is then completed; and what the ledger says the platform
  owes the driver is the sum of the driver's earnings.
\<close>

theorem driver_paid_once:
  assumes "dispatch_books (core s)" and "d \<in> set (s_deliveries (dispatch_history env cs s))"
  shows "paid_out (dispatch_history env cs s) d \<and>
    (\<exists>o' \<in> set (s_orders (dispatch_history env cs s)). o_id o' = d_orderId d \<and>
       o_status o' = (if d_status d = DELIVERED then O_COMPLETED else O_ACTIVE)) \<and>
    dp_driverPayableMinor (getDriverPositions drv (s_ledger (dispatch_history env cs s))) =
      show_int (earned_by drv (dispatch_history env cs s))"
proof -
  let ?s = "dispatch_history env cs s"
  have b: "dispatch_inv (core ?s)" "balanced (core ?s)" using history_books [OF assms(1)] by (simp_all add: dispatch_books_def)
  from core_delivery_ok [OF b(1) assms(2)] have ok: "delivery_ok (core ?s) (delivery_view d)" .
  then obtain o' where "o' \<in> set (s_orders (core ?s))" "o_id o' = d_orderId d"
    "o_status o' = (if d_status d = DELIVERED then O_COMPLETED else O_ACTIVE)"
    by (auto simp: delivery_ok_def order_fits_def dest!: t_find_Some)
  then have "\<exists>o' \<in> set (s_orders ?s). o_id o' = d_orderId d \<and> o_status o' = (if d_status d = DELIVERED then O_COMPLETED else O_ACTIVE)"
    by auto
  moreover have "paid_out (core ?s) (delivery_view d) = paid_out ?s d"
    by (cases "d_status d = DELIVERED") (simp_all add: paid_out_def earning_pays_def)
  then have "paid_out ?s d" using ok by (simp add: delivery_ok_def)
  moreover have "balanced ?s" using b(2) by (simp add: balanced_core)
  ultimately show ?thesis using balanced_positions(2) [of ?s drv] by blast
qed

theorem driver_paid_once_witness:
  "dp_driverPayableMinor (getDriverPositions ''drv'' (s_ledger (dispatch_history courier_env courier_calls ready_shop))) = ''150''"
proof -
  obtain d where d: "d \<in> set (s_deliveries (dispatch_history courier_env courier_calls ready_shop))"
    using courier_run(1) by (auto simp: courier_digest_def map_eq_Cons_conv)
  have "earned_by ''drv'' (dispatch_history courier_env courier_calls ready_shop) = 150"
    using courier_run(1) by (auto simp: courier_digest_def earned_by_def map_eq_Cons_conv)
  moreover have "show_int 150 = ''150''" by code_simp
  ultimately show ?thesis using driver_paid_once [OF ready_books d, of "''drv''"] by simp
qed

text \<open>
  C35. No order is delivered unpaid: a delivery that was not delivered before belongs to a
  succeeded payment, and with cash on delivery the driver who completed it collected the amount.
\<close>

theorem delivered_orders_are_paid:
  assumes "dispatch_books (core s)" and "d \<in> set (s_deliveries (dispatch_history env cs s))" and "d_status d = DELIVERED"
  shows "delivered_before s d \<or> order_paid (dispatch_history env cs s) d"
proof -
  let ?s = "dispatch_history env cs s"
  have "dispatch_inv (core s)" using assms(1) by (simp add: dispatch_books_def)
  from paid_path [OF history_path [OF assms(1)] this, of "delivery_view d" env cs] assms(2,3)
  have "delivered_before (core s) (delivery_view d) \<or> order_paid (core ?s) (delivery_view d)" by simp
  moreover have "delivered_before (core s) (delivery_view d) = delivered_before s d" by (auto simp: delivered_before_def)
  moreover have "order_paid (core ?s) (delivery_view d) = order_paid ?s d"
    by (cases "t_find p_orderId (d_orderId d) (s_payments ?s)") (simp_all add: order_paid_def find_map_view)
  ultimately show ?thesis by simp
qed

theorem delivered_orders_are_paid_witness:
  "\<exists>d. d \<in> set (s_deliveries (dispatch_history courier_env courier_calls ready_shop)) \<and>
     order_paid (dispatch_history courier_env courier_calls ready_shop) d"
proof -
  obtain d where d: "d \<in> set (s_deliveries (dispatch_history courier_env courier_calls ready_shop))" "d_status d = DELIVERED"
    using courier_run(1) by (auto simp: courier_digest_def map_eq_Cons_conv)
  have "\<not> delivered_before ready_shop d" by (simp add: delivered_before_def ready_shop_def example_shop_def)
  with delivered_orders_are_paid [OF ready_books d] d(1) show ?thesis by blast
qed

end
