(* ===== verification/Handoff_Laws.thy ===== *)
theory Handoff_Laws
  imports Delivery_Laws
begin

text \<open>
  The pickup code: how often a challenge can be guessed wrong before it expires, what a confirmed
  code proves, and a way around it.
\<close>

section \<open>The attempts of a challenge\<close>

text \<open>
  The fifth wrong code locks a challenge for fifteen minutes, and so does each one after a lock is
  over. A challenge lives thirty minutes from its creation, so a sixth wrong code is the last.
\<close>

definition challenge_ok :: "instant \<Rightarrow> handoff_row \<Rightarrow> bool" where
  "challenge_ok t h \<longleftrightarrow> h_maxAttempts h = PICKUP_HANDOFF_MAX_ATTEMPTS \<and>
     h_expiresAt h = h_createdAt h + PICKUP_HANDOFF_TTL_MS \<and> h_createdAt h \<le> t \<and>
     0 \<le> h_attemptCount h \<and> h_attemptCount h \<le> 6 \<and>
     (h_status h = H_PENDING \<longrightarrow> h_lockedUntil h = None \<and>
        (5 \<le> h_attemptCount h \<longrightarrow> h_createdAt h + (h_attemptCount h - 4) * PICKUP_HANDOFF_LOCK_DURATION_MS \<le> t)) \<and>
     (h_status h = H_LOCKED \<longrightarrow> 5 \<le> h_attemptCount h \<and>
        (\<exists>u. h_lockedUntil h = Some u \<and> h_createdAt h + (h_attemptCount h - 4) * PICKUP_HANDOFF_LOCK_DURATION_MS \<le> u))"

definition challenges_ok :: "instant \<Rightarrow> shop \<Rightarrow> bool" where
  "challenges_ok t s \<longleftrightarrow> distinct (map h_id (s_handoffs s)) \<and> (\<forall>h \<in> set (s_handoffs s). challenge_ok t h)"

lemmas handoff_numbers = PICKUP_HANDOFF_MAX_ATTEMPTS_def PICKUP_HANDOFF_TTL_MS_def PICKUP_HANDOFF_LOCK_DURATION_MS_def

lemma challenge_mono: "challenge_ok t h \<Longrightarrow> t \<le> t' \<Longrightarrow> challenge_ok t' h"
  by (auto simp: challenge_ok_def)

lemma challenges_mono: "challenges_ok t s \<Longrightarrow> t \<le> t' \<Longrightarrow> challenges_ok t' s"
  using challenge_mono by (auto simp: challenges_ok_def)

lemma challenges_same: "s_handoffs s' = s_handoffs s \<Longrightarrow> challenges_ok t s' = challenges_ok t s"
  by (simp add: challenges_ok_def)

lemma challenges_update:
  "challenges_ok t s \<Longrightarrow> (\<And>h. h_id (f h) = h_id h) \<Longrightarrow>
   (\<And>h. h \<in> set (s_handoffs s) \<Longrightarrow> challenge_ok t h \<Longrightarrow> p h \<Longrightarrow> challenge_ok t (f h)) \<Longrightarrow> challenges_ok t (update_handoffs p f s)"
  by (auto simp: challenges_ok_def update_handoffs_def t_update_in)

lemma end_challenge:
  "challenges_ok t s \<Longrightarrow> challenges_ok t (invalidatePending now i why s)"
  "challenges_ok t s \<Longrightarrow> challenges_ok t (markExpired j s)"
  "challenges_ok t s \<Longrightarrow> challenges_ok t (snd (consumeConditional now j i k v drv s))"
  unfolding invalidatePending_def markExpired_def consumeConditional_def Let_def snd_conv
  by (rule challenges_update; simp add: challenge_ok_def)+

lemma issue_challenge:
  assumes "challenges_ok now s" "issuePending cr now n code acc c s = Inr (r, s')"
  shows "challenges_ok now s'"
proof -
  obtain h where "s' = s\<lparr>s_handoffs := s_handoffs s @ [h]\<rparr>" "challenge_ok now h" "h_id h \<notin> h_id ` set (s_handoffs s)"
    using assms(2) by (auto simp: issuePending_def insertHandoff_def ebind_Inr challenge_ok_def handoff_numbers
        pickupHandoffExpiresAt_def split: if_splits)
  with assms(1) show ?thesis by (auto simp: challenges_ok_def)
qed

lemma challenge_found:
  "challenges_ok t s \<Longrightarrow> t_find h_id j (s_handoffs s) = Some x \<Longrightarrow> h \<in> set (s_handoffs s) \<Longrightarrow> h_id h = j \<Longrightarrow> h = x"
  using t_find_distinct [of h_id "s_handoffs s" h] by (simp add: challenges_ok_def)

lemma unlock_challenge:
  assumes ok: "challenges_ok now s" and u: "unlockIfDue now j s = Inr (r, s')"
  shows "challenges_ok now s'"
proof -
  have "s' = s \<or> (\<exists>x u. t_find h_id j (s_handoffs s) = Some x \<and> h_status x = H_LOCKED \<and> h_lockedUntil x = Some u \<and> u \<le> now \<and>
      s' = update_handoffs (\<lambda>h. h_id h = j) (\<lambda>h. h\<lparr>h_status := H_PENDING, h_lockedUntil := None\<rparr>) s)"
    using u by (auto simp: unlockIfDue_def Let_def split: option.splits if_splits)
  then show ?thesis
  proof (elim disjE exE conjE)
    fix x u assume x: "t_find h_id j (s_handoffs s) = Some x" "h_status x = H_LOCKED" "h_lockedUntil x = Some u" "u \<le> now"
      and s': "s' = update_handoffs (\<lambda>h. h_id h = j) (\<lambda>h. h\<lparr>h_status := H_PENDING, h_lockedUntil := None\<rparr>) s"
    show ?thesis
      unfolding s'
    proof (rule challenges_update [OF ok])
      fix h assume h: "h \<in> set (s_handoffs s)" "challenge_ok now h" "h_id h = j"
      with challenge_found [OF ok x(1)] x(2-4) show "challenge_ok now (h\<lparr>h_status := H_PENDING, h_lockedUntil := None\<rparr>)"
        by (auto simp: challenge_ok_def)
    qed simp
  qed (simp add: ok)
qed

text \<open>A wrong code, on a challenge that is neither expired nor locked.\<close>

lemma wrong_code_challenge:
  assumes ok: "challenges_ok now s" and x: "t_find h_id j (s_handoffs s) = Some x" "h_status x = H_PENDING" "now < h_expiresAt x"
  shows "challenges_ok now (snd (incrementAttemptsAndMaybeLock now j s))"
proof -
  let ?n = "h_attemptCount x + 1"
  have cx: "challenge_ok now x" using ok t_find_Some [OF x(1)] by (auto simp: challenges_ok_def)
  have n: "?n \<le> 6" "0 \<le> ?n" "h_maxAttempts x \<le> ?n \<Longrightarrow> h_createdAt x + (?n - 4) * PICKUP_HANDOFF_LOCK_DURATION_MS \<le> pickupHandoffLockedUntil now"
    using cx x(2,3) by (cases "h_attemptCount x = 4"; auto simp: challenge_ok_def handoff_numbers pickupHandoffLockedUntil_def algebra_simps)+
  show ?thesis
    unfolding incrementAttemptsAndMaybeLock_def x(1) option.case Let_def snd_conv
  proof (rule challenges_update [OF ok])
    fix h assume "h \<in> set (s_handoffs s)" "challenge_ok now h" "h_id h = j"
    with challenge_found [OF ok x(1)] have "h = x" by blast
    with cx n x(2) show "challenge_ok now (if h_maxAttempts x \<le> h_attemptCount x + 1
          then h\<lparr>h_attemptCount := h_attemptCount x + 1, h_status := H_LOCKED, h_lockedUntil := Some (pickupHandoffLockedUntil now)\<rparr>
          else h\<lparr>h_attemptCount := h_attemptCount x + 1\<rparr>)"
      by (auto simp: challenge_ok_def handoff_numbers)
  qed auto
qed

section \<open>Confirmations\<close>

lemma rows_same [simp]:
  "s_handoffs (snd (lockDelivery now i s)) = s_handoffs s" "s_handoffs (appendEvent e s) = s_handoffs s"
  by (simp_all add: lockDelivery_def Let_def appendEvent_def)

lemma transition_same: "transitionIfStatus now i t drv s = (b, s') \<Longrightarrow> s_handoffs s' = s_handoffs s"
  by (auto simp: transitionIfStatus_def Let_def split: option.splits if_splits)

lemma verifyCode_challenges:
  assumes ok: "challenges_ok now s" and x: "t_find h_id (h_id h) (s_handoffs s) = Some h" "h_status h \<in> {H_PENDING, H_LOCKED}"
    and v: "verifyCode cr now i drv j k code h s = (r, s')"
  shows "challenges_ok now s'"
proof -
  have "challenges_ok now (snd (incrementAttemptsAndMaybeLock now (h_id h) s))" if "h_status h = H_PENDING" "now < h_expiresAt h"
    by (rule wrong_code_challenge [OF ok x(1) that])
  then have inc: "challenges_ok now s2" if "incrementAttemptsAndMaybeLock now (h_id h) s = (u, s2)" "h_status h \<noteq> H_LOCKED"
      "\<not> isPickupHandoffExpired (h_expiresAt h) now" for u s2
    using that x(2) by (auto simp: isPickupHandoffExpired_def)
  have con: "challenges_ok now s2" if "consumeConditional now (h_id h) i j k drv s = (b, s2)" for b s2
    using end_challenge(3) [OF ok, of now "h_id h" i j k drv] that by simp
  have mov: "challenges_ok now s3" if "transitionIfStatus now i t drv s2 = (b, s3)" "challenges_ok now s2" for t b s2 s3
    using that challenges_same [OF transition_same [OF that(1)]] by simp
  show ?thesis
    using v end_challenge(2) [OF ok] ok
    by (auto simp: verifyCode_def split: if_splits option.splits prod.splits intro: inc mov con dest!: con)
qed

lemma newest_in: "newest hs = Some h \<Longrightarrow> h \<in> set hs"
  by (induction hs arbitrary: h) (auto split: option.splits if_splits)

lemma verifiable_in:
  assumes "findVerifiable i s = Some h"
  shows "h \<in> set (s_handoffs s)" "h_deliveryId h = i" "h_status h \<in> {H_PENDING, H_LOCKED}"
  using assms newest_in [of "filter (\<lambda>h. h_deliveryId h = i \<and> h_status h = H_LOCKED) (s_handoffs s)" h]
  by (auto simp: findVerifiable_def findPending_def find_Some_iff split: option.splits dest: nth_mem)

lemma verifyInTx_challenges:
  assumes ok: "challenges_ok now s" and v: "verifyInTx cr now i drv j k ch code s = Inr (r, s')"
  shows "challenges_ok now s'"
proof -
  let ?s = "snd (lockDelivery now i s)"
  have ok1: "challenges_ok now ?s" using ok challenges_same [of ?s s] by simp
  show ?thesis
  proof (cases "findVerifiable i ?s")
    case None
    then show ?thesis using v ok1 by (simp add: verifyInTx_def Let_def)
  next
    case (Some h)
    note h = verifiable_in [OF this]
    have f: "t_find h_id (h_id h) (s_handoffs ?s) = Some h"
      using t_find_distinct [of h_id "s_handoffs ?s" h] ok1 h(1) by (simp add: challenges_ok_def)
    consider "s' = ?s" | "h_status h = H_PENDING" "verifyCode cr now i drv j k code h ?s = (r, s')"
      | u s1 where "h_status h = H_LOCKED" "unlockIfDue now (h_id h) ?s = Inr (u, s1)"
        "verifyCode cr now i drv j k code (case u of None \<Rightarrow> h | Some x \<Rightarrow> x) s1 = (r, s')"
      using v Some h(3) by (auto simp: verifyInTx_def Let_def ebind_Inr split: if_splits)
    then show ?thesis
    proof cases
      case 1
      then show ?thesis using ok1 by simp
    next
      case 2
      from verifyCode_challenges [OF ok1 f _ 2(2)] 2(1) show ?thesis by simp
    next
      case (3 u s1)
      have ok2: "challenges_ok now s1" by (rule unlock_challenge [OF ok1 3(2)])
      obtain x where x: "u = Some x" "t_find h_id (h_id x) (s_handoffs s1) = Some x" "h_status x \<in> {H_PENDING, H_LOCKED}"
      proof -
        have "u = Some h \<and> s1 = ?s \<or> (\<exists>x. u = Some x \<and> t_find h_id (h_id h) (s_handoffs s1) = Some x \<and> h_status x = H_PENDING)"
          using 3(2) f by (auto simp: unlockIfDue_def Let_def update_handoffs_def t_find_update split: option.splits if_splits)
        then show thesis
        proof (elim disjE exE conjE)
          fix x assume x: "u = Some x" "t_find h_id (h_id h) (s_handoffs s1) = Some x" "h_status x = H_PENDING"
          then have "h_id x = h_id h" using t_find_Some by fastforce
          with x that show thesis by simp
        qed (use that f h(3) in simp)
      qed
      from verifyCode_challenges [OF ok2 x(2,3)] 3(3) x(1) show ?thesis by simp
    qed
  qed
qed

lemma verify_challenges:
  assumes ok: "challenges_ok now s"
  shows "challenges_ok now (snd (verifyForConfirmPickup cr now i drv j k body s))"
proof -
  have at': "challenges_ok now (snd (atomically (verifyInTx cr now i drv j k ch code) s))" for ch code
    using ok verifyInTx_challenges [OF ok] by (cases "verifyInTx cr now i drv j k ch code s") (auto simp: atomically_def)
  have "snd (verifyForConfirmPickup cr now i drv j k body s) = s \<or>
    (\<exists>ch code. snd (verifyForConfirmPickup cr now i drv j k body s) = snd (atomically (verifyInTx cr now i drv j k ch code) s))"
    unfolding verifyForConfirmPickup_def throw_def
    by (auto simp: and_then_same pure_def throw_def split: option.splits if_splits verify_outcome.splits)
  then show ?thesis using ok at' by (elim disjE exE) simp_all
qed

section \<open>Every call keeps the challenges\<close>

text \<open>What a step at an instant does to the challenges, as far as they were in order.\<close>

definition guards :: "instant \<Rightarrow> shop \<Rightarrow> shop \<Rightarrow> bool" where
  "guards now s s' \<longleftrightarrow> (challenges_ok now s \<longrightarrow> challenges_ok now s')"

lemma guards_same: "s_handoffs s' = s_handoffs s \<Longrightarrow> guards now s s'"
  by (simp add: guards_def challenges_ok_def)

lemma guards_trans: "guards now s t \<Longrightarrow> guards now t u \<Longrightarrow> guards now s u"
  by (simp add: guards_def)

lemma guards_atomically: "(\<And>r s'. t s = Inr (r, s') \<Longrightarrow> guards now s s') \<Longrightarrow> guards now s (snd (atomically t s))"
  by (auto simp: atomically_def guards_same split: sum.splits)

lemma guards_then:
  "guards now s (snd (m s)) \<Longrightarrow> (\<And>r s'. guards now s' (snd (k r s'))) \<Longrightarrow> guards now s (snd (and_then m k s))"
  by (cases "m s"; cases "fst (m s)") (auto simp: and_then_def intro: guards_trans)

lemma writes_same [simp]:
  "s_handoffs (update_driver i g s) = s_handoffs s" "s_handoffs (snd (lockProfile now i s)) = s_handoffs s"
  "s_handoffs (forceAvailabilityStatus i st s) = s_handoffs s" "s_handoffs (snd (setAvailabilityStatus i st st' s)) = s_handoffs s"
  "s_handoffs (goOfflineAfterDelivery i s) = s_handoffs s" "s_handoffs (snd (setVerificationStatus now i v ap s)) = s_handoffs s"
  "s_handoffs (updateDocumentFileUrl i url s) = s_handoffs s" "s_handoffs (snd (releaseIfOffered now j a s)) = s_handoffs s"
  by (simp_all add: update_driver_def lockProfile_def Let_def forceAvailabilityStatus_def setAvailabilityStatus_def
      goOfflineAfterDelivery_def setVerificationStatus_def updateDocumentFileUrl_def releaseIfOffered_def split: option.splits)

lemma locks_same:
  "lockOrder now i s = (o', s1) \<Longrightarrow> s_handoffs s1 = s_handoffs s"
  "lockOrderPayment now i s = (p, s1) \<Longrightarrow> s_handoffs s1 = s_handoffs s"
  "lockProfile now i s = (r, s1) \<Longrightarrow> s_handoffs s1 = s_handoffs s"
  "lockDelivery now i s = (d, s1) \<Longrightarrow> s_handoffs s1 = s_handoffs s"
  "lockEditable now i s = Inr (l, s1) \<Longrightarrow> s_handoffs s1 = s_handoffs s"
  "lockActive now c still st s = Inr (d', s1) \<Longrightarrow> s_handoffs s1 = s_handoffs s"
proof -
  show lp: "s_handoffs s1 = s_handoffs s" if "lockProfile now i s = (r, s1)" for r
    using that writes_same(2) [of now i s] by simp
  show ld: "s_handoffs s1 = s_handoffs s" if "lockDelivery now i s = (d, s1)" for d i
    using that rows_same(1) [of now i s] by simp
  show "s_handoffs s1 = s_handoffs s" if "lockEditable now i s = Inr (l, s1)"
    using that lp by (auto simp: lockEditable_def split: prod.splits option.splits if_splits)
  show "s_handoffs s1 = s_handoffs s" if "lockActive now c still st s = Inr (d', s1)"
    using that ld by (auto simp: lockActive_def split: prod.splits option.splits if_splits)
qed (auto simp: lockOrder_def lockOrderPayment_def touchOrderPayment_def Let_def split: option.splits)

subsection \<open>Deliveries\<close>

lemma delivery_tx_same:
  "createDeliveryInTx now i k s = Inr ((), s') \<Longrightarrow> s_handoffs s' = s_handoffs s"
  "moveInTx dir env now act c s = Inr (b, s') \<Longrightarrow> s_handoffs s' = s_handoffs s"
  "completeActiveOrder now k drv s = (b, s') \<Longrightarrow> s_handoffs s' = s_handoffs s"
  subgoal
    by (cases "lockOrder now k s"; cases "fst (lockOrder now k s)"; cases "lockOrderPayment now k (snd (lockOrder now k s))";
        cases "fst (lockOrderPayment now k (snd (lockOrder now k s)))")
      (auto simp: createDeliveryInTx_def insertDeliveryWithCreatedEvent_def ebind_Inr dest!: locks_same split: if_splits)
  subgoal by (auto simp: moveInTx_def ebind_Inr dest!: locks_same transition_same)
  subgoal by (auto simp: completeActiveOrder_def Let_def split: option.splits if_splits)
  done

lemma earning_same: "createForCompletedDelivery now n l i k drv s = Inr (r, s') \<Longrightarrow> s_handoffs s' = s_handoffs s"
proof -
  have post: "postEarning now l k x s1 = Inr (r, s') \<Longrightarrow> s_handoffs s' = s_handoffs s1" for x s1
    by (auto simp: postEarning_def ebind_Inr in_ledger_ok)
  have new: "createEarned now n i drv a s = Inr (x, s1) \<Longrightarrow> s_handoffs s1 = s_handoffs s" for a x s1
    by (auto simp: createEarned_def ebind_Inr Let_def split: if_splits)
  have "earnOnce now n l i k drv a s = Inr (r, s') \<Longrightarrow> s_handoffs s' = s_handoffs s" for a
    by (auto simp: earnOnce_def ebind_Inr dest!: post new split: sum.splits option.splits if_splits)
  moreover assume "createForCompletedDelivery now n l i k drv s = Inr (r, s')"
  ultimately show ?thesis
    by (cases "findEarningByDeliveryId i s"; cases "projr (findEarningByDeliveryId i s)")
      (auto simp: createForCompletedDelivery_def ebind_Inr dest!: post split: option.splits if_splits)
qed

lemma release_guards: "releaseAcceptedAssignment now' j s = (b, s') \<Longrightarrow> guards now s s'"
  using end_challenge(1) challenges_same [of "s\<lparr>s_assignments := _\<rparr>" s now]
  by (auto simp: releaseAcceptedAssignment_def Let_def guards_def split: option.splits if_splits)

lemma complete_guards: "completeInTx now n l c s = Inr (r, s') \<Longrightarrow> guards now s s'"
proof (erule completeInTx_steps)
  fix d s1 o' s2 p s3 s4 s5 s6 s7
  assume "lockActive now c (\<lambda>a. a_id a = aa_assignmentId c) ARRIVED_CUSTOMER s = Inr (d, s1)"
    "lockOrder now (aa_orderId c) s1 = (Some o', s2)" "lockOrderPayment now (aa_orderId c) s2 = (Some p, s3)"
    "transitionIfStatus now (aa_deliveryId c) (transitionForAction COMPLETE_DELIVERY) (aa_driverId c) s3 = (True, s4)"
  then have a: "s_handoffs s4 = s_handoffs s" by (auto dest!: locks_same transition_same)
  assume r: "releaseAcceptedAssignment now (aa_assignmentId c) s4 = (True, s5)"
  assume "completeActiveOrder now (aa_orderId c) (aa_driverId c) s5 = (True, s6)"
    "createForCompletedDelivery now n l (aa_deliveryId c) (aa_orderId c) (aa_driverId c) s6 = Inr (r, s7)"
    "s' = goOfflineAfterDelivery (aa_driverId c) s7"
  then have "s_handoffs s' = s_handoffs s5" by (auto dest!: earning_same delivery_tx_same(3))
  then show "guards now s s'"
    using guards_trans [OF guards_same [OF a] guards_trans [OF release_guards [OF r] guards_same]] by blast
qed

lemma createDelivery_guards: "guards now s (snd (createForReadyOrder dir now n k s))"
proof -
  have "guards now s (snd (atomically (createDeliveryInTx now n k) s))"
    by (rule guards_atomically, rule guards_same, rule delivery_tx_same(1)) simp
  then show ?thesis
    by (auto simp: createForReadyOrder_def dest!: sndI split: option.splits prod.splits sum.splits)
qed

lemma view_guards:
  "guards now s (snd (currentOr404 dir acc s))" "guards now s (snd (afterMove dir acc m s))" "guards now s (snd (completedView dir c s))"
  by (auto simp: currentOr404_def afterMove_def completedView_def throw_def guards_same split: option.splits)

lemma pickup_guards: "guards now s (snd (confirmPickup dir cr now acc body s))"
proof (cases "resolveActiveAssignment dir acc s")
  case (Inr c)
  have "guards now s' (snd (and_then (atomically (\<lambda>s0. ebind (lockActive now c (sameDelivery c)
      (dt_from (transitionForAction CONFIRM_PICKUP)) s0) (\<lambda>(_, s1). Inr (transitionIfStatus now (aa_deliveryId c)
      (transitionForAction CONFIRM_PICKUP) (aa_driverId c) s1)))) (afterMove dir acc) s'))" for s'
    by (rule guards_then, rule guards_atomically, rule guards_same)
      (auto simp: ebind_Inr view_guards dest!: locks_same transition_same)
  moreover have "guards now s' (snd (verifyForConfirmPickup cr now i drv j k body s'))" for i drv j k s'
    using verify_challenges by (simp add: guards_def)
  ultimately show ?thesis
    using Inr unfolding confirmPickup_def
    by (auto simp: view_guards intro!: guards_then split: verify_result.splits)
qed (simp add: confirmPickup_def guards_same)

lemma performAction_guards: "guards now s (snd (performAction dir env cr now n l acc act body s))"
proof -
  have "guards now s' (snd (and_then (atomically (moveInTx dir env now act c)) (afterMove dir acc) s'))" for c s'
    by (rule guards_then, rule guards_atomically, rule guards_same, erule delivery_tx_same(2)) (rule view_guards)
  moreover have "guards now s' (snd (completeDelivery dir now n l c s'))" for c s'
    unfolding completeDelivery_def by (rule guards_then, rule guards_atomically, erule complete_guards) (rule view_guards)
  ultimately show ?thesis
    by (auto simp: performAction_def pickup_guards guards_same split: sum.splits)
qed

lemma issue_guards:
  "guards now s (snd (getOrIssueForMerchant dir cr now n code acc m k s))"
  "guards now s (snd (regenerateForMerchant dir cr now n code acc m k s))"
proof -
  have lock: "challenges_ok now (snd (lockDelivery now i s0)) = challenges_ok now s0" for i s0
    by (rule challenges_same) simp
  note again = end_challenge(1) [OF iffD2 [OF lock]]
  have a: "guards now s (snd (atomically (issueInTx cr now n code acc c) s))" for c
    by (rule guards_atomically)
      (auto simp: guards_def issueInTx_def Let_def ebind_Inr lock split: option.splits if_splits
        intro: issue_challenge [rotated] again)
  then show "guards now s (snd (getOrIssueForMerchant dir cr now n code acc m k s))"
    by (auto simp: getOrIssueForMerchant_def guards_same split: sum.splits option.splits)
  have "guards now s (snd (atomically (\<lambda>s0. issuePending cr now n code acc c
      (invalidatePending now (hc_deliveryId c) ''REGENERATED'' (snd (lockDelivery now (hc_deliveryId c) s0)))) s))" for c
    by (rule guards_atomically) (auto simp: guards_def lock intro: issue_challenge [rotated] again)
  then show "guards now s (snd (regenerateForMerchant dir cr now n code acc m k s))"
    by (auto simp: regenerateForMerchant_def guards_same split: sum.splits)
qed

subsection \<open>Matching\<close>

lemma expireOffer_same: "s_handoffs (snd (expireOffer env now j s)) = s_handoffs s"
  by (auto simp: expireOffer_def dest!: sndI split: option.splits prod.splits)

lemma expire_due_same:
  "s_handoffs (expireOpenOfferIfDue env now i s) = s_handoffs s" "s_handoffs (expireOpenOfferForDriverIfDue env now drv s) = s_handoffs s"
  by (auto simp: expireOpenOfferIfDue_def expireOpenOfferForDriverIfDue_def expireOffer_same split: option.splits)

lemma offer_same: "offerFirst env now n i cs s = Inr (r, s') \<Longrightarrow> s_handoffs s' = s_handoffs s"
proof (induction cs arbitrary: s)
  case (Cons c cs)
  obtain pr s1 where l: "lockProfile now (cd_driverId c) s = (pr, s1)" by (cases "lockProfile now (cd_driverId c) s")
  have new: "s_handoffs s' = s_handoffs s1" if "createOffer now n i (cd_driverId c) s1 = Inr (a, s')" for a
    using that by (auto simp: createOffer_def Let_def split: if_splits)
  consider "offerFirst env now n i cs s = Inr (r, s')" | "offerFirst env now n i cs s1 = Inr (r, s')" | "s' = s1"
    | a where "createOffer now n i (cd_driverId c) s1 = Inr (a, s')"
    using Cons.prems(1) l by (fastforce split: if_splits option.splits sum.splits)
  then show ?case using Cons.IH locks_same(3) [OF l] new by cases simp_all
qed simp

lemma match_same: "matchInTx env now n i cs s = Inr (r, s') \<Longrightarrow> s_handoffs s' = s_handoffs s"
  by (cases "lockDelivery now i s"; cases "fst (lockDelivery now i s)")
    (auto simp: matchInTx_def dest!: locks_same offer_same split: option.splits if_splits)

lemma match_guards: "guards now s (snd (matchDelivery dir env now n i s))"
proof -
  have offer: "guards now s' (snd (and_then (atomically (matchInTx env now n i cs)) (\<lambda>created. pure (f created)) s'))" for cs f s'
    by (rule guards_then, rule guards_atomically, rule guards_same, erule match_same) (simp add: guards_same pure_def)
  have due: "guards now s (expireOpenOfferIfDue env now i s)" by (rule guards_same [OF expire_due_same(1)])
  show ?thesis
    by (auto simp: matchDelivery_def Let_def due split: option.splits intro!: guards_trans [OF due offer])
qed

lemma answer_same:
  "acceptInTx env now drv j s = Inr (r, s') \<Longrightarrow> s_handoffs s' = s_handoffs s"
  "rejectOfferInTx now drv j s = Inr (i, s') \<Longrightarrow> s_handoffs s' = s_handoffs s"
proof (erule acceptInTx_steps)
  fix a d s1 s3
  assume "lockDelivery now (a_deliveryId a) s = (Some d, s1)" "acceptIfOffered now j (snd (lockProfile now drv s1)) = (Some r, s3)"
    "setDeliveryAssigned now (a_deliveryId a) drv s3 = (True, s')"
  then show "s_handoffs s' = s_handoffs s"
    by (auto simp: acceptIfOffered_def setDeliveryAssigned_def Let_def dest!: locks_same split: option.splits if_splits)
next
  assume "rejectOfferInTx now drv j s = Inr (i, s')"
  then show "s_handoffs s' = s_handoffs s"
    by (auto simp: rejectOfferInTx_def ebind_Inr Let_def dest!: sndI split: if_splits prod.splits option.splits)
qed

lemma offer_guards:
  "guards now s (snd (accept dir env now acc j s))" "guards now s (snd (rejectOffer dir env now n acc j s))"
  "guards now s (snd (expireAndContinue dir env now n j s))" "guards now s (snd (getCurrentOffer dir env now acc s))"
proof -
  note due = guards_trans [OF guards_same [OF expireOffer_same]]
  have "guards now s' (snd (and_then (atomically (acceptInTx env now drv j)) (\<lambda>a s'. (toAcceptedView dir a s', s')) s'))" for drv s'
    by (rule guards_then, rule guards_atomically, rule guards_same, erule answer_same) (simp add: guards_same)
  then show "guards now s (snd (accept dir env now acc j s))"
    by (auto simp: accept_def guards_same intro: due split: sum.splits)
  have "guards now s' (snd (and_then (atomically (rejectOfferInTx now drv j)) (matchDelivery dir env now n) s'))" for drv s'
    by (rule guards_then, rule guards_atomically, rule guards_same, erule answer_same) (rule match_guards)
  then show "guards now s (snd (rejectOffer dir env now n acc j s))"
    by (auto simp: rejectOffer_def guards_same intro: due split: sum.splits)
  have "guards now s' (snd (and_then (matchDelivery dir env now n i) (\<lambda>r. pure (Inr (Some r))) s'))" for i s'
    by (rule guards_then, rule match_guards) (simp add: guards_same pure_def)
  then have "guards now s (snd (and_then (matchDelivery dir env now n i) (\<lambda>r. pure (Inr (Some r)))
      (snd (releaseIfOffered now j A_EXPIRED (snd (lockDelivery now k s))))))" for i k
    by (rule guards_trans [OF guards_same, rotated]) simp
  then show "guards now s (snd (expireAndContinue dir env now n j s))"
    by (auto simp: expireAndContinue_def guards_same dest!: sndI split: option.splits prod.splits)
  show "guards now s (snd (getCurrentOffer dir env now acc s))"
    by (auto simp: getCurrentOffer_def Let_def guards_same expire_due_same split: option.splits)
qed

section \<open>Histories\<close>

lemma run_dispatch_guards: "guards now s (run_dispatch env now c s)"
proof (cases c)
  case (StartMatching i n k)
  then show ?thesis by (simp add: startForReadyOrder_def guards_then createDelivery_guards match_guards)
qed (simp_all add: match_guards offer_guards performAction_guards issue_guards guards_same run_driver_core)

text \<open>Calls at instants that do not go back.\<close>

lemma history_challenges:
  "challenges_ok t s \<Longrightarrow> sorted (map fst cs) \<Longrightarrow> (\<And>now. now \<in> set (map fst cs) \<Longrightarrow> t \<le> now \<and> now \<le> t') \<Longrightarrow> t \<le> t' \<Longrightarrow>
   challenges_ok t' (dispatch_history env cs s)"
proof (induction cs arbitrary: t s)
  case Nil
  then show ?case by (simp add: dispatch_history_def challenges_mono)
next
  case (Cons x cs)
  obtain now c where x: "x = (now, c)" by (cases x)
  have "challenges_ok now (run_dispatch env now c s)"
    using run_dispatch_guards challenges_mono [OF Cons.prems(1), of now] Cons.prems(3) by (simp add: guards_def x)
  then have "challenges_ok t' (dispatch_history env cs (run_dispatch env now c s))"
    by (rule Cons.IH) (use Cons.prems(2,3) x in auto)
  then show ?case by (simp add: dispatch_history_def x)
qed

section \<open>A confirmed code\<close>

lemma verifyCode_verified:
  assumes v: "verifyCode cr now i drv j k code h s = (Verified, s')"
    and ok: "distinct (map h_id (s_handoffs s))" "t_find h_id (h_id h) (s_handoffs s) = Some h" "h_status h \<in> {H_PENDING, H_LOCKED}"
  shows "now < h_expiresAt h" "cr_hash cr code = h_codeHash h"
    "t_find h_id (h_id h) (s_handoffs s') =
      Some (h\<lparr>h_status := H_CONSUMED, h_consumedAt := Some now, h_consumedByDriverId := Some drv\<rparr>)"
    "\<exists>s1. s_deliveries s1 = s_deliveries s \<and> transitionIfStatus now i (transitionForAction CONFIRM_PICKUP) drv s1 = (True, s')"
proof -
  obtain s1 where c: "consumeConditional now (h_id h) i j k drv s = (True, s1)"
    and t: "transitionIfStatus now i (transitionForAction CONFIRM_PICKUP) drv s1 = (True, s')"
    and fresh: "now < h_expiresAt h" "cr_hash cr code = h_codeHash h" "h_status h = H_PENDING"
    using v ok(3) by (auto simp: verifyCode_def isPickupHandoffExpired_def pickupHandoffCodeMatches_def
        split: if_splits option.splits prod.splits)
  let ?P = "\<lambda>h'. h_deliveryId h' = i \<and> h_assignmentId h' = j \<and> h_assignmentVersion h' = k \<and> h_status h' = H_PENDING"
  let ?f = "\<lambda>h'. h'\<lparr>h_status := H_CONSUMED, h_consumedAt := Some now, h_consumedByDriverId := Some drv\<rparr>"
  have s1: "s1 = update_handoffs (\<lambda>h'. h_id h' = h_id h \<and> ?P h') ?f s"
    and st: "\<exists>r. t_find h_id (h_id h) (s_handoffs s1) = Some r \<and> h_status r = H_CONSUMED"
    using c by (auto simp: consumeConditional_def Let_def split: option.splits)
  have "?P h"
  proof (rule ccontr)
    assume "\<not> ?P h"
    then have "s_handoffs s1 = s_handoffs s"
      using find_in [OF ok(1,2)] unfolding s1 update_handoffs_def by (simp, intro t_update_none) blast
    with st ok(2) fresh(3) show False by simp
  qed
  then have "s_handoffs s1 = t_update (\<lambda>h'. h_id h' = h_id h) ?f (s_handoffs s)"
    unfolding s1 using t_update_guard [where P = ?P, OF ok(1,2)] by (simp add: update_handoffs_def)
  then have "t_find h_id (h_id h) (s_handoffs s1) = Some (?f h)"
    using ok(2) by (simp add: t_find_update)
  then show "t_find h_id (h_id h) (s_handoffs s') = Some (?f h)" by (simp add: transition_same [OF t])
  show "\<exists>s1. s_deliveries s1 = s_deliveries s \<and> transitionIfStatus now i (transitionForAction CONFIRM_PICKUP) drv s1 = (True, s')"
    using t by (intro exI [of _ s1]) (simp add: s1 update_handoffs_def)
  show "now < h_expiresAt h" "cr_hash cr code = h_codeHash h" by (fact fresh)+
qed

text \<open>The challenge a confirmation consumes.\<close>

definition proved_by :: "crypto \<Rightarrow> instant \<Rightarrow> string \<Rightarrow> string \<Rightarrow> string \<Rightarrow> int \<Rightarrow> string \<Rightarrow> shop \<Rightarrow> shop \<Rightarrow> handoff_row \<Rightarrow> bool" where
  "proved_by cr now i drv j k code s s' h \<longleftrightarrow>
     h_deliveryId h = i \<and> h_assignmentId h = j \<and> h_assignmentVersion h = k \<and> h_status h \<in> {H_PENDING, H_LOCKED} \<and>
     (h_status h = H_LOCKED \<longrightarrow> (\<exists>u. h_lockedUntil h = Some u \<and> u \<le> now)) \<and>
     now < h_expiresAt h \<and> cr_hash cr code = h_codeHash h \<and>
     (\<exists>h'. t_find h_id (h_id h) (s_handoffs s') = Some h' \<and> h_status h' = H_CONSUMED \<and>
        h_consumedAt h' = Some now \<and> h_consumedByDriverId h' = Some drv)"

definition picked_up :: "instant \<Rightarrow> string \<Rightarrow> shop \<Rightarrow> shop \<Rightarrow> bool" where
  "picked_up now i s s' \<longleftrightarrow> (\<exists>d d'. t_find d_id i (s_deliveries s) = Some d \<and> d_status d = AT_PICKUP \<and>
     t_find d_id i (s_deliveries s') = Some d' \<and> d_status d' = PICKED_UP \<and> d_pickedUpAt d' = Some now)"

lemma transition_picked_up:
  assumes t: "transitionIfStatus now i (transitionForAction CONFIRM_PICKUP) drv s = (True, s')" and dd: "distinct (map d_id (s_deliveries s))"
  shows "picked_up now i s s'"
proof -
  from transition_core [OF t dd] obtain d where d: "t_find d_id i (s_deliveries (core s)) = Some d" "d_status d = AT_PICKUP"
    and c: "core s' = (core s)\<lparr>s_deliveries := t_update (\<lambda>d. d_id d = i) (walk CONFIRM_PICKUP now) (s_deliveries (core s)),
      s_deliveryEvents := s_deliveryEvents (core s)
        @ [delivery_event_row i (dt_eventType (transitionForAction CONFIRM_PICKUP)) (Some drv) now]\<rparr>" by auto
  have w: "d_id (walk CONFIRM_PICKUP now x) = d_id x" for x by (simp add: walk_def stamp_field_def)
  have "t_find d_id i (s_deliveries (core s')) = Some (walk CONFIRM_PICKUP now d)"
    unfolding c using d(1) t_find_Some [OF d(1)] by (simp add: t_find_update w)
  then obtain d' where "t_find d_id i (s_deliveries s') = Some d'" "delivery_view d' = walk CONFIRM_PICKUP now d"
    by (auto simp: find_map_view)
  moreover have "d_status d' = PICKED_UP" "d_pickedUpAt d' = Some now" if "delivery_view d' = walk CONFIRM_PICKUP now d" for d'
    using arg_cong [OF that, of d_status] arg_cong [OF that, of d_pickedUpAt]
    by (simp_all add: walk_def stamp_field_def delivery_view_def)
  moreover obtain d0 where "t_find d_id i (s_deliveries s) = Some d0" "d_status d0 = AT_PICKUP"
    using d by (auto simp: find_map_view)
  ultimately show ?thesis by (auto simp: picked_up_def)
qed

lemma lock_deliveries: "s_deliveries s1 = s_deliveries (snd (lockDelivery now i s)) \<Longrightarrow> map d_id (s_deliveries s1) = map d_id (s_deliveries s)"
  by (simp add: lockDelivery_def Let_def t_update_keys)

lemma picked_up_lock:
  assumes "s_deliveries s1 = s_deliveries (snd (lockDelivery now i s))" "picked_up now i s1 s'"
  shows "picked_up now i s s'"
  using assms by (cases "t_find d_id i (s_deliveries s)")
    (auto simp: picked_up_def lockDelivery_def Let_def t_find_update dest!: t_find_Some)

lemma unlock_found:
  assumes u: "unlockIfDue now j s = Inr (u, s1)" and h: "t_find h_id j (s_handoffs s) = Some h" "h_status h = H_LOCKED"
  shows "(u = Some h \<and> s1 = s) \<or> (\<exists>w. h_lockedUntil h = Some w \<and> w \<le> now \<and>
     u = Some (h\<lparr>h_status := H_PENDING, h_lockedUntil := None\<rparr>) \<and>
     s1 = update_handoffs (\<lambda>x. h_id x = j) (\<lambda>x. x\<lparr>h_status := H_PENDING, h_lockedUntil := None\<rparr>) s)"
proof (cases "\<exists>w. h_lockedUntil h = Some w \<and> w \<le> now")
  case True
  then obtain w where w: "h_lockedUntil h = Some w" "w \<le> now" by blast
  have "h_id h = j" using h(1) t_find_Some by fastforce
  with u h w show ?thesis
    by (auto simp: unlockIfDue_def update_handoffs_def t_find_update split: if_splits)
next
  case False
  with u h show ?thesis by (auto simp: unlockIfDue_def split: option.splits)
qed

lemma unlocked_row:
  assumes u: "(if h_status h = H_LOCKED then unlockIfDue now (h_id h) s else Inr (Some h, s)) = Inr (u, s1)"
    and fh: "t_find h_id (h_id h) (s_handoffs s) = Some h" and st: "h_status h \<in> {H_PENDING, H_LOCKED}"
    and nl: "h_status (case u of None \<Rightarrow> h | Some x \<Rightarrow> x) \<noteq> H_LOCKED"
  obtains x where "u = Some x" "t_find h_id (h_id h) (s_handoffs s1) = Some x" "h_id x = h_id h"
    "h_status x = H_PENDING" "h_expiresAt x = h_expiresAt h" "h_codeHash x = h_codeHash h"
    "h_status h = H_LOCKED \<longrightarrow> (\<exists>u. h_lockedUntil h = Some u \<and> u \<le> now)"
    "map h_id (s_handoffs s1) = map h_id (s_handoffs s)" "s_deliveries s1 = s_deliveries s"
proof (cases "h_status h = H_LOCKED")
  case True
  with u have "unlockIfDue now (h_id h) s = Inr (u, s1)" by simp
  from unlock_found [OF this fh True] nl True
  obtain w where w: "h_lockedUntil h = Some w" "w \<le> now" "u = Some (h\<lparr>h_status := H_PENDING, h_lockedUntil := None\<rparr>)"
    "s1 = update_handoffs (\<lambda>x. h_id x = h_id h) (\<lambda>x. x\<lparr>h_status := H_PENDING, h_lockedUntil := None\<rparr>) s" by auto
  show thesis
    by (rule that [OF w(3)]) (use w fh in \<open>simp_all add: update_handoffs_def t_find_update t_update_keys\<close>)
next
  case False
  with u have "u = Some h" "s1 = s" by auto
  with that [of h] False st fh show thesis by simp
qed

lemma verified_steps:
  assumes v: "verifyInTx cr now i drv j k ch code s = Inr (Verified, s')"
  obtains h u s1 where "findVerifiable i (snd (lockDelivery now i s)) = Some h" "h_assignmentId h = j" "h_assignmentVersion h = k"
    "(if h_status h = H_LOCKED then unlockIfDue now (h_id h) (snd (lockDelivery now i s)) else Inr (Some h, snd (lockDelivery now i s))) = Inr (u, s1)"
    "verifyCode cr now i drv j k code (case u of None \<Rightarrow> h | Some x \<Rightarrow> x) s1 = (Verified, s')"
proof (cases "findVerifiable i (snd (lockDelivery now i s))")
  case None
  with v show thesis by (simp add: verifyInTx_def Let_def)
next
  case (Some h)
  note run = v [unfolded verifyInTx_def Let_def Some option.case]
  have ch: "h_id h = ch \<and> h_assignmentId h = j \<and> h_assignmentVersion h = k" using run by (auto split: if_splits)
  obtain u s1 where u: "(if h_status h = H_LOCKED then unlockIfDue now (h_id h) (snd (lockDelivery now i s)) else Inr (Some h, (snd (lockDelivery now i s)))) = Inr (u, s1)"
    "verifyCode cr now i drv j k code (case u of None \<Rightarrow> h | Some x \<Rightarrow> x) s1 = (Verified, s')"
    using run ch by (auto simp: ebind_Inr)
  show thesis by (rule that [OF Some _ _ u]) (use ch in simp_all)
qed

lemma verified_unlocked:
  assumes "verifyCode cr now i drv j k code x s1 = (Verified, s')"
  shows "h_status x \<noteq> H_LOCKED"
  using assms by (auto simp: verifyCode_def split: if_splits)

lemma verified_code:
  assumes v: "verifyInTx cr now i drv j k ch code s = Inr (Verified, s')" and ids: "distinct (map h_id (s_handoffs s))"
    and dd: "distinct (map d_id (s_deliveries s))"
  shows "\<exists>h \<in> set (s_handoffs s). proved_by cr now i drv j k code s s' h" "picked_up now i s s'"
proof -
  let ?s = "snd (lockDelivery now i s)"
  obtain h u s1 where f: "findVerifiable i ?s = Some h" and ch: "h_assignmentId h = j" "h_assignmentVersion h = k"
    and u: "(if h_status h = H_LOCKED then unlockIfDue now (h_id h) ?s else Inr (Some h, ?s)) = Inr (u, s1)"
    and vc: "verifyCode cr now i drv j k code (case u of None \<Rightarrow> h | Some x \<Rightarrow> x) s1 = (Verified, s')"
    by (rule verified_steps [OF v])
  note h = verifiable_in [OF f]
  have hs: "h \<in> set (s_handoffs s)" using h(1) by simp
  have fh: "t_find h_id (h_id h) (s_handoffs ?s) = Some h" using t_find_distinct [OF ids hs] by simp
  note nl = verified_unlocked [OF vc]
  obtain x where x: "u = Some x" "t_find h_id (h_id h) (s_handoffs s1) = Some x" "h_id x = h_id h"
    "h_status x = H_PENDING" "h_expiresAt x = h_expiresAt h" "h_codeHash x = h_codeHash h"
    and lk: "h_status h = H_LOCKED \<longrightarrow> (\<exists>u. h_lockedUntil h = Some u \<and> u \<le> now)"
    and ids1: "map h_id (s_handoffs s1) = map h_id (s_handoffs ?s)" and ds: "s_deliveries s1 = s_deliveries ?s"
    by (rule unlocked_row [OF u fh h(3) nl])
  have d1: "distinct (map h_id (s_handoffs s1))" using ids1 ids by simp
  have px: "t_find h_id (h_id x) (s_handoffs s1) = Some x" "h_status x \<in> {H_PENDING, H_LOCKED}" using x by simp_all
  have vx: "verifyCode cr now i drv j k code x s1 = (Verified, s')" using vc x(1) by simp
  note vv = verifyCode_verified [OF vx d1 px]
  have "proved_by cr now i drv j k code s s' h"
    unfolding proved_by_def using h(2,3) ch lk vv(1-3) x(3,5,6) by simp
  with hs show "\<exists>h \<in> set (s_handoffs s). proved_by cr now i drv j k code s s' h" by blast
  obtain s2 where s2: "s_deliveries s2 = s_deliveries s1"
    "transitionIfStatus now i (transitionForAction CONFIRM_PICKUP) drv s2 = (True, s')" using vv(4) by blast
  have d2: "s_deliveries s2 = s_deliveries ?s" using s2(1) ds by (rule trans)
  have "distinct (map d_id (s_deliveries s2))" unfolding lock_deliveries [OF d2] by (rule dd)
  from picked_up_lock [OF d2 transition_picked_up [OF s2(2) this]] show "picked_up now i s s'" .
qed

section \<open>Properties\<close>

text \<open>
  C36. A challenge can be guessed wrong at most six times: at instants that do not go back, five
  wrong codes lock it for a quarter of an hour, and after the second lock it has expired, thirty
  minutes after it was issued.
\<close>

theorem six_guesses:
  assumes "challenges_ok t s" and "sorted (t # map fst cs)" and "h \<in> set (s_handoffs (dispatch_history env cs s))"
  shows "0 \<le> h_attemptCount h \<and> h_attemptCount h \<le> 6 \<and> (h_status h = H_LOCKED \<longrightarrow> 5 \<le> h_attemptCount h) \<and>
    h_expiresAt h = h_createdAt h + PICKUP_HANDOFF_TTL_MS \<and> h_createdAt h \<le> last (t # map fst cs)"
proof -
  have le: "x \<le> last xs" if "sorted xs" "x \<in> set xs" for x and xs :: "instant list"
    using that by (induction xs) auto
  have "challenges_ok (last (t # map fst cs)) (dispatch_history env cs s)"
    by (rule history_challenges [OF assms(1)]) (use assms(2) le [OF assms(2)] in auto)
  with assms(3) show ?thesis by (auto simp: challenges_ok_def challenge_ok_def)
qed

text \<open>
  C37. A pickup confirmed with a code is proved by it: the code hashes to that of a challenge of this
  delivery and assignment that is neither expired nor locked, the challenge is consumed by the
  driver, and the delivery goes from \<open>AT_PICKUP\<close> to \<open>PICKED_UP\<close> at this instant.
\<close>

theorem confirmed_by_code:
  assumes "verifyForConfirmPickup cr now i drv j k body s = (Inr VerifiedResult, s')" and "distinct (map h_id (s_handoffs s))"
    and "distinct (map d_id (s_deliveries s))"
  shows "(\<exists>b code. body = Some b \<and> cb_pickupCode b = Some code \<and> cb_assignmentId b = Some j \<and>
      (\<exists>h \<in> set (s_handoffs s). proved_by cr now i drv j k code s s' h)) \<and> picked_up now i s s'"
proof -
  obtain b code ch where b: "body = Some b" "cb_pickupCode b = Some code" "cb_assignmentId b = Some j"
    and v: "atomically (verifyInTx cr now i drv j k ch code) s = (Inr Verified, s')"
    using assms(1)
    by (auto simp: verifyForConfirmPickup_def throw_def and_then_def pure_def present_def split: option.splits if_splits prod.splits
        sum.splits verify_outcome.splits)
  from v have "verifyInTx cr now i drv j k ch code s = Inr (Verified, s')" by (auto simp: atomically_def split: sum.splits)
  from verified_code [OF this assms(2,3)] b show ?thesis by blast
qed

definition pickup_body :: "string \<Rightarrow> confirm_body option" where
  "pickup_body code = Some \<lparr>cb_pickupCode = Some code, cb_assignmentId = Some ''asg-1'', cb_assignmentVersion = Some 1\<rparr>"

text \<open>The courier waits at the pickup, the merchant has asked for a code, and the driver guesses.\<close>

definition waiting_calls :: "(instant \<times> dispatch_call) list" where
  "waiting_calls = take 5 courier_calls"

definition guess :: "instant \<Rightarrow> instant \<times> dispatch_call" where
  "guess now = (now, DriverAction [] [] ''drv-acc'' CONFIRM_PICKUP (pickup_body ''0000''))"

definition code_digest :: "shop \<Rightarrow> (handoff_status \<times> int) list \<times> delivery_status list" where
  "code_digest s = (map (\<lambda>h. (h_status h, h_attemptCount h)) (s_handoffs s), map d_status (s_deliveries s))"

definition guesses :: "(instant \<times> dispatch_call) list" where
  "guesses = map guess [6, 7, 8, 9, 10, 900010]"

definition waiting_shop :: shop where
  "waiting_shop = dispatch_history courier_env waiting_calls ready_shop"

definition no_code :: "instant \<Rightarrow> instant \<times> dispatch_call" where
  "no_code now = (now, DriverAction [] [] ''drv-acc'' CONFIRM_PICKUP None)"

definition with_code :: "shop \<Rightarrow> (app_error + verify_result) \<times> shop" where
  "with_code s = verifyForConfirmPickup (de_crypto courier_env) 6 ''dlv-1'' ''drv'' ''asg-1'' 1 (pickup_body ''1234'') s"

text \<open>
  What the calls come to from there: six wrong guesses, the right code, and no code before and
  after the challenge is over time.
\<close>

definition outcomes where
  "outcomes s = (code_digest (dispatch_history courier_env guesses s), fst (with_code s),
     distinct (map h_id (s_handoffs s)) \<and> distinct (map d_id (s_deliveries s)),
     code_digest (dispatch_history courier_env [no_code 6] s),
     code_digest (dispatch_history courier_env [guess 1800005, no_code 1800006] s))"

lemma code_runs:
  "outcomes waiting_shop = (([(H_LOCKED, 6)], [AT_PICKUP]), Inr VerifiedResult, True, ([(H_PENDING, 0)], [AT_PICKUP]),
     ([(H_EXPIRED, 0)], [PICKED_UP]))"
  by code_simp

lemma ready_challenges: "challenges_ok 0 ready_shop"
  by (simp add: challenges_ok_def ready_shop_def example_shop_def)

theorem six_guesses_witness:
  "\<exists>h \<in> set (s_handoffs (dispatch_history courier_env (waiting_calls @ guesses) ready_shop)). h_attemptCount h = 6 \<and>
     h_expiresAt h = h_createdAt h + PICKUP_HANDOFF_TTL_MS"
proof -
  have "code_digest (dispatch_history courier_env (waiting_calls @ guesses) ready_shop) = ([(H_LOCKED, 6)], [AT_PICKUP])"
    using code_runs by (simp add: outcomes_def waiting_shop_def history_append)
  then obtain h where h: "h \<in> set (s_handoffs (dispatch_history courier_env (waiting_calls @ guesses) ready_shop))" "h_attemptCount h = 6"
    by (auto simp: code_digest_def map_eq_Cons_conv)
  have "sorted (0 # map fst (waiting_calls @ guesses))" by code_simp
  from six_guesses [OF ready_challenges this h(1)] h show ?thesis by blast
qed

theorem confirmed_by_code_witness:
  "picked_up 6 ''dlv-1'' waiting_shop (snd (with_code waiting_shop))"
proof -
  have "verifyForConfirmPickup (de_crypto courier_env) 6 ''dlv-1'' ''drv'' ''asg-1'' 1 (pickup_body ''1234'') waiting_shop =
     (Inr VerifiedResult, snd (with_code waiting_shop))"
    using code_runs by (auto simp: outcomes_def prod_eq_iff) (simp_all add: with_code_def)
  from confirmed_by_code [OF this] code_runs show ?thesis by (simp add: outcomes_def)
qed


end
