(* ===== verification/Fleet_Laws.thy ===== *)
theory Fleet_Laws
  imports Fleet_Books Refund_Books
begin

text \<open>
  What the drivers module guarantees over any history of its calls, with a driver who signs up, is
  approved and goes online as the example.
\<close>

definition fleet_history :: "(string \<Rightarrow> app_error + string) \<Rightarrow> (instant \<times> driver_call) list \<Rightarrow> shop \<Rightarrow> shop" where
  "fleet_history promote cs s = fold (\<lambda>(now, c). run_driver promote now c) cs s"

lemma fleet_calls:
  "run_calls (\<lambda>(now, c) s. Inr (run_driver promote now c s) :: app_error + shop) cs s = Inr (fleet_history promote cs s)"
  by (induction cs arbitrary: s) (auto simp: fleet_history_def)

lemma fleet_history_inv: "fleet_inv s \<Longrightarrow> fleet_inv (fleet_history promote cs s)"
  by (rule fleet.calls_inv [OF fleet_calls])

text \<open>A driver who waits for the review, with what the onboarding asks for; another one signs up.\<close>

lemma list_all2_right: "list_all2 P xs ys \<Longrightarrow> y \<in> set ys \<Longrightarrow> \<exists>x \<in> set xs. P x y"
  by (induction rule: list_all2_induct) auto

definition new_fleet :: shop where
  "new_fleet = example_shop\<lparr>
     s_drivers := [\<lparr>dr_id = ''drv-2'', dr_accountId = ''acc-2'', dr_fullName = ''Ali'',
       dr_verificationStatus = V_PENDING_REVIEW, dr_approvedAt = None, dr_updatedAt = 0\<rparr>],
     s_availability := [\<lparr>av_driverId = ''drv-2'', av_status = AV_OFFLINE, av_offlineAfterCurrentDelivery = False\<rparr>],
     s_documents := [\<lparr>doc_id = ''doc-1'', doc_driverId = ''drv-2'', doc_type = ''IDENTITY'', doc_fileUrl = ''a'',
         doc_status = ''PENDING'', doc_expiryDate = None\<rparr>,
       \<lparr>doc_id = ''doc-2'', doc_driverId = ''drv-2'', doc_type = ''DRIVING_LICENSE'', doc_fileUrl = ''b'',
         doc_status = ''PENDING'', doc_expiryDate = Some ''2030-01-01''\<rparr>],
     s_vehicles := [\<lparr>vh_id = ''veh-1'', vh_driverId = ''drv-2'', vh_type = ''MOTORCYCLE'', vh_plateNumber = ''123'',
       vh_model = ''M'', vh_color = None, vh_status = VEHICLE_ACTIVE, vh_createdAt = 0\<rparr>]\<rparr>"

lemma new_fleet_inv: "fleet_inv new_fleet"
  by (simp add: fleet_inv_def roster_ok_def standing_ok_def vehicles_ok_def active_vehicles_def documents_ok_def
      isDriverDocumentType_def new_fleet_def example_shop_def)

definition signup_calls :: "(instant \<times> driver_call) list" where
  "signup_calls = [(1, CreateProfile ''drv-3'' ''acc-3'' ''Omar''), (6, ApproveDriver ''drv-2''), (7, GoOnline ''acc-2'')]"

definition fleet_digest where
  "fleet_digest s = (map (\<lambda>d. (dr_id d, dr_fullName d, dr_verificationStatus d)) (s_drivers s), map av_status (s_availability s))"

lemma signup_run:
  "fleet_digest (fleet_history Inr signup_calls new_fleet) =
     ([(''drv-2'', ''Ali'', V_APPROVED), (''drv-3'', ''Omar'', V_UNVERIFIED)], [AV_ONLINE, AV_OFFLINE])"
  by code_simp

text \<open>
  C38. The fleet is well typed after every history of driver calls: every driver has one
  availability, which agrees with the verification, one active vehicle at most, with a plate of its
  own, and one document of a type; and who is online is approved.
\<close>

theorem fleet_well_typed:
  assumes "fleet_inv s"
  shows "fleet_inv (fleet_history promote cs s) \<and>
    (\<forall>a \<in> set (s_availability (fleet_history promote cs s)). av_status a = AV_ONLINE \<longrightarrow>
       (\<exists>d \<in> set (s_drivers (fleet_history promote cs s)). dr_id d = av_driverId a \<and> dr_verificationStatus d = V_APPROVED))"
proof -
  let ?s = "fleet_history promote cs s"
  have inv: "fleet_inv ?s" by (rule fleet_history_inv [OF assms])
  then have pairs: "list_all2 standing_ok (s_drivers ?s) (s_availability ?s)" by (simp add: fleet_inv_def roster_ok_def)
  have "dr_id d = av_driverId a \<and> dr_verificationStatus d = V_APPROVED" if "standing_ok d a" "av_status a = AV_ONLINE" for d a
    using that by (simp add: standing_ok_def)
  with list_all2_right [OF pairs] have "\<exists>d \<in> set (s_drivers ?s). dr_id d = av_driverId a \<and> dr_verificationStatus d = V_APPROVED"
    if "a \<in> set (s_availability ?s)" "av_status a = AV_ONLINE" for a
    using that by metis
  with inv show ?thesis by blast
qed

theorem fleet_well_typed_witness:
  "fleet_inv (fleet_history Inr signup_calls new_fleet) \<and>
   map av_status (s_availability (fleet_history Inr signup_calls new_fleet)) = [AV_ONLINE, AV_OFFLINE]"
  using fleet_well_typed [OF new_fleet_inv, of Inr signup_calls] signup_run by (simp add: fleet_digest_def)



end
