(* ===== verification/Spec2Isabelle.thy ===== *)
theory Spec2Isabelle
  imports Money Cart_Policy Commission Promotion Order_Policy Ledger Payment_Books Settlement_Laws Handoff_Laws Fleet_Laws
begin

text \<open>
  SpeedyGo backend: the order, money and delivery core.

  The program is a NestJS monolith (src/src/modules). Each module has a domain policy (pure
  functions and error codes), an application service (one method per call, each in one or several
  database transactions) and a repository (conditional SQL updates). The theories follow that
  layout, and keep the names of the code.

  State. The record \<open>shop\<close> (theory Shop) holds the tables the modules share: orders with their
  events, snapshots, revisions and cancellations, payments and their provider transactions,
  refunds, cash collections, remittances and allocations, settlements and their lines, deliveries,
  assignments, events, earnings, drivers, documents, vehicles, availability, pickup handoffs and the
  financial ledger. A row is a record with the columns the code reads or writes, a table is a list in
  insertion order. A transaction is a function \<open>shop \<Rightarrow> app_error + (result \<times> shop)\<close>: \<open>Inl\<close> is an
  exception, and the rollback is that no new shop exists. A call that commits several transactions
  is an \<open>effect\<close>, which returns the shop also when it throws (theory Payment). Row locks, advisory
  locks and optimistic versions are the transactions themselves: one runs at a time, and a history
  is a list of calls. \<open>SELECT FOR UPDATE\<close> by a touched column is a function that writes the stamp.
  Each call takes the instant at which it runs and the identifiers the database would generate.

  Theories, in dependency order.
    SG_Prelude: checked arithmetic, table lookups and updates, the refinement locales, automation.
    SG_Text: JavaScript strings and regular expressions, decimal and date parsing, UTC instants.
    Money: src/src/common/money. Catalog, Cart_Policy, Pricing: the policies of catalog, cart,
      delivery-pricing and checkout. Commission, Promotion: the two modules with their tables.
    Order_Policy: pricing of order lines and the financial snapshot. Ledger: the append-only ledger.
    Refund_Policy, Settlement_Policy, Payment_Policy, Delivery_Policy, Driver_Policy: the pure policies.
    Refund, Refund_Books: refund.service and paid-terminal-refund.service, and their abstract machine.
    Order_Flow, Order_Books: merchant-order.service and the cancellation of order.service.
    Cod, Cod_Fifo, Cod_Books, Cod_Laws: cod-foundation.service, its reference allocation and custody.
    Payment, Payment_Books: payment.service with the payment provider as a parameter.
    Settlement, Settlement_Books, Settlement_Laws: merchant-settlement.service.
    Handoff: pickup-handoff.service. Drivers: driver.service and driver-review.service.
    Driver_Delivery: delivery.service, driver-delivery.service, completion and remuneration.
    Matching: matching.service. Delivery_Books: the abstract machine of deliveries. Fleet_Books,
    Fleet_Laws: what the driver module keeps. Delivery_Flow: the calls of the delivery, matching,
    handoff and driver services are steps of the machine. Delivery_Laws, Handoff_Laws: the
    properties of deliveries and of the pickup code, with a delivery from search to payment.

  What the lemmas show. Every service with state has an abstract machine (an \<open>inductive\<close> step
  relation on the tables), an invariant, and an interpretation of the locale \<open>refined_service\<close> of
  SG_Prelude: each successful call is a path of the machine, hence every history keeps the
  invariant. The properties rest on those interpretations. Bookkeeping states \<open>balanced\<close>: the
  ledger holds exactly one entry per financial fact of the tables.

  Bounds and fuel. Loops of the code are structural recursions or have a measure; the retry loop of
  the payment initiation runs on fuel, and the number of transaction rows of the payment is shown to
  be enough. Amounts are JavaScript numbers (integers up to \<open>MAX_SAFE_INTEGER\<close>, else the \<open>NaN\<close>
  or rounded values the code sees), money columns are 64-bit, and the checks of the code against these
  bounds are part of the definitions. A request reads the clock once; a history may give any instants,
  where it matters the properties ask that they do not go back.

  Not modelled: the HTTP controllers and DTO validation, notifications and realtime messages, the
  queues, object storage, geocoding, and the modules without money or order state listed in the manifest.
\<close>

end
